(* ===== verification/Prelude.thy ===== *)
theory Prelude
  imports Complex_Main "HOL-Library.Word" "HOL-Library.Char_ord" "HOL-Library.List_Lexorder" "HOL-Library.Sublist"
begin

text \<open>
  Shared vocabulary of the development: the string operations of the Rust standard
  library the program uses, decimal printing and parsing, sorted association lists (the
  maps of \<open>serde_json\<close> and \<open>BTreeMap\<close>), and the combinators of fallible,
  state-changing code. A Rust \<open>String\<close> is its list of UTF-8 bytes, so the byte order of
  \<open>char\<close> and the lexicographic order of lists are the orders of Rust's \<open>char\<close> bytes and
  strings.
\<close>

named_theorems sem_simps \<open>execution rules of the fallible state-passing combinators\<close>
named_theorems frame_rules \<open>what a state-passing program leaves as it was\<close>
named_theorems inv_rules \<open>the invariants a state-passing program preserves\<close>

section \<open>Strings\<close>

text \<open>
  \<open>str::trim\<close> removes leading and trailing characters with the Unicode property
  White\_Space. Each is listed by its UTF-8 bytes: six ASCII characters and the two- and
  three-byte encodings of U+0085, U+00A0, U+1680, U+2000 to U+200A, U+2028, U+2029, U+202F,
  U+205F and U+3000.
\<close>

definition whitespace :: "string list" where
  "whitespace =
     [[CHR 0x09], [CHR 0x0A], [CHR 0x0B], [CHR 0x0C], [CHR 0x0D], [CHR 0x20],
      [CHR 0xC2, CHR 0x85], [CHR 0xC2, CHR 0xA0], [CHR 0xE1, CHR 0x9A, CHR 0x80],
      [CHR 0xE2, CHR 0x80, CHR 0x80], [CHR 0xE2, CHR 0x80, CHR 0x81],
      [CHR 0xE2, CHR 0x80, CHR 0x82], [CHR 0xE2, CHR 0x80, CHR 0x83],
      [CHR 0xE2, CHR 0x80, CHR 0x84], [CHR 0xE2, CHR 0x80, CHR 0x85],
      [CHR 0xE2, CHR 0x80, CHR 0x86], [CHR 0xE2, CHR 0x80, CHR 0x87],
      [CHR 0xE2, CHR 0x80, CHR 0x88], [CHR 0xE2, CHR 0x80, CHR 0x89],
      [CHR 0xE2, CHR 0x80, CHR 0x8A], [CHR 0xE2, CHR 0x80, CHR 0xA8],
      [CHR 0xE2, CHR 0x80, CHR 0xA9], [CHR 0xE2, CHR 0x80, CHR 0xAF],
      [CHR 0xE2, CHR 0x81, CHR 0x9F], [CHR 0xE3, CHR 0x80, CHR 0x80]]"

function trim_with :: "string list \<Rightarrow> string \<Rightarrow> string" where
  "trim_with ws s =
     (case List.find (\<lambda>p. p \<noteq> [] \<and> prefix p s) ws of
        None \<Rightarrow> s
      | Some p \<Rightarrow> trim_with ws (drop (length p) s))"
  by pat_completeness auto
termination
proof (relation "measure (\<lambda>(ws, s). length s)")
  fix ws s p
  assume "List.find (\<lambda>p. p \<noteq> [] \<and> prefix p s) ws = Some p"
  then have "p \<noteq> []" and "prefix p s"
    unfolding find_Some_iff by auto
  then have "0 < length p" and "length p \<le> length s"
    by (simp_all add: prefix_length_le)
  then have "length s - length p < length s" by arith
  then show "((ws, drop (length p) s), (ws, s)) \<in> measure (\<lambda>(ws, s). length s)"
    by simp
qed simp

declare trim_with.simps [simp del]

definition trim_start :: "string \<Rightarrow> string" where
  "trim_start s = trim_with whitespace s"

definition trim_end :: "string \<Rightarrow> string" where
  "trim_end s = rev (trim_with (map rev whitespace) (rev s))"

definition trim :: "string \<Rightarrow> string" where
  "trim s = trim_end (trim_start s)"

lemma trim_with_suffix: "suffix (trim_with ws s) s"
proof (induction ws s rule: trim_with.induct)
  case (1 ws s)
  show ?case
    by (subst trim_with.simps)
       (use 1 in \<open>auto split: option.split intro: suffix_order.trans suffix_drop\<close>)
qed

lemma trim_with_stop: "List.find (\<lambda>p. p \<noteq> [] \<and> prefix p (trim_with ws s)) ws = None"
proof (induction ws s rule: trim_with.induct)
  case (1 ws s)
  show ?case
    by (cases "List.find (\<lambda>p. p \<noteq> [] \<and> prefix p s) ws")
       (use 1 in \<open>auto simp: trim_with.simps[of ws s]\<close>)
qed

lemma trim_with_idem: "trim_with ws (trim_with ws s) = trim_with ws s"
  by (subst trim_with.simps) (simp add: trim_with_stop)

lemma trim_with_id: "List.find (\<lambda>p. p \<noteq> [] \<and> prefix p s) ws = None \<Longrightarrow> trim_with ws s = s"
  by (subst trim_with.simps) simp

lemma trim_end_prefix: "prefix (trim_end s) s"
  using trim_with_suffix[of "map rev whitespace" "rev s"]
  by (simp add: trim_end_def suffix_to_prefix)

lemma trim_start_of_trim: "trim_start (trim s) = trim s"
  unfolding trim_start_def
proof (rule trim_with_id)
  have "List.find (\<lambda>p. p \<noteq> [] \<and> prefix p (trim_start s)) whitespace = None"
    unfolding trim_start_def by (rule trim_with_stop)
  then show "List.find (\<lambda>p. p \<noteq> [] \<and> prefix p (trim s)) whitespace = None"
    unfolding find_None_iff trim_def using trim_end_prefix prefix_order.trans by blast
qed

lemma trim_idem [simp]: "trim (trim s) = trim s"
  unfolding trim_def[of "trim s"] trim_start_of_trim
  by (simp add: trim_def trim_end_def trim_with_idem)

lemma trim_set: "set (trim s) \<subseteq> set s"
  using trim_end_prefix[of "trim_start s"] trim_with_suffix[of whitespace s]
  by (metis set_mono_prefix set_mono_suffix subset_trans trim_def trim_start_def)

text \<open>ASCII case: \<open>to_ascii_lowercase\<close>, \<open>to_ascii_uppercase\<close>, \<open>eq_ignore_ascii_case\<close>.\<close>

definition ascii_lower :: "char \<Rightarrow> char" where
  "ascii_lower c = (let n = of_char c :: nat in if 65 \<le> n \<and> n \<le> 90 then char_of (n + 32) else c)"

definition ascii_upper :: "char \<Rightarrow> char" where
  "ascii_upper c = (let n = of_char c :: nat in if 97 \<le> n \<and> n \<le> 122 then char_of (n - 32) else c)"

definition to_ascii_lowercase :: "string \<Rightarrow> string" where
  "to_ascii_lowercase s = map ascii_lower s"

definition to_ascii_uppercase :: "string \<Rightarrow> string" where
  "to_ascii_uppercase s = map ascii_upper s"

definition eq_ignore_ascii_case :: "string \<Rightarrow> string \<Rightarrow> bool" where
  "eq_ignore_ascii_case a b \<longleftrightarrow> to_ascii_lowercase a = to_ascii_lowercase b"

lemma eq_ignore_ascii_case_refl [simp]: "eq_ignore_ascii_case s s"
  by (simp add: eq_ignore_ascii_case_def)

lemma of_char_less_256: "(of_char c :: nat) < 256"
  by (metis of_char_of mod_less_divisor of_char_mod_256 zero_less_numeral)

lemma ascii_lower_upper: "ascii_lower (ascii_upper c) = ascii_lower c"
  unfolding ascii_lower_def ascii_upper_def Let_def by auto

lemma ascii_upper_lower: "ascii_upper (ascii_lower c) = ascii_upper c"
  unfolding ascii_lower_def ascii_upper_def Let_def by auto

lemma eq_ignore_ascii_case_upper:
  "eq_ignore_ascii_case a b \<longleftrightarrow> to_ascii_uppercase a = to_ascii_uppercase b"
proof -
  have lu: "map ascii_lower (map ascii_upper s) = map ascii_lower s" for s
    by (simp add: ascii_lower_upper)
  have ul: "map ascii_upper (map ascii_lower s) = map ascii_upper s" for s
    by (simp add: ascii_upper_lower)
  show ?thesis
    unfolding eq_ignore_ascii_case_def to_ascii_lowercase_def to_ascii_uppercase_def
    by (metis lu ul)
qed

definition starts_with :: "string \<Rightarrow> string \<Rightarrow> bool" where
  "starts_with p s \<longleftrightarrow> prefix p s"

definition quoted :: "string \<Rightarrow> string" where
  "quoted s = [CHR 0x27] @ s @ [CHR 0x27]"

definition backticked :: "string \<Rightarrow> string" where
  "backticked s = [CHR 0x60] @ s @ [CHR 0x60]"

text \<open>\<open>str::split\<close> on a character, which always yields at least one piece, and \<open>join\<close>.\<close>

fun split_on :: "char \<Rightarrow> string \<Rightarrow> string list" where
  "split_on d [] = [[]]"
| "split_on d (c # s) =
     (if c = d then [] # split_on d s
      else (case split_on d s of [] \<Rightarrow> [[c]] | p # ps \<Rightarrow> (c # p) # ps))"

fun join :: "string \<Rightarrow> string list \<Rightarrow> string" where
  "join sep [] = []"
| "join sep [p] = p"
| "join sep (p # q # ps) = p @ sep @ join sep (q # ps)"

lemma split_on_not_Nil [simp]: "split_on d s \<noteq> []"
  by (induction s) (auto split: list.split)

lemma split_on_pieces: "p \<in> set (split_on d s) \<Longrightarrow> d \<notin> set p"
  by (induction s arbitrary: p) (auto split: list.splits if_splits)

lemma split_on_no_sep: "d \<notin> set s \<Longrightarrow> split_on d s = [s]"
  by (induction s) auto

lemma split_on_append_sep: "d \<notin> set p \<Longrightarrow> split_on d (p @ d # s) = p # split_on d s"
  by (induction p) auto

lemma split_on_join:
  "ps \<noteq> [] \<Longrightarrow> (\<And>p. p \<in> set ps \<Longrightarrow> d \<notin> set p) \<Longrightarrow> split_on d (join [d] ps) = ps"
proof (induction ps rule: induct_list012)
  case (3 p q ps)
  then have "split_on d (join [d] (q # ps)) = q # ps" by simp
  with 3 show ?case by (simp add: split_on_append_sep)
qed (auto simp: split_on_no_sep)

lemma join_set: "set (join sep ps) \<subseteq> set sep \<union> \<Union> (set ` set ps)"
  by (induction ps rule: induct_list012) auto

lemma join_snoc: "ps \<noteq> [] \<Longrightarrow> join sep (ps @ [p]) = join sep ps @ sep @ p"
  by (induction ps rule: induct_list012) auto

section \<open>Decimal numbers\<close>

definition digit :: "nat \<Rightarrow> char" where
  "digit d = char_of (48 + d)"

fun show_nat :: "nat \<Rightarrow> string" where
  "show_nat n = (if n < 10 then [digit n] else show_nat (n div 10) @ [digit (n mod 10)])"

declare show_nat.simps [simp del]

definition is_ascii_digit :: "char \<Rightarrow> bool" where
  "is_ascii_digit c \<longleftrightarrow> (let n = of_char c :: nat in 48 \<le> n \<and> n \<le> 57)"

definition show_int :: "int \<Rightarrow> string" where
  "show_int i = (if i < 0 then CHR ''-'' # show_nat (nat (- i)) else show_nat (nat i))"

text \<open>The format \<open>{:0width$}\<close> of an unsigned number.\<close>

definition pad_zero :: "nat \<Rightarrow> string \<Rightarrow> string" where
  "pad_zero w s = replicate (w - length s) (CHR ''0'') @ s"

lemma is_ascii_digit_digit: "d < 10 \<Longrightarrow> is_ascii_digit (digit d)"
  by (simp add: is_ascii_digit_def digit_def)

lemma show_nat_digits: "c \<in> set (show_nat n) \<Longrightarrow> is_ascii_digit c"
proof (induction n arbitrary: c rule: show_nat.induct)
  case (1 n)
  then show ?case
    by (cases "n < 10") (auto simp: show_nat.simps[of n] is_ascii_digit_digit)
qed

lemma show_nat_length: "n < 10 ^ w \<Longrightarrow> 0 < w \<Longrightarrow> length (show_nat n) \<le> w"
proof (induction n arbitrary: w rule: show_nat.induct)
  case (1 n)
  show ?case
  proof (cases "n < 10")
    case True
    with 1 show ?thesis by (simp add: show_nat.simps)
  next
    case False
    with "1.prems" obtain v where w: "w = Suc v" by (cases w) auto
    with False "1.prems" have "0 < v" by (cases v) auto
    moreover have "n div 10 < 10 ^ v"
      using "1.prems" w by (simp add: div_less_iff_less_mult)
    ultimately have "length (show_nat (n div 10)) \<le> v"
      using "1.IH"[OF False] by blast
    with False w show ?thesis by (simp add: show_nat.simps[of n])
  qed
qed

lemma show_nat_not_Nil [simp]: "show_nat n \<noteq> []"
  by (subst show_nat.simps) simp

text \<open>\<open>str::parse::<i64>()\<close>: an optional sign, at least one digit, and the range of \<open>i64\<close>.\<close>

definition parse_digits :: "string \<Rightarrow> nat option" where
  "parse_digits s =
     (if s \<noteq> [] \<and> list_all is_ascii_digit s
      then Some (foldl (\<lambda>n c. 10 * n + (of_char c - 48)) 0 s) else None)"

lemma show_nat_value: "foldl (\<lambda>n c. 10 * n + (of_char c - 48)) 0 (show_nat n) = (n :: nat)"
proof (induction n rule: show_nat.induct)
  case (1 n)
  have digit: "of_char (digit d) - 48 = d" if "d < 10" for d
    using that by (simp add: digit_def)
  show ?case
  proof (cases "n < 10")
    case True then show ?thesis using digit[of n] by (simp add: show_nat.simps[of n])
  next
    case False
    with 1 digit[of "n mod 10"] show ?thesis by (subst show_nat.simps) simp
  qed
qed

lemma show_nat_inj [simp]: "show_nat m = show_nat n \<longleftrightarrow> m = n"
  by (metis show_nat_value)

lemma show_int_inj [simp]: "show_int i = show_int j \<longleftrightarrow> i = j"
proof -
  have "show_nat n \<noteq> CHR ''-'' # s" for n s
    using show_nat_digits[of "CHR ''-''" n] by (auto simp: is_ascii_digit_def)
  then show ?thesis by (auto simp: show_int_def split: if_splits) (metis)
qed

definition parse_i64 :: "string \<Rightarrow> int option" where
  "parse_i64 s =
     (case s of
        [] \<Rightarrow> None
      | c # t \<Rightarrow>
          let v = (if c = CHR ''-'' then map_option (\<lambda>n. - int n) (parse_digits t)
                   else if c = CHR ''+'' then map_option int (parse_digits t)
                   else map_option int (parse_digits s))
          in (case v of
                None \<Rightarrow> None
              | Some i \<Rightarrow> if - (2 ^ 63) \<le> i \<and> i < 2 ^ 63 then Some i else None))"

section \<open>Signed machine integers\<close>

text \<open>The signed value of a 32- or 64-bit word that was computed in range.\<close>

lemma sint32_word_of_int:
  "- (2 ^ 31) \<le> x \<Longrightarrow> x < 2 ^ 31 \<Longrightarrow> sint (word_of_int x :: 32 word) = x"
  by (simp add: sint_sbintrunc' signed_take_bit_int_eq_self)

lemma sint64_word_of_int:
  "- (2 ^ 63) \<le> x \<Longrightarrow> x < 2 ^ 63 \<Longrightarrow> sint (word_of_int x :: 64 word) = x"
  by (simp add: sint_sbintrunc' signed_take_bit_int_eq_self)

lemma sint32_range: "- (2 ^ 31) \<le> sint (x :: 32 word)" "sint (x :: 32 word) < 2 ^ 31"
  using sint_ge[of x] sint_lt[of x] by simp_all

lemma sint64_range: "- (2 ^ 63) \<le> sint (x :: 64 word)" "sint (x :: 64 word) < 2 ^ 63"
  using sint_ge[of x] sint_lt[of x] by simp_all

section \<open>Sorted association lists\<close>

text \<open>
  \<open>serde_json::Map\<close> (without the feature \<open>preserve_order\<close>) and \<open>BTreeMap\<close> keep their
  entries in key order. The model keeps the entries in a list sorted by key, so that equality
  of lists is equality of maps and iteration follows the key order.
\<close>

fun obj_insert :: "'k::linorder \<Rightarrow> 'v \<Rightarrow> ('k \<times> 'v) list \<Rightarrow> ('k \<times> 'v) list" where
  "obj_insert k v [] = [(k, v)]"
| "obj_insert k v ((k', v') # xs) =
     (if k = k' then (k, v) # xs
      else if k < k' then (k, v) # (k', v') # xs
      else (k', v') # obj_insert k v xs)"

definition obj_remove :: "'k \<Rightarrow> ('k \<times> 'v) list \<Rightarrow> ('k \<times> 'v) list" where
  "obj_remove k xs = filter (\<lambda>e. fst e \<noteq> k) xs"

definition keys_sorted :: "('k::linorder \<times> 'v) list \<Rightarrow> bool" where
  "keys_sorted xs \<longleftrightarrow> sorted_wrt (<) (map fst xs)"

lemma map_of_obj_insert [simp]: "map_of (obj_insert k v xs) = (map_of xs)(k \<mapsto> v)"
  by (induction k v xs rule: obj_insert.induct) auto

lemma map_of_obj_remove [simp]: "map_of (obj_remove k xs) = (map_of xs)(k := None)"
  by (induction xs) (auto simp: obj_remove_def)

lemma set_obj_insert: "set (obj_insert k v xs) \<subseteq> insert (k, v) (set xs)"
  by (induction k v xs rule: obj_insert.induct) auto

lemma fst_set_obj_insert: "fst ` set (obj_insert k v xs) = insert k (fst ` set xs)"
  by (induction k v xs rule: obj_insert.induct) (auto simp: image_iff)

lemma set_obj_remove: "set (obj_remove k xs) \<subseteq> set xs"
  by (auto simp: obj_remove_def)

lemma keys_sorted_Nil [simp]: "keys_sorted []"
  by (simp add: keys_sorted_def)

lemma keys_sorted_Cons:
  "keys_sorted (e # xs) \<longleftrightarrow> (\<forall>k\<in>fst ` set xs. fst e < k) \<and> keys_sorted xs"
  by (auto simp: keys_sorted_def)

lemma keys_sorted_insert [simp]: "keys_sorted xs \<Longrightarrow> keys_sorted (obj_insert k v xs)"
proof (induction k v xs rule: obj_insert.induct)
  case (2 k v k' v' xs)
  then show ?case
    unfolding keys_sorted_Cons by (auto simp: keys_sorted_Cons fst_set_obj_insert simp del: set_map)
qed (simp add: keys_sorted_def)

lemma keys_sorted_remove [simp]: "keys_sorted xs \<Longrightarrow> keys_sorted (obj_remove k xs)"
  by (induction xs) (auto simp: keys_sorted_Cons obj_remove_def)

lemma keys_sorted_distinct: "keys_sorted xs \<Longrightarrow> distinct (map fst xs)"
  by (simp add: keys_sorted_def strict_sorted_iff)

lemma keys_sorted_ext:
  assumes "keys_sorted xs" "keys_sorted ys" "map_of xs = map_of ys"
  shows "xs = ys"
proof -
  have d: "distinct (map fst xs)" "distinct (map fst ys)"
    and so: "sorted (map fst xs)" "sorted (map fst ys)"
    using assms(1,2) by (simp_all add: keys_sorted_def strict_sorted_iff)
  then have eq: "set xs = set ys"
    using assms(3) by (simp add: map_of_inject_set)
  then have "inj_on fst (set xs \<union> set ys)"
    using d by (simp add: distinct_map)
  then show ?thesis
    using d so eq by (intro map_sorted_distinct_set_unique)
qed

section \<open>Fallible code and code that changes state\<close>

text \<open>
  A fallible pure function returns \<open>'e + 'a\<close>, with \<open>Inl\<close> the error. Code that also changes
  state is a function from the state to the result and the new state; an error keeps the
  changes made before it, as Rust's \<open>?\<close> does outside a database transaction.
\<close>

type_synonym ('s, 'e, 'a) sem = "'s \<Rightarrow> ('e + 'a) \<times> 's"

definition ok_or :: "'e \<Rightarrow> 'a option \<Rightarrow> 'e + 'a" where
  "ok_or e x = (case x of None \<Rightarrow> Inl e | Some a \<Rightarrow> Inr a)"

definition bindR :: "'e + 'a \<Rightarrow> ('a \<Rightarrow> 'e + 'b) \<Rightarrow> 'e + 'b" where
  "bindR r k = (case r of Inl e \<Rightarrow> Inl e | Inr a \<Rightarrow> k a)"

definition map_errR :: "('e \<Rightarrow> 'f) \<Rightarrow> 'e + 'a \<Rightarrow> 'f + 'a" where
  "map_errR f r = (case r of Inl e \<Rightarrow> Inl (f e) | Inr a \<Rightarrow> Inr a)"

definition ret :: "'a \<Rightarrow> ('s, 'e, 'a) sem" where
  "ret a w = (Inr a, w)"

definition throw :: "'e \<Rightarrow> ('s, 'e, 'a) sem" where
  "throw e w = (Inl e, w)"

definition lift_res :: "'e + 'a \<Rightarrow> ('s, 'e, 'a) sem" where
  "lift_res r w = (r, w)"

definition bindE :: "('s, 'e, 'a) sem \<Rightarrow> ('a \<Rightarrow> ('s, 'e, 'b) sem) \<Rightarrow> ('s, 'e, 'b) sem" where
  "bindE m k w = (case m w of (Inl e, w1) \<Rightarrow> (Inl e, w1) | (Inr a, w1) \<Rightarrow> k a w1)"

definition map_errE :: "('e \<Rightarrow> 'f) \<Rightarrow> ('s, 'e, 'a) sem \<Rightarrow> ('s, 'f, 'a) sem" where
  "map_errE f m w = (case m w of (r, w1) \<Rightarrow> (map_errR f r, w1))"

definition gets :: "('s \<Rightarrow> 'a) \<Rightarrow> ('s, 'e, 'a) sem" where
  "gets f w = (Inr (f w), w)"

fun forE :: "('a \<Rightarrow> ('s, 'e, unit) sem) \<Rightarrow> 'a list \<Rightarrow> ('s, 'e, unit) sem" where
  "forE f [] = ret ()"
| "forE f (x # xs) = bindE (f x) (\<lambda>_. forE f xs)"

lemma ok_or_simps [simp]: "ok_or e None = Inl e" "ok_or e (Some a) = Inr a"
  by (simp_all add: ok_or_def)

lemma ok_or_Inr_iff [simp]: "ok_or e x = Inr a \<longleftrightarrow> x = Some a"
  by (cases x) simp_all

lemma bindR_simps [simp]: "bindR (Inl e) k = Inl e" "bindR (Inr a) k = k a"
  by (simp_all add: bindR_def)

lemma bindR_Inr_iff: "bindR r k = Inr b \<longleftrightarrow> (\<exists>a. r = Inr a \<and> k a = Inr b)"
  by (cases r) simp_all

lemma map_errR_simps [simp]: "map_errR f (Inl e) = Inl (f e)" "map_errR f (Inr a) = Inr a"
  by (simp_all add: map_errR_def)

lemma map_errR_Inr_iff [simp]: "map_errR f r = Inr a \<longleftrightarrow> r = Inr a"
  by (cases r) simp_all

lemma sem_basic [simp, sem_simps]:
  "ret a w = (Inr a, w)" "throw e w = (Inl e, w)" "lift_res r w = (r, w)" "gets f w = (Inr (f w), w)"
  by (simp_all add: ret_def throw_def lift_res_def gets_def)

lemma bindE_ok [sem_simps]: "m w = (Inr a, w1) \<Longrightarrow> bindE m k w = k a w1"
  by (simp add: bindE_def)

lemma bindE_err [sem_simps]: "m w = (Inl e, w1) \<Longrightarrow> bindE m k w = (Inl e, w1)"
  by (simp add: bindE_def)

lemma bindE_Inr_iff:
  "bindE m k w = (Inr b, w2) \<longleftrightarrow> (\<exists>a w1. m w = (Inr a, w1) \<and> k a w1 = (Inr b, w2))"
  by (auto simp: bindE_def split: prod.splits sum.splits)

lemma bindE_ret [simp]: "bindE (ret a) k = k a" "bindE (throw e) k = throw e"
  by (simp_all add: bindE_def fun_eq_iff)

lemma bindE_lift [simp]:
  "bindE (lift_res (Inr a)) k = k a" "bindE (lift_res (Inl e)) k = throw e"
  by (simp_all add: bindE_def fun_eq_iff)

lemma bindE_gets [simp]: "bindE (gets f) k w = k (f w) w"
  by (simp add: bindE_def)

lemma map_errE_Inr_iff [simp]: "map_errE f m w = (Inr a, w1) \<longleftrightarrow> m w = (Inr a, w1)"
  by (auto simp: map_errE_def split: prod.splits)

text \<open>A program keeps a view of the state when it ends with the view it started with, error or not.\<close>

definition keeps :: "('s \<Rightarrow> 'v) \<Rightarrow> ('s, 'e, 'a) sem \<Rightarrow> bool" where
  "keeps view m \<longleftrightarrow> (\<forall>w. view (snd (m w)) = view w)"

lemma keepsI: "(\<And>w. view (snd (m w)) = view w) \<Longrightarrow> keeps view m"
  by (simp add: keeps_def)

lemma keepsD: "keeps view m \<Longrightarrow> m w = (r, w') \<Longrightarrow> view w' = view w"
  by (metis keeps_def snd_conv)

lemma keeps_basic [frame_rules]:
  "keeps view (ret a)" "keeps view (throw e)" "keeps view (lift_res r)" "keeps view (gets f)" "keeps view (Pair r)"
  by (simp_all add: keeps_def)

lemma keeps_bindE [frame_rules]: "keeps view m \<Longrightarrow> (\<And>a. keeps view (k a)) \<Longrightarrow> keeps view (bindE m k)"
  by (auto simp: keeps_def bindE_def split: prod.splits sum.splits) (metis snd_conv)+

lemma keeps_map_errE [frame_rules]: "keeps view m \<Longrightarrow> keeps view (map_errE f m)"
  by (auto simp: keeps_def map_errE_def split: prod.splits) (metis snd_conv)

lemma keeps_forE [frame_rules]: "(\<And>x. keeps view (f x)) \<Longrightarrow> keeps view (forE f xs)"
  by (induction xs) (simp_all add: keeps_basic keeps_bindE)

lemma keeps_if [frame_rules]: "keeps view m \<Longrightarrow> keeps view n \<Longrightarrow> keeps view (if b then m else n)"
  by simp

lemma keeps_case_option [frame_rules]:
  "keeps view m \<Longrightarrow> (\<And>x. v = Some x \<Longrightarrow> keeps view (k x)) \<Longrightarrow> keeps view (case v of None \<Rightarrow> m | Some x \<Rightarrow> k x)"
  by (cases v) simp_all

lemma keeps_case_prod [frame_rules]: "(\<And>x y. keeps view (k x y)) \<Longrightarrow> keeps view (case p of (x, y) \<Rightarrow> k x y)"
  by (cases p) simp

lemma keeps_Let [frame_rules]: "(\<And>x. keeps view (k x)) \<Longrightarrow> keeps view (let x = v in k x)"
  by simp

lemma keeps_part: "keeps (\<lambda>w. (f w, g w)) m \<Longrightarrow> keeps f m" "keeps (\<lambda>w. (f w, g w)) m \<Longrightarrow> keeps g m"
  by (simp_all add: keeps_def)

lemma keeps_pair: "keeps f m \<Longrightarrow> keeps g m \<Longrightarrow> keeps (\<lambda>w. (f w, g w)) m"
  by (simp add: keeps_def)

text \<open>A program preserves an invariant when it ends in it from every state that has it, error or not.\<close>

definition preserves :: "('s \<Rightarrow> bool) \<Rightarrow> ('s, 'e, 'a) sem \<Rightarrow> bool" where
  "preserves I m \<longleftrightarrow> (\<forall>w. I w \<longrightarrow> I (snd (m w)))"

lemma preservesI: "(\<And>w. I w \<Longrightarrow> I (snd (m w))) \<Longrightarrow> preserves I m"
  by (simp add: preserves_def)

lemma preservesD: "preserves I m \<Longrightarrow> m w = (r, w') \<Longrightarrow> I w \<Longrightarrow> I w'"
  by (metis preserves_def snd_conv)

lemma preserves_basic [inv_rules]:
  "preserves I (ret a)" "preserves I (throw e)" "preserves I (lift_res r)" "preserves I (gets f)" "preserves I (Pair r)"
  by (simp_all add: preserves_def)

lemma preserves_bindE [inv_rules]:
  "preserves I m \<Longrightarrow> (\<And>a. preserves I (k a)) \<Longrightarrow> preserves I (bindE m k)"
  by (fastforce simp: preserves_def bindE_def split: prod.splits sum.splits)

lemma preserves_map_errE [inv_rules]: "preserves I m \<Longrightarrow> preserves I (map_errE f m)"
  by (fastforce simp: preserves_def map_errE_def split: prod.splits)

lemma preserves_forE [inv_rules]: "(\<And>x. preserves I (f x)) \<Longrightarrow> preserves I (forE f xs)"
  by (induction xs) (simp_all add: preserves_basic preserves_bindE)

lemma preserves_if [inv_rules]: "preserves I m \<Longrightarrow> preserves I n \<Longrightarrow> preserves I (if b then m else n)"
  by simp

lemma preserves_case_option [inv_rules]:
  "preserves I m \<Longrightarrow> (\<And>x. v = Some x \<Longrightarrow> preserves I (k x)) \<Longrightarrow> preserves I (case v of None \<Rightarrow> m | Some x \<Rightarrow> k x)"
  by (cases v) simp_all

lemma preserves_case_prod [inv_rules]:
  "(\<And>x y. preserves I (k x y)) \<Longrightarrow> preserves I (case p of (x, y) \<Rightarrow> k x y)"
  by (cases p) simp

lemma preserves_Let [inv_rules]: "(\<And>x. preserves I (k x)) \<Longrightarrow> preserves I (let x = v in k x)"
  by simp

lemma keeps_preserves: "keeps view m \<Longrightarrow> (\<And>w w'. view w = view w' \<Longrightarrow> I w = I w') \<Longrightarrow> preserves I m"
  unfolding keeps_def preserves_def by blast

lemma keeps_weaken: "keeps view m \<Longrightarrow> (\<And>w w'. view w = view w' \<Longrightarrow> view' w = view' w') \<Longrightarrow> keeps view' m"
  unfolding keeps_def by blast

end
