(* ===== verification/Json.thy ===== *)
theory Json
  imports Prelude
begin

text \<open>
  JSON values and the operations on them: the accessors of \<open>serde_json::Value\<close> the program
  uses (\<open>get\<close>, \<open>as_str\<close>, \<open>pointer\<close>), the merge of context patches
  (\<open>flows/runtime.rs\<close>) and the insertion along a slash-separated path
  (\<open>actions/mapping_utils.rs\<close>). Objects are association lists sorted by key;
  \<open>wf_json\<close> says so at every level.
\<close>

section \<open>Values\<close>

text \<open>
  A \<open>serde_json\<close> number is an unsigned 64-bit integer, a negative signed 64-bit integer or
  a finite double, here its rational value.
\<close>

datatype jnum = PosInt "64 word" | NegInt "64 word" | Float rat

datatype json =
    JNull
  | JBool bool
  | JNumber jnum
  | JString string
  | JArray "json list"
  | JObject "(string \<times> json) list"

type_synonym jmap = "(string \<times> json) list"

abbreviation json_true :: json where
  "json_true \<equiv> JBool True"

definition jnat :: "nat \<Rightarrow> json" where
  "jnat n = JNumber (PosInt (of_nat n))"

definition jint :: "int \<Rightarrow> json" where
  "jint i = JNumber (if 0 \<le> i then PosInt (of_int i) else NegInt (of_int i))"

fun wf_json :: "json \<Rightarrow> bool" where
  "wf_json (JArray xs) = (\<forall>x\<in>set xs. wf_json x)"
| "wf_json (JObject m) = (keys_sorted m \<and> (\<forall>e\<in>set m. wf_json (snd e)))"
| "wf_json _ = True"

fun is_object :: "json \<Rightarrow> bool" where
  "is_object (JObject _) = True"
| "is_object _ = False"

fun as_object :: "json \<Rightarrow> jmap option" where
  "as_object (JObject m) = Some m"
| "as_object _ = None"

fun as_array :: "json \<Rightarrow> json list option" where
  "as_array (JArray xs) = Some xs"
| "as_array _ = None"

fun as_str :: "json \<Rightarrow> string option" where
  "as_str (JString s) = Some s"
| "as_str _ = None"

fun as_bool :: "json \<Rightarrow> bool option" where
  "as_bool (JBool b) = Some b"
| "as_bool _ = None"

fun as_u64 :: "json \<Rightarrow> 64 word option" where
  "as_u64 (JNumber (PosInt n)) = Some n"
| "as_u64 _ = None"

fun as_i64 :: "json \<Rightarrow> int option" where
  "as_i64 (JNumber (PosInt n)) = (if unat n < 2 ^ 63 then Some (int (unat n)) else None)"
| "as_i64 (JNumber (NegInt n)) = Some (sint n)"
| "as_i64 _ = None"

text \<open>\<open>Value::get\<close> with a string index.\<close>

fun json_get :: "string \<Rightarrow> json \<Rightarrow> json option" where
  "json_get k (JObject m) = map_of m k"
| "json_get k _ = None"

section \<open>JSON pointers\<close>

text \<open>
  \<open>Value::pointer\<close> of RFC 6901: the empty pointer is the value itself, any other pointer
  starts with a slash; \<open>~1\<close> and then \<open>~0\<close> are unescaped in each token; an array is
  indexed by a decimal number without sign or leading zero.
\<close>

fun replace2 :: "char \<Rightarrow> char \<Rightarrow> string \<Rightarrow> string \<Rightarrow> string" where
  "replace2 a b r (x # y # s) = (if x = a \<and> y = b then r @ replace2 a b r s else x # replace2 a b r (y # s))"
| "replace2 a b r s = s"

definition unescape_token :: "string \<Rightarrow> string" where
  "unescape_token t = replace2 (CHR ''~'') (CHR ''0'') ''~'' (replace2 (CHR ''~'') (CHR ''1'') ''/'' t)"

definition parse_index :: "string \<Rightarrow> nat option" where
  "parse_index s =
     (case s of
        [] \<Rightarrow> None
      | c # t \<Rightarrow>
          if c = CHR ''+'' \<or> (c = CHR ''0'' \<and> t \<noteq> []) then None
          else (case parse_digits s of
                  Some n \<Rightarrow> if n < 2 ^ 64 then Some n else None
                | None \<Rightarrow> None))"

definition pointer_step :: "string \<Rightarrow> json \<Rightarrow> json option" where
  "pointer_step t v =
     (case v of
        JObject m \<Rightarrow> map_of m t
      | JArray xs \<Rightarrow> (case parse_index t of
                         Some i \<Rightarrow> if i < length xs then Some (xs ! i) else None
                       | None \<Rightarrow> None)
      | _ \<Rightarrow> None)"

fun pointer_tokens :: "string list \<Rightarrow> json \<Rightarrow> json option" where
  "pointer_tokens [] v = Some v"
| "pointer_tokens (t # ts) v =
     (case pointer_step t v of None \<Rightarrow> None | Some v' \<Rightarrow> pointer_tokens ts v')"

definition pointer :: "string \<Rightarrow> json \<Rightarrow> json option" where
  "pointer p v =
     (case p of
        [] \<Rightarrow> Some v
      | c # s \<Rightarrow> if c = CHR ''/'' then pointer_tokens (map unescape_token (split_on (CHR ''/'') s)) v
                 else None)"

section \<open>Merging patches\<close>

text \<open>
  \<open>merge_json_value\<close> of \<open>flows/runtime.rs\<close>: objects are merged key by key, a null removes
  the key, a key new to the base is stored as the patch has it, any other pair replaces the
  base by the patch.
\<close>

fun merge_json_value :: "json \<Rightarrow> json \<Rightarrow> json" and merge_entries :: "jmap \<Rightarrow> jmap \<Rightarrow> jmap" where
  "merge_json_value (JObject b) (JObject p) = JObject (merge_entries b p)"
| "merge_json_value slot v = v"
| "merge_entries b [] = b"
| "merge_entries b ((k, v) # ps) =
     merge_entries
       (if v = JNull then obj_remove k b
        else (case map_of b k of
                Some e \<Rightarrow> obj_insert k (merge_json_value e v) b
              | None \<Rightarrow> obj_insert k v b)) ps"

definition merged_json :: "json \<Rightarrow> json \<Rightarrow> json" where
  "merged_json base patch = merge_json_value base patch"

section \<open>Inserting along a path\<close>

text \<open>
  \<open>apply_json_pointer_patch\<close> of \<open>mapping_utils.rs\<close> walks the non-empty parts of the path:
  an inner value that is no object is replaced by an empty one, a missing key gets an empty
  object, and the last part is inserted only when the value reached is an object.
\<close>

fun patch_parts :: "string list \<Rightarrow> json \<Rightarrow> json \<Rightarrow> json" where
  "patch_parts [] v cur = v"
| "patch_parts [p] v cur = (case cur of JObject m \<Rightarrow> JObject (obj_insert p v m) | _ \<Rightarrow> cur)"
| "patch_parts (p # q # ps) v cur =
     (let m = (case cur of JObject m \<Rightarrow> m | _ \<Rightarrow> []);
          c = (case map_of m p of Some c \<Rightarrow> c | None \<Rightarrow> JObject [])
      in JObject (obj_insert p (patch_parts (q # ps) v c) m))"

definition path_parts :: "string \<Rightarrow> string list" where
  "path_parts path = filter (\<lambda>s. s \<noteq> []) (split_on (CHR ''/'') path)"

definition apply_json_pointer_patch :: "json \<Rightarrow> string \<Rightarrow> json \<Rightarrow> json" where
  "apply_json_pointer_patch target path v = patch_parts (path_parts path) v target"

definition top_level_key :: "string \<Rightarrow> string option" where
  "top_level_key path = List.find (\<lambda>s. s \<noteq> []) (split_on (CHR ''/'') path)"

section \<open>Lemmas\<close>

fun null_free :: "json \<Rightarrow> bool" where
  "null_free (JObject m) = (\<forall>e\<in>set m. snd e \<noteq> JNull \<and> null_free (snd e))"
| "null_free _ = True"

text \<open>Nulls only at the top level of a patch, where they remove a key of the base.\<close>

fun top_nulls_only :: "json \<Rightarrow> bool" where
  "top_nulls_only (JObject m) = (\<forall>e\<in>set m. snd e = JNull \<or> null_free (snd e))"
| "top_nulls_only _ = True"

lemma json_get_obj_insert [simp]:
  "json_get k (JObject (obj_insert j v m)) = (if k = j then Some v else map_of m k)"
  by simp

lemma wf_json_map_of: "wf_json (JObject m) \<Longrightarrow> map_of m k = Some v \<Longrightarrow> wf_json v"
  by (auto dest!: map_of_SomeD)

lemma wf_json_obj_insert:
  "wf_json (JObject m) \<Longrightarrow> wf_json v \<Longrightarrow> wf_json (JObject (obj_insert k v m))"
  using set_obj_insert[of k v m] by auto

lemma wf_json_obj_remove: "wf_json (JObject m) \<Longrightarrow> wf_json (JObject (obj_remove k m))"
  using set_obj_remove[of k m] by auto

lemma null_free_map_of:
  "null_free (JObject m) \<Longrightarrow> map_of m k = Some v \<Longrightarrow> v \<noteq> JNull \<and> null_free v"
  by (auto dest!: map_of_SomeD)

lemma merge_entries_lookup:
  "distinct (map fst p) \<Longrightarrow>
   map_of (merge_entries b p) k =
     (case map_of p k of
        None \<Rightarrow> map_of b k
      | Some v \<Rightarrow> if v = JNull then None
                 else Some (case map_of b k of Some e \<Rightarrow> merge_json_value e v | None \<Rightarrow> v))"
proof (induction p arbitrary: b)
  case (Cons e ps)
  obtain j v where e: "e = (j, v)" by (cases e)
  with Cons.prems have "map_of ps j = None" and "distinct (map fst ps)"
    by (auto simp: map_of_eq_None_iff)
  then show ?case
    by (auto simp: e Cons.IH split: option.splits)
qed simp

lemma merge_json_value_nonobject:
  "\<not> (is_object b \<and> is_object p) \<Longrightarrow> merge_json_value b p = p"
  by (cases b; cases p) simp_all

lemma merge_entries_wf:
  assumes "\<And>e b. e \<in> set q \<Longrightarrow> wf_json b \<Longrightarrow> wf_json (merge_json_value b (snd e))"
    and "wf_json (JObject m)" "\<forall>e\<in>set q. wf_json (snd e)"
  shows "wf_json (JObject (merge_entries m q))"
  using assms
proof (induction q arbitrary: m)
  case (Cons e q)
  obtain k v where e: "e = (k, v)" by (cases e)
  have mv: "wf_json (merge_json_value x v)" if "map_of m k = Some x" for x
    using Cons.prems(1)[of e x] wf_json_map_of[OF Cons.prems(2) that] e by simp
  have "wf_json (JObject (if v = JNull then obj_remove k m
          else (case map_of m k of
                  Some x \<Rightarrow> obj_insert k (merge_json_value x v) m
                | None \<Rightarrow> obj_insert k v m)))"
    using Cons.prems(2,3) e mv
    by (auto split: option.split intro!: wf_json_obj_insert wf_json_obj_remove
        simp del: wf_json.simps)
  then show ?case
    unfolding e merge_entries.simps using Cons.prems by (intro Cons.IH) auto
qed simp

lemma merge_wf: "wf_json b \<Longrightarrow> wf_json p \<Longrightarrow> wf_json (merge_json_value b p)"
proof (induction p arbitrary: b)
  case (JObject q)
  show ?case
  proof (cases b)
    fix m assume "b = JObject m"
    with JObject show ?thesis
      by (auto simp del: wf_json.simps simp: wf_json.simps(2)[of q]
          intro!: merge_entries_wf elim!: snds.cases)
  qed (use JObject.prems in simp_all)
qed simp_all

lemma merge_self: "wf_json v \<Longrightarrow> null_free v \<Longrightarrow> merge_json_value v v = v"
proof (induction v)
  case (JObject m)
  have so: "keys_sorted m" using JObject.prems by simp
  have self: "merge_json_value x x = x" if "map_of m k = Some x" for k x
    using JObject.IH[of "(k, x)" x] JObject.prems that by (force dest: map_of_SomeD)
  have "wf_json (JObject (merge_entries m m))"
    using merge_wf[of "JObject m" "JObject m"] JObject.prems by simp
  then have so': "keys_sorted (merge_entries m m)" by simp
  moreover have "map_of (merge_entries m m) = map_of m"
    using so self null_free_map_of[OF JObject.prems(2)]
    by (auto simp: fun_eq_iff merge_entries_lookup keys_sorted_distinct split: option.splits)
  ultimately have "merge_entries m m = m"
    using so by (intro keys_sorted_ext)
  then show ?case by simp
qed simp_all

lemma merge_twice_null_free:
  "wf_json b \<Longrightarrow> wf_json v \<Longrightarrow> null_free v \<Longrightarrow>
   merge_json_value (merge_json_value b v) v = merge_json_value b v"
proof (induction v arbitrary: b)
  case (JObject q)
  show ?case
  proof (cases "is_object b")
    case True
    then obtain m where b: "b = JObject m" by (cases b) auto
    let ?r = "merge_entries m q"
    have r: "wf_json (JObject ?r)"
      using merge_wf[of b "JObject q"] JObject.prems b by simp
    then have r2: "wf_json (JObject (merge_entries ?r q))"
      using merge_wf[of "JObject ?r" "JObject q"] JObject.prems by simp
    have twice: "merge_json_value (merge_json_value e x) x = merge_json_value e x"
      if "map_of q k = Some x" "wf_json e" for k x e
      using JObject.IH[of "(k, x)" x e] JObject.prems that by (force dest: map_of_SomeD)
    have self: "merge_json_value x x = x" if "map_of q k = Some x" for k x
      using that JObject.prems by (meson merge_self null_free_map_of wf_json_map_of)
    have d: "distinct (map fst q)" using JObject.prems by (simp add: keys_sorted_distinct)
    have "map_of (merge_entries ?r q) k = map_of ?r k" for k
      using twice self null_free_map_of[OF JObject.prems(3)] wf_json_map_of[of m k] JObject.prems(1) b
      by (auto simp: merge_entries_lookup[OF d] simp del: wf_json.simps split: option.splits)
    then have "merge_entries ?r q = ?r"
      using r r2 by (intro keys_sorted_ext) auto
    with b show ?thesis by simp
  next
    case False
    then have "merge_json_value b (JObject q) = JObject q"
      by (intro merge_json_value_nonobject) simp
    with merge_self[OF JObject.prems(2,3)] show ?thesis by simp
  qed
qed simp_all

text \<open>Reading back along the parts of a path, and the paths whose value is stored.\<close>

fun insertable :: "string list \<Rightarrow> json \<Rightarrow> bool" where
  "insertable [] cur = True"
| "insertable [p] cur = is_object cur"
| "insertable (p # q # ps) cur =
     (case json_get p cur of Some c \<Rightarrow> insertable (q # ps) c | None \<Rightarrow> True)"

lemma insertable_empty_object [simp]: "insertable ps (JObject [])"
  by (cases "(ps, JObject [])" rule: insertable.cases) simp_all

lemma patch_parts_object: "ps \<noteq> [] \<Longrightarrow> is_object cur \<Longrightarrow> is_object (patch_parts ps v cur)"
  by (cases "(ps, v, cur)" rule: patch_parts.cases) (auto simp: Let_def split: json.split)

lemma pointer_step_object: "pointer_step t (JObject m) = map_of m t"
  by (simp add: pointer_step_def)

lemma patch_parts_read:
  "insertable ps cur \<Longrightarrow> pointer_tokens ps (patch_parts ps v cur) = Some v"
proof (induction ps v cur rule: patch_parts.induct)
  case (3 p q ps v cur)
  let ?m = "case cur of JObject m \<Rightarrow> m | _ \<Rightarrow> []"
  let ?c = "case map_of ?m p of Some c \<Rightarrow> c | None \<Rightarrow> JObject []"
  have "insertable (q # ps) ?c"
    using "3.prems" by (cases cur) (auto split: option.splits)
  then have "pointer_tokens (q # ps) (patch_parts (q # ps) v ?c) = Some v"
    using "3.IH" by (simp del: pointer_tokens.simps)
  then show ?case
    by (simp add: Let_def pointer_step_object)
qed (auto simp: pointer_step_object split: json.splits)

lemma obj_insert_same: "keys_sorted m \<Longrightarrow> map_of m k = Some v \<Longrightarrow> obj_insert k v m = m"
  by (rule keys_sorted_ext) (auto simp: fun_eq_iff)

lemma patch_parts_dropped:
  "wf_json cur \<Longrightarrow> \<not> insertable ps cur \<Longrightarrow> patch_parts ps v cur = cur"
proof (induction ps v cur rule: patch_parts.induct)
  case (3 p q ps v cur)
  then obtain m c where m: "cur = JObject m" and c: "map_of m p = Some c"
    and ni: "\<not> insertable (q # ps) c"
    by (cases cur) (auto split: option.splits)
  then have "wf_json c" using "3.prems"(1) by (auto intro: wf_json_map_of)
  then have "patch_parts (q # ps) v c = c"
    using "3.IH"[of m c] m c ni by simp
  then show ?case
    using "3.prems"(1) m c by (simp add: Let_def obj_insert_same del: patch_parts.simps(2))
qed (auto split: json.splits)

lemma patch_parts_frame:
  "k \<noteq> p \<Longrightarrow> json_get k (patch_parts (p # ps) v (JObject m)) = map_of m k"
  by (cases ps) (simp_all add: Let_def)

lemma patch_parts_wf: "wf_json cur \<Longrightarrow> wf_json v \<Longrightarrow> wf_json (patch_parts ps v cur)"
proof (induction ps v cur rule: patch_parts.induct)
  case (2 p v cur)
  then show ?case by (cases cur) (auto simp del: wf_json.simps(2) intro: wf_json_obj_insert)
next
  case (3 p q ps v cur)
  define m where "m = (case cur of JObject m \<Rightarrow> m | _ \<Rightarrow> [])"
  define c where "c = (case map_of m p of Some c \<Rightarrow> c | None \<Rightarrow> JObject [])"
  have m: "wf_json (JObject m)" using "3.prems"(1) by (cases cur) (simp_all add: m_def keys_sorted_def)
  then have "wf_json c" by (auto simp: c_def keys_sorted_def split: option.split intro: wf_json_map_of)
  with "3.IH"[OF refl refl] "3.prems"(2) have "wf_json (patch_parts (q # ps) v c)" by (simp add: m_def c_def)
  with m show ?case
    by (simp only: patch_parts.simps Let_def m_def[symmetric] c_def[symmetric] wf_json_obj_insert)
qed simp

lemma find_filter: "List.find P xs = Some x \<Longrightarrow> \<exists>ys. filter P xs = x # ys"
  by (induction xs) (auto split: if_splits)

lemma path_parts_top: "top_level_key path = Some k \<Longrightarrow> \<exists>ps. path_parts path = k # ps"
  by (simp add: top_level_key_def path_parts_def find_filter)

lemma replace2_absent: "a \<notin> set s \<Longrightarrow> replace2 a b r s = s"
  by (induction a b r s rule: replace2.induct) auto

lemma unescape_token_plain: "CHR ''~'' \<notin> set t \<Longrightarrow> unescape_token t = t"
  by (simp add: unescape_token_def replace2_absent)

text \<open>The plain paths of the flow definitions: non-empty parts free of slash and tilde.\<close>

definition plain_part :: "string \<Rightarrow> bool" where
  "plain_part p \<longleftrightarrow> p \<noteq> [] \<and> CHR ''/'' \<notin> set p \<and> CHR ''~'' \<notin> set p"

definition slash_path :: "string list \<Rightarrow> string" where
  "slash_path ps = CHR ''/'' # join ''/'' ps"

lemma slash_path_split:
  assumes "ps \<noteq> []" "\<forall>p\<in>set ps. plain_part p"
  shows "split_on (CHR ''/'') (join ''/'' ps) = ps"
  using assms by (intro split_on_join) (auto simp: plain_part_def)

lemma path_parts_slash_path:
  assumes "ps \<noteq> []" "\<forall>p\<in>set ps. plain_part p"
  shows "path_parts (slash_path ps) = ps"
  using slash_path_split[OF assms] assms
  by (simp add: path_parts_def slash_path_def plain_part_def)

lemma pointer_slash_path:
  assumes "ps \<noteq> []" "\<forall>p\<in>set ps. plain_part p"
  shows "pointer (slash_path ps) v = pointer_tokens ps v"
proof -
  have "map unescape_token ps = ps"
    using assms by (intro map_idI) (auto simp: plain_part_def unescape_token_plain)
  then show ?thesis
    by (simp add: pointer_def slash_path_def slash_path_split[OF assms])
qed

section \<open>Properties\<close>

text \<open>
  Merging a patch object into a base object gives, at every key, exactly what the patch
  asks for: the base's entry where the patch has none, no entry where the patch has null,
  the patch's value where the base has none, and the merge of both otherwise.
\<close>

lemma merge_json_value_lookup:
  assumes "wf_json (JObject p)"
  shows "json_get k (merge_json_value (JObject b) (JObject p)) =
    (case json_get k (JObject p) of
       None \<Rightarrow> json_get k (JObject b)
     | Some v \<Rightarrow>
         if v = JNull then None
         else Some (case json_get k (JObject b) of
                      Some e \<Rightarrow> merge_json_value e v
                    | None \<Rightarrow> v))"
  using assms by (simp add: merge_entries_lookup keys_sorted_distinct split: option.split)

lemma merge_json_value_lookup_witness:
  "json_get ''a'' (merge_json_value (JObject [(''a'', JObject [(''x'', JBool True)])])
      (JObject [(''a'', JObject [(''y'', JBool False)])]))
     = Some (merge_json_value (JObject [(''x'', JBool True)]) (JObject [(''y'', JBool False)]))"
  using merge_json_value_lookup
    [of "[(''a'', JObject [(''y'', JBool False)])]" "''a''" "[(''a'', JObject [(''x'', JBool True)])]"]
  by (simp add: keys_sorted_def)

text \<open>
  Applying a patch to an object a second time changes nothing, when its nulls stand at the
  top level only, where they remove keys. (A null nested under a key that is new to the base is stored
  as it is and would be taken out by a second application.)
\<close>

lemma merge_json_value_idempotent:
  assumes "wf_json b" "is_object b" "wf_json p" "top_nulls_only p"
  shows "merge_json_value (merge_json_value b p) p = merge_json_value b p"
proof (cases "is_object p")
  case True
  then obtain q where p: "p = JObject q" by (cases p) simp_all
  obtain m where b: "b = JObject m" using assms(2) by (cases b) simp_all
  let ?r = "merge_entries m q"
  have r: "wf_json (JObject ?r)"
    using merge_wf[OF assms(1,3)] unfolding b p merge_json_value.simps .
  have r2: "wf_json (JObject (merge_entries ?r q))"
    using merge_wf[OF r assms(3)] unfolding p merge_json_value.simps .
  have nf: "null_free v" if "map_of q k = Some v" "v \<noteq> JNull" for k v
    using assms(4) that by (auto simp: p dest!: map_of_SomeD)
  have wq: "wf_json v" if "map_of q k = Some v" for k v
    using assms(3) that p by (auto intro: wf_json_map_of)
  have wm: "wf_json e" if "map_of m k = Some e" for k e
    using assms(1) that b by (auto intro: wf_json_map_of)
  have d: "distinct (map fst q)" using assms p by (simp add: keys_sorted_distinct)
  have "map_of (merge_entries ?r q) k = map_of ?r k" for k
    by (auto simp: merge_entries_lookup[OF d] merge_self merge_twice_null_free nf wq wm
        split: option.splits)
  then have "merge_entries ?r q = ?r"
    using r r2 by (intro keys_sorted_ext) auto
  with b p show ?thesis by simp
next
  case False
  then show ?thesis by (simp add: merge_json_value_nonobject)
qed

lemma merge_json_value_idempotent_witness:
  "let b = JObject [(''a'', JBool True), (''b'', JObject [])];
       p = JObject [(''a'', JNull), (''b'', JObject [(''c'', JBool False)])]
   in wf_json b \<and> is_object b \<and> wf_json p \<and> top_nulls_only p
      \<and> merge_json_value (merge_json_value b p) p = merge_json_value b p"
  using merge_json_value_idempotent
    [of "JObject [(''a'', JBool True), (''b'', JObject [])]"
        "JObject [(''a'', JNull), (''b'', JObject [(''c'', JBool False)])]"]
  by (simp add: keys_sorted_def less_char_def)

text \<open>
  A value inserted at a plain path can be read back at the same JSON pointer, whenever the
  value that holds the last part is an object or is created on the way.
\<close>

lemma apply_json_pointer_patch_pointer:
  assumes "ps \<noteq> []" "\<forall>p\<in>set ps. plain_part p" "insertable ps target"
  shows "pointer (slash_path ps) (apply_json_pointer_patch target (slash_path ps) v) = Some v"
  using assms
  by (simp add: apply_json_pointer_patch_def pointer_slash_path path_parts_slash_path patch_parts_read)

lemma apply_json_pointer_patch_pointer_witness:
  "pointer (slash_path [''phone'', ''verified''])
     (apply_json_pointer_patch (JObject []) (slash_path [''phone'', ''verified'']) json_true)
   = Some json_true"
  using apply_json_pointer_patch_pointer[of "[''phone'', ''verified'']" "JObject []" json_true]
  by (simp add: plain_part_def)

text \<open>
  When the value that should hold the last part of the path exists and is no object, the
  insertion is dropped without a trace: the target stays as it was. A path one part longer is
  stored, because an inner value that is no object is replaced.
\<close>

lemma apply_json_pointer_patch_dropped:
  assumes "ps \<noteq> []" "\<forall>p\<in>set ps. plain_part p" "wf_json target" "\<not> insertable ps target"
    and "plain_part r"
  shows "apply_json_pointer_patch target (slash_path ps) v = target
    \<and> pointer (slash_path (ps @ [r])) (apply_json_pointer_patch target (slash_path (ps @ [r])) v)
         = Some v"
proof
  show "apply_json_pointer_patch target (slash_path ps) v = target"
    using assms(1-4)
    by (simp add: apply_json_pointer_patch_def path_parts_slash_path patch_parts_dropped)
  have "insertable (ps @ [r]) target"
    using assms(1,4)
  proof (induction ps target rule: insertable.induct)
    case (2 p cur)
    then show ?case by (cases cur) auto
  next
    case (3 p q ps cur)
    then show ?case by (cases cur) (auto split: option.splits)
  qed simp
  then show "pointer (slash_path (ps @ [r]))
      (apply_json_pointer_patch target (slash_path (ps @ [r])) v) = Some v"
    using assms(2,5)
    by (simp add: apply_json_pointer_patch_def pointer_slash_path path_parts_slash_path patch_parts_read)
qed

lemma apply_json_pointer_patch_dropped_witness:
  "apply_json_pointer_patch (JObject [(''phone'', JString ''+1'')]) (slash_path [''phone'', ''verified'']) json_true
     = JObject [(''phone'', JString ''+1'')]
   \<and> pointer (slash_path [''phone'', ''verified'', ''at''])
      (apply_json_pointer_patch (JObject [(''phone'', JString ''+1'')])
        (slash_path [''phone'', ''verified'', ''at'']) json_true) = Some json_true"
  using apply_json_pointer_patch_dropped
    [of "[''phone'', ''verified'']" "JObject [(''phone'', JString ''+1'')]" "''at''" json_true]
  by (simp add: plain_part_def keys_sorted_def)

text \<open>Updates keep a context a well-formed object: its keys sorted and distinct at every depth.\<close>

lemma json_updates_well_formed:
  assumes "wf_json b" "is_object b" "wf_json p" "is_object p" "wf_json v" "path_parts path \<noteq> []"
  shows "wf_json (merge_json_value b p) \<and> is_object (merge_json_value b p)
    \<and> wf_json (apply_json_pointer_patch b path v) \<and> is_object (apply_json_pointer_patch b path v)"
proof -
  obtain m q where "b = JObject m" "p = JObject q" using assms(2,4) by (cases b; cases p) simp_all
  with assms show ?thesis
    by (auto simp: apply_json_pointer_patch_def patch_parts_object simp del: wf_json.simps
        intro: patch_parts_wf merge_wf[of "JObject m" "JObject q", simplified merge_json_value.simps])
qed

text \<open>
  C37: merging a patch into a context does at every key what the patch asks for: the entry of the context stays where
  the patch has none, it is removed where the patch has null, the value of the patch is stored where the context has none,
  and both are merged otherwise. Applying a patch whose nulls stand at its top level a second time changes nothing.
\<close>

theorem context_merge_exact:
  assumes "wf_json (JObject b)" "wf_json (JObject p)"
  shows "(\<forall>k. json_get k (merge_json_value (JObject b) (JObject p)) =
      (case json_get k (JObject p) of
         None \<Rightarrow> json_get k (JObject b)
       | Some v \<Rightarrow>
           if v = JNull then None
           else Some (case json_get k (JObject b) of Some e \<Rightarrow> merge_json_value e v | None \<Rightarrow> v)))
    \<and> (top_nulls_only (JObject p) \<longrightarrow>
        merge_json_value (merge_json_value (JObject b) (JObject p)) (JObject p) = merge_json_value (JObject b) (JObject p))"
  using merge_json_value_lookup[OF assms(2)] merge_json_value_idempotent[OF assms(1) _ assms(2)] by simp

text \<open>
  Inserting a value at a path of a context. When the value that holds the last part of the
  path is an object, or is created on the way, the JSON pointer of the path reads the inserted value afterwards; otherwise the
  context stays as it was, without an error. Every pointer that starts at another top-level key reads what it read before.
\<close>

lemma json_pointer_patch_exact:
  assumes "ps \<noteq> []" "\<forall>p\<in>set ps. plain_part p" "wf_json target" "is_object target"
  shows "(if insertable ps target
       then pointer (slash_path ps) (apply_json_pointer_patch target (slash_path ps) v) = Some v
       else apply_json_pointer_patch target (slash_path ps) v = target)
    \<and> (\<forall>q qs. q \<noteq> hd ps \<and> (\<forall>x\<in>set (q # qs). plain_part x) \<longrightarrow>
        pointer (slash_path (q # qs)) (apply_json_pointer_patch target (slash_path ps) v) = pointer (slash_path (q # qs)) target)"
proof -
  let ?new = "apply_json_pointer_patch target (slash_path ps) v"
  obtain m where m: "target = JObject m" using assms(4) by (cases target) simp_all
  have new: "?new = patch_parts ps v target" using assms(1,2) by (simp add: apply_json_pointer_patch_def path_parts_slash_path)
  obtain n where n: "?new = JObject n"
    using new patch_parts_object[OF assms(1,4), of v] by (cases "patch_parts ps v target") simp_all
  have "pointer (slash_path (q # qs)) ?new = pointer (slash_path (q # qs)) target"
    if "q \<noteq> hd ps \<and> (\<forall>x\<in>set (q # qs). plain_part x)" for q qs
  proof -
    have "json_get q ?new = map_of m q"
      using that patch_parts_frame[of q "hd ps" "tl ps" v m] assms(1) m new by simp
    then have "map_of n q = map_of m q" unfolding n by simp
    then show ?thesis
      using pointer_slash_path[of "q # qs"] that by (simp add: n[unfolded m] m pointer_step_object)
  qed
  moreover have "if insertable ps target then pointer (slash_path ps) ?new = Some v else ?new = target"
    using apply_json_pointer_patch_pointer[OF assms(1,2)] patch_parts_dropped[OF assms(3)] new by metis
  ultimately show ?thesis by blast
qed

theorem context_merge_exact_witness:
  "json_get ''a'' (merge_json_value (JObject [(''a'', JBool True), (''b'', JObject [])]) (JObject [(''a'', JNull), (''c'', JBool False)])) = None"
  using context_merge_exact[of "[(''a'', JBool True), (''b'', JObject [])]" "[(''a'', JNull), (''c'', JBool False)]"]
  by (simp add: keys_sorted_def less_char_def)

lemma json_pointer_patch_exact_witness:
  "let b = JObject [(''phone'', JString ''+1''), (''step'', JNull)];
       c = apply_json_pointer_patch b (slash_path [''otp'', ''code'']) (JString ''123456'')
   in pointer (slash_path [''otp'', ''code'']) c = Some (JString ''123456'')
      \<and> pointer (slash_path [''phone'']) c = pointer (slash_path [''phone'']) b"
  using json_pointer_patch_exact[of "[''otp'', ''code'']" "JObject [(''phone'', JString ''+1''), (''step'', JNull)]" "JString ''123456''"]
  by (simp add: Let_def keys_sorted_def less_char_def plain_part_def)

end
