(* ===== verification/Flow_Sdk.thy ===== *)
theory Flow_Sdk
  imports Json
begin

text \<open>
  The vocabulary of the flow SDK (crate \<open>backend-flow-sdk\<close>): actors, errors, flow, step and
  session definitions, step contexts and outcomes, and the dotted human-readable ids that
  sessions, flows and steps are named by.
\<close>

section \<open>Actors and errors\<close>

datatype actor = System | Admin | EndUser

fun actor_display :: "actor \<Rightarrow> string" where
  "actor_display System = ''SYSTEM''"
| "actor_display Admin = ''ADMIN''"
| "actor_display EndUser = ''END_USER''"

datatype flow_error =
    FeatureNotEnabled string string string
  | UnknownStepType string
  | UnknownFlowType string
  | UnknownSessionType string
  | InvalidHumanReadableId string
  | InvalidDefinition string
  | Serialization string
  | IoError string
  | StepPanic string

text \<open>
  \<open>StepPanic\<close> is not an error of the code: it stands for a panic inside a step, which ends the
  request without a reply. It passes through every error conversion.
\<close>

fun flow_error_display :: "flow_error \<Rightarrow> string" where
  "flow_error_display (FeatureNotEnabled f kind item) =
     ''feature '' @ [CHR 0x27] @ f @ [CHR 0x27] @ '' is not enabled for '' @ kind @ '' ''
       @ [CHR 0x27] @ item @ [CHR 0x27]"
| "flow_error_display (UnknownStepType s) = ''unknown step type: '' @ s"
| "flow_error_display (UnknownFlowType s) = ''unknown flow type: '' @ s"
| "flow_error_display (UnknownSessionType s) = ''unknown session type: '' @ s"
| "flow_error_display (InvalidHumanReadableId s) = ''invalid human-readable id: '' @ s"
| "flow_error_display (InvalidDefinition s) = ''invalid definition: '' @ s"
| "flow_error_display (Serialization s) = ''serialization error: '' @ s"
| "flow_error_display (IoError s) = ''io error: '' @ s"
| "flow_error_display (StepPanic s) = s"

section \<open>Definitions of flows and sessions\<close>

text \<open>
  A \<open>HashMap\<close> is an association list read by \<open>map_of\<close>; the order of its entries stands
  for the map's unspecified iteration order.
\<close>

record retry_config =
  rc_max :: int
  rc_delay_ms :: nat

definition default_max_retries :: int where
  "default_max_retries = 3"

definition default_delay_ms :: nat where
  "default_delay_ms = 1000"

definition default_retry_config :: retry_config where
  "default_retry_config = \<lparr>rc_max = default_max_retries, rc_delay_ms = default_delay_ms\<rparr>"

record step_transition =
  tr_on_success :: string
  tr_on_failure :: "string option"
  tr_branches :: "(string \<times> string) list"

record flow_step_definition =
  fsd_action :: string
  fsd_actor :: actor
  fsd_config :: "json option"
  fsd_retry :: "retry_config option"
  fsd_next :: "string option"
  fsd_ok :: "string option"
  fsd_fail :: "string option"
  fsd_branches :: "(string \<times> string) list"

record flow_definition =
  fd_flow_type :: string
  fd_human_id_prefix :: string
  fd_feature :: "string option"
  fd_initial_step :: string
  fd_steps :: "(string \<times> flow_step_definition) list"

record session_definition =
  sd_session_type :: string
  sd_human_id_prefix :: string
  sd_feature :: "string option"
  sd_allowed_flows :: "string list"

definition get_step_retry_config :: "flow_definition \<Rightarrow> string \<Rightarrow> retry_config" where
  "get_step_retry_config fd step_name =
     (case map_of (fd_steps fd) step_name of
        None \<Rightarrow> default_retry_config
      | Some s \<Rightarrow> (case fsd_retry s of None \<Rightarrow> default_retry_config | Some r \<Rightarrow> r))"

section \<open>Step contexts and outcomes\<close>

text \<open>
  The services of a step: an optional upload storage (given by its URL generator), the
  presence of the user lookup and user contact services, which the server backs with its
  user repository, and the step's configuration.
\<close>

record upload_url_result =
  up_url :: string
  up_key :: string
  up_headers :: "(string \<times> string) list"

record step_services =
  svc_storage :: "(string \<Rightarrow> string \<Rightarrow> string + upload_url_result) option"
  svc_user_lookup :: bool
  svc_user_contact :: bool
  svc_config :: "jmap option"

record step_context =
  cx_session_id :: string
  cx_session_user_id :: "string option"
  cx_flow_id :: string
  cx_step_id :: string
  cx_input :: json
  cx_session_context :: json
  cx_flow_context :: json
  cx_services :: step_services

definition session_config :: "step_context \<Rightarrow> string \<Rightarrow> json option" where
  "session_config cx key = json_get key (cx_session_context cx)"

definition flow_config :: "step_context \<Rightarrow> string \<Rightarrow> json option" where
  "flow_config cx key = json_get key (cx_flow_context cx)"

definition flow_pointer :: "step_context \<Rightarrow> string \<Rightarrow> json option" where
  "flow_pointer cx p = pointer p (cx_flow_context cx)"

definition session_pointer :: "step_context \<Rightarrow> string \<Rightarrow> json option" where
  "session_pointer cx p = pointer p (cx_session_context cx)"

definition previous_step_output :: "step_context \<Rightarrow> string \<Rightarrow> json option" where
  "previous_step_output cx step_type =
     Option.bind (json_get ''step_output'' (cx_flow_context cx)) (json_get step_type)"

definition step_output_pointer :: "step_context \<Rightarrow> string \<Rightarrow> string \<Rightarrow> json option" where
  "step_output_pointer cx step_name p =
     (case Option.bind (json_get ''step_output'' (cx_flow_context cx)) (json_get step_name) of
        None \<Rightarrow> None
      | Some base \<Rightarrow>
          (case p of
             [] \<Rightarrow> Some base
           | c # _ \<Rightarrow> if c = CHR ''/'' then pointer p base else json_get p base))"

record context_updates =
  cu_session_context_patch :: "json option"
  cu_flow_context_patch :: "json option"
  cu_user_metadata_patch :: "json option"
  cu_user_metadata_eager_patch :: "json option"
  cu_notifications :: "json list option"

definition no_updates :: context_updates where
  "no_updates = \<lparr>cu_session_context_patch = None, cu_flow_context_patch = None,
     cu_user_metadata_patch = None, cu_user_metadata_eager_patch = None, cu_notifications = None\<rparr>"

text \<open>A retry delay is counted in milliseconds.\<close>

datatype step_outcome =
    Done "json option" "context_updates option"
  | Branched string "json option" "context_updates option"
  | Waiting actor
  | Failed string bool
  | Retry nat

section \<open>Human-readable ids\<close>

fun hid_normalize :: "string list \<Rightarrow> flow_error + string list" where
  "hid_normalize [] = Inr []"
| "hid_normalize (part # parts) =
     (let trimmed = trim part
      in if trimmed = [] \<or> CHR ''.'' \<in> set trimmed then Inl (InvalidHumanReadableId trimmed)
         else bindR (hid_normalize parts) (\<lambda>ps. Inr (trimmed # ps)))"

definition hid_new :: "string list \<Rightarrow> flow_error + string" where
  "hid_new parts =
     (if parts = [] then Inl (InvalidHumanReadableId ''id must contain at least one part'')
      else bindR (hid_normalize parts) (\<lambda>normalized. Inr (join ''.'' normalized)))"

definition hid_parts :: "string \<Rightarrow> string list" where
  "hid_parts h = split_on (CHR ''.'') h"

definition hid_parse :: "string \<Rightarrow> flow_error + string" where
  "hid_parse raw = hid_new (split_on (CHR ''.'') raw)"

definition hid_parent :: "string \<Rightarrow> string option" where
  "hid_parent h =
     (let parts = hid_parts h
      in if length parts \<le> 1 then None
         else (case hid_new (butlast parts) of Inr p \<Rightarrow> Some p | Inl _ \<Rightarrow> None))"

definition hid_with_suffix :: "string \<Rightarrow> string \<Rightarrow> flow_error + string" where
  "hid_with_suffix h sfx = hid_new (hid_parts h @ [sfx])"

text \<open>The parts an accepted id is made of.\<close>

definition hid_part_ok :: "string \<Rightarrow> bool" where
  "hid_part_ok p \<longleftrightarrow> p \<noteq> [] \<and> CHR ''.'' \<notin> set p \<and> trim p = p"

definition hid_ok :: "string \<Rightarrow> bool" where
  "hid_ok h \<longleftrightarrow> (\<forall>p\<in>set (hid_parts h). hid_part_ok p)"

lemma hid_normalize_ok: "hid_normalize ps = Inr qs \<Longrightarrow> qs = map trim ps \<and> (\<forall>q\<in>set qs. hid_part_ok q)"
proof (induction ps arbitrary: qs)
  case (Cons p ps)
  then obtain rs where "hid_normalize ps = Inr rs" "qs = trim p # rs" "hid_part_ok (trim p)"
    by (auto simp: Let_def bindR_Inr_iff hid_part_ok_def split: if_splits)
  with Cons.IH[of rs] show ?case by simp
qed simp

lemma hid_normalize_id: "\<forall>p\<in>set ps. hid_part_ok p \<Longrightarrow> hid_normalize ps = Inr ps"
  by (induction ps) (auto simp: hid_part_ok_def)

lemma hid_parts_join: "ps \<noteq> [] \<Longrightarrow> \<forall>p\<in>set ps. hid_part_ok p \<Longrightarrow> hid_parts (join ''.'' ps) = ps"
  unfolding hid_parts_def by (rule split_on_join) (auto simp: hid_part_ok_def)

lemma hid_new_ok:
  assumes "hid_new ps = Inr h"
  shows "hid_parts h = map trim ps" "hid_ok h"
proof -
  from assms obtain qs where ne: "ps \<noteq> []" and qs: "hid_normalize ps = Inr qs"
    and h: "h = join ''.'' qs"
    by (auto simp: hid_new_def bindR_Inr_iff split: if_splits)
  from hid_normalize_ok[OF qs] ne have "qs \<noteq> []" "\<forall>q\<in>set qs. hid_part_ok q" by auto
  then have "hid_parts h = qs" unfolding h by (rule hid_parts_join)
  with hid_normalize_ok[OF qs] show "hid_parts h = map trim ps" "hid_ok h"
    by (auto simp: hid_ok_def)
qed

lemma hid_new_id:
  "ps \<noteq> [] \<Longrightarrow> \<forall>p\<in>set ps. hid_part_ok p \<Longrightarrow> hid_new ps = Inr (join ''.'' ps)"
  by (simp add: hid_new_def hid_normalize_id)

lemma join_hid_parts: "join [d] (split_on d s) = s"
proof (induction s)
  case (Cons c s)
  obtain p ps where "split_on d s = p # ps"
    by (cases "split_on d s") auto
  with Cons show ?case
    by (cases ps) auto
qed simp

lemma hid_ok_parse: "hid_ok h \<Longrightarrow> hid_parse h = Inr h"
  using join_hid_parts[of "CHR ''.''" h]
  by (simp add: hid_parse_def hid_ok_def hid_parts_def hid_new_id)

lemma hid_parse_ok: "hid_parse raw = Inr h \<Longrightarrow> hid_ok h"
  unfolding hid_parse_def by (rule hid_new_ok(2))

section \<open>Properties\<close>

text \<open>
  An id accepted by the parser consists of non-empty, trimmed parts without dots, and the
  printed id parses to itself.
\<close>

lemma hid_parse_normal:
  assumes "hid_parse raw = Inr h"
  shows "hid_ok h \<and> hid_parse h = Inr h"
  using hid_parse_ok[OF assms] hid_ok_parse by blast

lemma hid_parse_normal_witness:
  "hid_ok ''kyc.2026'' \<and> hid_parse ''kyc.2026'' = Inr ''kyc.2026''"
proof -
  have "hid_parse '' kyc . 2026'' = Inr ''kyc.2026''" by code_simp
  from hid_parse_normal[OF this] show ?thesis .
qed

text \<open>
  The parent of an id extended by a suffix is the id itself, so the id of a step names
  the flow it belongs to.
\<close>

lemma hid_parent_with_suffix:
  assumes "hid_parse raw = Inr h" "hid_with_suffix h sfx = Inr h'"
  shows "hid_parent h' = Some h"
proof -
  have ok: "hid_ok h" and parts: "hid_parts h \<noteq> []"
    using hid_parse_ok[OF assms(1)] by (auto simp: hid_parts_def)
  then have "map trim (hid_parts h) = hid_parts h"
    by (intro map_idI) (auto simp: hid_ok_def hid_part_ok_def)
  moreover have "hid_parts h' = map trim (hid_parts h @ [sfx])"
    using assms(2) hid_new_ok(1) unfolding hid_with_suffix_def by blast
  ultimately have "hid_parts h' = hid_parts h @ [trim sfx]" by simp
  moreover have "hid_new (hid_parts h) = Inr h"
    using hid_ok_parse[OF ok] by (simp add: hid_parse_def hid_parts_def)
  ultimately show ?thesis
    using parts by (auto simp: hid_parent_def Let_def)
qed

lemma hid_parent_with_suffix_witness:
  "hid_parent ''kyc.phone.verify-1'' = Some ''kyc.phone''"
proof -
  have "hid_parse ''kyc.phone'' = Inr ''kyc.phone''"
    and "hid_with_suffix ''kyc.phone'' ''verify-1'' = Inr ''kyc.phone.verify-1''"
    by code_simp+
  from hid_parent_with_suffix[OF this] show ?thesis .
qed

end
