(* ===== verification/Flow_Registry.thy ===== *)
theory Flow_Registry
  imports Flow_Sdk
begin

text \<open>
  Import and validation of flow definitions (\<open>backend-flow-sdk/src/import.rs\<close>), the registry
  of steps, flows and sessions (\<open>registry.rs\<close>), the configuration loader (\<open>loader.rs\<close>) and
  the server's registration of YAML flows as proxy steps and transitions
  (\<open>backend-server/src/flows/registry.rs\<close>), with the transition function of
  \<open>flows/runtime.rs\<close>. The type parameter is the implementation of the built-in steps, which
  the action theories supply. The deserialisers of \<open>serde_json\<close> and \<open>serde_yaml\<close>, the
  environment substitution and the file system are parameters.
\<close>

section \<open>Import\<close>

datatype import_format = JsonFormat | YamlFormat

text \<open>\<open>Path::extension\<close>: what follows the last dot of the file name, unless that dot starts it.\<close>

definition path_extension :: "string \<Rightarrow> string option" where
  "path_extension path =
     (let parts = split_on (CHR ''.'') (last (split_on (CHR ''/'') path))
      in if length parts \<le> 1 \<or> (length parts = 2 \<and> hd parts = []) then None else Some (last parts))"

definition import_format_from_path :: "string \<Rightarrow> import_format" where
  "import_format_from_path path =
     (if path_extension path = Some ''json'' then JsonFormat else YamlFormat)"

definition is_terminal_target :: "string \<Rightarrow> bool" where
  "is_terminal_target target \<longleftrightarrow>
     to_ascii_uppercase target \<in> {''FAILED'', ''END'', ''COMPLETE'', ''COMPLETED'', ''CLOSED''}"

definition step_targets :: "flow_step_definition \<Rightarrow> string list" where
  "step_targets s =
     (case fsd_next s of None \<Rightarrow> [] | Some t \<Rightarrow> [t])
     @ (case fsd_ok s of None \<Rightarrow> [] | Some t \<Rightarrow> [t])
     @ (case fsd_fail s of None \<Rightarrow> [] | Some t \<Rightarrow> [t])
     @ map snd (fsd_branches s)"

text \<open>A loop that returns the first error of the elements it visits.\<close>

fun check_each :: "('a \<Rightarrow> 'e option) \<Rightarrow> 'a list \<Rightarrow> 'e + unit" where
  "check_each f [] = Inr ()"
| "check_each f (x # xs) = (case f x of Some e \<Rightarrow> Inl e | None \<Rightarrow> check_each f xs)"

definition check_action :: "string \<times> flow_step_definition \<Rightarrow> flow_error option" where
  "check_action = (\<lambda>(name, s).
     if trim (fsd_action s) = []
     then Some (InvalidDefinition (''step '' @ quoted name @ '' action cannot be empty''))
     else None)"

definition check_target :: "flow_definition \<Rightarrow> string \<times> string \<Rightarrow> flow_error option" where
  "check_target fd = (\<lambda>(name, target).
     if \<not> is_terminal_target target \<and> target \<notin> fst ` set (fd_steps fd)
     then Some (InvalidDefinition (''step '' @ quoted name @ '' points to unknown target '' @ quoted target))
     else None)"

definition validate_flow_definition :: "flow_definition \<Rightarrow> flow_error + unit" where
  "validate_flow_definition fd =
     (if trim (fd_flow_type fd) = [] then Inl (InvalidDefinition ''flow_type cannot be empty'')
      else if fd_steps fd = [] then Inl (InvalidDefinition ''steps cannot be empty'')
      else bindR (check_each check_action (fd_steps fd)) (\<lambda>_.
        if fd_initial_step fd \<notin> fst ` set (fd_steps fd)
        then Inl (InvalidDefinition (''initial_step '' @ quoted (fd_initial_step fd) @ '' not found in steps''))
        else check_each (check_target fd)
               (concat (map (\<lambda>(name, s). map (Pair name) (step_targets s)) (fd_steps fd)))))"

definition import_flow_definition ::
    "(import_format \<Rightarrow> string \<Rightarrow> string + flow_definition) \<Rightarrow> string \<Rightarrow> import_format
     \<Rightarrow> flow_error + flow_definition" where
  "import_flow_definition parse content format =
     bindR (map_errR Serialization (parse format content)) (\<lambda>fd.
     bindR (validate_flow_definition fd) (\<lambda>_. Inr fd))"

definition import_session_definition ::
    "(import_format \<Rightarrow> string \<Rightarrow> string + session_definition) \<Rightarrow> string \<Rightarrow> import_format
     \<Rightarrow> flow_error + session_definition" where
  "import_session_definition parse content format =
     bindR (map_errR Serialization (parse format content)) (\<lambda>sd.
       if trim (sd_session_type sd) = [] then Inl (InvalidDefinition ''session_type cannot be empty'')
       else Inr sd)"

section \<open>The registry\<close>

text \<open>A proxy step gives a built-in step the name, actor and configuration of a definition.\<close>

record 'st proxy_step =
  ps_step_type :: string
  ps_actor :: actor
  ps_human_id :: string
  ps_feature :: "string option"
  ps_config :: "json option"
  ps_inner :: 'st

record 'st dynamic_flow =
  df_flow_type :: string
  df_human_id :: string
  df_feature :: "string option"
  df_steps :: "'st proxy_step list"
  df_initial_step :: string
  df_transitions :: "(string \<times> step_transition) list"

record 'st flow_registry =
  fr_steps :: "(string \<times> 'st) list"
  fr_flows :: "(string \<times> 'st dynamic_flow) list"
  fr_flow_definitions :: "(string \<times> flow_definition) list"
  fr_sessions :: "(string \<times> session_definition) list"

definition hm_insert :: "'k \<Rightarrow> 'v \<Rightarrow> ('k \<times> 'v) list \<Rightarrow> ('k \<times> 'v) list" where
  "hm_insert k v m = (k, v) # filter (\<lambda>e. fst e \<noteq> k) m"

definition empty_registry :: "'st flow_registry" where
  "empty_registry = \<lparr>fr_steps = [], fr_flows = [], fr_flow_definitions = [], fr_sessions = []\<rparr>"

definition register_step :: "'st flow_registry \<Rightarrow> string \<Rightarrow> 'st \<Rightarrow> 'st flow_registry" where
  "register_step r name st = r\<lparr>fr_steps := hm_insert name st (fr_steps r)\<rparr>"

definition register_flow :: "'st flow_registry \<Rightarrow> 'st dynamic_flow \<Rightarrow> 'st flow_registry" where
  "register_flow r f = r\<lparr>fr_flows := hm_insert (df_flow_type f) f (fr_flows r)\<rparr>"

definition register_session :: "'st flow_registry \<Rightarrow> session_definition \<Rightarrow> 'st flow_registry" where
  "register_session r sd = r\<lparr>fr_sessions := hm_insert (sd_session_type sd) sd (fr_sessions r)\<rparr>"

definition register_definition :: "'st flow_registry \<Rightarrow> flow_definition \<Rightarrow> 'st flow_registry" where
  "register_definition r fd =
     r\<lparr>fr_flow_definitions := hm_insert (fd_flow_type fd) fd (fr_flow_definitions r)\<rparr>"

definition get_step_arc :: "'st flow_registry \<Rightarrow> string \<Rightarrow> 'st option" where
  "get_step_arc r name = map_of (fr_steps r) name"

definition get_flow :: "'st flow_registry \<Rightarrow> string \<Rightarrow> 'st dynamic_flow option" where
  "get_flow r flow_type = map_of (fr_flows r) flow_type"

definition get_flow_definition :: "'st flow_registry \<Rightarrow> string \<Rightarrow> flow_definition option" where
  "get_flow_definition r flow_type = map_of (fr_flow_definitions r) flow_type"

definition get_session_definition :: "'st flow_registry \<Rightarrow> string \<Rightarrow> session_definition option" where
  "get_session_definition r session_type = map_of (fr_sessions r) session_type"

text \<open>
  \<open>validate_features\<close> visits steps, then flows, then sessions, and returns the first item whose
  feature is not enabled. The feature of a built-in step is a parameter.
\<close>

definition check_feature :: "string list \<Rightarrow> string \<Rightarrow> string \<times> string option \<Rightarrow> flow_error option" where
  "check_feature enabled kind = (\<lambda>(item, feature).
     (case feature of
        None \<Rightarrow> None
      | Some f \<Rightarrow> if f \<in> set enabled then None else Some (FeatureNotEnabled f kind item)))"

definition validate_features ::
    "('st \<Rightarrow> string option) \<Rightarrow> 'st flow_registry \<Rightarrow> string list \<Rightarrow> flow_error + unit" where
  "validate_features feature r enabled =
     bindR (check_each (check_feature enabled ''step'') (map (\<lambda>(n, st). (n, feature st)) (fr_steps r))) (\<lambda>_.
     bindR (check_each (check_feature enabled ''flow'')
              (map (\<lambda>(_, f). (df_flow_type f, df_feature f)) (fr_flows r))) (\<lambda>_.
     check_each (check_feature enabled ''session'')
       (map (\<lambda>(_, s). (sd_session_type s, sd_feature s)) (fr_sessions r))))"

section \<open>The configuration loader\<close>

record loaded_configs =
  lc_flows :: "flow_definition list"
  lc_sessions :: "session_definition list"

text \<open>
  \<open>load_flow_file\<close>: read, substitute the environment, import by the format of the extension.
  \<open>load_flows_from_dir\<close> goes through the files the three patterns match (in that order) and
  keeps what imports; a file that cannot be read or imported is only logged.
\<close>

definition load_flow_file ::
    "(string \<Rightarrow> string + string) \<Rightarrow> (string \<Rightarrow> string)
     \<Rightarrow> (import_format \<Rightarrow> string \<Rightarrow> string + flow_definition) \<Rightarrow> string \<Rightarrow> flow_error + flow_definition" where
  "load_flow_file read subst parse path =
     bindR (map_errR IoError (read path)) (\<lambda>content.
       import_flow_definition parse (subst content) (import_format_from_path path))"

definition load_session_file ::
    "(string \<Rightarrow> string + string) \<Rightarrow> (string \<Rightarrow> string)
     \<Rightarrow> (import_format \<Rightarrow> string \<Rightarrow> string + session_definition) \<Rightarrow> string \<Rightarrow> flow_error + session_definition" where
  "load_session_file read subst parse path =
     bindR (map_errR IoError (read path)) (\<lambda>content.
       import_session_definition parse (subst content) (import_format_from_path path))"

definition keep_ok :: "('a \<Rightarrow> 'e + 'b) \<Rightarrow> 'a list \<Rightarrow> 'b list" where
  "keep_ok f xs = concat (map (\<lambda>x. case f x of Inl _ \<Rightarrow> [] | Inr y \<Rightarrow> [y]) xs)"

definition load_flows_from_dir ::
    "(string \<Rightarrow> string list) \<Rightarrow> (string \<Rightarrow> string + string) \<Rightarrow> (string \<Rightarrow> string)
     \<Rightarrow> (import_format \<Rightarrow> string \<Rightarrow> string + flow_definition) \<Rightarrow> flow_definition list" where
  "load_flows_from_dir glob read subst parse =
     keep_ok (load_flow_file read subst parse) (concat (map glob [''*.yaml'', ''*.yml'', ''*.json'']))"

definition load_sessions_from_dir ::
    "(string \<Rightarrow> string list) \<Rightarrow> (string \<Rightarrow> string + string) \<Rightarrow> (string \<Rightarrow> string)
     \<Rightarrow> (import_format \<Rightarrow> string \<Rightarrow> string + session_definition) \<Rightarrow> session_definition list" where
  "load_sessions_from_dir glob read subst parse =
     keep_ok (load_session_file read subst parse) (concat (map glob [''*.yaml'', ''*.yml'', ''*.json'']))"

text \<open>Replace the entry with the same key in place, or append.\<close>

fun override_one :: "('a \<Rightarrow> 'k) \<Rightarrow> 'a list \<Rightarrow> 'a \<Rightarrow> 'a list" where
  "override_one key [] x = [x]"
| "override_one key (y # ys) x = (if key y = key x then x # ys else y # override_one key ys x)"

definition load_with_override :: "loaded_configs \<Rightarrow> loaded_configs \<Rightarrow> loaded_configs" where
  "load_with_override fs embedded =
     \<lparr>lc_flows = foldl (override_one fd_flow_type) (lc_flows embedded) (lc_flows fs),
      lc_sessions = foldl (override_one sd_session_type) (lc_sessions embedded) (lc_sessions fs)\<rparr>"

definition already_exists :: "string \<Rightarrow> string \<Rightarrow> flow_error" where
  "already_exists kind name = InvalidDefinition (kind @ '' '' @ quoted name @ '' already exists in registry'')"

definition loader_register_flow :: "'st flow_registry \<Rightarrow> flow_definition \<Rightarrow> flow_error + 'st flow_registry" where
  "loader_register_flow r fd =
     (if get_flow_definition r (fd_flow_type fd) \<noteq> None then Inl (already_exists ''Flow'' (fd_flow_type fd))
      else Inr (register_definition r fd))"

definition loader_register_session ::
    "'st flow_registry \<Rightarrow> session_definition \<Rightarrow> flow_error + 'st flow_registry" where
  "loader_register_session r sd =
     (if get_session_definition r (sd_session_type sd) \<noteq> None
      then Inl (already_exists ''Session'' (sd_session_type sd))
      else Inr (register_session r sd))"

definition ignore_err :: "('r \<Rightarrow> 'a \<Rightarrow> 'e + 'r) \<Rightarrow> 'r \<Rightarrow> 'a \<Rightarrow> 'r" where
  "ignore_err f r x = (case f r x of Inl _ \<Rightarrow> r | Inr r' \<Rightarrow> r')"

definition register_all :: "'st flow_registry \<Rightarrow> loaded_configs \<Rightarrow> 'st flow_registry" where
  "register_all r configs =
     foldl (ignore_err loader_register_session)
       (foldl (ignore_err loader_register_flow) r (lc_flows configs)) (lc_sessions configs)"

section \<open>Registration of flow definitions in the server\<close>

definition proxy_of :: "string \<Rightarrow> flow_step_definition \<Rightarrow> 'st \<Rightarrow> 'st proxy_step" where
  "proxy_of name s base = \<lparr>ps_step_type = name, ps_actor = fsd_actor s, ps_human_id = name,
     ps_feature = None, ps_config = fsd_config s, ps_inner = base\<rparr>"

definition transition_of :: "flow_step_definition \<Rightarrow> step_transition" where
  "transition_of s =
     \<lparr>tr_on_success = (case fsd_next s of
         Some t \<Rightarrow> t
       | None \<Rightarrow> (case fsd_ok s of Some t \<Rightarrow> t | None \<Rightarrow> ''COMPLETED'')),
      tr_on_failure = fsd_fail s, tr_branches = fsd_branches s\<rparr>"

fun proxy_steps_of ::
    "'st flow_registry \<Rightarrow> string \<Rightarrow> (string \<times> flow_step_definition) list \<Rightarrow> flow_error + 'st proxy_step list" where
  "proxy_steps_of r flow_type [] = Inr []"
| "proxy_steps_of r flow_type ((name, s) # rest) =
     (case get_step_arc r (fsd_action s) of
        None \<Rightarrow> Inl (InvalidDefinition (''Flow '' @ quoted flow_type @ '' references unknown action ''
                       @ quoted (fsd_action s)))
      | Some base \<Rightarrow>
          bindR (proxy_steps_of r flow_type rest) (\<lambda>ps. Inr (proxy_of name s base # ps)))"

definition register_flow_definition ::
    "'st flow_registry \<Rightarrow> flow_definition \<Rightarrow> flow_error + 'st flow_registry" where
  "register_flow_definition r fd =
     (if get_flow r (fd_flow_type fd) \<noteq> None then Inl (already_exists ''Flow'' (fd_flow_type fd))
      else bindR (proxy_steps_of r (fd_flow_type fd) (fd_steps fd)) (\<lambda>proxies.
        Inr (register_flow (register_definition r fd)
          \<lparr>df_flow_type = fd_flow_type fd, df_human_id = fd_human_id_prefix fd, df_feature = fd_feature fd,
           df_steps = proxies, df_initial_step = fd_initial_step fd,
           df_transitions = map (\<lambda>(name, s). (name, transition_of s)) (fd_steps fd)\<rparr>)))"

definition apply_session_import ::
    "'st flow_registry \<Rightarrow> session_definition \<Rightarrow> flow_error + 'st flow_registry" where
  "apply_session_import r sd =
     (if get_session_definition r (sd_session_type sd) \<noteq> None
      then Inl (already_exists ''Session'' (sd_session_type sd))
      else Inr (register_session r sd))"

fun fold_res :: "('r \<Rightarrow> 'a \<Rightarrow> 'e + 'r) \<Rightarrow> 'r \<Rightarrow> 'a list \<Rightarrow> 'e + 'r" where
  "fold_res f r [] = Inr r"
| "fold_res f r (x # xs) = bindR (f r x) (\<lambda>r'. fold_res f r' xs)"

definition build_registry ::
    "(string \<times> 'st) list \<Rightarrow> loaded_configs \<Rightarrow> loaded_configs \<Rightarrow> flow_error + 'st flow_registry" where
  "build_registry builtins yaml imports =
     (let r0 = foldl (\<lambda>r (name, st). register_step r name st) empty_registry builtins in
      bindR (fold_res register_flow_definition r0 (lc_flows yaml)) (\<lambda>r1.
      let r2 = foldl register_session r1 (lc_sessions yaml) in
      bindR (fold_res register_flow_definition r2 (lc_flows imports)) (\<lambda>r3.
      fold_res apply_session_import r3 (lc_sessions imports))))"

definition resolve_transition ::
    "'st dynamic_flow \<Rightarrow> string \<Rightarrow> string option \<Rightarrow> bool \<Rightarrow> string option" where
  "resolve_transition f step_type branch failed =
     (case map_of (df_transitions f) step_type of
        None \<Rightarrow> None
      | Some t \<Rightarrow>
          (case Option.bind branch (map_of (tr_branches t)) of
             Some target \<Rightarrow> Some target
           | None \<Rightarrow> if failed then tr_on_failure t else Some (tr_on_success t)))"

definition has_flow_step :: "'st dynamic_flow \<Rightarrow> string \<Rightarrow> bool" where
  "has_flow_step f step_type \<longleftrightarrow> (\<exists>s\<in>set (df_steps f). ps_step_type s = step_type)"

section \<open>Lemmas\<close>

lemma map_of_hm_insert [simp]: "map_of (hm_insert k v m) = (map_of m)(k \<mapsto> v)"
  using map_of_obj_remove[of k m] by (auto simp: hm_insert_def obj_remove_def)

lemma check_each_ok: "check_each f xs = Inr () \<longleftrightarrow> (\<forall>x\<in>set xs. f x = None)"
  by (induction xs) (auto split: option.splits)

definition closed_definition :: "flow_definition \<Rightarrow> bool" where
  "closed_definition fd \<longleftrightarrow>
     fd_initial_step fd \<in> fst ` set (fd_steps fd)
     \<and> (\<forall>(name, s)\<in>set (fd_steps fd). \<forall>t\<in>set (step_targets s).
          is_terminal_target t \<or> t \<in> fst ` set (fd_steps fd))"

lemma validate_flow_definition_ok:
  assumes "validate_flow_definition fd = Inr ()"
  shows "closed_definition fd"
proof -
  have init: "fd_initial_step fd \<in> fst ` set (fd_steps fd)"
    and each: "check_each (check_target fd)
      (concat (map (\<lambda>(name, s). map (Pair name) (step_targets s)) (fd_steps fd))) = Inr ()"
    using assms by (auto simp: validate_flow_definition_def bindR_Inr_iff split: if_splits)
  have "is_terminal_target t \<or> t \<in> fst ` set (fd_steps fd)"
    if "(name, s) \<in> set (fd_steps fd)" "t \<in> set (step_targets s)" for name s t
  proof -
    have "check_target fd (name, t) = None"
      using each that unfolding check_each_ok by fastforce
    then show ?thesis by (auto simp: check_target_def split: if_splits)
  qed
  with init show ?thesis by (auto simp: closed_definition_def)
qed

lemma proxy_steps_of_names:
  "proxy_steps_of r ft steps = Inr ps \<Longrightarrow> map ps_step_type ps = map fst steps"
  by (induction r ft steps arbitrary: ps rule: proxy_steps_of.induct)
     (auto simp: bindR_Inr_iff proxy_of_def split: option.splits)

lemma has_flow_step_names: "has_flow_step f t \<longleftrightarrow> t \<in> set (map ps_step_type (df_steps f))"
  by (auto simp: has_flow_step_def)

lemma register_flow_definition_ok:
  assumes "register_flow_definition r fd = Inr r'"
  obtains f where "get_flow r (fd_flow_type fd) = None"
    and "r' = register_flow (register_definition r fd) f"
    and "df_flow_type f = fd_flow_type fd" "df_initial_step f = fd_initial_step fd"
    and "df_transitions f = map (\<lambda>(name, s). (name, transition_of s)) (fd_steps fd)"
    and "map ps_step_type (df_steps f) = map fst (fd_steps fd)"
  using assms
  by (auto simp: register_flow_definition_def bindR_Inr_iff proxy_steps_of_names split: if_splits)

lemma get_after_registration [simp]:
  "get_flow (register_flow r f) t = (if t = df_flow_type f then Some f else get_flow r t)"
  "get_flow (register_definition r fd) t = get_flow r t"
  "get_flow (register_session r sd) t = get_flow r t"
  "get_flow_definition (register_flow r f) t = get_flow_definition r t"
  "get_flow_definition (register_definition r fd) t =
     (if t = fd_flow_type fd then Some fd else get_flow_definition r t)"
  "get_flow_definition (register_session r sd) t = get_flow_definition r t"
  "get_session_definition (register_flow r f) t = get_session_definition r t"
  "get_session_definition (register_definition r fd) t = get_session_definition r t"
  by (simp_all add: get_flow_def get_flow_definition_def get_session_definition_def
      register_flow_def register_definition_def register_session_def)

lemma map_of_transitions:
  "map_of (map (\<lambda>(name, s). (name, transition_of s)) steps) st
   = map_option transition_of (map_of steps st)"
  by (induction steps) auto

lemma transition_targets:
  assumes "resolve_transition f st branch failed = Some t"
    and "df_transitions f = map (\<lambda>(name, s). (name, transition_of s)) steps"
  shows "\<exists>s. (st, s) \<in> set steps \<and> (t \<in> set (step_targets s) \<or> t = ''COMPLETED'')"
proof -
  from assms obtain s where s: "map_of steps st = Some s"
    and t: "(case Option.bind branch (map_of (tr_branches (transition_of s))) of
          Some target \<Rightarrow> Some target
        | None \<Rightarrow> if failed then tr_on_failure (transition_of s)
                  else Some (tr_on_success (transition_of s))) = Some t"
    by (auto simp: resolve_transition_def map_of_transitions split: option.splits)
  have "t \<in> set (step_targets s) \<or> t = ''COMPLETED''"
    using t by (auto simp: transition_of_def step_targets_def bind_eq_Some_conv
        split: option.splits if_splits dest!: map_of_SomeD intro: rev_image_eqI)
  with s show ?thesis by (auto dest: map_of_SomeD)
qed

lemma fold_register_flow_definition:
  "fold_res register_flow_definition r fds = Inr r' \<Longrightarrow>
   distinct (map fd_flow_type fds)
   \<and> (\<forall>fd\<in>set fds. get_flow r (fd_flow_type fd) = None
        \<and> get_flow_definition r' (fd_flow_type fd) = Some fd \<and> get_flow r' (fd_flow_type fd) \<noteq> None)
   \<and> (\<forall>t. t \<notin> fd_flow_type ` set fds \<longrightarrow>
        get_flow r' t = get_flow r t \<and> get_flow_definition r' t = get_flow_definition r t)"
proof (induction fds arbitrary: r)
  case (Cons fd fds)
  then obtain r1 where r1: "register_flow_definition r fd = Inr r1"
    and rest: "fold_res register_flow_definition r1 fds = Inr r'"
    by (auto simp: bindR_Inr_iff)
  from r1 obtain f where f: "get_flow r (fd_flow_type fd) = None" "df_flow_type f = fd_flow_type fd"
    and r1_eq: "r1 = register_flow (register_definition r fd) f"
    by (rule register_flow_definition_ok)
  note IH = Cons.IH[OF rest]
  have new: "get_flow r1 (fd_flow_type fd) \<noteq> None" "get_flow_definition r1 (fd_flow_type fd) = Some fd"
    and other: "\<And>t. t \<noteq> fd_flow_type fd \<Longrightarrow>
      get_flow r1 t = get_flow r t \<and> get_flow_definition r1 t = get_flow_definition r t"
    using f by (simp_all add: r1_eq)
  have notin: "fd_flow_type fd \<notin> fd_flow_type ` set fds"
    using IH new(1) by auto
  have rest_other: "get_flow r (fd_flow_type fd') = None" if "fd' \<in> set fds" for fd'
    using that notin IH other[of "fd_flow_type fd'"] by force
  show ?case
    using IH f(1) new other notin rest_other by auto
qed simp

lemma foldl_register_session_flows [simp]:
  "get_flow (foldl register_session r sds) t = get_flow r t"
  "get_flow_definition (foldl register_session r sds) t = get_flow_definition r t"
  by (induction sds arbitrary: r) simp_all

lemma fold_apply_session_import_flows:
  "fold_res apply_session_import r sds = Inr r' \<Longrightarrow>
   get_flow r' t = get_flow r t \<and> get_flow_definition r' t = get_flow_definition r t"
  by (induction sds arbitrary: r) (auto simp: bindR_Inr_iff apply_session_import_def split: if_splits)

lemma find_override_one:
  "List.find (\<lambda>y. key y = k) (override_one key ys x)
   = (if key x = k then Some x else List.find (\<lambda>y. key y = k) ys)"
  by (induction ys) auto

lemma find_foldl_override:
  "List.find (\<lambda>y. key y = k) (foldl (override_one key) ys xs)
   = (case List.find (\<lambda>x. key x = k) (rev xs) of Some x \<Rightarrow> Some x | None \<Rightarrow> List.find (\<lambda>y. key y = k) ys)"
proof (induction xs arbitrary: ys rule: rev_induct)
  case (snoc x xs)
  then show ?case by (simp add: find_override_one)
qed simp

section \<open>Properties\<close>

text \<open>
  C29: a flow definition that passes validation and registers is closed: it has its initial
  step, and whatever step a run is at and however that step ends, the transition leads to a
  terminal target or to a step of the flow. A step that succeeds always has a transition.
\<close>

theorem registered_flow_closed:
  assumes "validate_flow_definition fd = Inr ()" "register_flow_definition r fd = Inr r'"
  shows "\<exists>f. get_flow r' (fd_flow_type fd) = Some f
    \<and> has_flow_step f (df_initial_step f)
    \<and> (\<forall>st branch failed t. resolve_transition f st branch failed = Some t \<longrightarrow>
          is_terminal_target t \<or> has_flow_step f t)
    \<and> (\<forall>st branch. has_flow_step f st \<longrightarrow> resolve_transition f st branch False \<noteq> None)"
proof -
  have closed: "closed_definition fd"
    using assms(1) by (rule validate_flow_definition_ok)
  from assms(2) obtain f where f: "r' = register_flow (register_definition r fd) f"
    "df_flow_type f = fd_flow_type fd" "df_initial_step f = fd_initial_step fd"
    and tr: "df_transitions f = map (\<lambda>(name, s). (name, transition_of s)) (fd_steps fd)"
    and names: "map ps_step_type (df_steps f) = map fst (fd_steps fd)"
    by (rule register_flow_definition_ok)
  have steps: "has_flow_step f t \<longleftrightarrow> t \<in> fst ` set (fd_steps fd)" for t
    unfolding has_flow_step_names names by simp
  have completed: "is_terminal_target ''COMPLETED''"
    by (simp add: is_terminal_target_def to_ascii_uppercase_def ascii_upper_def Let_def)
  have "is_terminal_target t \<or> has_flow_step f t"
    if "resolve_transition f st branch failed = Some t" for st branch failed t
    using transition_targets[OF that tr] closed completed
    unfolding steps closed_definition_def by fast
  moreover have "resolve_transition f st branch False \<noteq> None" if "has_flow_step f st" for st branch
    using that
    by (auto simp: steps resolve_transition_def tr map_of_transitions map_of_eq_None_iff
        split: option.splits intro: rev_image_eqI)
  moreover have "get_flow r' (fd_flow_type fd) = Some f" "has_flow_step f (df_initial_step f)"
    using closed f by (simp_all add: steps closed_definition_def)
  ultimately show ?thesis by blast
qed

text \<open>
  A registry that builds has registered every definition under its own flow type: no two
  flows of the YAML files and the imports share a type, and each is found again unchanged, so
  none is silently replaced.
\<close>

lemma build_registry_keeps_definitions:
  assumes "build_registry builtins yaml imports = Inr r"
  shows "distinct (map fd_flow_type (lc_flows yaml @ lc_flows imports))
    \<and> (\<forall>fd\<in>set (lc_flows yaml @ lc_flows imports).
         get_flow_definition r (fd_flow_type fd) = Some fd \<and> get_flow r (fd_flow_type fd) \<noteq> None)"
proof -
  let ?r0 = "foldl (\<lambda>r (name, st). register_step r name st) empty_registry builtins"
  from assms obtain r1 r3 where
    a: "fold_res register_flow_definition ?r0 (lc_flows yaml) = Inr r1"
    and b: "fold_res register_flow_definition (foldl register_session r1 (lc_sessions yaml))
              (lc_flows imports) = Inr r3"
    and c: "fold_res apply_session_import r3 (lc_sessions imports) = Inr r"
    by (auto simp: build_registry_def Let_def bindR_Inr_iff)
  note A = fold_register_flow_definition[OF a] and B = fold_register_flow_definition[OF b]
    and C = fold_apply_session_import_flows[OF c]
  have "fd_flow_type fd \<notin> fd_flow_type ` set (lc_flows imports)" if "fd \<in> set (lc_flows yaml)" for fd
    using A B that by auto
  with A B C show ?thesis by (auto 0 3)
qed

text \<open>
  A definition from the file system overrides the embedded one of the same type (the last
  one when several files define it), and every other embedded definition stays.
\<close>

lemma load_with_override_lookup:
  "List.find (\<lambda>f. fd_flow_type f = t) (lc_flows (load_with_override fs embedded))
     = (case List.find (\<lambda>f. fd_flow_type f = t) (rev (lc_flows fs)) of
          Some f \<Rightarrow> Some f
        | None \<Rightarrow> List.find (\<lambda>f. fd_flow_type f = t) (lc_flows embedded))
   \<and> List.find (\<lambda>s. sd_session_type s = t) (lc_sessions (load_with_override fs embedded))
     = (case List.find (\<lambda>s. sd_session_type s = t) (rev (lc_sessions fs)) of
          Some s \<Rightarrow> Some s
        | None \<Rightarrow> List.find (\<lambda>s. sd_session_type s = t) (lc_sessions embedded))"
  by (simp add: load_with_override_def find_foldl_override)

section \<open>Witnesses\<close>

definition example_step :: flow_step_definition where
  "example_step = \<lparr>fsd_action = ''NOOP'', fsd_actor = System, fsd_config = None, fsd_retry = None,
     fsd_next = None, fsd_ok = Some ''COMPLETE'', fsd_fail = Some ''start'', fsd_branches = []\<rparr>"

definition example_definition :: flow_definition where
  "example_definition = \<lparr>fd_flow_type = ''TEST_FLOW'', fd_human_id_prefix = ''test'', fd_feature = None,
     fd_initial_step = ''start'', fd_steps = [(''start'', example_step)]\<rparr>"

definition example_registry :: "nat flow_registry" where
  "example_registry = register_step empty_registry ''NOOP'' 0"

theorem registered_flow_closed_witness:
  "\<exists>r' f. register_flow_definition example_registry example_definition = Inr r'
     \<and> get_flow r' ''TEST_FLOW'' = Some f \<and> has_flow_step f (df_initial_step f)
     \<and> resolve_transition f ''start'' None False \<noteq> None"
proof -
  have v: "validate_flow_definition example_definition = Inr ()" by code_simp
  obtain r' where r: "register_flow_definition example_registry example_definition = Inr r'"
    by (simp add: register_flow_definition_def example_registry_def example_definition_def
        get_flow_def register_step_def empty_registry_def example_step_def get_step_arc_def)
  from registered_flow_closed[OF v r] obtain f
    where f: "get_flow r' (fd_flow_type example_definition) = Some f"
      and i: "has_flow_step f (df_initial_step f)"
      and t: "\<forall>st branch. has_flow_step f st \<longrightarrow> resolve_transition f st branch False \<noteq> None"
    by blast
  have "df_initial_step f = ''start''"
    using r f by (auto simp: register_flow_definition_def bindR_Inr_iff example_definition_def
        split: if_splits)
  with r f i t show ?thesis by (auto simp: example_definition_def)
qed

lemma build_registry_keeps_definitions_witness:
  "\<exists>r. build_registry [(''NOOP'', 0::nat)] \<lparr>lc_flows = [example_definition], lc_sessions = []\<rparr>
         \<lparr>lc_flows = [], lc_sessions = []\<rparr> = Inr r
     \<and> get_flow_definition r ''TEST_FLOW'' = Some example_definition"
proof -
  obtain r where r: "build_registry [(''NOOP'', 0::nat)]
      \<lparr>lc_flows = [example_definition], lc_sessions = []\<rparr> \<lparr>lc_flows = [], lc_sessions = []\<rparr> = Inr r"
    by (simp add: build_registry_def register_flow_definition_def example_definition_def
        get_flow_def register_step_def empty_registry_def example_step_def get_step_arc_def Let_def)
  from build_registry_keeps_definitions[OF r] r show ?thesis
    by (simp add: example_definition_def)
qed

end
