(* ===== verification/Db_Model.thy ===== *)
theory Db_Model
  imports Json
begin

text \<open>
  The database the server works on: the rows of \<open>backend-model/src/db.rs\<close>, one table (a list
  of rows) per table of the schema, the queue of notifications, the clock and the supply of
  ids. The operations on tables are those Diesel's queries use: select the first row, select
  all rows, insert under the unique constraints, update and delete the rows a filter matches.
  A query without \<open>ORDER BY\<close> reads the rows in table order, \<open>ORDER BY\<close> is a stable sort.
  Failures of the connection pool and of the database itself are not modelled; violations of
  unique and foreign-key constraints are.

  The locale \<open>row_store\<close> is the contract of a table read by its primary key; the sessions,
  flows, steps and users of the world are interpretations of it.
\<close>

section \<open>Errors\<close>

text \<open>The errors of \<open>backend-core/src/error.rs\<close> that the modelled code raises or maps.\<close>

datatype app_error =
    Http (error_key: string) (status_code: nat) (http_message: string)
  | ErrNotFound
  | Server string
  | ErrDatabase string
  | Diesel string
  | DieselPool string
  | S3 string
  | OtherError
  | Panic string

definition unauthorized :: "string \<Rightarrow> app_error" where
  "unauthorized msg = Http ''UNAUTHORIZED'' 401 msg"

definition forbidden :: "string \<Rightarrow> string \<Rightarrow> app_error" where
  "forbidden key msg = Http key 403 msg"

definition bad_request :: "string \<Rightarrow> string \<Rightarrow> app_error" where
  "bad_request key msg = Http key 400 msg"

definition not_found :: "string \<Rightarrow> string \<Rightarrow> app_error" where
  "not_found key msg = Http key 404 msg"

definition conflict :: "string \<Rightarrow> string \<Rightarrow> app_error" where
  "conflict key msg = Http key 409 msg"

definition internal :: "string \<Rightarrow> string \<Rightarrow> app_error" where
  "internal key msg = Http key 500 msg"

text \<open>
  \<open>Error::meta\<close>: the error key, the status code and the message of the HTTP response. A panic
  has no response.
\<close>

fun error_meta :: "app_error \<Rightarrow> string \<times> nat \<times> string" where
  "error_meta ErrNotFound = (''NOT_FOUND'', 404, ''Not found'')"
| "error_meta (ErrDatabase t) = (''DATABASE_ERROR'', 500, ''Database operation failed: '' @ t)"
| "error_meta (Diesel e) = (''DATABASE_ERROR'', 500, ''Database operation failed: '' @ e)"
| "error_meta (DieselPool e) = (''DATABASE_ERROR'', 500, ''Database pool error: '' @ e)"
| "error_meta (S3 e) = (''S3_ERROR'', 500, ''S3 operation failed: '' @ e)"
| "error_meta (Http key status msg) = (key, status, msg)"
| "error_meta (Server _) = (''INTERNAL_SERVER_ERROR'', 500, ''Internal server error'')"
| "error_meta OtherError = (''INTERNAL_SERVER_ERROR'', 500, ''Internal server error'')"

text \<open>The \<open>Display\<close> text of an error.\<close>

fun error_display :: "app_error \<Rightarrow> string" where
  "error_display (Http key status msg) = msg"
| "error_display ErrNotFound = ''Not found''"
| "error_display (Server e) = ''Server Error: '' @ e"
| "error_display (ErrDatabase e) = ''Database error: '' @ e"
| "error_display (Diesel e) = ''Diesel error: '' @ e"
| "error_display (DieselPool e) = ''Diesel pool error: '' @ e"
| "error_display (S3 e) = ''S3 Error: '' @ e"
| "error_display OtherError = ''Any: ''"
| "error_display (Panic m) = m"

section \<open>Rows\<close>

text \<open>An instant is counted in microseconds, the resolution of the database's timestamps.\<close>

type_synonym instant = int

definition seconds_of :: "instant \<Rightarrow> int" where
  "seconds_of t = t div 1000000"

definition millis :: "int \<Rightarrow> int" where
  "millis n = n * 1000"

type_synonym i32 = "32 word"
type_synonym i64 = "64 word"
type_synonym u64 = "64 word"

record user_row =
  us_user_id :: string
  us_realm :: string
  us_username :: string
  us_full_name :: "string option"
  us_email :: "string option"
  us_email_verified :: bool
  us_phone_number :: "string option"
  us_disabled :: bool
  us_attributes :: "json option"
  us_created_at :: instant
  us_updated_at :: instant

record user_data_row =
  ud_user_id :: string
  ud_name :: string
  ud_data_type :: string
  ud_content :: json
  ud_eager_fetch :: bool
  ud_created_at :: instant
  ud_updated_at :: instant

record device_row =
  dv_device_id :: string
  dv_user_id :: string
  dv_jkt :: string
  dv_public_jwk :: string
  dv_record_id :: string
  dv_status :: string
  dv_label :: "string option"
  dv_created_at :: instant
  dv_last_seen_at :: "instant option"

record session_row =
  se_id :: string
  se_human_id :: string
  se_user_id :: "string option"
  se_session_type :: string
  se_status :: string
  se_context :: json
  se_created_at :: instant
  se_updated_at :: instant
  se_completed_at :: "instant option"

record flow_row =
  fl_id :: string
  fl_human_id :: string
  fl_session_id :: string
  fl_flow_type :: string
  fl_status :: string
  fl_current_step :: "string option"
  fl_step_ids :: json
  fl_context :: json
  fl_created_at :: instant
  fl_updated_at :: instant

record step_row =
  st_id :: string
  st_human_id :: string
  st_flow_id :: string
  st_step_type :: string
  st_actor :: string
  st_status :: string
  st_attempt_no :: i32
  st_input :: "json option"
  st_output :: "json option"
  st_error :: "json option"
  st_next_retry_at :: "instant option"
  st_created_at :: instant
  st_updated_at :: instant
  st_finished_at :: "instant option"

record signing_key_row =
  sk_kid :: string
  sk_private_key_pem :: string
  sk_public_key_jwk :: json
  sk_algorithm :: string
  sk_created_at :: instant
  sk_expires_at :: "instant option"
  sk_is_active :: bool

record recovery_row =
  ri_idempotency_key :: string
  ri_recovery_case_id :: string
  ri_request_hash :: string
  ri_bound_user_id :: string
  ri_device_id :: string
  ri_binding_operation_id :: string
  ri_device_record_id :: string
  ri_created_at :: instant

record policy_row =
  op_idempotency_key :: string
  op_recovery_case_id :: string
  op_request_hash :: string
  op_target_user_id :: string
  op_policy :: string
  op_affected_device_ids :: json
  op_created_at :: instant

text \<open>
  The world the server runs in. \<open>w_clock\<close> is what \<open>Utc::now()\<close> and SQL's \<open>NOW()\<close> return:
  it stays the same while one operation runs. \<open>w_next_id\<close> counts the ids drawn from the
  generator.
\<close>

record world =
  w_users :: "user_row list"
  w_user_data :: "user_data_row list"
  w_devices :: "device_row list"
  w_sessions :: "session_row list"
  w_flows :: "flow_row list"
  w_steps :: "step_row list"
  w_keys :: "signing_key_row list"
  w_recovery :: "recovery_row list"
  w_policies :: "policy_row list"
  w_notifications :: "json list"
  w_clock :: instant
  w_next_id :: nat

definition empty_world :: "instant \<Rightarrow> world" where
  "empty_world now = \<lparr>w_users = [], w_user_data = [], w_devices = [], w_sessions = [], w_flows = [],
     w_steps = [], w_keys = [], w_recovery = [], w_policies = [], w_notifications = [],
     w_clock = now, w_next_id = 0\<rparr>"

type_synonym 'a db = "(world, app_error, 'a) sem"

section \<open>Ids\<close>

text \<open>
  \<open>backend-id\<close>: a prefix and a \<open>cuid\<close>. The generator is a parameter: its \<open>n\<close>-th result is an
  id or an error.
\<close>

type_synonym cuid_gen = "nat \<Rightarrow> string + string"

definition prefixed :: "cuid_gen \<Rightarrow> string \<Rightarrow> string db" where
  "prefixed cuid pre w =
     (map_errR Server (map_sum id (\<lambda>c. pre @ ''_'' @ c) (cuid (w_next_id w))), w\<lparr>w_next_id := Suc (w_next_id w)\<rparr>)"

definition user_id :: "cuid_gen \<Rightarrow> string db" where
  "user_id cuid = prefixed cuid ''usr''"

definition flow_session_id :: "cuid_gen \<Rightarrow> string db" where
  "flow_session_id cuid = prefixed cuid ''ses''"

definition flow_instance_id :: "cuid_gen \<Rightarrow> string db" where
  "flow_instance_id cuid = prefixed cuid ''flw''"

definition flow_step_id :: "cuid_gen \<Rightarrow> string db" where
  "flow_step_id cuid = prefixed cuid ''stp''"

section \<open>Tables\<close>

definition select_first :: "('r \<Rightarrow> bool) \<Rightarrow> 'r list \<Rightarrow> 'r option" where
  "select_first p t = List.find p t"

definition update_where :: "('r \<Rightarrow> bool) \<Rightarrow> ('r \<Rightarrow> 'r) \<Rightarrow> 'r list \<Rightarrow> 'r list" where
  "update_where p f t = map (\<lambda>r. if p r then f r else r) t"

definition delete_where :: "('r \<Rightarrow> bool) \<Rightarrow> 'r list \<Rightarrow> 'r list" where
  "delete_where p t = filter (\<lambda>r. \<not> p r) t"

text \<open>An insert fails when a row of the table shares a unique key with the new one.\<close>

definition insert_unique :: "('r \<Rightarrow> 'r \<Rightarrow> bool) \<Rightarrow> 'r \<Rightarrow> 'r list \<Rightarrow> 'r list option" where
  "insert_unique clash r t = (if \<exists>r'\<in>set t. clash r r' then None else Some (t @ [r]))"

definition order_by_desc :: "('r \<Rightarrow> int) \<Rightarrow> 'r list \<Rightarrow> 'r list" where
  "order_by_desc key t = sort_key (\<lambda>r. - key r) t"

text \<open>\<open>LIMIT\<close> and \<open>OFFSET\<close>; the database rejects a negative offset.\<close>

definition limit_offset :: "int \<Rightarrow> int \<Rightarrow> 'r list \<Rightarrow> app_error + 'r list" where
  "limit_offset lmt off t =
     (if off < 0 then Inl (Diesel ''OFFSET must not be negative'') else Inr (take (nat lmt) (drop (nat off) t)))"

definition fk_error :: app_error where
  "fk_error = Diesel ''violates foreign key constraint''"

definition unique_error :: app_error where
  "unique_error = Diesel ''duplicate key value violates unique constraint''"

text \<open>A database transaction: an error rolls back every change.\<close>

definition transaction :: "'a db \<Rightarrow> 'a db" where
  "transaction m w = (case m w of (Inl e, _) \<Rightarrow> (Inl e, w) | (Inr a, w') \<Rightarrow> (Inr a, w'))"

lemma transaction_error: "transaction m w = (Inl e, w') \<Longrightarrow> w' = w"
  by (auto simp: transaction_def split: prod.splits sum.splits)

lemma transaction_ok: "transaction m w = (Inr a, w') \<longleftrightarrow> m w = (Inr a, w')"
  by (auto simp: transaction_def split: prod.splits sum.splits)

lemma filter_update_where:
  assumes "\<And>x. x \<in> set xs \<Longrightarrow> p x \<Longrightarrow> \<not> q x \<and> \<not> q (f x)"
  shows "filter q (update_where p f xs) = filter q xs"
  using assms by (induction xs) (auto simp: update_where_def)

lemma select_first_Some:
  "select_first p t = Some r \<Longrightarrow> r \<in> set t \<and> p r"
  unfolding select_first_def find_Some_iff by auto

lemma select_first_None: "select_first p t = None \<longleftrightarrow> (\<forall>r\<in>set t. \<not> p r)"
  unfolding select_first_def find_None_iff by blast

lemma select_first_append [simp]:
  "select_first p (t @ u) = (case select_first p t of None \<Rightarrow> select_first p u | Some r \<Rightarrow> Some r)"
  by (induction t) (auto simp: select_first_def)

lemma select_first_simps [simp]:
  "select_first p [] = None" "select_first p (r # t) = (if p r then Some r else select_first p t)"
  by (simp_all add: select_first_def)

lemma select_first_update:
  assumes "\<And>r. p r \<Longrightarrow> q r = q (f r)"
  shows "select_first q (update_where p f t) = map_option (\<lambda>r. if p r then f r else r) (select_first q t)"
  using assms by (induction t) (auto simp: select_first_def update_where_def)

lemma select_first_key_update:
  assumes "\<And>r. key (f r) = key r"
  shows "select_first (\<lambda>r. key r = k') (update_where (\<lambda>r. key r = k) f t)
    = (if k' = k then map_option f (select_first (\<lambda>r. key r = k) t) else select_first (\<lambda>r. key r = k') t)"
  using assms by (induction t) (auto simp: select_first_def update_where_def)

lemma map_update_where:
  "(\<And>r. p r \<Longrightarrow> g (f r) = g r) \<Longrightarrow> map g (update_where p f t) = map g t"
  by (simp add: update_where_def)

lemma set_update_where: "set (update_where p f t) = (\<lambda>r. if p r then f r else r) ` set t"
  by (simp add: update_where_def)

lemma insert_unique_Some:
  "insert_unique clash r t = Some t' \<longleftrightarrow> t' = t @ [r] \<and> (\<forall>r'\<in>set t. \<not> clash r r')"
  by (auto simp: insert_unique_def)

lemma insert_unique_None: "insert_unique clash r t = None \<longleftrightarrow> (\<exists>r'\<in>set t. clash r r')"
  by (auto simp: insert_unique_def)

section \<open>The contract of a table read by its key\<close>

locale row_store =
  fixes get :: "'k \<Rightarrow> 's \<Rightarrow> 'r option"
    and add :: "'r \<Rightarrow> 's \<Rightarrow> 's"
    and modify :: "'k \<Rightarrow> ('r \<Rightarrow> 'r) \<Rightarrow> 's \<Rightarrow> 's"
    and key :: "'r \<Rightarrow> 'k"
  assumes get_key: "get k s = Some r \<Longrightarrow> key r = k"
    and get_add: "get (key r) s = None \<Longrightarrow> get k (add r s) = (if k = key r then Some r else get k s)"
    and get_modify: "(\<And>r. key (f r) = key r) \<Longrightarrow>
      get k' (modify k f s) = (if k' = k then map_option f (get k s) else get k' s)"
begin

lemma get_add_new: "get (key r) s = None \<Longrightarrow> get (key r) (add r s) = Some r"
  by (simp add: get_add)

lemma get_add_other: "get (key r) s = None \<Longrightarrow> k \<noteq> key r \<Longrightarrow> get k (add r s) = get k s"
  by (simp add: get_add)

lemma get_modify_same:
  "(\<And>r. key (f r) = key r) \<Longrightarrow> get k s = Some r \<Longrightarrow> get k (modify k f s) = Some (f r)"
  by (simp add: get_modify)

lemma get_modify_other:
  "(\<And>r. key (f r) = key r) \<Longrightarrow> k' \<noteq> k \<Longrightarrow> get k' (modify k f s) = get k' s"
  by (simp add: get_modify)

lemma get_modify_None:
  "(\<And>r. key (f r) = key r) \<Longrightarrow> get k' (modify k f s) = None \<longleftrightarrow> get k' s = None"
  by (simp add: get_modify)

lemma get_modify_twice:
  "(\<And>r. key (f r) = key r) \<Longrightarrow> (\<And>r. key (g r) = key r) \<Longrightarrow>
   get k' (modify k g (modify k f s)) = get k' (modify k (g \<circ> f) s)"
  by (simp add: get_modify option.map_comp)

text \<open>A property of all rows is kept when the new row has it, or the update keeps it.\<close>

lemma all_rows_add:
  "get (key r) s = None \<Longrightarrow> (\<And>k r'. get k s = Some r' \<Longrightarrow> P r') \<Longrightarrow> P r \<Longrightarrow>
   get k (add r s) = Some r' \<Longrightarrow> P r'"
  by (auto simp: get_add split: if_splits)

lemma all_rows_modify:
  "(\<And>r. key (f r) = key r) \<Longrightarrow> (\<And>k r'. get k s = Some r' \<Longrightarrow> P r') \<Longrightarrow>
   (\<And>r'. P r' \<Longrightarrow> P (f r')) \<Longrightarrow> get k' (modify k f s) = Some r' \<Longrightarrow> P r'"
  by (auto simp: get_modify split: if_splits)

end

end
