(* ===== verification/Flow_Repo.thy ===== *)
theory Flow_Repo
  imports Db_Model
begin

text \<open>
  The flow repository (\<open>backend-repository/src/pg/flow.rs\<close>) and its input types
  (\<open>traits.rs\<close>): sessions, flow instances, steps and signing keys. Every operation is one
  function on the world; the three tables interpret the contract \<open>row_store\<close>.
\<close>

section \<open>Filters and paging\<close>

definition clamp :: "'a::linorder \<Rightarrow> 'a \<Rightarrow> 'a \<Rightarrow> 'a" where
  "clamp lo hi x = (if x < lo then lo else if hi < x then hi else x)"

text \<open>An \<open>i32\<close> is compared by its signed value.\<close>

definition page_norm :: "i32 \<Rightarrow> i32" where
  "page_norm p = word_of_int (max (sint p) 1)"

definition limit_norm :: "i32 \<Rightarrow> i32" where
  "limit_norm l = word_of_int (clamp 1 100 (sint l))"

record page_filter =
  pf_page :: i32
  pf_limit :: i32

definition page_filter_normalized :: "page_filter \<Rightarrow> page_filter" where
  "page_filter_normalized f = \<lparr>pf_page = page_norm (pf_page f), pf_limit = limit_norm (pf_limit f)\<rparr>"

definition page_filter_offset :: "page_filter \<Rightarrow> int" where
  "page_filter_offset f = sint ((pf_page f - 1) * pf_limit f)"

record session_filter =
  sf_user_id :: "string option"
  sf_user_ids :: "string list option"
  sf_session_type :: "string option"
  sf_status :: "string option"
  sf_page :: i32
  sf_limit :: i32

definition filter_opt :: "('a \<Rightarrow> bool) \<Rightarrow> 'a option \<Rightarrow> 'a option" where
  "filter_opt p x = (case x of None \<Rightarrow> None | Some a \<Rightarrow> if p a then Some a else None)"

definition trim_field :: "string option \<Rightarrow> string option" where
  "trim_field x = filter_opt (\<lambda>v. v \<noteq> []) (map_option trim x)"

definition session_filter_normalized :: "session_filter \<Rightarrow> session_filter" where
  "session_filter_normalized f =
     \<lparr>sf_user_id = trim_field (sf_user_id f),
      sf_user_ids = filter_opt (\<lambda>vs. vs \<noteq> [])
        (map_option (\<lambda>vs. remdups_adj (sort (filter (\<lambda>v. v \<noteq> []) (map trim vs)))) (sf_user_ids f)),
      sf_session_type = trim_field (sf_session_type f),
      sf_status = trim_field (sf_status f),
      sf_page = page_norm (sf_page f), sf_limit = limit_norm (sf_limit f)\<rparr>"

definition session_filter_offset :: "session_filter \<Rightarrow> int" where
  "session_filter_offset f = sint ((sf_page f - 1) * sf_limit f)"

section \<open>Sessions\<close>

record session_create_input =
  sci_id :: string
  sci_human_id :: string
  sci_user_id :: "string option"
  sci_session_type :: string
  sci_status :: string
  sci_context :: json

definition session_clash :: "session_row \<Rightarrow> session_row \<Rightarrow> bool" where
  "session_clash r r' \<longleftrightarrow> se_id r = se_id r' \<or> se_human_id r = se_human_id r'"

definition new_session_row :: "instant \<Rightarrow> session_create_input \<Rightarrow> session_row" where
  "new_session_row now i =
     \<lparr>se_id = sci_id i, se_human_id = sci_human_id i, se_user_id = sci_user_id i,
      se_session_type = sci_session_type i, se_status = sci_status i, se_context = sci_context i,
      se_created_at = now, se_updated_at = now, se_completed_at = None\<rparr>"

definition create_session :: "session_create_input \<Rightarrow> session_row db" where
  "create_session i w =
     (let row = new_session_row (w_clock w) i
      in case insert_unique session_clash row (w_sessions w) of
           Some t \<Rightarrow>
             (if (case sci_user_id i of None \<Rightarrow> True | Some u \<Rightarrow> u \<in> us_user_id ` set (w_users w))
              then (Inr row, w\<lparr>w_sessions := t\<rparr>) else (Inl fk_error, w))
         | None \<Rightarrow>
             (ok_or (conflict ''FLOW_SESSION_CONFLICT'' ''Session already exists'')
                (select_first (\<lambda>r. se_human_id r = sci_human_id i) (w_sessions w)), w))"

definition session_of :: "string \<Rightarrow> world \<Rightarrow> session_row option" where
  "session_of session_id w = select_first (\<lambda>r. se_id r = session_id) (w_sessions w)"

definition get_session :: "string \<Rightarrow> session_row option db" where
  "get_session session_id = gets (session_of session_id)"

definition matches :: "'a option \<Rightarrow> 'a \<Rightarrow> bool" where
  "matches f x = (case f of None \<Rightarrow> True | Some a \<Rightarrow> x = a)"

definition session_matches :: "session_filter \<Rightarrow> session_row \<Rightarrow> bool" where
  "session_matches f r \<longleftrightarrow>
     (case sf_user_id f of None \<Rightarrow> True | Some u \<Rightarrow> se_user_id r = Some u)
     \<and> (case sf_user_ids f of None \<Rightarrow> True | Some us \<Rightarrow> se_user_id r \<in> Some ` set us)
     \<and> matches (sf_session_type f) (se_session_type r)
     \<and> matches (sf_status f) (se_status r)"

definition list_sessions :: "session_filter \<Rightarrow> (session_row list \<times> int) db" where
  "list_sessions flt =
     (let f = session_filter_normalized flt in
      bindE (gets (\<lambda>w. filter (session_matches f) (w_sessions w))) (\<lambda>found.
      bindE (lift_res (limit_offset (sint (sf_limit f)) (session_filter_offset f)
               (order_by_desc se_updated_at found))) (\<lambda>rows.
      ret (rows, int (length found)))))"

definition modify_session :: "string \<Rightarrow> (session_row \<Rightarrow> session_row) \<Rightarrow> world \<Rightarrow> world" where
  "modify_session session_id f w =
     w\<lparr>w_sessions := update_where (\<lambda>r. se_id r = session_id) f (w_sessions w)\<rparr>"

definition update_session_status :: "string \<Rightarrow> string \<Rightarrow> instant option \<Rightarrow> unit db" where
  "update_session_status session_id status completed_at w =
     (Inr (), modify_session session_id
        (\<lambda>r. r\<lparr>se_status := status, se_updated_at := w_clock w, se_completed_at := completed_at\<rparr>) w)"

definition update_session_context :: "string \<Rightarrow> json \<Rightarrow> unit db" where
  "update_session_context session_id cx w =
     (Inr (), modify_session session_id (\<lambda>r. r\<lparr>se_context := cx, se_updated_at := w_clock w\<rparr>) w)"

section \<open>Flow instances\<close>

record flow_create_input =
  fci_id :: string
  fci_human_id :: string
  fci_session_id :: string
  fci_flow_type :: string
  fci_status :: string
  fci_current_step :: "string option"
  fci_step_ids :: json
  fci_context :: json

definition flow_clash :: "flow_row \<Rightarrow> flow_row \<Rightarrow> bool" where
  "flow_clash r r' \<longleftrightarrow> fl_id r = fl_id r' \<or> fl_human_id r = fl_human_id r'"

definition new_flow_row :: "instant \<Rightarrow> flow_create_input \<Rightarrow> flow_row" where
  "new_flow_row now i =
     \<lparr>fl_id = fci_id i, fl_human_id = fci_human_id i, fl_session_id = fci_session_id i,
      fl_flow_type = fci_flow_type i, fl_status = fci_status i,
      fl_current_step = fci_current_step i, fl_step_ids = fci_step_ids i,
      fl_context = fci_context i, fl_created_at = now, fl_updated_at = now\<rparr>"

definition create_flow :: "flow_create_input \<Rightarrow> flow_row db" where
  "create_flow i w =
     (let row = new_flow_row (w_clock w) i
      in case insert_unique flow_clash row (w_flows w) of
           Some t \<Rightarrow>
             (if session_of (fci_session_id i) w \<noteq> None
              then (Inr row, w\<lparr>w_flows := t\<rparr>) else (Inl fk_error, w))
         | None \<Rightarrow>
             (ok_or (conflict ''FLOW_INSTANCE_CONFLICT'' ''Flow already exists'')
                (select_first (\<lambda>r. fl_human_id r = fci_human_id i) (w_flows w)), w))"

definition flow_of :: "string \<Rightarrow> world \<Rightarrow> flow_row option" where
  "flow_of flow_id w = select_first (\<lambda>r. fl_id r = flow_id) (w_flows w)"

definition get_flow_row :: "string \<Rightarrow> flow_row option db" where
  "get_flow_row flow_id = gets (flow_of flow_id)"

definition flows_of_session :: "string \<Rightarrow> world \<Rightarrow> flow_row list" where
  "flows_of_session session_id w =
     sort_key fl_created_at (filter (\<lambda>r. fl_session_id r = session_id) (w_flows w))"

definition list_flows_for_session :: "string \<Rightarrow> flow_row list db" where
  "list_flows_for_session session_id = gets (flows_of_session session_id)"

definition unwrap_or :: "'a \<Rightarrow> 'a option \<Rightarrow> 'a" where
  "unwrap_or d x = (case x of None \<Rightarrow> d | Some a \<Rightarrow> a)"

record flow_update =
  fu_status :: "string option"
  fu_current_step :: "string option option"
  fu_step_ids :: "json option"
  fu_context :: "json option"

definition no_flow_update :: flow_update where
  "no_flow_update = \<lparr>fu_status = None, fu_current_step = None, fu_step_ids = None, fu_context = None\<rparr>"

definition apply_flow_update :: "instant \<Rightarrow> flow_update \<Rightarrow> flow_row \<Rightarrow> flow_row" where
  "apply_flow_update now u r =
     r\<lparr>fl_status := unwrap_or (fl_status r) (fu_status u),
       fl_current_step := unwrap_or (fl_current_step r) (fu_current_step u),
       fl_step_ids := unwrap_or (fl_step_ids r) (fu_step_ids u),
       fl_context := unwrap_or (fl_context r) (fu_context u),
       fl_updated_at := now\<rparr>"

definition modify_flow :: "string \<Rightarrow> (flow_row \<Rightarrow> flow_row) \<Rightarrow> world \<Rightarrow> world" where
  "modify_flow flow_id f w = w\<lparr>w_flows := update_where (\<lambda>r. fl_id r = flow_id) f (w_flows w)\<rparr>"

definition set_flow_columns :: "flow_row \<Rightarrow> flow_row \<Rightarrow> flow_row" where
  "set_flow_columns u r =
     r\<lparr>fl_status := fl_status u, fl_current_step := fl_current_step u, fl_step_ids := fl_step_ids u,
       fl_context := fl_context u, fl_updated_at := fl_updated_at u\<rparr>"

definition update_flow :: "string \<Rightarrow> flow_update \<Rightarrow> flow_row db" where
  "update_flow flow_id u w =
     (case flow_of flow_id w of
        None \<Rightarrow> (Inl (not_found ''FLOW_NOT_FOUND'' ''Flow not found''), w)
      | Some current \<Rightarrow>
          (let updated = apply_flow_update (w_clock w) u current
           in (Inr updated, modify_flow flow_id (set_flow_columns updated) w)))"

section \<open>Steps\<close>

record step_create_input =
  tci_id :: string
  tci_human_id :: string
  tci_flow_id :: string
  tci_step_type :: string
  tci_actor :: string
  tci_status :: string
  tci_attempt_no :: i32
  tci_input :: "json option"
  tci_output :: "json option"
  tci_error :: "json option"
  tci_next_retry_at :: "instant option"
  tci_finished_at :: "instant option"

definition step_clash :: "step_row \<Rightarrow> step_row \<Rightarrow> bool" where
  "step_clash r r' \<longleftrightarrow> st_id r = st_id r' \<or> st_human_id r = st_human_id r'"

definition new_step_row :: "instant \<Rightarrow> step_create_input \<Rightarrow> step_row" where
  "new_step_row now i =
     \<lparr>st_id = tci_id i, st_human_id = tci_human_id i, st_flow_id = tci_flow_id i,
      st_step_type = tci_step_type i, st_actor = tci_actor i, st_status = tci_status i,
      st_attempt_no = tci_attempt_no i, st_input = tci_input i, st_output = tci_output i,
      st_error = tci_error i, st_next_retry_at = tci_next_retry_at i,
      st_created_at = now, st_updated_at = now, st_finished_at = tci_finished_at i\<rparr>"

definition create_step :: "step_create_input \<Rightarrow> step_row db" where
  "create_step i w =
     (let row = new_step_row (w_clock w) i
      in case insert_unique step_clash row (w_steps w) of
           Some t \<Rightarrow>
             (if flow_of (tci_flow_id i) w \<noteq> None
              then (Inr row, w\<lparr>w_steps := t\<rparr>) else (Inl fk_error, w))
         | None \<Rightarrow>
             (ok_or (conflict ''FLOW_STEP_CONFLICT'' ''Step already exists'')
                (select_first (\<lambda>r. st_human_id r = tci_human_id i) (w_steps w)), w))"

definition step_of :: "string \<Rightarrow> world \<Rightarrow> step_row option" where
  "step_of step_id w = select_first (\<lambda>r. st_id r = step_id) (w_steps w)"

definition get_step :: "string \<Rightarrow> step_row option db" where
  "get_step step_id = gets (step_of step_id)"

definition list_steps_for_flow :: "string \<Rightarrow> step_row list db" where
  "list_steps_for_flow flow_id =
     gets (\<lambda>w. sort_key st_created_at (filter (\<lambda>r. st_flow_id r = flow_id) (w_steps w)))"

record step_patch =
  pa_status :: "string option"
  pa_attempt_no :: "i32 option"
  pa_input :: "json option option"
  pa_output :: "json option option"
  pa_error :: "json option option"
  pa_next_retry_at :: "instant option option"
  pa_finished_at :: "instant option option"

definition patch_new :: step_patch where
  "patch_new = \<lparr>pa_status = None, pa_attempt_no = None, pa_input = None, pa_output = None,
     pa_error = None, pa_next_retry_at = None, pa_finished_at = None\<rparr>"

definition patch_status :: "string \<Rightarrow> step_patch \<Rightarrow> step_patch" where
  "patch_status s p = p\<lparr>pa_status := Some s\<rparr>"

definition patch_attempt_no :: "i32 \<Rightarrow> step_patch \<Rightarrow> step_patch" where
  "patch_attempt_no n p = p\<lparr>pa_attempt_no := Some n\<rparr>"

definition patch_input :: "json \<Rightarrow> step_patch \<Rightarrow> step_patch" where
  "patch_input v p = p\<lparr>pa_input := Some (Some v)\<rparr>"

definition patch_output :: "json \<Rightarrow> step_patch \<Rightarrow> step_patch" where
  "patch_output v p = p\<lparr>pa_output := Some (Some v)\<rparr>"

definition patch_error :: "json \<Rightarrow> step_patch \<Rightarrow> step_patch" where
  "patch_error v p = p\<lparr>pa_error := Some (Some v)\<rparr>"

definition patch_clear_error :: "step_patch \<Rightarrow> step_patch" where
  "patch_clear_error p = p\<lparr>pa_error := Some None\<rparr>"

definition patch_next_retry_at :: "instant \<Rightarrow> step_patch \<Rightarrow> step_patch" where
  "patch_next_retry_at t p = p\<lparr>pa_next_retry_at := Some (Some t)\<rparr>"

definition patch_finished_at :: "instant \<Rightarrow> step_patch \<Rightarrow> step_patch" where
  "patch_finished_at t p = p\<lparr>pa_finished_at := Some (Some t)\<rparr>"

definition apply_step_patch :: "instant \<Rightarrow> step_patch \<Rightarrow> step_row \<Rightarrow> step_row" where
  "apply_step_patch now p r =
     r\<lparr>st_status := unwrap_or (st_status r) (pa_status p),
       st_attempt_no := unwrap_or (st_attempt_no r) (pa_attempt_no p),
       st_input := unwrap_or (st_input r) (pa_input p),
       st_output := unwrap_or (st_output r) (pa_output p),
       st_error := unwrap_or (st_error r) (pa_error p),
       st_next_retry_at := unwrap_or (st_next_retry_at r) (pa_next_retry_at p),
       st_finished_at := unwrap_or (st_finished_at r) (pa_finished_at p),
       st_updated_at := now\<rparr>"

definition modify_step :: "string \<Rightarrow> (step_row \<Rightarrow> step_row) \<Rightarrow> world \<Rightarrow> world" where
  "modify_step step_id f w = w\<lparr>w_steps := update_where (\<lambda>r. st_id r = step_id) f (w_steps w)\<rparr>"

definition set_step_columns :: "step_row \<Rightarrow> step_row \<Rightarrow> step_row" where
  "set_step_columns u r =
     r\<lparr>st_status := st_status u, st_attempt_no := st_attempt_no u, st_input := st_input u,
       st_output := st_output u, st_error := st_error u, st_next_retry_at := st_next_retry_at u,
       st_finished_at := st_finished_at u, st_updated_at := st_updated_at u\<rparr>"

definition patch_step :: "string \<Rightarrow> step_patch \<Rightarrow> step_row db" where
  "patch_step step_id p w =
     (case step_of step_id w of
        None \<Rightarrow> (Inl (not_found ''FLOW_STEP_NOT_FOUND'' ''Step not found''), w)
      | Some current \<Rightarrow>
          (let updated = apply_step_patch (w_clock w) p current
           in (Inr updated, modify_step step_id (set_step_columns updated) w)))"

text \<open>
  \<open>claim_next_system_step\<close>: one SQL statement selects the least recently updated system step
  that is waiting and whose retry time has come, and marks it running.
\<close>

definition claimable :: "instant \<Rightarrow> step_row \<Rightarrow> bool" where
  "claimable now r \<longleftrightarrow>
     st_actor r = ''SYSTEM'' \<and> st_status r = ''WAITING''
     \<and> (case st_next_retry_at r of None \<Rightarrow> False | Some t \<Rightarrow> t \<le> now)"

definition claim_next_system_step :: "step_row option db" where
  "claim_next_system_step w =
     (case sort_key st_updated_at (filter (claimable (w_clock w)) (w_steps w)) of
        [] \<Rightarrow> (Inr None, w)
      | r # _ \<Rightarrow>
          (let claim = (\<lambda>r. r\<lparr>st_status := ''RUNNING'', st_updated_at := w_clock w\<rparr>)
           in (Inr (Some (claim r)), modify_step (st_id r) claim w)))"

section \<open>Signing keys\<close>

definition deactivate_signing_keys :: "nat db" where
  "deactivate_signing_keys w =
     (Inr (length (filter sk_is_active (w_keys w))),
      w\<lparr>w_keys := update_where sk_is_active (\<lambda>r. r\<lparr>sk_is_active := False\<rparr>) (w_keys w)\<rparr>)"

record signing_key_input =
  ski_kid :: string
  ski_private_key_pem :: string
  ski_public_key_jwk :: json
  ski_algorithm :: string
  ski_expires_at :: "instant option"
  ski_is_active :: bool

definition create_signing_key :: "signing_key_input \<Rightarrow> signing_key_row db" where
  "create_signing_key i w =
     (let row = \<lparr>sk_kid = ski_kid i, sk_private_key_pem = ski_private_key_pem i,
                 sk_public_key_jwk = ski_public_key_jwk i, sk_algorithm = ski_algorithm i,
                 sk_created_at = w_clock w, sk_expires_at = ski_expires_at i,
                 sk_is_active = ski_is_active i\<rparr>
      in case insert_unique (\<lambda>r r'. sk_kid r = sk_kid r') row (w_keys w) of
           Some t \<Rightarrow> (Inr row, w\<lparr>w_keys := t\<rparr>)
         | None \<Rightarrow> (Inl unique_error, w))"

definition list_active_signing_keys :: "signing_key_row list db" where
  "list_active_signing_keys = gets (\<lambda>w. order_by_desc sk_created_at (filter sk_is_active (w_keys w)))"

definition get_active_signing_key :: "signing_key_row option db" where
  "get_active_signing_key =
     gets (\<lambda>w. case order_by_desc sk_created_at (filter sk_is_active (w_keys w)) of
                 [] \<Rightarrow> None | r # _ \<Rightarrow> Some r)"

section \<open>The tables as row stores\<close>

definition add_session :: "session_row \<Rightarrow> world \<Rightarrow> world" where
  "add_session r w = w\<lparr>w_sessions := w_sessions w @ [r]\<rparr>"

definition add_flow :: "flow_row \<Rightarrow> world \<Rightarrow> world" where
  "add_flow r w = w\<lparr>w_flows := w_flows w @ [r]\<rparr>"

definition add_step :: "step_row \<Rightarrow> world \<Rightarrow> world" where
  "add_step r w = w\<lparr>w_steps := w_steps w @ [r]\<rparr>"

interpretation sess: row_store session_of add_session modify_session se_id
  by unfold_locales
     (auto simp: session_of_def add_session_def modify_session_def select_first_key_update
       dest: select_first_Some split: option.splits)

interpretation flw: row_store flow_of add_flow modify_flow fl_id
  by unfold_locales
     (auto simp: flow_of_def add_flow_def modify_flow_def select_first_key_update
       dest: select_first_Some split: option.splits)

interpretation stp: row_store step_of add_step modify_step st_id
  by unfold_locales
     (auto simp: step_of_def add_step_def modify_step_def select_first_key_update
       dest: select_first_Some split: option.splits)

lemma columns_keep_ids [simp]:
  "fl_id (set_flow_columns u r) = fl_id r" "fl_human_id (set_flow_columns u r) = fl_human_id r"
  "fl_session_id (set_flow_columns u r) = fl_session_id r"
  "st_id (set_step_columns v x) = st_id x" "st_human_id (set_step_columns v x) = st_human_id x"
  "st_flow_id (set_step_columns v x) = st_flow_id x"
  by (simp_all add: set_flow_columns_def set_step_columns_def)

lemma set_flow_columns_self: "set_flow_columns (apply_flow_update now u r) r = apply_flow_update now u r"
  by (simp add: set_flow_columns_def apply_flow_update_def)

lemma set_step_columns_self: "set_step_columns (apply_step_patch now p r) r = apply_step_patch now p r"
  by (simp add: set_step_columns_def apply_step_patch_def)

text \<open>Reading one table after writing another.\<close>

lemma table_frames [simp]:
  "session_of k (modify_flow i g w) = session_of k w" "session_of k (modify_step i h w) = session_of k w"
  "session_of k (add_flow fr w) = session_of k w" "session_of k (add_step sr w) = session_of k w"
  "flow_of k (modify_session i f w) = flow_of k w" "flow_of k (modify_step i h w) = flow_of k w"
  "flow_of k (add_session r w) = flow_of k w" "flow_of k (add_step sr w) = flow_of k w"
  "step_of k (modify_session i f w) = step_of k w" "step_of k (modify_flow i g w) = step_of k w"
  "step_of k (add_session r w) = step_of k w" "step_of k (add_flow fr w) = step_of k w"
  by (simp_all add: session_of_def flow_of_def step_of_def modify_session_def modify_flow_def
      modify_step_def add_session_def add_flow_def add_step_def)

lemma clock_frames [simp]:
  "w_clock (modify_session i f w) = w_clock w" "w_clock (modify_flow i g w) = w_clock w"
  "w_clock (modify_step i h w) = w_clock w" "w_clock (add_session r w) = w_clock w"
  "w_clock (add_flow fr w) = w_clock w" "w_clock (add_step sr w) = w_clock w"
  by (simp_all add: modify_session_def modify_flow_def modify_step_def add_session_def add_flow_def
      add_step_def)

lemma update_flow_reads:
  assumes "flow_of i w = Some r"
  shows "update_flow i u w = (Inr (apply_flow_update (w_clock w) u r),
           modify_flow i (set_flow_columns (apply_flow_update (w_clock w) u r)) w)"
  using assms by (simp add: update_flow_def Let_def)

lemma patch_step_reads:
  assumes "step_of i w = Some r"
  shows "patch_step i p w = (Inr (apply_step_patch (w_clock w) p r),
           modify_step i (set_step_columns (apply_step_patch (w_clock w) p r)) w)"
  using assms by (simp add: patch_step_def Let_def)

lemma update_flow_read_back:
  assumes "update_flow i u w = (Inr r, w')"
  shows "flow_of i w' = Some r" "flow_of i w \<noteq> None"
    "\<And>k. k \<noteq> i \<Longrightarrow> flow_of k w' = flow_of k w"
  using assms
  by (auto simp: update_flow_def Let_def flw.get_modify set_flow_columns_self split: option.splits)

lemma patch_step_read_back:
  assumes "patch_step i p w = (Inr r, w')"
  shows "step_of i w' = Some r" "step_of i w \<noteq> None"
    "\<And>k. k \<noteq> i \<Longrightarrow> step_of k w' = step_of k w"
  using assms
  by (auto simp: patch_step_def Let_def stp.get_modify set_step_columns_self split: option.splits)

section \<open>The constraints of the schema as an invariant\<close>

definition tables_ok :: "world \<Rightarrow> bool" where
  "tables_ok w \<longleftrightarrow>
     distinct (map se_id (w_sessions w)) \<and> distinct (map se_human_id (w_sessions w))
     \<and> distinct (map fl_id (w_flows w)) \<and> distinct (map fl_human_id (w_flows w))
     \<and> distinct (map st_id (w_steps w)) \<and> distinct (map st_human_id (w_steps w))
     \<and> (\<forall>f\<in>set (w_flows w). fl_session_id f \<in> se_id ` set (w_sessions w))
     \<and> (\<forall>s\<in>set (w_steps w). st_flow_id s \<in> fl_id ` set (w_flows w))"

datatype repo_op =
    CreateSession session_create_input
  | SessionStatus string string "instant option"
  | SessionContext string json
  | CreateFlow flow_create_input
  | UpdateFlow string flow_update
  | CreateStep step_create_input
  | PatchStep string step_patch
  | ClaimStep
  | TimePasses nat

fun run_op :: "repo_op \<Rightarrow> world \<Rightarrow> world" where
  "run_op (CreateSession i) w = snd (create_session i w)"
| "run_op (SessionStatus i s t) w = snd (update_session_status i s t w)"
| "run_op (SessionContext i c) w = snd (update_session_context i c w)"
| "run_op (CreateFlow i) w = snd (create_flow i w)"
| "run_op (UpdateFlow i u) w = snd (update_flow i u w)"
| "run_op (CreateStep i) w = snd (create_step i w)"
| "run_op (PatchStep i p) w = snd (patch_step i p w)"
| "run_op ClaimStep w = snd (claim_next_system_step w)"
| "run_op (TimePasses n) w = w\<lparr>w_clock := w_clock w + int n\<rparr>"

inductive repo_reach :: "world \<Rightarrow> world \<Rightarrow> bool" for w where
  here: "repo_reach w w"
| step: "repo_reach w w1 \<Longrightarrow> repo_reach w (run_op op w1)"

lemma create_session_cases:
  "snd (create_session i w) = w
   \<or> snd (create_session i w) = add_session (new_session_row (w_clock w) i) w
     \<and> (\<forall>r\<in>set (w_sessions w). \<not> session_clash (new_session_row (w_clock w) i) r)"
  by (auto simp: create_session_def Let_def insert_unique_Some add_session_def split: option.splits)

lemma create_flow_cases:
  "snd (create_flow i w) = w
   \<or> snd (create_flow i w) = add_flow (new_flow_row (w_clock w) i) w
     \<and> (\<forall>r\<in>set (w_flows w). \<not> flow_clash (new_flow_row (w_clock w) i) r)
     \<and> (\<exists>s. session_of (fci_session_id i) w = Some s)"
  by (auto simp: create_flow_def Let_def insert_unique_Some add_flow_def split: option.splits)

lemma create_step_cases:
  "snd (create_step i w) = w
   \<or> snd (create_step i w) = add_step (new_step_row (w_clock w) i) w
     \<and> (\<forall>r\<in>set (w_steps w). \<not> step_clash (new_step_row (w_clock w) i) r)
     \<and> (\<exists>f. flow_of (tci_flow_id i) w = Some f)"
  by (auto simp: create_step_def Let_def insert_unique_Some add_step_def split: option.splits)

lemma row_exists:
  "session_of i w = Some s \<Longrightarrow> i \<in> se_id ` set (w_sessions w)"
  "flow_of i w = Some f \<Longrightarrow> i \<in> fl_id ` set (w_flows w)"
  "step_of i w = Some t \<Longrightarrow> i \<in> st_id ` set (w_steps w)"
  by (auto simp: session_of_def flow_of_def step_of_def dest: select_first_Some)

text \<open>What the invariant and the frame of an operation depend on: the keys and references.\<close>

definition session_keys :: "world \<Rightarrow> (string \<times> string) list" where
  "session_keys w = map (\<lambda>r. (se_id r, se_human_id r)) (w_sessions w)"

definition flow_keys :: "world \<Rightarrow> (string \<times> string \<times> string) list" where
  "flow_keys w = map (\<lambda>r. (fl_id r, fl_human_id r, fl_session_id r)) (w_flows w)"

definition step_keys :: "world \<Rightarrow> (string \<times> string \<times> string) list" where
  "step_keys w = map (\<lambda>r. (st_id r, st_human_id r, st_flow_id r)) (w_steps w)"

lemma tables_ok_keys:
  "tables_ok w \<longleftrightarrow>
     distinct (map fst (session_keys w)) \<and> distinct (map snd (session_keys w))
     \<and> distinct (map fst (flow_keys w)) \<and> distinct (map (fst \<circ> snd) (flow_keys w))
     \<and> distinct (map fst (step_keys w)) \<and> distinct (map (fst \<circ> snd) (step_keys w))
     \<and> (snd \<circ> snd) ` set (flow_keys w) \<subseteq> fst ` set (session_keys w)
     \<and> (snd \<circ> snd) ` set (step_keys w) \<subseteq> fst ` set (flow_keys w)"
  by (auto simp: tables_ok_def session_keys_def flow_keys_def step_keys_def comp_def image_subset_iff
      image_image)

lemma keys_frames [simp]:
  "session_keys (modify_flow i g w) = session_keys w" "session_keys (modify_step i h w) = session_keys w"
  "flow_keys (modify_session i f w) = flow_keys w" "flow_keys (modify_step i h w) = flow_keys w"
  "step_keys (modify_session i f w) = step_keys w" "step_keys (modify_flow i g w) = step_keys w"
  "session_keys (w\<lparr>w_clock := t\<rparr>) = session_keys w" "flow_keys (w\<lparr>w_clock := t\<rparr>) = flow_keys w"
  "step_keys (w\<lparr>w_clock := t\<rparr>) = step_keys w"
  by (simp_all add: session_keys_def flow_keys_def step_keys_def modify_session_def modify_flow_def
      modify_step_def)

lemma session_keys_modify [simp]:
  "(\<And>r. se_id (f r) = se_id r \<and> se_human_id (f r) = se_human_id r) \<Longrightarrow>
   session_keys (modify_session i f w) = session_keys w"
  unfolding session_keys_def modify_session_def by (simp add: map_update_where)

lemma flow_keys_modify [simp]:
  "flow_keys (modify_flow i (set_flow_columns u) w) = flow_keys w"
  unfolding flow_keys_def modify_flow_def by (simp add: map_update_where)

lemma step_keys_modify [simp]:
  "(\<And>r. st_id (f r) = st_id r \<and> st_human_id (f r) = st_human_id r \<and> st_flow_id (f r) = st_flow_id r) \<Longrightarrow>
   step_keys (modify_step i f w) = step_keys w"
  unfolding step_keys_def modify_step_def by (simp add: map_update_where)

lemma tables_ok_keys_cong:
  "session_keys w' = session_keys w \<Longrightarrow> flow_keys w' = flow_keys w \<Longrightarrow> step_keys w' = step_keys w \<Longrightarrow>
   tables_ok w \<Longrightarrow> tables_ok w'"
  by (simp add: tables_ok_keys)

lemma update_keys [simp]:
  "session_keys (snd (update_session_status i s t w)) = session_keys w"
  "flow_keys (snd (update_session_status i s t w)) = flow_keys w"
  "step_keys (snd (update_session_status i s t w)) = step_keys w"
  "session_keys (snd (update_session_context i c w)) = session_keys w"
  "flow_keys (snd (update_session_context i c w)) = flow_keys w"
  "step_keys (snd (update_session_context i c w)) = step_keys w"
  "session_keys (snd (update_flow i u w)) = session_keys w"
  "flow_keys (snd (update_flow i u w)) = flow_keys w"
  "step_keys (snd (update_flow i u w)) = step_keys w"
  "session_keys (snd (patch_step i p w)) = session_keys w"
  "flow_keys (snd (patch_step i p w)) = flow_keys w"
  "step_keys (snd (patch_step i p w)) = step_keys w"
  "session_keys (snd (claim_next_system_step w)) = session_keys w"
  "flow_keys (snd (claim_next_system_step w)) = flow_keys w"
  "step_keys (snd (claim_next_system_step w)) = step_keys w"
  by (simp_all add: update_session_status_def update_session_context_def update_flow_def
      patch_step_def claim_next_system_step_def Let_def split: option.split list.split)

lemma run_op_tables_ok: "tables_ok w \<Longrightarrow> tables_ok (run_op op w)"
proof (cases op)
  case (CreateSession i)
  assume ok: "tables_ok w"
  show ?thesis
    using create_session_cases[of i w] ok CreateSession
    by (auto simp: tables_ok_def add_session_def session_clash_def new_session_row_def)
next
  case (CreateFlow i)
  assume ok: "tables_ok w"
  show ?thesis
    using create_flow_cases[of i w] ok CreateFlow
    by (auto simp: tables_ok_def add_flow_def flow_clash_def new_flow_row_def dest!: row_exists)
next
  case (CreateStep i)
  assume ok: "tables_ok w"
  show ?thesis
    using create_step_cases[of i w] ok CreateStep
    by (auto simp: tables_ok_def add_step_def step_clash_def new_step_row_def dest!: row_exists)
qed (auto elim: tables_ok_keys_cong[rotated 3])

lemma repo_reach_tables_ok: "repo_reach w w' \<Longrightarrow> tables_ok w \<Longrightarrow> tables_ok w'"
  by (induction rule: repo_reach.induct) (auto intro: run_op_tables_ok)

lemma run_op_keeps_rows:
  "fst ` set (session_keys w) \<subseteq> fst ` set (session_keys (run_op op w))
   \<and> fst ` set (flow_keys w) \<subseteq> fst ` set (flow_keys (run_op op w))
   \<and> fst ` set (step_keys w) \<subseteq> fst ` set (step_keys (run_op op w))"
proof (cases op)
  case (CreateSession i)
  then show ?thesis using create_session_cases[of i w]
    by (auto simp: session_keys_def flow_keys_def step_keys_def add_session_def)
next
  case (CreateFlow i)
  then show ?thesis using create_flow_cases[of i w]
    by (auto simp: session_keys_def flow_keys_def step_keys_def add_flow_def)
next
  case (CreateStep i)
  then show ?thesis using create_step_cases[of i w]
    by (auto simp: session_keys_def flow_keys_def step_keys_def add_step_def)
qed simp_all

lemma distinct_key_find:
  assumes "distinct (map key t)" "r \<in> set t"
  shows "select_first (\<lambda>x. key x = key r) t = Some r"
  using assms by (induction t) (auto simp: select_first_def)

lemma sort_key_head:
  assumes "sort_key key xs = r # rs"
  shows "r \<in> set xs" "\<forall>q\<in>set xs. key r \<le> key q"
proof -
  have set: "set xs = set (r # rs)"
    using assms set_sort[of key xs] by simp
  then show "r \<in> set xs" by simp
  have "sorted (map key (r # rs))"
    using sorted_sort_key[of key xs] assms by simp
  then show "\<forall>q\<in>set xs. key r \<le> key q"
    unfolding set by simp
qed

lemma claim_some:
  assumes "claim_next_system_step w = (Inr (Some r), w')"
  obtains r0 where "r0 \<in> set (w_steps w)" "claimable (w_clock w) r0"
    "\<forall>q\<in>set (w_steps w). claimable (w_clock w) q \<longrightarrow> st_updated_at r0 \<le> st_updated_at q"
    "r = r0\<lparr>st_status := ''RUNNING'', st_updated_at := w_clock w\<rparr>"
    "w' = modify_step (st_id r0) (\<lambda>x. x\<lparr>st_status := ''RUNNING'', st_updated_at := w_clock w\<rparr>) w"
proof -
  from assms obtain r0 rs where "sort_key st_updated_at (filter (claimable (w_clock w)) (w_steps w)) = r0 # rs"
    and r0: "r = r0\<lparr>st_status := ''RUNNING'', st_updated_at := w_clock w\<rparr>"
    "w' = modify_step (st_id r0) (\<lambda>x. x\<lparr>st_status := ''RUNNING'', st_updated_at := w_clock w\<rparr>) w"
    by (auto simp: claim_next_system_step_def Let_def split: list.splits)
  from sort_key_head[OF this(1)] r0 show thesis by (intro that[of r0]) auto
qed

lemma claim_total:
  "claim_next_system_step w = (Inl e, w') \<Longrightarrow> False"
  "claim_next_system_step w = (Inr None, w') \<Longrightarrow> w' = w \<and> (\<forall>q\<in>set (w_steps w). \<not> claimable (w_clock w) q)"
  by (auto simp: claim_next_system_step_def Let_def filter_empty_conv split: list.splits
      dest!: arg_cong[where f = set])

lemma in_steps: "tables_ok w \<Longrightarrow> r \<in> set (w_steps w) \<Longrightarrow> step_of (st_id r) w = Some r"
  unfolding step_of_def by (rule distinct_key_find) (simp_all add: tables_ok_def)

lemma in_flows: "tables_ok w \<Longrightarrow> f \<in> set (w_flows w) \<Longrightarrow> flow_of (fl_id f) w = Some f"
  unfolding flow_of_def by (rule distinct_key_find) (simp_all add: tables_ok_def)

lemma in_sessions: "tables_ok w \<Longrightarrow> s \<in> set (w_sessions w) \<Longrightarrow> session_of (se_id s) w = Some s"
  unfolding session_of_def by (rule distinct_key_find) (simp_all add: tables_ok_def)

lemma sint_page_norm [simp]: "sint (page_norm p) = max (sint p) 1"
  using sint32_range[of p] unfolding page_norm_def by (intro sint32_word_of_int) auto

lemma sint_limit_norm [simp]: "sint (limit_norm l) = clamp 1 100 (sint l)"
  unfolding limit_norm_def by (intro sint32_word_of_int) (auto simp: clamp_def)

lemma norm_offset:
  assumes "sint p \<le> 21474837"
  shows "sint ((page_norm p - 1) * limit_norm l) = (max (sint p) 1 - 1) * clamp 1 100 (sint l)"
proof -
  let ?p = "max (sint p) 1 - 1" and ?l = "clamp 1 100 (sint l)"
  have l: "0 \<le> ?l" "?l \<le> 100" by (auto simp: clamp_def)
  have p: "0 \<le> ?p" "?p \<le> 21474836" using assms by auto
  have "0 \<le> ?p * ?l" "?p * ?l \<le> 21474836 * 100"
    using l p mult_mono[of ?p 21474836 ?l 100] by (simp_all del: max_def)
  then have "sint (word_of_int (?p * ?l) :: 32 word) = ?p * ?l"
    by (intro sint32_word_of_int) auto
  moreover have "(page_norm p - 1) * limit_norm l = word_of_int (?p * ?l)"
    by (simp add: page_norm_def limit_norm_def)
  ultimately show ?thesis by simp
qed

lemma norm_offset_overflow:
  assumes "100 \<le> sint l"
  shows "sint ((page_norm 2147483647 - 1) * limit_norm l) = - 200"
proof -
  have "clamp 1 100 (sint l) = 100" using assms by (simp add: clamp_def)
  then show ?thesis by (simp add: page_norm_def limit_norm_def)
qed

section \<open>Properties\<close>

text \<open>
  C1: whatever sequence of repository operations runs, with whatever arguments, failing or
  not, and however much time passes between them: ids and human ids of sessions, flows and
  steps stay unique, every flow belongs to an existing session and every step to an existing
  flow; and no session, flow or step ever disappears.
\<close>

theorem repo_reach_invariant:
  assumes "repo_reach w w'" "tables_ok w"
  shows "tables_ok w' \<and> se_id ` set (w_sessions w) \<subseteq> se_id ` set (w_sessions w')
    \<and> fl_id ` set (w_flows w) \<subseteq> fl_id ` set (w_flows w')
    \<and> st_id ` set (w_steps w) \<subseteq> st_id ` set (w_steps w')"
proof -
  have "fst ` set (session_keys w) \<subseteq> fst ` set (session_keys w')
     \<and> fst ` set (flow_keys w) \<subseteq> fst ` set (flow_keys w')
     \<and> fst ` set (step_keys w) \<subseteq> fst ` set (step_keys w')"
    using assms(1) by induction (simp, meson run_op_keeps_rows subset_trans)
  then show ?thesis
    using repo_reach_tables_ok[OF assms]
    by (simp add: session_keys_def flow_keys_def step_keys_def image_image)
qed

text \<open>
  Creating a step is get-or-create by human id: when the call succeeds the row it returns
  carries the requested human id and is found under its own id, it is either new (then it is
  exactly the requested row and the only change) or was there before (then nothing changes).
  The call fails, changing nothing, exactly when the id is taken by a step with another human
  id, or the flow does not exist and no step has the id or the human id.
\<close>

lemma create_step_get_or_create:
  assumes "tables_ok w" "create_step i w = (res, w')"
  shows "(case res of
      Inr r \<Rightarrow> st_human_id r = tci_human_id i \<and> step_of (st_id r) w' = Some r
        \<and> (r \<in> set (w_steps w) \<and> w' = w \<or> r = new_step_row (w_clock w) i \<and> w' = add_step r w)
    | Inl e \<Rightarrow> w' = w
        \<and> tci_human_id i \<notin> st_human_id ` set (w_steps w)
        \<and> (tci_id i \<in> st_id ` set (w_steps w) \<or> flow_of (tci_flow_id i) w = None))"
proof (cases "insert_unique step_clash (new_step_row (w_clock w) i) (w_steps w)")
  case None
  then have "\<exists>r\<in>set (w_steps w). tci_id i = st_id r \<or> tci_human_id i = st_human_id r"
    by (auto simp: insert_unique_None step_clash_def new_step_row_def)
  moreover have "step_of (st_id r) w = Some r" if "r \<in> set (w_steps w)" for r
    using that assms(1) by (auto simp: step_of_def tables_ok_def intro: distinct_key_find)
  ultimately show ?thesis
    using assms(2) None
    by (auto simp: create_step_def Let_def ok_or_def select_first_None
        dest: select_first_Some split: option.splits sum.splits)
next
  case (Some t)
  then have new: "t = w_steps w @ [new_step_row (w_clock w) i]"
    and fresh: "\<forall>r\<in>set (w_steps w). tci_id i \<noteq> st_id r \<and> tci_human_id i \<noteq> st_human_id r"
    by (auto simp: insert_unique_Some step_clash_def new_step_row_def)
  then have "step_of (tci_id i) w = None"
    by (auto simp: step_of_def select_first_None)
  with stp.get_add_new[of "new_step_row (w_clock w) i" w]
  have "step_of (tci_id i) (add_step (new_step_row (w_clock w) i) w) = Some (new_step_row (w_clock w) i)"
    by (simp add: new_step_row_def)
  then show ?thesis
    using assms(2) Some new fresh
    by (auto simp: create_step_def Let_def add_step_def new_step_row_def split: if_splits)
qed

text \<open>
  C31: the worker claims a step only when it is a waiting system step whose retry time has
  come, and the least recently updated of these; it marks it running, at the current time, and changes nothing else in the database.
  So the step is not claimable any more: another worker that claims next gets a different
  step. There is no step to claim only when none is due.
\<close>

theorem claim_next_system_step_exclusive:
  assumes "tables_ok w" "claim_next_system_step w = (res, w')"
  shows "(case res of
      Inr (Some r) \<Rightarrow> \<exists>r0\<in>set (w_steps w). claimable (w_clock w) r0 \<and> st_id r = st_id r0
        \<and> (\<forall>q\<in>set (w_steps w). claimable (w_clock w) q \<longrightarrow> st_updated_at r0 \<le> st_updated_at q)
        \<and> step_of (st_id r) w' = Some r \<and> r = r0\<lparr>st_status := ''RUNNING'', st_updated_at := w_clock w\<rparr>
        \<and> w' = w\<lparr>w_steps := map (\<lambda>q. if st_id q = st_id r then r else q) (w_steps w)\<rparr>
        \<and> (\<forall>k. k \<noteq> st_id r \<longrightarrow> step_of k w' = step_of k w)
        \<and> (\<forall>q w''. claim_next_system_step w' = (Inr (Some q), w'') \<longrightarrow> st_id q \<noteq> st_id r)
    | Inr None \<Rightarrow> w' = w \<and> (\<forall>q\<in>set (w_steps w). \<not> claimable (w_clock w) q)
    | Inl _ \<Rightarrow> False)"
proof (cases res)
  case (Inl e)
  with assms(2) show ?thesis by (auto dest: claim_total)
next
  case (Inr claimed)
  show ?thesis
  proof (cases claimed)
    case None
    with assms(2) Inr show ?thesis by (auto dest: claim_total)
  next
    case (Some r)
    with assms(2) Inr obtain r0 where r0: "r0 \<in> set (w_steps w)" "claimable (w_clock w) r0"
      "\<forall>q\<in>set (w_steps w). claimable (w_clock w) q \<longrightarrow> st_updated_at r0 \<le> st_updated_at q"
      and r: "r = r0\<lparr>st_status := ''RUNNING'', st_updated_at := w_clock w\<rparr>"
      and w': "w' = modify_step (st_id r0) (\<lambda>x. x\<lparr>st_status := ''RUNNING'', st_updated_at := w_clock w\<rparr>) w"
      by (auto elim: claim_some)
    have found: "step_of (st_id r) w' = Some r"
      using in_steps[OF assms(1) r0(1)] by (simp add: r w' stp.get_modify)
    have frame: "step_of k w' = step_of k w" if "k \<noteq> st_id r" for k
      using that by (simp add: r w' stp.get_modify)
    have only: "q = r0" if "q \<in> set (w_steps w)" "st_id q = st_id r0" for q
      using that r0(1) in_steps[OF assms(1)] by (metis option.inject)
    have "map (\<lambda>q. if st_id q = st_id r0 then q\<lparr>st_status := ''RUNNING'', st_updated_at := w_clock w\<rparr> else q) (w_steps w)
        = map (\<lambda>q. if st_id q = st_id r then r else q) (w_steps w)"
      by (intro map_cong refl) (use only in \<open>fastforce simp: r\<close>)
    then have world: "w' = w\<lparr>w_steps := map (\<lambda>q. if st_id q = st_id r then r else q) (w_steps w)\<rparr>"
      by (simp add: w' modify_step_def update_where_def)
    have "tables_ok w'"
      using run_op_tables_ok[OF assms(1), of ClaimStep] assms(2) by simp
    then have "st_id q \<noteq> st_id r" if "claim_next_system_step w' = (Inr (Some q), w'')" for q w''
      using that in_steps found r by (fastforce elim!: claim_some simp: claimable_def)
    with r0 r found frame world Inr Some show ?thesis by auto
  qed
qed

text \<open>
  A normalised filter has a page of at least 1 and a limit between 1 and 100, and up to
  page 21474837 the offset is the exact product, so the pages partition the result.
\<close>

lemma session_filter_offset_exact:
  assumes "sint (sf_page f) \<le> 21474837"
  shows "1 \<le> sint (sf_page (session_filter_normalized f))
    \<and> 1 \<le> sint (sf_limit (session_filter_normalized f)) \<and> sint (sf_limit (session_filter_normalized f)) \<le> 100
    \<and> session_filter_offset (session_filter_normalized f)
        = (max (sint (sf_page f)) 1 - 1) * clamp 1 100 (sint (sf_limit f))"
  using norm_offset[OF assms]
  by (auto simp: session_filter_normalized_def session_filter_offset_def clamp_def)

text \<open>
  The product is taken in \<open>i32\<close> before it is widened. On the last page number of the
  type with the largest limit it wraps to a negative offset, and listing sessions fails with a
  database error, whatever the tables hold.
\<close>

lemma list_sessions_page_overflow:
  assumes "sf_page f = 2147483647" "100 \<le> sint (sf_limit f)"
  shows "list_sessions f w = (Inl (Diesel ''OFFSET must not be negative''), w)"
  using norm_offset_overflow[OF assms(2)] assms(1)
  by (simp add: list_sessions_def Let_def session_filter_normalized_def session_filter_offset_def
      limit_offset_def bindE_def)

section \<open>Witnesses\<close>

definition example_world :: world where
  "example_world = (empty_world 1000)\<lparr>
     w_sessions := [new_session_row 0 \<lparr>sci_id = ''ses_1'', sci_human_id = ''kyc'', sci_user_id = None,
       sci_session_type = ''KYC'', sci_status = ''RUNNING'', sci_context = JObject []\<rparr>],
     w_flows := [new_flow_row 0 \<lparr>fci_id = ''flw_1'', fci_human_id = ''kyc.phone'', fci_session_id = ''ses_1'',
       fci_flow_type = ''PHONE'', fci_status = ''RUNNING'', fci_current_step = None,
       fci_step_ids = JArray [], fci_context = JObject []\<rparr>],
     w_steps := [new_step_row 0 \<lparr>tci_id = ''stp_1'', tci_human_id = ''kyc.phone.notify'', tci_flow_id = ''flw_1'',
       tci_step_type = ''notify'', tci_actor = ''SYSTEM'', tci_status = ''WAITING'', tci_attempt_no = 0,
       tci_input = None, tci_output = None, tci_error = None, tci_next_retry_at = Some 500,
       tci_finished_at = None\<rparr>]\<rparr>"

definition example_step_input :: step_create_input where
  "example_step_input = \<lparr>tci_id = ''stp_2'', tci_human_id = ''kyc.phone.notify'', tci_flow_id = ''flw_1'',
     tci_step_type = ''notify'', tci_actor = ''SYSTEM'', tci_status = ''WAITING'', tci_attempt_no = 0,
     tci_input = None, tci_output = None, tci_error = None, tci_next_retry_at = None,
     tci_finished_at = None\<rparr>"

lemma example_world_ok: "tables_ok example_world"
  by (simp add: tables_ok_def example_world_def new_session_row_def new_flow_row_def new_step_row_def)

theorem repo_reach_invariant_witness:
  "tables_ok (run_op ClaimStep (run_op (CreateStep example_step_input) example_world))"
  using repo_reach_invariant[OF repo_reach.step[OF repo_reach.step[OF repo_reach.here]] example_world_ok]
  by blast

lemma create_step_get_or_create_witness:
  "\<exists>r. create_step example_step_input example_world = (Inr r, example_world)
     \<and> st_human_id r = ''kyc.phone.notify'' \<and> step_of (st_id r) example_world = Some r"
proof -
  obtain r where r: "create_step example_step_input example_world = (Inr r, example_world)"
    by (simp add: create_step_def Let_def insert_unique_def step_clash_def example_world_def
        example_step_input_def new_step_row_def select_first_def)
  from create_step_get_or_create[OF example_world_ok r] r show ?thesis
    by (simp add: example_step_input_def)
qed

theorem claim_next_system_step_exclusive_witness:
  "\<exists>r w'. claim_next_system_step example_world = (Inr (Some r), w')
     \<and> step_of (st_id r) w' = Some r \<and> st_status r = ''RUNNING''"
proof -
  obtain r w' where r: "claim_next_system_step example_world = (Inr (Some r), w')"
    by (simp add: claim_next_system_step_def claimable_def example_world_def new_step_row_def Let_def
        empty_world_def)
  from claim_next_system_step_exclusive[OF example_world_ok r] r show ?thesis by auto
qed

definition example_filter :: "i32 \<Rightarrow> session_filter" where
  "example_filter p = \<lparr>sf_user_id = None, sf_user_ids = None, sf_session_type = None, sf_status = None,
     sf_page = p, sf_limit = 500\<rparr>"

lemma session_filter_offset_exact_witness:
  "sint (sf_page (example_filter 3)) \<le> 21474837
   \<and> session_filter_offset (session_filter_normalized (example_filter 3)) = 200"
  using session_filter_offset_exact[of "example_filter 3"]
  by (simp add: example_filter_def clamp_def)

lemma list_sessions_page_overflow_witness:
  "list_sessions (example_filter 2147483647) example_world
     = (Inl (Diesel ''OFFSET must not be negative''), example_world)"
  by (rule list_sessions_page_overflow) (simp_all add: example_filter_def)

end
