(* ===== verification/User_Repo.thy ===== *)
theory User_Repo
  imports Flow_Repo "HOL-Library.AList"
begin

text \<open>
  The user repository (\<open>backend-repository/src/pg/user.rs\<close>): accounts, their metadata rows
  and the lookups by phone. The database's \<open>ILIKE\<close> is a parameter.
\<close>

section \<open>Requests\<close>

type_synonym kc_map = "(string \<times> string) list"

record user_upsert =
  uu_realm :: string
  uu_username :: string
  uu_first_name :: "string option"
  uu_last_name :: "string option"
  uu_email :: "string option"
  uu_enabled :: "bool option"
  uu_email_verified :: "bool option"
  uu_attributes :: "kc_map option"

record user_search =
  uq_realm :: string
  uq_search :: "string option"
  uq_username :: "string option"
  uq_first_name :: "string option"
  uq_last_name :: "string option"
  uq_email :: "string option"
  uq_enabled :: "bool option"
  uq_email_verified :: "bool option"
  uq_exact :: "bool option"
  uq_attributes :: "kc_map option"
  uq_first_result :: "i32 option"
  uq_max_results :: "i32 option"

definition user_metadata_data_type :: string where
  "user_metadata_data_type = ''metadata''"

definition mask_phone :: "string \<Rightarrow> string" where
  "mask_phone phone =
     (case phone of
        c # digits \<Rightarrow>
          if c = CHR ''+'' \<and> 4 \<le> length digits then ''+***'' @ drop (length digits - 4) digits
          else ''***''
      | [] \<Rightarrow> ''***'')"

definition normalize_full_name :: "string option \<Rightarrow> string option" where
  "normalize_full_name name = Option.bind name (\<lambda>v. if trim v = [] then None else Some (trim v))"

definition normalize_search_field :: "string option \<Rightarrow> string option" where
  "normalize_search_field x = Option.bind x (\<lambda>v. if trim v = [] then None else Some (trim v))"

text \<open>\<open>serde_json::to_value\<close> of a string map.\<close>

definition map_to_value :: "kc_map \<Rightarrow> json" where
  "map_to_value m = JObject (fold (\<lambda>(k, v). obj_insert k (JString v)) m [])"

section \<open>Accounts\<close>

definition user_of :: "string \<Rightarrow> world \<Rightarrow> user_row option" where
  "user_of uid w = select_first (\<lambda>r. us_user_id r = uid) (w_users w)"

definition add_user :: "user_row \<Rightarrow> world \<Rightarrow> world" where
  "add_user r w = w\<lparr>w_users := w_users w @ [r]\<rparr>"

definition modify_user :: "string \<Rightarrow> (user_row \<Rightarrow> user_row) \<Rightarrow> world \<Rightarrow> world" where
  "modify_user uid f w = w\<lparr>w_users := update_where (\<lambda>r. us_user_id r = uid) f (w_users w)\<rparr>"

interpretation usr: row_store user_of add_user modify_user us_user_id
  by unfold_locales
     (auto simp: user_of_def add_user_def modify_user_def select_first_key_update
       dest: select_first_Some split: option.splits)

definition insert_user :: "user_row \<Rightarrow> user_row db" where
  "insert_user r w =
     (case insert_unique (\<lambda>r r'. us_user_id r = us_user_id r') r (w_users w) of
        Some t \<Rightarrow> (Inr r, w\<lparr>w_users := t\<rparr>)
      | None \<Rightarrow> (Inl unique_error, w))"

definition create_user :: "cuid_gen \<Rightarrow> user_upsert \<Rightarrow> user_row db" where
  "create_user cuid req =
     bindE (user_id cuid) (\<lambda>uid w.
       insert_user
         \<lparr>us_user_id = uid, us_realm = uu_realm req, us_username = uu_username req,
          us_full_name = normalize_full_name (uu_first_name req), us_email = uu_email req,
          us_email_verified = unwrap_or False (uu_email_verified req),
          us_phone_number = Option.bind (uu_attributes req) (\<lambda>a. map_of a ''phone_number''),
          us_disabled = (\<not> unwrap_or True (uu_enabled req)),
          us_attributes = map_option map_to_value (uu_attributes req),
          us_created_at = w_clock w, us_updated_at = w_clock w\<rparr> w)"

definition get_user :: "string \<Rightarrow> user_row option db" where
  "get_user uid = gets (user_of uid)"

definition update_user :: "string \<Rightarrow> user_upsert \<Rightarrow> user_row option db" where
  "update_user uid req w =
     (let w' = modify_user uid (\<lambda>r. r\<lparr>us_realm := uu_realm req, us_username := uu_username req,
          us_full_name := normalize_full_name (uu_first_name req), us_email := uu_email req,
          us_email_verified := unwrap_or False (uu_email_verified req),
          us_disabled := (\<not> unwrap_or True (uu_enabled req)),
          us_attributes := map_option map_to_value (uu_attributes req),
          us_updated_at := w_clock w\<rparr>) w
      in (Inr (user_of uid w'), w'))"

text \<open>
  Deleting a user that a session or a device refers to violates a foreign key; the user's
  data rows are deleted with it.
\<close>

definition delete_user :: "string \<Rightarrow> nat db" where
  "delete_user uid w =
     (let n = length (filter (\<lambda>r. us_user_id r = uid) (w_users w)) in
      if 0 < n \<and> ((\<exists>s\<in>set (w_sessions w). se_user_id s = Some uid) \<or> (\<exists>d\<in>set (w_devices w). dv_user_id d = uid))
      then (Inl fk_error, w)
      else (Inr n, w\<lparr>w_users := delete_where (\<lambda>r. us_user_id r = uid) (w_users w),
                     w_user_data := (if 0 < n then delete_where (\<lambda>r. ud_user_id r = uid) (w_user_data w)
                                     else w_user_data w)\<rparr>))"

section \<open>Search\<close>

text \<open>\<open>attributes @> {key: value}\<close> of the database: the object has this member.\<close>

definition json_contains_member :: "json option \<Rightarrow> string \<Rightarrow> string \<Rightarrow> bool" where
  "json_contains_member attrs key v \<longleftrightarrow>
     Option.bind attrs (json_get key) = Some (JString v)"

definition text_filter :: "(string \<Rightarrow> string \<Rightarrow> bool) \<Rightarrow> bool \<Rightarrow> string \<Rightarrow> string option \<Rightarrow> bool" where
  "text_filter ilike exact v column =
     (case column of None \<Rightarrow> False | Some c \<Rightarrow> if exact then c = v else ilike c (''%'' @ v @ ''%''))"

definition opt_filter :: "('a \<Rightarrow> bool) \<Rightarrow> 'a option \<Rightarrow> bool" where
  "opt_filter p x = (case x of None \<Rightarrow> True | Some a \<Rightarrow> p a)"

definition name_filter ::
    "(string \<Rightarrow> string \<Rightarrow> bool) \<Rightarrow> bool \<Rightarrow> string option \<Rightarrow> string option \<Rightarrow> string option \<Rightarrow> bool" where
  "name_filter ilike exact fname lname column =
     (if exact then
        (case (fname, lname) of
           (Some f, Some l) \<Rightarrow> column = Some (f @ '' '' @ l)
         | (Some f, None) \<Rightarrow> column = Some f
         | (None, Some l) \<Rightarrow> column = Some l
         | (None, None) \<Rightarrow> True)
      else opt_filter (\<lambda>f. text_filter ilike False f column) fname
         \<and> opt_filter (\<lambda>l. text_filter ilike False l column) lname)"

definition attribute_filters :: "user_search \<Rightarrow> (string \<times> string) list" where
  "attribute_filters req =
     (case uq_attributes req of
        None \<Rightarrow> []
      | Some items \<Rightarrow>
          concat (map (\<lambda>(k, v). case (normalize_search_field (Some k), normalize_search_field (Some v)) of
                                  (Some k', Some v') \<Rightarrow> [(k', v')] | _ \<Rightarrow> []) items))"

definition has_identity_filter :: "user_search \<Rightarrow> bool" where
  "has_identity_filter req \<longleftrightarrow>
     normalize_search_field (uq_search req) \<noteq> None \<or> normalize_search_field (uq_username req) \<noteq> None
     \<or> normalize_search_field (uq_first_name req) \<noteq> None \<or> normalize_search_field (uq_last_name req) \<noteq> None
     \<or> normalize_search_field (uq_email req) \<noteq> None \<or> attribute_filters req \<noteq> []"

definition search_matches :: "(string \<Rightarrow> string \<Rightarrow> bool) \<Rightarrow> user_search \<Rightarrow> user_row \<Rightarrow> bool" where
  "search_matches ilike req r \<longleftrightarrow>
     (let exact = unwrap_or False (uq_exact req) in
      us_realm r = uq_realm req
      \<and> opt_filter (\<lambda>v. text_filter ilike exact v (us_email r) \<or> text_filter ilike exact v (Some (us_username r))
                      \<or> text_filter ilike exact v (us_full_name r)) (normalize_search_field (uq_search req))
      \<and> opt_filter (\<lambda>v. text_filter ilike exact v (Some (us_username r))) (normalize_search_field (uq_username req))
      \<and> opt_filter (\<lambda>v. text_filter ilike exact v (us_email r)) (normalize_search_field (uq_email req))
      \<and> name_filter ilike exact (normalize_search_field (uq_first_name req))
          (normalize_search_field (uq_last_name req)) (us_full_name r)
      \<and> (\<forall>(k, v)\<in>set (attribute_filters req). json_contains_member (us_attributes r) k v)
      \<and> opt_filter (\<lambda>e. us_disabled r = (\<not> e)) (uq_enabled req)
      \<and> opt_filter (\<lambda>v. us_email_verified r = v) (uq_email_verified req))"

definition search_users :: "(string \<Rightarrow> string \<Rightarrow> bool) \<Rightarrow> user_search \<Rightarrow> user_row list db" where
  "search_users ilike req w =
     (if \<not> has_identity_filter req then (Inr [], w)
      else (limit_offset (clamp 1 200 (sint (unwrap_or 50 (uq_max_results req))))
              (max (sint (unwrap_or 0 (uq_first_result req))) 0)
              (order_by_desc us_created_at (filter (search_matches ilike req) (w_users w))), w))"

definition resolve_user_by_phone :: "string \<Rightarrow> string \<Rightarrow> user_row option db" where
  "resolve_user_by_phone realm phone =
     gets (\<lambda>w. select_first (\<lambda>r. us_realm r = realm \<and> us_username r = phone) (w_users w))"

definition find_users_by_phone :: "string option \<Rightarrow> string \<Rightarrow> user_row list db" where
  "find_users_by_phone realm phone =
     gets (\<lambda>w. order_by_desc us_created_at
       (filter (\<lambda>r. (us_phone_number r = Some phone \<or> us_username r = phone) \<and> matches realm (us_realm r))
          (w_users w)))"

definition resolve_or_create_user_by_phone :: "cuid_gen \<Rightarrow> string \<Rightarrow> string \<Rightarrow> (user_row \<times> bool) db" where
  "resolve_or_create_user_by_phone cuid realm phone =
     bindE (resolve_user_by_phone realm phone) (\<lambda>found.
       case found of
         Some u \<Rightarrow> ret (u, False)
       | None \<Rightarrow>
           bindE (user_id cuid) (\<lambda>uid.
           bindE (\<lambda>w. insert_user
             \<lparr>us_user_id = uid, us_realm = realm, us_username = phone, us_full_name = None,
              us_email = None, us_email_verified = False, us_phone_number = Some phone,
              us_disabled = False, us_attributes = Some (JObject [(''phone_number'', JString phone)]),
              us_created_at = w_clock w, us_updated_at = w_clock w\<rparr> w) (\<lambda>u.
           ret (u, True))))"

section \<open>User data and metadata\<close>

record user_data_input =
  udi_user_id :: string
  udi_name :: string
  udi_data_type :: string
  udi_content :: json
  udi_eager_fetch :: bool

definition is_data_row :: "string \<Rightarrow> string \<Rightarrow> string \<Rightarrow> user_data_row \<Rightarrow> bool" where
  "is_data_row uid name dt r \<longleftrightarrow> ud_user_id r = uid \<and> ud_name r = name \<and> ud_data_type r = dt"

text \<open>\<open>INSERT ... ON CONFLICT (user_id, name, data_type) DO UPDATE\<close>.\<close>

definition put_user_data :: "user_data_input \<Rightarrow> world \<Rightarrow> world" where
  "put_user_data i w =
     (let p = is_data_row (udi_user_id i) (udi_name i) (udi_data_type i) in
      if \<exists>r\<in>set (w_user_data w). p r
      then w\<lparr>w_user_data := update_where p (\<lambda>r. r\<lparr>ud_content := udi_content i,
               ud_eager_fetch := udi_eager_fetch i, ud_updated_at := w_clock w\<rparr>) (w_user_data w)\<rparr>
      else w\<lparr>w_user_data := w_user_data w @ [\<lparr>ud_user_id = udi_user_id i, ud_name = udi_name i,
               ud_data_type = udi_data_type i, ud_content = udi_content i,
               ud_eager_fetch = udi_eager_fetch i, ud_created_at = w_clock w, ud_updated_at = w_clock w\<rparr>]\<rparr>)"

definition user_data_of :: "string \<Rightarrow> string \<Rightarrow> string \<Rightarrow> world \<Rightarrow> user_data_row option" where
  "user_data_of uid name dt w = select_first (is_data_row uid name dt) (w_user_data w)"

definition upsert_user_data :: "user_data_input \<Rightarrow> user_data_row db" where
  "upsert_user_data i w =
     (if user_of (udi_user_id i) w = None then (Inl fk_error, w)
      else (let w' = put_user_data i w
            in (ok_or (Diesel ''Record not found'')
                  (user_data_of (udi_user_id i) (udi_name i) (udi_data_type i) w'), w')))"

definition list_user_data :: "string \<Rightarrow> bool \<Rightarrow> user_data_row list db" where
  "list_user_data uid eager_only =
     gets (\<lambda>w. sort_key ud_name (sort_key ud_data_type
       (filter (\<lambda>r. ud_user_id r = uid \<and> (\<not> eager_only \<or> ud_eager_fetch r)) (w_user_data w))))"

definition with_phone :: "string \<Rightarrow> json option \<Rightarrow> json" where
  "with_phone phone attrs =
     (case attrs of
        Some (JObject m) \<Rightarrow> JObject (obj_insert ''phone_number'' (JString phone) m)
      | _ \<Rightarrow> JObject [(''phone_number'', JString phone)])"

definition update_phone_number :: "string \<Rightarrow> string \<Rightarrow> unit db" where
  "update_phone_number uid phone w =
     (case user_of uid w of
        None \<Rightarrow> (Inr (), w)
      | Some user \<Rightarrow>
          (Inr (), modify_user uid (\<lambda>r. r\<lparr>us_phone_number := Some phone,
             us_attributes := Some (with_phone phone (us_attributes user)), us_updated_at := w_clock w\<rparr>) w))"

definition update_full_name :: "string \<Rightarrow> string \<Rightarrow> unit db" where
  "update_full_name uid name w =
     (if trim name = [] then (Inr (), w)
      else (Inr (), modify_user uid (\<lambda>r. r\<lparr>us_full_name := Some (trim name), us_updated_at := w_clock w\<rparr>) w))"

definition metadata_rows :: "string \<Rightarrow> world \<Rightarrow> user_data_row list" where
  "metadata_rows uid w =
     filter (\<lambda>r. ud_user_id r = uid \<and> ud_data_type r = user_metadata_data_type) (w_user_data w)"

definition get_user_metadata :: "string \<Rightarrow> json db" where
  "get_user_metadata uid =
     gets (\<lambda>w. JObject (fold (\<lambda>r. obj_insert (ud_name r) (ud_content r)) (metadata_rows uid w) []))"

definition get_metadata_fields_for_users ::
    "string list \<Rightarrow> string list \<Rightarrow> (string \<times> jmap) list db" where
  "get_metadata_fields_for_users uids names =
     (if uids = [] \<or> names = [] then ret []
      else gets (\<lambda>w. foldl (\<lambda>out r. AList.update (ud_user_id r)
               (obj_insert (ud_name r) (ud_content r) (unwrap_or [] (map_of out (ud_user_id r)))) out) []
             (filter (\<lambda>r. ud_user_id r \<in> set uids \<and> ud_name r \<in> set names
                        \<and> ud_data_type r = user_metadata_data_type) (w_user_data w))))"

definition patch_metadata_key :: "string \<Rightarrow> jmap option \<Rightarrow> string \<times> json \<Rightarrow> world \<Rightarrow> world" where
  "patch_metadata_key uid eager_obj = (\<lambda>(key, v) w.
     if v = JNull
     then w\<lparr>w_user_data := delete_where (is_data_row uid key user_metadata_data_type) (w_user_data w)\<rparr>
     else
       (let (base, existing_eager) =
              (case user_data_of uid key user_metadata_data_type w of
                 None \<Rightarrow> (JObject [], False) | Some r \<Rightarrow> (ud_content r, ud_eager_fetch r));
            eager = unwrap_or existing_eager
              (Option.bind (Option.bind eager_obj (\<lambda>m. map_of m key)) as_bool)
        in put_user_data \<lparr>udi_user_id = uid, udi_name = key, udi_data_type = user_metadata_data_type,
             udi_content = merge_json_value base v, udi_eager_fetch = eager\<rparr> w))"

definition update_metadata :: "string \<Rightarrow> json \<Rightarrow> json option \<Rightarrow> unit db" where
  "update_metadata uid patch eager w =
     (case as_object patch of
        None \<Rightarrow> (Inr (), w)
      | Some patch_obj \<Rightarrow>
          if user_of uid w = None then (Inr (), w)
          else (Inr (), fold (patch_metadata_key uid (Option.bind eager as_object)) patch_obj
                  (modify_user uid (\<lambda>r. r\<lparr>us_updated_at := w_clock w\<rparr>) w)))"

section \<open>Lemmas\<close>

definition data_key :: "user_data_row \<Rightarrow> string \<times> string \<times> string" where
  "data_key r = (ud_user_id r, ud_name r, ud_data_type r)"

definition user_data_ok :: "world \<Rightarrow> bool" where
  "user_data_ok w \<longleftrightarrow> distinct (map data_key (w_user_data w))"

lemma is_data_row_key: "is_data_row uid name dt = (\<lambda>r. data_key r = (uid, name, dt))"
  by (auto simp: is_data_row_def data_key_def)

lemma user_data_of_put:
  "user_data_of u n d (put_user_data i w)
   = (if (u, n, d) = (udi_user_id i, udi_name i, udi_data_type i)
      then Some (case user_data_of u n d w of
             Some r \<Rightarrow> r\<lparr>ud_content := udi_content i, ud_eager_fetch := udi_eager_fetch i, ud_updated_at := w_clock w\<rparr>
           | None \<Rightarrow> \<lparr>ud_user_id = udi_user_id i, ud_name = udi_name i, ud_data_type = udi_data_type i,
               ud_content = udi_content i, ud_eager_fetch = udi_eager_fetch i,
               ud_created_at = w_clock w, ud_updated_at = w_clock w\<rparr>)
      else user_data_of u n d w)"
proof (cases "user_data_of (udi_user_id i) (udi_name i) (udi_data_type i) w")
  case None
  then have "\<not> (\<exists>r\<in>set (w_user_data w). is_data_row (udi_user_id i) (udi_name i) (udi_data_type i) r)"
    by (auto simp: user_data_of_def select_first_None)
  with None show ?thesis
    by (auto simp: user_data_of_def put_user_data_def Let_def is_data_row_def split: option.splits)
next
  case (Some r)
  then have "\<exists>r\<in>set (w_user_data w). is_data_row (udi_user_id i) (udi_name i) (udi_data_type i) r"
    by (auto simp: user_data_of_def dest: select_first_Some)
  moreover have "select_first (is_data_row u n d)
        (update_where (is_data_row (udi_user_id i) (udi_name i) (udi_data_type i)) f t)
      = (if (u, n, d) = (udi_user_id i, udi_name i, udi_data_type i)
         then map_option f (select_first (is_data_row u n d) t)
         else select_first (is_data_row u n d) t)"
    if "\<And>r. data_key (f r) = data_key r" for f t
    using select_first_key_update[of data_key f "(u, n, d)", OF that] unfolding is_data_row_key by auto
  ultimately show ?thesis using Some
    by (auto simp: user_data_of_def put_user_data_def Let_def data_key_def)
qed

lemma user_data_of_delete:
  "user_data_of u n d (w\<lparr>w_user_data := delete_where (is_data_row u' n' d') (w_user_data w)\<rparr>)
   = (if (u, n, d) = (u', n', d') then None else user_data_of u n d w)"
proof -
  have "List.find (\<lambda>r. data_key r = k) (filter (\<lambda>r. data_key r \<noteq> k') t)
      = (if k = k' then None else List.find (\<lambda>r. data_key r = k) t)" for k k' t
    by (induction t) auto
  then show ?thesis
    by (simp add: user_data_of_def delete_where_def select_first_def is_data_row_key)
qed

definition metadata_value :: "string \<Rightarrow> string \<Rightarrow> world \<Rightarrow> json option" where
  "metadata_value uid k w = map_option ud_content (user_data_of uid k user_metadata_data_type w)"

lemma patch_metadata_key_lookup:
  "metadata_value uid k (patch_metadata_key uid eo (key, v) w)
   = (if k \<noteq> key then metadata_value uid k w
      else if v = JNull then None
      else Some (merge_json_value (unwrap_or (JObject []) (metadata_value uid k w)) v))"
  by (auto simp: metadata_value_def patch_metadata_key_def user_data_of_put user_data_of_delete
      unwrap_or_def Let_def split: option.splits)

lemma patch_metadata_key_frame:
  assumes "u \<noteq> uid \<or> d \<noteq> user_metadata_data_type"
  shows "user_data_of u n d (patch_metadata_key uid eo kv w) = user_data_of u n d w"
  using assms by (cases kv) (auto simp: patch_metadata_key_def user_data_of_put user_data_of_delete
      Let_def split: option.splits)

lemma put_user_data_ok: "user_data_ok w \<Longrightarrow> user_data_ok (put_user_data i w)"
  unfolding user_data_ok_def put_user_data_def Let_def
  by (auto simp: is_data_row_key map_update_where data_key_def)

lemma patch_metadata_key_ok: "user_data_ok w \<Longrightarrow> user_data_ok (patch_metadata_key uid eo kv w)"
  by (cases kv) (auto simp: patch_metadata_key_def put_user_data_ok Let_def user_data_ok_def
      delete_where_def distinct_map_filter split: option.splits intro: put_user_data_ok[unfolded user_data_ok_def])

lemma fold_patch_metadata:
  assumes "distinct (map fst kvs)"
  shows "metadata_value uid k (fold (patch_metadata_key uid eo) kvs w)
     = (case map_of kvs k of
          None \<Rightarrow> metadata_value uid k w
        | Some v \<Rightarrow> if v = JNull then None
                    else Some (merge_json_value (unwrap_or (JObject []) (metadata_value uid k w)) v))"
  using assms
proof (induction kvs arbitrary: w)
  case (Cons kv kvs)
  obtain key v where kv: "kv = (key, v)" by (cases kv)
  show ?case
  proof (cases "k = key")
    case True
    with Cons.prems kv have "map_of kvs k = None" by (simp add: map_of_eq_None_iff)
    with Cons kv True show ?thesis by (simp add: patch_metadata_key_lookup)
  next
    case False
    then have "metadata_value uid k (patch_metadata_key uid eo kv w) = metadata_value uid k w"
      by (simp add: kv patch_metadata_key_lookup)
    with Cons kv False show ?thesis by (simp split: option.split)
  qed
qed simp

lemma fold_patch_metadata_frame:
  "u \<noteq> uid \<or> d \<noteq> user_metadata_data_type \<Longrightarrow>
   user_data_of u n d (fold (patch_metadata_key uid eo) kvs w) = user_data_of u n d w"
  by (induction kvs arbitrary: w) (simp_all add: patch_metadata_key_frame)

lemma fold_patch_metadata_ok:
  "user_data_ok w \<Longrightarrow> user_data_ok (fold (patch_metadata_key uid eo) kvs w)"
  by (induction kvs arbitrary: w) (simp_all add: patch_metadata_key_ok)

lemma fold_obj_insert_lookup:
  "map_of (fold (\<lambda>r. obj_insert (f r) (g r)) rs m) k
   = (case List.find (\<lambda>r. f r = k) (rev rs) of Some r \<Rightarrow> Some (g r) | None \<Rightarrow> map_of m k)"
  by (induction rs rule: rev_induct) (auto split: option.splits)

lemma find_unique_rev:
  assumes "\<And>x y. x \<in> set t \<Longrightarrow> y \<in> set t \<Longrightarrow> p x \<Longrightarrow> p y \<Longrightarrow> x = y"
  shows "List.find p (rev t) = List.find p t"
proof (cases "List.find p t")
  case None
  then have "List.find p (rev t) = None" unfolding find_None_iff by simp
  with None show ?thesis by simp
next
  case (Some x)
  then have "x \<in> set t" "p x" unfolding find_Some_iff by auto
  moreover then obtain y where y: "List.find p (rev t) = Some y"
    by (cases "List.find p (rev t)") (auto simp: find_None_iff)
  then have "y \<in> set t" "p y" unfolding find_Some_iff by (auto simp: rev_nth)
  ultimately show ?thesis using assms Some y by auto
qed

lemma get_user_metadata_lookup:
  assumes "user_data_ok w"
  shows "\<exists>m. get_user_metadata uid w = (Inr (JObject m), w) \<and> (\<forall>k. map_of m k = metadata_value uid k w)"
proof -
  let ?t = "metadata_rows uid w"
  have inj: "x = y" if "x \<in> set ?t" "y \<in> set ?t" "ud_name x = k" "ud_name y = k" for x y k
    using that assms by (auto simp: user_data_ok_def metadata_rows_def distinct_map data_key_def inj_on_def)
  have "List.find (\<lambda>r. ud_name r = k) (filter (\<lambda>r. ud_user_id r = uid \<and> ud_data_type r = d) t)
      = List.find (is_data_row uid k d) t" for k d t
    by (induction t) (auto simp: is_data_row_def)
  then have "List.find (\<lambda>r. ud_name r = k) ?t = user_data_of uid k user_metadata_data_type w" for k
    by (simp add: metadata_rows_def user_data_of_def select_first_def)
  then show ?thesis
    by (simp add: get_user_metadata_def fold_obj_insert_lookup metadata_value_def
        find_unique_rev[OF inj] option.case_eq_if map_option_case)
qed

lemma insert_user_ok:
  "insert_user r w = (Inr u, w') \<longleftrightarrow> u = r \<and> w' = add_user r w \<and> user_of (us_user_id r) w = None"
  by (auto simp: insert_user_def insert_unique_def add_user_def user_of_def select_first_None)

section \<open>Properties\<close>

text \<open>
  Updating a user's metadata with a patch and reading the metadata back: a key the patch
  does not name keeps its value, a null removes the key, any other value is merged into the
  stored one (into an empty object when there is none). Other users' data and data of other
  types do not change, and the account row changes only in its time stamp.
\<close>

lemma update_metadata_lookup:
  assumes "user_data_ok w" "user_of uid w = Some u" "keys_sorted p"
  shows "\<exists>w' m m'. update_metadata uid (JObject p) eager w = (Inr (), w')
    \<and> get_user_metadata uid w = (Inr (JObject m), w) \<and> get_user_metadata uid w' = (Inr (JObject m'), w')
    \<and> (\<forall>k. map_of m' k = (case map_of p k of
           None \<Rightarrow> map_of m k
         | Some v \<Rightarrow> if v = JNull then None
                     else Some (merge_json_value (unwrap_or (JObject []) (map_of m k)) v)))
    \<and> (\<forall>u n d. u \<noteq> uid \<or> d \<noteq> user_metadata_data_type \<longrightarrow> user_data_of u n d w' = user_data_of u n d w)"
proof -
  let ?eo = "Option.bind eager as_object"
  let ?w1 = "modify_user uid (\<lambda>r. r\<lparr>us_updated_at := w_clock w\<rparr>) w"
  let ?w' = "fold (patch_metadata_key uid ?eo) p ?w1"
  have data [simp]: "w_user_data ?w1 = w_user_data w" by (simp add: modify_user_def)
  have run: "update_metadata uid (JObject p) eager w = (Inr (), ?w')"
    using assms(2) by (simp add: update_metadata_def)
  have ok': "user_data_ok ?w'"
    using assms(1) by (intro fold_patch_metadata_ok) (simp add: user_data_ok_def)
  obtain m where m: "get_user_metadata uid w = (Inr (JObject m), w)"
    "\<forall>k. map_of m k = metadata_value uid k w"
    using get_user_metadata_lookup[OF assms(1)] by blast
  obtain m' where m': "get_user_metadata uid ?w' = (Inr (JObject m'), ?w')"
    "\<forall>k. map_of m' k = metadata_value uid k ?w'"
    using get_user_metadata_lookup[OF ok'] by blast
  have same: "metadata_value uid k ?w1 = metadata_value uid k w" for k
    by (simp add: metadata_value_def user_data_of_def)
  have "\<forall>k. map_of m' k = (case map_of p k of
           None \<Rightarrow> map_of m k
         | Some v \<Rightarrow> if v = JNull then None
                     else Some (merge_json_value (unwrap_or (JObject []) (map_of m k)) v))"
    unfolding m(2)[rule_format] m'(2)[rule_format]
      fold_patch_metadata[OF keys_sorted_distinct[OF assms(3)]] same by simp
  moreover have "user_data_of u n d ?w' = user_data_of u n d w"
    if "u \<noteq> uid \<or> d \<noteq> user_metadata_data_type" for u n d
    unfolding fold_patch_metadata_frame[OF that] by (simp add: user_data_of_def)
  ultimately show ?thesis using run m(1) m'(1) by blast
qed

text \<open>
  A user search never leaves its realm, returns at most 200 rows, each of which matches
  all filters of the request, and changes nothing; a request without any identity filter
  returns nobody.
\<close>

lemma search_users_confined:
  assumes "search_users ilike req w = (Inr rows, w')"
  shows "w' = w \<and> length rows \<le> 200
    \<and> (\<forall>r\<in>set rows. r \<in> set (w_users w) \<and> us_realm r = uq_realm req \<and> search_matches ilike req r)
    \<and> (\<not> has_identity_filter req \<longrightarrow> rows = [])"
proof (cases "has_identity_filter req")
  case True
  let ?all = "order_by_desc us_created_at (filter (search_matches ilike req) (w_users w))"
  let ?n = "nat (clamp 1 200 (sint (unwrap_or 50 (uq_max_results req))))"
  let ?k = "nat (max (sint (unwrap_or 0 (uq_first_result req))) 0)"
  have "search_users ilike req w = (Inr (take ?n (drop ?k ?all)), w)"
    using True by (simp add: search_users_def limit_offset_def)
  with assms have "rows = take ?n (drop ?k ?all)" "w' = w" by auto
  moreover have "length (take ?n xs) \<le> 200" for xs :: "user_row list"
    by (auto simp: clamp_def)
  moreover have "set (take ?n (drop ?k ?all)) \<subseteq> set ?all"
    by (meson set_drop_subset set_take_subset subset_trans)
  moreover have "set ?all = set (filter (search_matches ilike req) (w_users w))"
    by (simp add: order_by_desc_def)
  moreover have "search_matches ilike req r \<Longrightarrow> us_realm r = uq_realm req" for r
    by (simp add: search_matches_def Let_def)
  ultimately show ?thesis
    using True by (fastforce simp only: set_filter)
qed (use assms in \<open>simp add: search_users_def\<close>)

text \<open>
  Resolving or creating a user by phone yields a user of the realm named by the phone; it
  reports a creation exactly when it appends that one row and changes no other table, and
  asking again finds the same user without creating another.
\<close>

lemma resolve_or_create_user_idempotent:
  assumes "resolve_or_create_user_by_phone cuid realm phone w = (Inr (u, created), w')"
  shows "us_realm u = realm \<and> us_username u = phone
    \<and> w_users w' = (if created then w_users w @ [u] else w_users w)
    \<and> w_sessions w' = w_sessions w \<and> w_devices w' = w_devices w \<and> w_user_data w' = w_user_data w
    \<and> resolve_or_create_user_by_phone cuid realm phone w' = (Inr (u, False), w')"
proof (cases "select_first (\<lambda>r. us_realm r = realm \<and> us_username r = phone) (w_users w)")
  case (Some r)
  with assms show ?thesis
    by (auto simp: resolve_or_create_user_by_phone_def resolve_user_by_phone_def bindE_def
        dest: select_first_Some)
next
  case None
  with assms show ?thesis
    by (auto simp: resolve_or_create_user_by_phone_def resolve_user_by_phone_def bindE_def
        user_id_def prefixed_def insert_user_ok add_user_def split: prod.splits sum.splits)
qed

section \<open>Witnesses\<close>

definition example_user :: user_row where
  "example_user = \<lparr>us_user_id = ''usr_1'', us_realm = ''r'', us_username = ''+237690000000'',
     us_full_name = None, us_email = None, us_email_verified = False, us_phone_number = None,
     us_disabled = False, us_attributes = None, us_created_at = 0, us_updated_at = 0\<rparr>"

lemma update_metadata_lookup_witness:
  "\<exists>w' m'. update_metadata ''usr_1'' (JObject [(''score'', JString ''A'')]) None
         (add_user example_user (empty_world 0)) = (Inr (), w')
     \<and> get_user_metadata ''usr_1'' w' = (Inr (JObject m'), w') \<and> map_of m' ''score'' = Some (JString ''A'')"
proof -
  let ?w = "add_user example_user (empty_world 0)"
  have "user_data_ok ?w" by (simp add: user_data_ok_def add_user_def empty_world_def)
  moreover have "user_of ''usr_1'' ?w = Some example_user"
    by (simp add: user_of_def add_user_def empty_world_def example_user_def)
  moreover have "keys_sorted [(''score'', JString ''A'')]" by (simp add: keys_sorted_def)
  ultimately obtain w' m m' where
    "update_metadata ''usr_1'' (JObject [(''score'', JString ''A'')]) None ?w = (Inr (), w')"
    "get_user_metadata ''usr_1'' w' = (Inr (JObject m'), w')"
    "map_of m' ''score'' = Some (merge_json_value (unwrap_or (JObject []) (map_of m ''score'')) (JString ''A''))"
    using update_metadata_lookup[of ?w "''usr_1''" example_user "[(''score'', JString ''A'')]" None]
    by auto
  then show ?thesis by (cases "unwrap_or (JObject []) (map_of m ''score'')") auto
qed

definition example_search :: user_search where
  "example_search = \<lparr>uq_realm = ''r'', uq_search = None, uq_username = Some ''+237690000000'',
     uq_first_name = None, uq_last_name = None, uq_email = None, uq_enabled = None,
     uq_email_verified = None, uq_exact = Some True, uq_attributes = None, uq_first_result = None,
     uq_max_results = None\<rparr>"

lemma example_search_runs:
  "\<exists>rows. search_users (=) example_search (add_user example_user (empty_world 0))
     = (Inr rows, add_user example_user (empty_world 0))"
  by (simp add: search_users_def limit_offset_def unwrap_or_def example_search_def)

lemma search_users_confined_witness:
  "\<exists>rows. search_users (=) example_search (add_user example_user (empty_world 0))
       = (Inr rows, add_user example_user (empty_world 0)) \<and> length rows \<le> 200"
  using example_search_runs search_users_confined by blast

lemma resolve_or_create_user_idempotent_witness:
  "\<exists>u w'. resolve_or_create_user_by_phone (\<lambda>n. Inr (show_nat n)) ''r'' ''+1'' (empty_world 0) = (Inr (u, True), w')
     \<and> resolve_or_create_user_by_phone (\<lambda>n. Inr (show_nat n)) ''r'' ''+1'' w' = (Inr (u, False), w')"
proof -
  obtain u w' where
    r: "resolve_or_create_user_by_phone (\<lambda>n. Inr (show_nat n)) ''r'' ''+1'' (empty_world 0) = (Inr (u, True), w')"
    by (simp add: resolve_or_create_user_by_phone_def resolve_user_by_phone_def bindE_def user_id_def
        prefixed_def insert_user_def insert_unique_def empty_world_def)
  from resolve_or_create_user_idempotent[OF r] r show ?thesis by blast
qed

end
