(* ===== verification/Actions.thy ===== *)
theory Actions
  imports Flow_Registry User_Repo
begin

text \<open>
  The built-in steps of \<open>backend-flow-sdk/src/actions\<close>, except one-time passwords, KYC and
  webhooks, which have their own theories or are not modelled. A step reads its configuration
  with \<open>parse_step_config\<close>, then executes on a context and the world (the user services of the
  context are the server's user repository, \<open>flows/runtime.rs\<close>). Deserialisers derived by
  \<open>serde\<close> and the printing of JSON values and floats are parameters.
\<close>

section \<open>Configurations\<close>

record error_config =
  ec_message :: string
  ec_code :: string
  ec_retryable :: bool

datatype wait_actor = WaitUser | WaitAdmin
datatype set_target = SetSession | SetFlow | SetUser

record set_config =
  sc_to :: set_target
  sc_values :: jmap

datatype conditional_source = CondSession | CondFlow | CondInput

record conditional_config =
  cc_source :: conditional_source
  cc_pointer :: string
  cc_cases :: "(string \<times> string) list"
  cc_default_branch :: "string option"

datatype get_user_target = SaveFlow | SaveSession
datatype phone_source = PhoneSession | PhoneFlow

record phone_config =
  pc_source :: phone_source
  pc_source_path :: string
  pc_update_user :: bool
  pc_save_to_session :: bool

datatype mapping_source = FromSession | FromFlow | FromInput | FromResponse | FromLiteral

record json_mapping =
  jm_source :: "mapping_source option"
  jm_source_path :: "string option"
  jm_json_pointer :: "string option"
  jm_target_path :: string
  jm_value :: "json option"

datatype map_root = RootSession | RootFlow | RootInput | RootStepOutput | RootUserMetadata

record map_ref =
  mr_root :: map_root
  mr_path :: string

record map_rule =
  ml_from :: map_ref
  ml_to :: map_ref
  ml_eager :: "bool option"

datatype metadata_source = MetaSession | MetaFlow | MetaLiteral

record metadata_mapping =
  mm_target_path :: string
  mm_source :: "metadata_source option"
  mm_source_path :: "string option"
  mm_json_pointer :: "string option"
  mm_value :: "json option"
  mm_eager :: "bool option"

record full_name_config =
  fn_require_decision :: bool
  fn_source_step_output :: "string option"

record full_name_input =
  fi_decision :: "string option"
  fi_full_name :: "string option"
  fi_deposit_via_whatsapp :: "bool option"
  fi_identity_via_whatsapp :: "bool option"
  fi_deposited_amount :: "rat option"

text \<open>The deserialisers the actions use, and the printer of JSON values.\<close>

record serde_ext =
  de_error :: "json \<Rightarrow> string + error_config"
  de_retry_after_ms :: "json \<Rightarrow> string + nat"
  de_wait :: "json \<Rightarrow> string + wait_actor"
  de_set :: "json \<Rightarrow> string + set_config"
  de_debug :: "json \<Rightarrow> string + unit"
  de_close_reason :: "json \<Rightarrow> string + string option"
  de_conditional :: "json \<Rightarrow> string + conditional_config"
  de_get_user :: "json \<Rightarrow> string + get_user_target"
  de_phone :: "json \<Rightarrow> string + phone_config"
  de_map :: "json \<Rightarrow> string + map_rule list"
  de_metadata :: "json \<Rightarrow> string + metadata_mapping list"
  de_full_name :: "json \<Rightarrow> string + full_name_config"
  de_full_name_input :: "json \<Rightarrow> string + full_name_input"
  value_to_string :: "json \<Rightarrow> string"

definition parse_step_config :: "(json \<Rightarrow> string + 'c) \<Rightarrow> 'c \<Rightarrow> step_context \<Rightarrow> flow_error + 'c" where
  "parse_step_config de dflt cx =
     (case svc_config (cx_services cx) of
        None \<Rightarrow> Inr dflt
      | Some m \<Rightarrow> if m = [] then Inr dflt else map_errR InvalidDefinition (de (JObject m)))"

type_synonym step_exec = "(world, flow_error, step_outcome) sem"

section \<open>Control steps\<close>

definition exec_noop :: "step_context \<Rightarrow> step_exec" where
  "exec_noop cx = ret (Done None None)"

definition exec_error :: "serde_ext \<Rightarrow> step_context \<Rightarrow> step_exec" where
  "exec_error sx cx =
     bindE (lift_res (parse_step_config (de_error sx)
       \<lparr>ec_message = ''Unknown error'', ec_code = [], ec_retryable = False\<rparr> cx)) (\<lambda>c.
     ret (Failed (if ec_code c = [] then ec_message c else ec_code c @ '': '' @ ec_message c) (ec_retryable c)))"

definition exec_retry :: "serde_ext \<Rightarrow> step_context \<Rightarrow> step_exec" where
  "exec_retry sx cx = bindE (lift_res (parse_step_config (de_retry_after_ms sx) 1000 cx)) (\<lambda>ms. ret (Retry ms))"

fun wait_actor_actor :: "wait_actor \<Rightarrow> actor" where
  "wait_actor_actor WaitUser = EndUser"
| "wait_actor_actor WaitAdmin = Admin"

definition exec_wait :: "serde_ext \<Rightarrow> step_context \<Rightarrow> step_exec" where
  "exec_wait sx cx =
     bindE (lift_res (parse_step_config (de_wait sx) WaitUser cx)) (\<lambda>a. ret (Waiting (wait_actor_actor a)))"

definition exec_set :: "serde_ext \<Rightarrow> step_context \<Rightarrow> step_exec" where
  "exec_set sx cx =
     bindE (lift_res (parse_step_config (de_set sx) \<lparr>sc_to = SetFlow, sc_values = []\<rparr> cx)) (\<lambda>c.
     let values = JObject (sc_values c);
         updates = (case sc_to c of
           SetSession \<Rightarrow> no_updates\<lparr>cu_session_context_patch := Some values\<rparr>
         | SetFlow \<Rightarrow> no_updates\<lparr>cu_flow_context_patch := Some values\<rparr>
         | SetUser \<Rightarrow> no_updates\<lparr>cu_user_metadata_patch := Some values\<rparr>)
     in ret (Done None (Some updates)))"

definition exec_debug :: "serde_ext \<Rightarrow> step_context \<Rightarrow> step_exec" where
  "exec_debug sx cx = bindE (lift_res (parse_step_config (de_debug sx) () cx)) (\<lambda>_. ret (Done None None))"

definition exec_close_session :: "serde_ext \<Rightarrow> step_context \<Rightarrow> step_exec" where
  "exec_close_session sx cx =
     bindE (lift_res (parse_step_config (de_close_reason sx) None cx)) (\<lambda>r.
     let reason = unwrap_or ''CLOSED'' r in
     ret (Done (Some (JObject [(''closed'', JBool True), (''reason'', JString reason)]))
       (Some (no_updates\<lparr>cu_session_context_patch :=
          Some (JObject [(''close_reason'', JString reason), (''closed_by_step'', JString (cx_step_id cx))])\<rparr>))))"

section \<open>Conditional\<close>

definition show_number :: "serde_ext \<Rightarrow> jnum \<Rightarrow> string" where
  "show_number sx n = value_to_string sx (JNumber n)"

fun stringify_value :: "serde_ext \<Rightarrow> json \<Rightarrow> string" where
  "stringify_value sx (JString s) = s"
| "stringify_value sx (JBool b) = (if b then ''true'' else ''false'')"
| "stringify_value sx (JNumber n) = show_number sx n"
| "stringify_value sx JNull = ''null''"
| "stringify_value sx v = value_to_string sx v"

definition default_conditional :: conditional_config where
  "default_conditional = \<lparr>cc_source = CondFlow, cc_pointer = [], cc_cases = [], cc_default_branch = None\<rparr>"

definition exec_conditional :: "serde_ext \<Rightarrow> step_context \<Rightarrow> step_exec" where
  "exec_conditional sx cx =
     bindE (lift_res (parse_step_config (de_conditional sx) default_conditional cx)) (\<lambda>c.
     let selected = (case cc_source c of
           CondSession \<Rightarrow> session_pointer cx (cc_pointer c)
         | CondFlow \<Rightarrow> flow_pointer cx (cc_pointer c)
         | CondInput \<Rightarrow> pointer (cc_pointer c) (cx_input cx));
         matched = Option.bind selected (\<lambda>v. map_of (cc_cases c) (stringify_value sx v));
         branch = (case matched of Some b \<Rightarrow> Some b | None \<Rightarrow> cc_default_branch c)
     in case branch of
          None \<Rightarrow> throw (InvalidDefinition (''No conditional branch matched pointer '' @ cc_pointer c))
        | Some b \<Rightarrow> ret (Branched b selected None))"

section \<open>User steps\<close>

definition jopt :: "string option \<Rightarrow> json" where
  "jopt x = (case x of None \<Rightarrow> JNull | Some s \<Rightarrow> JString s)"

record user_lookup_record =
  ul_row :: user_row
  ul_metadata :: json

text \<open>\<open>RepoUserLookup::get_user\<close> and \<open>RepoUserContact\<close>.\<close>

definition lookup_user :: "string \<Rightarrow> (world, string, user_lookup_record option) sem" where
  "lookup_user uid =
     map_errE error_display
       (bindE (get_user uid) (\<lambda>u. case u of
          None \<Rightarrow> ret None
        | Some row \<Rightarrow> bindE (get_user_metadata (us_user_id row)) (\<lambda>m. ret (Some \<lparr>ul_row = row, ul_metadata = m\<rparr>))))"

definition contact_update_phone :: "string \<Rightarrow> string \<Rightarrow> (world, string, unit) sem" where
  "contact_update_phone uid phone = map_errE error_display (update_phone_number uid phone)"

definition contact_update_full_name :: "string \<Rightarrow> string \<Rightarrow> (world, string, unit) sem" where
  "contact_update_full_name uid name = map_errE error_display (update_full_name uid name)"

definition get_user_patch :: "user_lookup_record \<Rightarrow> json" where
  "get_user_patch u =
     (let r = ul_row u in
      JObject [(''email'', jopt (us_email r)), (''full_name'', jopt (us_full_name r)),
        (''phone_number'', jopt (us_phone_number r)), (''realm'', JString (us_realm r)),
        (''user'', JObject [(''email'', jopt (us_email r)), (''full_name'', jopt (us_full_name r)),
           (''metadata'', ul_metadata u), (''phone_number'', jopt (us_phone_number r)),
           (''realm'', JString (us_realm r)), (''user_id'', JString (us_user_id r)),
           (''username'', JString (us_username r))]),
        (''user_exists'', JBool True), (''user_id'', JString (us_user_id r)),
        (''username'', JString (us_username r))])"

definition exec_get_user :: "serde_ext \<Rightarrow> step_context \<Rightarrow> step_exec" where
  "exec_get_user sx cx =
     bindE (lift_res (parse_step_config (de_get_user sx) SaveSession cx)) (\<lambda>save_to.
     case cx_session_user_id cx of
       None \<Rightarrow> ret (Done (Some (JObject [(''userExists'', JBool False)])) None)
     | Some uid \<Rightarrow>
         if \<not> svc_user_lookup (cx_services cx)
         then throw (InvalidDefinition ''GET_USER requires user lookup service'')
         else
           bindE (map_errE InvalidDefinition (lookup_user uid)) (\<lambda>found.
           case found of
             None \<Rightarrow> ret (Done (Some (JObject [(''userExists'', JBool False), (''userId'', JString uid)])) None)
           | Some u \<Rightarrow>
               let patch = get_user_patch u;
                   updates = (case save_to of
                     SaveFlow \<Rightarrow> no_updates\<lparr>cu_flow_context_patch := Some patch\<rparr>
                   | SaveSession \<Rightarrow> no_updates\<lparr>cu_session_context_patch := Some patch\<rparr>)
               in ret (Done (Some (JObject [(''fullName'', jopt (us_full_name (ul_row u))),
                        (''phoneNumber'', jopt (us_phone_number (ul_row u))), (''userExists'', JBool True),
                        (''userId'', JString (us_user_id (ul_row u)))])) (Some updates))))"

definition default_phone_config :: phone_config where
  "default_phone_config = \<lparr>pc_source = PhoneSession, pc_source_path = ''/phone_number'',
     pc_update_user = True, pc_save_to_session = True\<rparr>"

definition resolve_phone_number :: "step_context \<Rightarrow> phone_config \<Rightarrow> flow_error + string" where
  "resolve_phone_number cx c =
     (let raw = (case pc_source c of
            PhoneSession \<Rightarrow> session_pointer cx (pc_source_path c)
          | PhoneFlow \<Rightarrow> flow_pointer cx (pc_source_path c));
          name = (case pc_source c of PhoneSession \<Rightarrow> ''Session'' | PhoneFlow \<Rightarrow> ''Flow'')
      in ok_or (InvalidDefinition (''Phone number not found at '' @ name @ '' '' @ pc_source_path c))
           (trim_field (Option.bind raw as_str)))"

definition exec_update_phone_number :: "serde_ext \<Rightarrow> step_context \<Rightarrow> step_exec" where
  "exec_update_phone_number sx cx =
     bindE (lift_res (parse_step_config (de_phone sx) default_phone_config cx)) (\<lambda>c.
     bindE (lift_res (resolve_phone_number cx c)) (\<lambda>phone.
     bindE (if pc_update_user c
            then
              (case cx_session_user_id cx of
                 None \<Rightarrow> throw (InvalidDefinition ''update-phone-number requires session user id'')
               | Some uid \<Rightarrow>
                   if \<not> svc_user_contact (cx_services cx)
                   then throw (InvalidDefinition ''update-phone-number requires user contact service'')
                   else map_errE InvalidDefinition (contact_update_phone uid phone))
            else ret ()) (\<lambda>_.
     let patch = JObject [(''phone_number'', JString phone)] in
     ret (Done (Some (JObject [(''phone_number'', JString phone), (''user_updated'', JBool (pc_update_user c))]))
       (Some (no_updates\<lparr>cu_flow_context_patch := Some patch,
                cu_session_context_patch := (if pc_save_to_session c then Some patch else None)\<rparr>))))))"

end
