(* ===== verification/Map_Actions.thy ===== *)
theory Map_Actions
  imports Actions
begin

text \<open>
  The steps that move data between contexts: the source resolution of \<open>mapping_utils.rs\<close>,
  \<open>map.rs\<close>, \<open>update_user_metadata.rs\<close> and \<open>upgrade_full_name.rs\<close>.
\<close>

section \<open>Sources\<close>

definition strip_prefix :: "string \<Rightarrow> string \<Rightarrow> string option" where
  "strip_prefix pre s = (if prefix pre s then Some (drop (length pre) s) else None)"

definition trim_context_prefix :: "string \<Rightarrow> string \<Rightarrow> string option" where
  "trim_context_prefix path pre = (if path = pre then Some [] else strip_prefix pre path)"

definition resolve_absolute_source_path :: "step_context \<Rightarrow> json option \<Rightarrow> string \<Rightarrow> json option" where
  "resolve_absolute_source_path cx response p =
     (if p = ''/session_id'' then Some (JString (cx_session_id cx))
      else if p = ''/flow_id'' then Some (JString (cx_flow_id cx))
      else if p = ''/session_user_id'' then map_option JString (cx_session_user_id cx)
      else case trim_context_prefix p ''/flow/context'' of Some rel \<Rightarrow> pointer rel (cx_flow_context cx)
      | None \<Rightarrow> (case trim_context_prefix p ''/flow'' of Some rel \<Rightarrow> pointer rel (cx_flow_context cx)
      | None \<Rightarrow> (case trim_context_prefix p ''/session/context'' of Some rel \<Rightarrow> pointer rel (cx_session_context cx)
      | None \<Rightarrow> (case trim_context_prefix p ''/session'' of Some rel \<Rightarrow> pointer rel (cx_session_context cx)
      | None \<Rightarrow> (case trim_context_prefix p ''/input'' of Some rel \<Rightarrow> pointer rel (cx_input cx)
      | None \<Rightarrow> (case trim_context_prefix p ''/response'' of Some rel \<Rightarrow> Option.bind response (pointer rel)
      | None \<Rightarrow> None))))))"

definition resolve_json_pointer_mapping_value ::
    "step_context \<Rightarrow> json option \<Rightarrow> json_mapping \<Rightarrow> flow_error + json option" where
  "resolve_json_pointer_mapping_value cx response m =
     (case jm_value m of
        Some v \<Rightarrow> Inr (Some v)
      | None \<Rightarrow>
          bindR (ok_or (InvalidDefinition ''source_path or json_pointer is required when value is not set'')
                   (case jm_source_path m of Some p \<Rightarrow> Some p | None \<Rightarrow> jm_json_pointer m)) (\<lambda>p.
          Inr (case jm_source m of
                 Some FromSession \<Rightarrow> session_pointer cx p
               | Some FromFlow \<Rightarrow> flow_pointer cx p
               | Some FromInput \<Rightarrow> pointer p (cx_input cx)
               | Some FromResponse \<Rightarrow> Option.bind response (pointer p)
               | Some FromLiteral \<Rightarrow> None
               | None \<Rightarrow> resolve_absolute_source_path cx response p)))"

section \<open>MAP\<close>

definition normalize_pointer :: "string \<Rightarrow> string" where
  "normalize_pointer path =
     (case path of
        [] \<Rightarrow> []
      | c # rest \<Rightarrow> if path = ''/'' then [] else if c = CHR ''/'' then path else CHR ''/'' # path)"

definition read_from_root :: "step_context \<Rightarrow> map_ref \<Rightarrow> flow_error + json option" where
  "read_from_root cx src =
     (let p = normalize_pointer (mr_path src) in
      case mr_root src of
        RootSession \<Rightarrow> Inr (session_pointer cx p)
      | RootFlow \<Rightarrow> Inr (flow_pointer cx p)
      | RootInput \<Rightarrow> Inr (pointer p (cx_input cx))
      | RootStepOutput \<Rightarrow> Inr (flow_pointer cx (''/step_output'' @ p))
      | RootUserMetadata \<Rightarrow> Inl (InvalidDefinition ''user_metadata cannot be used as map source root''))"

definition apply_to_updates :: "json option \<Rightarrow> string \<Rightarrow> json \<Rightarrow> json option" where
  "apply_to_updates slot path v = Some (apply_json_pointer_patch (unwrap_or (JObject []) slot) path v)"

record map_state =
  ms_updates :: context_updates
  ms_output :: json
  ms_eager :: jmap

definition map_step :: "step_context \<Rightarrow> map_state \<Rightarrow> map_rule \<Rightarrow> flow_error + map_state" where
  "map_step cx s rule =
     bindR (read_from_root cx (ml_from rule)) (\<lambda>found.
     case found of
       None \<Rightarrow> Inr s
     | Some v \<Rightarrow>
         (let path = mr_path (ml_to rule); u = ms_updates s in
          case mr_root (ml_to rule) of
            RootSession \<Rightarrow> Inr (s\<lparr>ms_updates := u\<lparr>cu_session_context_patch :=
                             apply_to_updates (cu_session_context_patch u) path v\<rparr>\<rparr>)
          | RootFlow \<Rightarrow> Inr (s\<lparr>ms_updates := u\<lparr>cu_flow_context_patch :=
                             apply_to_updates (cu_flow_context_patch u) path v\<rparr>\<rparr>)
          | RootUserMetadata \<Rightarrow>
              Inr (s\<lparr>ms_updates := u\<lparr>cu_user_metadata_patch := apply_to_updates (cu_user_metadata_patch u) path v\<rparr>,
                     ms_eager := (case (ml_eager rule, top_level_key path) of
                                    (Some e, Some key) \<Rightarrow> obj_insert key (JBool e) (ms_eager s)
                                  | _ \<Rightarrow> ms_eager s)\<rparr>)
          | RootStepOutput \<Rightarrow> Inr (s\<lparr>ms_output := apply_json_pointer_patch (ms_output s) path v\<rparr>)
          | RootInput \<Rightarrow> Inl (InvalidDefinition ''input cannot be used as map target root'')))"

definition has_updates :: "context_updates \<Rightarrow> bool" where
  "has_updates u \<longleftrightarrow> cu_flow_context_patch u \<noteq> None \<or> cu_session_context_patch u \<noteq> None
     \<or> cu_user_metadata_patch u \<noteq> None \<or> cu_user_metadata_eager_patch u \<noteq> None \<or> cu_notifications u \<noteq> None"

definition exec_map :: "serde_ext \<Rightarrow> step_context \<Rightarrow> step_exec" where
  "exec_map sx cx =
     bindE (lift_res (parse_step_config (de_map sx) [] cx)) (\<lambda>rules.
     bindE (lift_res (fold_res (map_step cx)
              \<lparr>ms_updates = no_updates, ms_output = JObject [], ms_eager = []\<rparr> rules)) (\<lambda>s.
     let updates = (if ms_eager s = [] then ms_updates s
                    else (ms_updates s)\<lparr>cu_user_metadata_eager_patch := Some (JObject (ms_eager s))\<rparr>);
         out = (if ms_output s = JObject [] then JObject [(''mapped'', JBool True)] else ms_output s)
     in ret (Done (Some out) (if has_updates updates then Some updates else None))))"

section \<open>UPDATE_USER_METADATA\<close>

definition mapping_of_metadata :: "metadata_mapping \<Rightarrow> json_mapping" where
  "mapping_of_metadata m =
     \<lparr>jm_source = map_option (\<lambda>s. case s of MetaSession \<Rightarrow> FromSession | MetaFlow \<Rightarrow> FromFlow
                    | MetaLiteral \<Rightarrow> FromLiteral) (mm_source m),
      jm_source_path = mm_source_path m, jm_json_pointer = mm_json_pointer m,
      jm_target_path = mm_target_path m, jm_value = mm_value m\<rparr>"

definition metadata_step ::
    "step_context \<Rightarrow> json \<times> jmap \<Rightarrow> metadata_mapping \<Rightarrow> flow_error + json \<times> jmap" where
  "metadata_step cx = (\<lambda>(patch, eager) m.
     bindR (resolve_json_pointer_mapping_value cx None (mapping_of_metadata m)) (\<lambda>v.
     Inr ((case v of None \<Rightarrow> patch | Some x \<Rightarrow> apply_json_pointer_patch patch (mm_target_path m) x),
          (case (mm_eager m, top_level_key (mm_target_path m)) of
             (Some e, Some key) \<Rightarrow> obj_insert key (JBool e) eager
           | _ \<Rightarrow> eager))))"

definition exec_update_user_metadata :: "serde_ext \<Rightarrow> step_context \<Rightarrow> step_exec" where
  "exec_update_user_metadata sx cx =
     bindE (lift_res (parse_step_config (de_metadata sx) [] cx)) (\<lambda>ms.
     bindE (lift_res (fold_res (metadata_step cx) (JObject [], []) ms)) (\<lambda>(patch, eager).
     ret (Done (Some (JObject [(''updated'', JBool True)]))
       (Some (no_updates\<lparr>cu_user_metadata_patch := Some patch,
          cu_user_metadata_eager_patch := (if eager = [] then None else Some (JObject eager))\<rparr>)))))"

section \<open>UPGRADE_FULL_NAME\<close>

datatype admin_decision = Approved | Rejected

definition parse_decision :: "string \<Rightarrow> admin_decision option" where
  "parse_decision raw =
     (if eq_ignore_ascii_case raw ''APPROVED'' then Some Approved
      else if eq_ignore_ascii_case raw ''REJECTED'' then Some Rejected else None)"

fun decision_str :: "admin_decision \<Rightarrow> string" where
  "decision_str Approved = ''APPROVED''"
| "decision_str Rejected = ''REJECTED''"

record normalized_input =
  ni_decision :: "admin_decision option"
  ni_full_name :: "string option"
  ni_deposit_via_whatsapp :: bool
  ni_identity_via_whatsapp :: bool
  ni_deposited_amount :: "rat option"

definition trim_non_empty :: "string \<Rightarrow> string option" where
  "trim_non_empty raw = (if trim raw = [] then None else Some (trim raw))"

definition session_full_name :: "json \<Rightarrow> string option" where
  "session_full_name cx =
     Option.bind (case json_get ''full_name'' cx of Some v \<Rightarrow> Some v | None \<Rightarrow> json_get ''fullname'' cx) as_str"

definition normalized_of :: "full_name_input \<Rightarrow> admin_decision option \<Rightarrow> string option \<Rightarrow> normalized_input" where
  "normalized_of i d name =
     \<lparr>ni_decision = d, ni_full_name = name,
      ni_deposit_via_whatsapp = unwrap_or False (fi_deposit_via_whatsapp i),
      ni_identity_via_whatsapp = unwrap_or False (fi_identity_via_whatsapp i),
      ni_deposited_amount = fi_deposited_amount i\<rparr>"

definition normalize_decided ::
    "full_name_input \<Rightarrow> admin_decision \<Rightarrow> string option \<Rightarrow> flow_error + normalized_input" where
  "normalize_decided i d fallback =
     bindR (case fi_full_name i of
              Some n \<Rightarrow> bindR (ok_or (InvalidDefinition ''full_name must not be empty when provided'')
                                (trim_non_empty n)) (\<lambda>v. Inr (Some v))
            | None \<Rightarrow> Inr (Option.bind fallback trim_non_empty)) (\<lambda>name.
     if d = Approved \<and> name = None
     then Inl (InvalidDefinition ''full_name is required for APPROVED decision'')
     else if d = Approved \<and> fi_deposited_amount i = None
     then Inl (InvalidDefinition ''validated_deposited_amount is required for APPROVED decision'')
     else Inr (normalized_of i (Some d) name))"

definition normalize_input ::
    "serde_ext \<Rightarrow> json \<Rightarrow> bool \<Rightarrow> string option \<Rightarrow> flow_error + normalized_input" where
  "normalize_input sx input require_decision fallback =
     bindR (map_errR (\<lambda>e. InvalidDefinition (''UPGRADE_FULL_NAME invalid input: '' @ e))
              (de_full_name_input sx input)) (\<lambda>i.
     case trim_field (fi_decision i) of
       Some raw \<Rightarrow>
         bindR (ok_or (InvalidDefinition ''decision must be one of APPROVED or REJECTED'') (parse_decision raw))
           (\<lambda>d. normalize_decided i d fallback)
     | None \<Rightarrow>
         if require_decision then Inl (InvalidDefinition ''decision is required'')
         else Inr (normalized_of i None
                (case Option.bind (fi_full_name i) trim_non_empty of
                   Some n \<Rightarrow> Some n | None \<Rightarrow> Option.bind fallback trim_non_empty)))"

definition jamount :: "rat option \<Rightarrow> json" where
  "jamount a = (case a of None \<Rightarrow> JNull | Some r \<Rightarrow> JNumber (Float r))"

definition insert_opt :: "string \<Rightarrow> json option \<Rightarrow> jmap \<Rightarrow> jmap" where
  "insert_opt k v m = (case v of None \<Rightarrow> m | Some x \<Rightarrow> obj_insert k x m)"

definition done_outcome :: "normalized_input \<Rightarrow> step_outcome" where
  "done_outcome n =
     (let name = map_option JString (ni_full_name n);
          amount = map_option (\<lambda>r. JNumber (Float r)) (ni_deposited_amount n);
          flags = (\<lambda>m. obj_insert ''validated_identity_via_whatsapp'' (JBool (ni_identity_via_whatsapp n))
                    (obj_insert ''validated_deposit_via_whatsapp'' (JBool (ni_deposit_via_whatsapp n)) m));
          session_patch = flags (insert_opt ''amount'' amount (insert_opt ''deposit_amount'' amount
                            (insert_opt ''full_name'' name [])));
          flow_patch = flags (insert_opt ''amount'' amount (insert_opt ''full_name'' name []))
      in Done (Some (JObject [(''decision'', jopt (map_option decision_str (ni_decision n))),
            (''full_name'', jopt (ni_full_name n)),
            (''validated_deposit_via_whatsapp'', JBool (ni_deposit_via_whatsapp n)),
            (''validated_deposited_amount'', jamount (ni_deposited_amount n)),
            (''validated_identity_via_whatsapp'', JBool (ni_identity_via_whatsapp n))]))
          (Some (no_updates\<lparr>cu_session_context_patch := Some (JObject session_patch),
                    cu_flow_context_patch := Some (JObject flow_patch)\<rparr>)))"

definition persist_full_name :: "step_context \<Rightarrow> string option \<Rightarrow> (world, flow_error, unit) sem" where
  "persist_full_name cx name =
     (case name of
        None \<Rightarrow> ret ()
      | Some n \<Rightarrow>
          (case cx_session_user_id cx of
             None \<Rightarrow> throw (InvalidDefinition ''UPGRADE_FULL_NAME requires session user id'')
           | Some uid \<Rightarrow>
               if \<not> svc_user_contact (cx_services cx)
               then throw (InvalidDefinition ''UPGRADE_FULL_NAME requires user contact service'')
               else map_errE InvalidDefinition (contact_update_full_name uid n)))"

definition default_full_name_config :: full_name_config where
  "default_full_name_config = \<lparr>fn_require_decision = True, fn_source_step_output = None\<rparr>"

definition exec_upgrade_full_name :: "serde_ext \<Rightarrow> step_context \<Rightarrow> step_exec" where
  "exec_upgrade_full_name sx cx =
     bindE (lift_res (parse_step_config (de_full_name sx) default_full_name_config cx)) (\<lambda>c.
     case fn_source_step_output c of
       None \<Rightarrow> ret (Waiting Admin)
     | Some src \<Rightarrow>
         bindE (lift_res (ok_or (InvalidDefinition (''UPGRADE_FULL_NAME requires step_output for source step `''
                  @ src @ ''`'')) (step_output_pointer cx src []))) (\<lambda>input.
         bindE (lift_res (normalize_input sx input (fn_require_decision c)
                  (session_full_name (cx_session_context cx)))) (\<lambda>n.
         bindE (persist_full_name cx (ni_full_name n)) (\<lambda>_. ret (done_outcome n)))))"

definition validate_upgrade_full_name :: "serde_ext \<Rightarrow> json \<Rightarrow> flow_error + unit" where
  "validate_upgrade_full_name sx input =
     (if \<not> is_object input then Inl (InvalidDefinition ''UPGRADE_FULL_NAME expects object input'')
      else bindR (normalize_input sx input False None) (\<lambda>_. Inr ()))"

definition verify_upgrade_full_name :: "serde_ext \<Rightarrow> step_context \<Rightarrow> json \<Rightarrow> step_exec" where
  "verify_upgrade_full_name sx cx input =
     bindE (lift_res (parse_step_config (de_full_name sx) default_full_name_config cx)) (\<lambda>c.
     bindE (lift_res (normalize_input sx input (fn_require_decision c)
              (session_full_name (cx_session_context cx)))) (\<lambda>n. ret (done_outcome n)))"

end
