(* ===== verification/Webhook.thy ===== *)
theory Webhook
  imports Map_Actions
begin

text \<open>
  The webhook step (\<open>backend-flow-sdk/src/actions/webhook.rs\<close>): templates, authentication,
  payload, the request and the reading of its response. The HTTP client, the syntax checks of
  methods and headers, base64 and the deserialiser of the configuration are parameters.
\<close>

section \<open>Configuration\<close>

datatype webhook_behavior = FireAndForget | WaitForResponse | WaitAndSave

datatype extraction_target = ToSessionContext | ToFlowContext | ToUserMetadata | ToStepOutput

record extraction_rule =
  er_json_pointer :: string
  er_target_path :: string
  er_target_context :: extraction_target

record webhook_retry_policy =
  wr_max_attempts :: nat
  wr_backoff_ms :: nat

record success_condition =
  sn_status_codes :: "nat list option"
  sn_json_pointer :: "string option"
  sn_expected_value :: "json option"

datatype webhook_auth =
    BasicAuth string "string option"
  | BearerAuth string
  | Oauth2 string string string "string option"

record webhook_config =
  wc_url :: string
  wc_method :: string
  wc_headers :: "(string \<times> string) list"
  wc_auth :: "webhook_auth option"
  wc_payload :: "json option"
  wc_payload_mappings :: "json_mapping list"
  wc_form_body :: "string option"
  wc_timeout_ms :: nat
  wc_behavior :: webhook_behavior
  wc_extraction_rules :: "extraction_rule list"
  wc_retryable :: "bool option"
  wc_retry_policy :: "webhook_retry_policy option"
  wc_success_condition :: "success_condition option"

definition default_webhook :: webhook_config where
  "default_webhook =
     \<lparr>wc_url = [], wc_method = ''POST'', wc_headers = [], wc_auth = None, wc_payload = None,
      wc_payload_mappings = [], wc_form_body = None, wc_timeout_ms = 5000, wc_behavior = WaitForResponse,
      wc_extraction_rules = [], wc_retryable = None, wc_retry_policy = None, wc_success_condition = None\<rparr>"

section \<open>The HTTP client\<close>

datatype http_body = NoBody | RawForm string | FormParams "(string \<times> string) list" | JsonBody json

record http_request =
  rq_method :: string
  rq_url :: string
  rq_headers :: "(string \<times> string) list"
  rq_body :: http_body
  rq_timeout_ms :: nat

text \<open>A response has a status and, where its body is JSON, the value.\<close>

record http_response =
  rs_status :: nat
  rs_json :: "json option"

record webhook_ext =
  wx_config :: "json \<Rightarrow> string + webhook_config"
  wx_send :: "nat \<Rightarrow> http_request \<Rightarrow> string + http_response"
  wx_method_ok :: "string \<Rightarrow> bool"
  wx_header_name :: "string \<Rightarrow> string option"
  wx_header_value_ok :: "string \<Rightarrow> bool"
  wx_base64 :: "string \<Rightarrow> string"
  wx_to_string :: "json \<Rightarrow> string"

text \<open>The answers of the network are numbered by the calls made.\<close>

definition http_send :: "webhook_ext \<Rightarrow> http_request \<Rightarrow> (world, flow_error, string + http_response) sem" where
  "http_send wx rq w = (Inr (wx_send wx (w_next_id w) rq), w\<lparr>w_next_id := Suc (w_next_id w)\<rparr>)"

definition is_success_status :: "nat \<Rightarrow> bool" where
  "is_success_status s \<longleftrightarrow> 200 \<le> s \<and> s < 300"

definition retryable_status :: "nat \<Rightarrow> bool" where
  "retryable_status s \<longleftrightarrow> (500 \<le> s \<and> s < 600) \<or> s = 429"

section \<open>Templates\<close>

definition webhook_stringify :: "webhook_ext \<Rightarrow> json \<Rightarrow> string option" where
  "webhook_stringify wx v =
     (case v of JNull \<Rightarrow> None | JString s \<Rightarrow> Some s | _ \<Rightarrow> Some (wx_to_string wx v))"

fun get_path :: "string list \<Rightarrow> json \<Rightarrow> json option" where
  "get_path [] v = Some v"
| "get_path (p # ps) v = Option.bind (json_get p v) (get_path ps)"

definition read_dot_path_value :: "json \<Rightarrow> string \<Rightarrow> json option" where
  "read_dot_path_value v path = (if path = [] then Some v else get_path (split_on (CHR ''.'') path) v)"

definition resolve_template_raw :: "step_context \<Rightarrow> string \<Rightarrow> json option" where
  "resolve_template_raw cx token =
     (if token = ''session_id'' then Some (JString (cx_session_id cx))
      else if token = ''flow_id'' then Some (JString (cx_flow_id cx))
      else case strip_prefix ''session.'' token of
             Some path \<Rightarrow> read_dot_path_value (cx_session_context cx) path
           | None \<Rightarrow>
               (case strip_prefix ''flow.context.'' token of
                  Some path \<Rightarrow> read_dot_path_value (cx_flow_context cx) path
                | None \<Rightarrow> None))"

definition resolve_template_token :: "webhook_ext \<Rightarrow> step_context \<Rightarrow> string \<Rightarrow> string option" where
  "resolve_template_token wx cx token =
     (if token = ''session_id'' then Some (cx_session_id cx)
      else if token = ''flow_id'' then Some (cx_flow_id cx)
      else case strip_prefix ''session.'' token of
             Some path \<Rightarrow> Option.bind (read_dot_path_value (cx_session_context cx) path) (webhook_stringify wx)
           | None \<Rightarrow>
               (case strip_prefix ''flow.context.'' token of
                  Some path \<Rightarrow> Option.bind (read_dot_path_value (cx_flow_context cx) path) (webhook_stringify wx)
                | None \<Rightarrow> None))"

text \<open>
  A match of the template pattern at the start of a string: two opening braces, a non-empty run
  without a closing brace, two closing braces. The token is the run without surrounding white
  space; a run of white space only names nothing. The result is the token and what follows.
\<close>

definition match_template :: "string \<Rightarrow> (string \<times> string \<times> string) option" where
  "match_template s =
     (let body = takeWhile (\<lambda>c. c \<noteq> CHR ''}'') (drop 2 s); rest = dropWhile (\<lambda>c. c \<noteq> CHR ''}'') (drop 2 s)
      in if take 2 s = ''{{'' \<and> body \<noteq> [] \<and> take 2 rest = ''}}''
         then Some (trim body, take (length body + 4) s, drop 2 rest) else None)"

lemma match_template_shorter: "match_template s = Some (t, m, rest) \<Longrightarrow> length rest < length s"
proof -
  assume a: "match_template s = Some (t, m, rest)"
  then have "rest = drop 2 (dropWhile (\<lambda>c. c \<noteq> CHR ''}'') (drop 2 s))" "take 2 s = ''{{''"
    by (auto simp: match_template_def Let_def split: if_splits)
  moreover have "length (dropWhile (\<lambda>c. c \<noteq> CHR ''}'') (drop 2 s)) \<le> length (drop 2 s)"
    by (rule length_dropWhile_le)
  moreover have "2 \<le> length s"
    using arg_cong[OF \<open>take 2 s = ''{{''\<close>, of length] by simp
  ultimately show ?thesis by simp
qed

function render_template_str :: "webhook_ext \<Rightarrow> step_context \<Rightarrow> string \<Rightarrow> string" where
  "render_template_str wx cx [] = []"
| "render_template_str wx cx (c # s) =
     (case match_template (c # s) of
        Some (token, m, rest) \<Rightarrow> unwrap_or m (resolve_template_token wx cx token) @ render_template_str wx cx rest
      | None \<Rightarrow> c # render_template_str wx cx s)"
  by pat_completeness auto

termination
  by (relation "measure (\<lambda>(_, _, s). length s)") (auto dest!: match_template_shorter)

definition render_template_exact_value :: "step_context \<Rightarrow> string \<Rightarrow> json option" where
  "render_template_exact_value cx s =
     (case match_template s of
        Some (token, _, []) \<Rightarrow> resolve_template_raw cx token
      | _ \<Rightarrow> None)"

fun render_template_val :: "webhook_ext \<Rightarrow> step_context \<Rightarrow> json \<Rightarrow> json" where
  "render_template_val wx cx (JString s) =
     unwrap_or (JString (render_template_str wx cx s)) (render_template_exact_value cx s)"
| "render_template_val wx cx (JArray xs) = JArray (map (render_template_val wx cx) xs)"
| "render_template_val wx cx (JObject m) = JObject (map (\<lambda>e. (fst e, render_template_val wx cx (snd e))) m)"
| "render_template_val wx cx v = v"

section \<open>Payload and extraction\<close>

definition payload_step :: "step_context \<Rightarrow> json \<Rightarrow> json_mapping \<Rightarrow> flow_error + json" where
  "payload_step cx payload m =
     bindR (resolve_json_pointer_mapping_value cx None m) (\<lambda>found.
     Inr (case found of None \<Rightarrow> payload | Some v \<Rightarrow> apply_json_pointer_patch payload (jm_target_path m) v))"

definition build_payload :: "webhook_ext \<Rightarrow> webhook_config \<Rightarrow> step_context \<Rightarrow> flow_error + json option" where
  "build_payload wx c cx =
     (if wc_payload_mappings c \<noteq> []
      then bindR (fold_res (payload_step cx) (JObject []) (wc_payload_mappings c)) (\<lambda>p. Inr (Some p))
      else Inr (map_option (render_template_val wx cx) (wc_payload c)))"

definition apply_extraction ::
    "context_updates \<times> jmap \<Rightarrow> extraction_rule \<Rightarrow> json \<Rightarrow> context_updates \<times> jmap" where
  "apply_extraction s rule v =
     (let (u, out) = s; path = er_target_path rule in
      case er_target_context rule of
        ToSessionContext \<Rightarrow> (u\<lparr>cu_session_context_patch := apply_to_updates (cu_session_context_patch u) path v\<rparr>, out)
      | ToFlowContext \<Rightarrow> (u\<lparr>cu_flow_context_patch := apply_to_updates (cu_flow_context_patch u) path v\<rparr>, out)
      | ToUserMetadata \<Rightarrow> (u\<lparr>cu_user_metadata_patch := apply_to_updates (cu_user_metadata_patch u) path v\<rparr>, out)
      | ToStepOutput \<Rightarrow> (u, unwrap_or out (as_object (apply_json_pointer_patch (JObject out) path v))))"

definition extract_all :: "extraction_rule list \<Rightarrow> json \<Rightarrow> context_updates \<times> jmap" where
  "extract_all rules resp =
     foldl (\<lambda>s rule. case pointer (er_json_pointer rule) resp of None \<Rightarrow> s | Some v \<Rightarrow> apply_extraction s rule v)
       (no_updates, []) rules"

section \<open>Authentication\<close>

definition put_header :: "webhook_ext \<Rightarrow> string \<Rightarrow> string \<Rightarrow> (string \<times> string) list \<Rightarrow> (string \<times> string) list" where
  "put_header wx name v hs = (if wx_header_value_ok wx v then AList.update name v hs else hs)"

definition config_headers :: "webhook_ext \<Rightarrow> step_context \<Rightarrow> webhook_config \<Rightarrow> (string \<times> string) list" where
  "config_headers wx cx c =
     fold (\<lambda>(k, v) hs. case wx_header_name wx k of
              None \<Rightarrow> hs | Some name \<Rightarrow> put_header wx name (render_template_str wx cx v) hs) (wc_headers c) []"

definition token_request :: "webhook_ext \<Rightarrow> step_context \<Rightarrow> nat \<Rightarrow> string \<Rightarrow> string \<Rightarrow> string \<Rightarrow> string option \<Rightarrow> http_request" where
  "token_request wx cx timeout token_url client_id client_secret scope =
     \<lparr>rq_method = ''POST'', rq_url = render_template_str wx cx token_url, rq_headers = [],
      rq_body = FormParams ([(''grant_type'', ''client_credentials''), (''client_id'', render_template_str wx cx client_id),
        (''client_secret'', render_template_str wx cx client_secret)]
        @ (case scope of None \<Rightarrow> [] | Some s \<Rightarrow> [(''scope'', render_template_str wx cx s)])),
      rq_timeout_ms = timeout\<rparr>"

text \<open>The headers with the credentials, or the outcome that ends the step.\<close>

definition token_response ::
    "webhook_ext \<Rightarrow> (string \<times> string) list \<Rightarrow> string + http_response \<Rightarrow> step_outcome + (string \<times> string) list" where
  "token_response wx hs reply =
     (case reply of
        Inl e \<Rightarrow> Inl (Failed (''oauth2_network_error: '' @ e) True)
      | Inr resp \<Rightarrow>
          if is_success_status (rs_status resp)
          then
            (case rs_json resp of
               None \<Rightarrow> Inl (Failed ''oauth2_invalid_response'' False)
             | Some v \<Rightarrow>
                 (case Option.bind (json_get ''access_token'' v) as_str of
                    None \<Rightarrow> Inl (Failed ''oauth2_missing_access_token'' False)
                  | Some t \<Rightarrow> Inr (put_header wx ''authorization'' (''Bearer '' @ t) hs)))
          else Inl (Failed (''oauth2_token_error_'' @ show_nat (rs_status resp)) (retryable_status (rs_status resp))))"

definition authenticate ::
    "webhook_ext \<Rightarrow> step_context \<Rightarrow> webhook_config \<Rightarrow> (string \<times> string) list
      \<Rightarrow> (world, flow_error, step_outcome + (string \<times> string) list) sem" where
  "authenticate wx cx c hs =
     (case wc_auth c of
        None \<Rightarrow> ret (Inr hs)
      | Some (BasicAuth user pass) \<Rightarrow>
          ret (Inr (put_header wx ''authorization'' (''Basic '' @ wx_base64 wx (render_template_str wx cx user @ '':''
                 @ (case pass of None \<Rightarrow> [] | Some p \<Rightarrow> render_template_str wx cx p))) hs))
      | Some (BearerAuth token) \<Rightarrow>
          ret (Inr (put_header wx ''authorization'' (''Bearer '' @ render_template_str wx cx token) hs))
      | Some (Oauth2 token_url client_id client_secret scope) \<Rightarrow>
          bindE (http_send wx (token_request wx cx (wc_timeout_ms c) token_url client_id client_secret scope)) (\<lambda>reply.
          ret (token_response wx hs reply)))"

section \<open>The step\<close>

definition expected_status :: "webhook_config \<Rightarrow> nat \<Rightarrow> bool" where
  "expected_status c status =
     (case Option.bind (wc_success_condition c) sn_status_codes of
        None \<Rightarrow> is_success_status status | Some codes \<Rightarrow> status \<in> set codes)"

definition expected_body :: "webhook_config \<Rightarrow> json \<Rightarrow> bool" where
  "expected_body c resp =
     (case wc_success_condition c of
        None \<Rightarrow> True
      | Some cond \<Rightarrow>
          (case (sn_json_pointer cond, sn_expected_value cond) of
             (Some p, Some expected) \<Rightarrow> pointer p resp = Some expected
           | _ \<Rightarrow> True))"

definition rejected :: "webhook_config \<Rightarrow> nat \<Rightarrow> step_outcome" where
  "rejected c status =
     (let retryable = unwrap_or (retryable_status status) (wc_retryable c) in
      case wc_retry_policy c of
        Some policy \<Rightarrow> if retryable then Retry (wr_backoff_ms policy)
                       else Failed (''http_error_'' @ show_nat status) retryable
      | None \<Rightarrow> Failed (''http_error_'' @ show_nat status) retryable)"

definition read_response :: "webhook_config \<Rightarrow> http_response \<Rightarrow> step_outcome" where
  "read_response c resp =
     (if \<not> expected_status c (rs_status resp) then rejected c (rs_status resp)
      else if wc_extraction_rules c = [] \<and> wc_success_condition c = None
      then Done (Some (JObject [])) (Some no_updates)
      else case rs_json resp of
             None \<Rightarrow> Done (Some (JObject [])) (Some no_updates)
           | Some v \<Rightarrow>
               if expected_body c v
               then (let (u, out) = extract_all (wc_extraction_rules c) v in Done (Some (JObject out)) (Some u))
               else rejected c (rs_status resp))"

definition network_failed :: "webhook_config \<Rightarrow> string \<Rightarrow> step_outcome" where
  "network_failed c e =
     (case wc_retry_policy c of
        Some policy \<Rightarrow> Retry (wr_backoff_ms policy)
      | None \<Rightarrow> Failed (''network_error: '' @ e) (unwrap_or True (wc_retryable c)))"

definition webhook_body :: "webhook_ext \<Rightarrow> webhook_config \<Rightarrow> step_context \<Rightarrow> flow_error + http_body" where
  "webhook_body wx c cx =
     (case wc_form_body c of
        Some form \<Rightarrow> Inr (RawForm (render_template_str wx cx form))
      | None \<Rightarrow> bindR (build_payload wx c cx) (\<lambda>p. Inr (case p of None \<Rightarrow> NoBody | Some v \<Rightarrow> JsonBody v)))"

definition send_webhook ::
    "webhook_ext \<Rightarrow> webhook_config \<Rightarrow> step_context \<Rightarrow> (string \<times> string) list \<Rightarrow> step_exec" where
  "send_webhook wx c cx hs =
     bindE (lift_res (build_payload wx c cx)) (\<lambda>_.
     bindE (lift_res (webhook_body wx c cx)) (\<lambda>body.
     bindE (http_send wx \<lparr>rq_method = wc_method c, rq_url = render_template_str wx cx (wc_url c), rq_headers = hs,
              rq_body = body, rq_timeout_ms = wc_timeout_ms c\<rparr>) (\<lambda>reply.
     ret (if wc_behavior c = FireAndForget then Done None None
          else case reply of Inl e \<Rightarrow> network_failed c e | Inr resp \<Rightarrow> read_response c resp))))"

definition exec_webhook :: "webhook_ext \<Rightarrow> step_context \<Rightarrow> step_exec" where
  "exec_webhook wx cx =
     bindE (lift_res (parse_step_config (wx_config wx) default_webhook cx)) (\<lambda>c.
     if \<not> wx_method_ok wx (wc_method c)
     then throw (InvalidDefinition (''Invalid HTTP method: '' @ wc_method c))
     else
       bindE (authenticate wx cx c (config_headers wx cx c)) (\<lambda>auth.
       case auth of
         Inl outcome \<Rightarrow> ret outcome
       | Inr hs \<Rightarrow> send_webhook wx c cx hs))"

end
