(* ===== verification/Otp.thy ===== *)
theory Otp
  imports Actions
begin

text \<open>
  One-time passwords (\<open>actions/otp.rs\<close>): generation into the flow or session context and
  verification of a submitted code with expiry and an attempt counter. Machine integers keep
  their width: the length and the counters are \<open>u8\<close>, the power and the expiry are 64 bits
  wide and wrap. The random generator is a parameter: its \<open>n\<close>-th draw below a bound.
\<close>

datatype otp_type = Numeric | Alphanumeric

record generate_otp_config =
  go_length :: "8 word"
  go_otp_type :: otp_type
  go_expiry_seconds :: "64 word"
  go_save_to :: get_user_target

definition default_generate_otp :: generate_otp_config where
  "default_generate_otp = \<lparr>go_length = 6, go_otp_type = Numeric, go_expiry_seconds = 300, go_save_to = SaveFlow\<rparr>"

record verify_otp_config =
  vo_input_field :: string
  vo_stored_field :: string
  vo_max_attempts :: "8 word"
  vo_attempts_field :: string

definition default_verify_otp :: verify_otp_config where
  "default_verify_otp = \<lparr>vo_input_field = ''code'', vo_stored_field = ''otp'', vo_max_attempts = 3,
     vo_attempts_field = ''otp_attempts''\<rparr>"

record otp_ext =
  de_generate_otp :: "json \<Rightarrow> string + generate_otp_config"
  de_verify_otp :: "json \<Rightarrow> string + verify_otp_config"
  ox_rng :: "nat \<Rightarrow> nat \<Rightarrow> nat"

text \<open>What the code relies on: a draw from a non-empty range lies in it.\<close>

definition rng_in_range :: "otp_ext \<Rightarrow> bool" where
  "rng_in_range ox \<longleftrightarrow> (\<forall>n bound. 0 < bound \<longrightarrow> ox_rng ox n bound < bound)"

text \<open>\<open>random_range(0..bound)\<close>, which panics on an empty range.\<close>

definition random_range :: "otp_ext \<Rightarrow> nat \<Rightarrow> (world, flow_error, nat) sem" where
  "random_range ox bound w =
     (if bound = 0 then (Inl (StepPanic ''cannot sample empty range''), w)
      else (Inr (ox_rng ox (w_next_id w) bound), w\<lparr>w_next_id := Suc (w_next_id w)\<rparr>))"

definition otp_charset :: string where
  "otp_charset = ''ABCDEFGHIJKLMNOPQRSTUVWXYZ0123456789''"

fun random_chars :: "otp_ext \<Rightarrow> nat \<Rightarrow> (world, flow_error, string) sem" where
  "random_chars ox 0 = ret []"
| "random_chars ox (Suc n) =
     bindE (random_range ox (length otp_charset)) (\<lambda>i.
     bindE (random_chars ox n) (\<lambda>cs. ret (otp_charset ! i # cs)))"

definition generate_otp :: "otp_ext \<Rightarrow> 8 word \<Rightarrow> otp_type \<Rightarrow> (world, flow_error, string) sem" where
  "generate_otp ox len ty =
     (case ty of
        Numeric \<Rightarrow>
          bindE (random_range ox (unat ((10 :: 64 word) ^ unat len))) (\<lambda>num.
          ret (pad_zero (unat len) (show_nat num)))
      | Alphanumeric \<Rightarrow> random_chars ox (unat len))"

definition exec_generate_otp :: "otp_ext \<Rightarrow> step_context \<Rightarrow> step_exec" where
  "exec_generate_otp ox cx =
     bindE (lift_res (parse_step_config (de_generate_otp ox) default_generate_otp cx)) (\<lambda>c.
     bindE (generate_otp ox (go_length c) (go_otp_type c)) (\<lambda>otp.
     bindE (gets (\<lambda>w. sint (word_of_int (seconds_of (w_clock w)) + go_expiry_seconds c))) (\<lambda>expires_at.
     let patch = JObject [(''otp'', JString otp), (''otp_expires_at'', jint expires_at)];
         updates = (case go_save_to c of
           SaveFlow \<Rightarrow> no_updates\<lparr>cu_flow_context_patch := Some patch\<rparr>
         | SaveSession \<Rightarrow> no_updates\<lparr>cu_session_context_patch := Some patch\<rparr>)
     in ret (Done (Some (JObject [(''expires_at'', jint expires_at), (''generated'', JBool True),
              (''otp'', JString otp)])) (Some updates)))))"

definition exec_verify_otp :: "step_context \<Rightarrow> step_exec" where
  "exec_verify_otp cx = ret (Waiting EndUser)"

definition validate_verify_otp :: "json \<Rightarrow> flow_error + unit" where
  "validate_verify_otp input =
     (if json_get (vo_input_field default_verify_otp) input = None
      then Inl (InvalidDefinition (''Missing required field: '' @ vo_input_field default_verify_otp))
      else Inr ())"

text \<open>A key of the flow context, or else of the session context.\<close>

definition context_value :: "step_context \<Rightarrow> string \<Rightarrow> json option" where
  "context_value cx key = (case flow_config cx key of Some v \<Rightarrow> Some v | None \<Rightarrow> session_config cx key)"

definition current_attempts :: "step_context \<Rightarrow> string \<Rightarrow> 8 word" where
  "current_attempts cx key =
     (case Option.bind (context_value cx key) as_u64 of None \<Rightarrow> 0 | Some v \<Rightarrow> ucast v)"

definition consumed_patch :: "string \<Rightarrow> json" where
  "consumed_patch attempts_key =
     JObject (obj_insert attempts_key JNull (obj_insert ''otp_expires_at'' JNull (obj_insert ''otp'' JNull [])))"

definition verify_code ::
    "verify_otp_config \<Rightarrow> step_context \<Rightarrow> string \<Rightarrow> int \<Rightarrow> string option \<Rightarrow> int option \<Rightarrow> step_outcome" where
  "verify_code c cx submitted now stored expires_at =
     (let attempts = current_attempts cx (vo_attempts_field c) in
      case (stored, expires_at) of
        (Some code, Some expires) \<Rightarrow>
          if expires < now then Failed ''OTP_EXPIRED'' False
          else if vo_max_attempts c \<le> attempts then Failed ''MAX_ATTEMPTS_EXCEEDED'' False
          else if code \<noteq> submitted then
            (let new_attempts = attempts + 1 in
             Branched ''retry''
               (Some (JObject [(''attempts_remaining'', jnat (unat (vo_max_attempts c - new_attempts))),
                               (''verified'', JBool False)]))
               (Some (no_updates\<lparr>cu_flow_context_patch :=
                  Some (JObject [(vo_attempts_field c, jnat (unat new_attempts))])\<rparr>)))
          else
            Branched ''verified'' (Some (JObject [(''verified'', JBool True)]))
              (Some (no_updates\<lparr>cu_flow_context_patch := Some (consumed_patch (vo_attempts_field c))\<rparr>))
      | _ \<Rightarrow> Failed ''NO_OTP_FOUND'' False)"

definition submit_code :: "verify_otp_config \<Rightarrow> int \<Rightarrow> step_context \<Rightarrow> string \<Rightarrow> step_outcome" where
  "submit_code c now cx submitted =
     verify_code c cx submitted now
       (Option.bind (context_value cx (vo_stored_field c)) as_str)
       (Option.bind (context_value cx ''otp_expires_at'') as_i64)"

definition verify_otp :: "otp_ext \<Rightarrow> step_context \<Rightarrow> json \<Rightarrow> step_exec" where
  "verify_otp ox cx input =
     bindE (lift_res (parse_step_config (de_verify_otp ox) default_verify_otp cx)) (\<lambda>c.
     bindE (lift_res (ok_or (InvalidDefinition (''Missing '' @ vo_input_field c))
              (Option.bind (json_get (vo_input_field c) input) as_str))) (\<lambda>submitted.
     bindE (gets (\<lambda>w. seconds_of (w_clock w))) (\<lambda>now.
     ret (submit_code c now cx submitted))))"

section \<open>Lemmas\<close>

text \<open>The flow context after the caller has merged the flow patch of an outcome.\<close>

fun flow_patch_of :: "step_outcome \<Rightarrow> json option" where
  "flow_patch_of (Done _ u) = Option.bind u cu_flow_context_patch"
| "flow_patch_of (Branched _ _ u) = Option.bind u cu_flow_context_patch"
| "flow_patch_of _ = None"

definition after_outcome :: "step_context \<Rightarrow> step_outcome \<Rightarrow> step_context" where
  "after_outcome cx out =
     (case flow_patch_of out of
        None \<Rightarrow> cx
      | Some p \<Rightarrow> cx\<lparr>cx_flow_context := merge_json_value (cx_flow_context cx) p\<rparr>)"

lemma word8_less_Suc: "(a :: 8 word) < b \<Longrightarrow> unat (a + 1) = Suc (unat a)"
proof -
  assume "a < b"
  then have "unat a < unat b" by (simp add: word_less_nat_alt)
  moreover have "unat b < 2 ^ LENGTH(8)" by (rule unsigned_less)
  ultimately have "unat a + 1 < 2 ^ LENGTH(8)" by simp
  then show ?thesis by (simp add: unat_word_ariths)
qed

lemma as_u64_jnat: "n < 256 \<Longrightarrow> as_u64 (jnat n) = Some (of_nat n) \<and> unat (ucast (of_nat n :: 64 word) :: 8 word) = n"
  by (simp add: jnat_def unsigned_ucast_eq unsigned_of_nat take_bit_nat_eq_self)

lemma as_i64_jint: "- (2 ^ 63) \<le> i \<Longrightarrow> i < 2 ^ 63 \<Longrightarrow> as_i64 (jint i) = Some i"
  by (auto simp: jint_def sint64_word_of_int unsigned_of_int take_bit_int_eq_self nat_less_iff)

text \<open>Reading a key of the flow context after the patch of an outcome was merged.\<close>

lemma flow_config_after:
  assumes "cx_flow_context cx = JObject m" "flow_patch_of out = Some (JObject p)" "distinct (map fst p)"
    "k \<notin> fst ` set p"
  shows "flow_config (after_outcome cx out) k = flow_config cx k"
  using assms merge_entries_lookup[OF assms(3), of m k]
  by (simp add: after_outcome_def flow_config_def map_of_eq_None_iff[symmetric] split: option.splits)

lemma after_outcome_session [simp]: "cx_session_context (after_outcome cx out) = cx_session_context cx"
  by (simp add: after_outcome_def split: option.split)

lemma submit_code_verified:
  "submit_code c now cx s = Branched ''verified'' out upd \<longleftrightarrow>
     (\<exists>expires. Option.bind (context_value cx (vo_stored_field c)) as_str = Some s
        \<and> Option.bind (context_value cx ''otp_expires_at'') as_i64 = Some expires \<and> now \<le> expires
        \<and> current_attempts cx (vo_attempts_field c) < vo_max_attempts c)
     \<and> out = Some (JObject [(''verified'', JBool True)])
     \<and> upd = Some (no_updates\<lparr>cu_flow_context_patch := Some (consumed_patch (vo_attempts_field c))\<rparr>)"
  by (auto simp: submit_code_def verify_code_def Let_def not_less not_le split: option.splits if_splits)

lemma unat_power_ten: "n \<le> 19 \<Longrightarrow> unat ((10 :: 64 word) ^ n) = 10 ^ n"
proof -
  assume "n \<le> 19"
  then have "(10 :: nat) ^ n \<le> 10 ^ 19" by (rule power_increasing) simp
  then have "(10 :: nat) ^ n < 2 ^ 64" by simp
  moreover have "(10 :: 64 word) ^ n = of_nat (10 ^ n)" by simp
  ultimately show ?thesis by (simp only: unsigned_of_nat) (simp add: take_bit_nat_eq_self)
qed

lemma pad_zero_digits:
  "n < 10 ^ w \<Longrightarrow> 0 < w \<Longrightarrow> length (pad_zero w (show_nat n)) = w"
  "\<forall>ch\<in>set (pad_zero w (show_nat n)). is_ascii_digit ch"
  using show_nat_length[of n w] show_nat_digits by (auto simp: pad_zero_def is_ascii_digit_def)

lemma expiry_in_range:
  assumes "0 \<le> t" "t + int (unat (e :: 64 word)) < 2 ^ 63"
  shows "sint (word_of_int t + e) = t + int (unat e)"
proof -
  have "word_of_int t + e = word_of_int (t + int (unat e))" by simp
  moreover have "0 \<le> int (unat e)" by simp
  ultimately show ?thesis using assms by (simp only:) (rule sint64_word_of_int, linarith+)
qed

lemma generated_context:
  assumes "is_object (cx_flow_context cx)" "- (2 ^ 63) \<le> e" "e < 2 ^ 63"
    "flow_patch_of out = Some (JObject [(''otp'', JString otp), (''otp_expires_at'', jint e)])"
    "a \<notin> {''otp'', ''otp_expires_at''}"
  shows "Option.bind (context_value (after_outcome cx out) ''otp'') as_str = Some otp"
    "Option.bind (context_value (after_outcome cx out) ''otp_expires_at'') as_i64 = Some e"
    "current_attempts (after_outcome cx out) a = current_attempts cx a"
proof -
  obtain m where m: "cx_flow_context cx = JObject m"
    using assms(1) by (auto elim: is_object.elims)
  let ?p = "[(''otp'', JString otp), (''otp_expires_at'', jint e)]"
  have num: "jint e \<noteq> JNull" "\<not> is_object (jint e)" by (simp_all add: jint_def)
  have look: "flow_config (after_outcome cx out) k = map_of (merge_entries m ?p) k" for k
    using assms(4) m by (simp add: after_outcome_def flow_config_def)
  have "flow_config (after_outcome cx out) ''otp'' = Some (JString otp)"
    "flow_config (after_outcome cx out) ''otp_expires_at'' = Some (jint e)"
    unfolding look by (subst merge_entries_lookup; use num in \<open>simp add: merge_json_value_nonobject split: option.split\<close>)+
  then show "Option.bind (context_value (after_outcome cx out) ''otp'') as_str = Some otp"
    "Option.bind (context_value (after_outcome cx out) ''otp_expires_at'') as_i64 = Some e"
    using as_i64_jint[OF assms(2,3)] by (simp_all add: context_value_def)
  show "current_attempts (after_outcome cx out) a = current_attempts cx a"
    using flow_config_after[OF m assms(4), of a] assms(5)
    by (simp add: current_attempts_def context_value_def session_config_def split: option.split)
qed

text \<open>A flow context that holds the code, its expiry and \<open>n\<close> spent attempts.\<close>

definition otp_in_flow :: "verify_otp_config \<Rightarrow> string \<Rightarrow> int \<Rightarrow> nat \<Rightarrow> step_context \<Rightarrow> bool" where
  "otp_in_flow c code expires n cx \<longleftrightarrow>
     is_object (cx_flow_context cx)
     \<and> Option.bind (flow_config cx (vo_stored_field c)) as_str = Some code
     \<and> Option.bind (flow_config cx ''otp_expires_at'') as_i64 = Some expires
     \<and> unat (current_attempts cx (vo_attempts_field c)) = n"

lemma otp_in_flow_context:
  assumes "otp_in_flow c code expires n cx"
  shows "Option.bind (context_value cx (vo_stored_field c)) as_str = Some code"
    "Option.bind (context_value cx ''otp_expires_at'') as_i64 = Some expires"
  using assms by (auto simp: otp_in_flow_def context_value_def bind_eq_Some_conv)

lemma wrong_code_outcome:
  assumes "otp_in_flow c code expires n cx" "now \<le> expires" "n < unat (vo_max_attempts c)" "s \<noteq> code"
  shows "submit_code c now cx s =
    Branched ''retry'' (Some (JObject [(''attempts_remaining'', jnat (unat (vo_max_attempts c) - Suc n)),
        (''verified'', JBool False)]))
      (Some (no_updates\<lparr>cu_flow_context_patch := Some (JObject [(vo_attempts_field c, jnat (Suc n))])\<rparr>))"
proof -
  let ?a = "current_attempts cx (vo_attempts_field c)"
  have n: "unat ?a = n" using assms(1) by (simp add: otp_in_flow_def)
  then have less: "?a < vo_max_attempts c" using assms(3) by (simp add: word_less_nat_alt)
  then have suc: "unat (?a + 1) = Suc n" using word8_less_Suc n by simp
  then have "unat (vo_max_attempts c - (?a + 1)) = unat (vo_max_attempts c) - Suc n"
    using assms(3) by (metis Suc_leI unat_sub word_le_nat_alt)
  with less suc show ?thesis
    using assms(2,4) otp_in_flow_context[OF assms(1)]
    by (simp add: submit_code_def verify_code_def Let_def not_less)
qed

lemma after_wrong_code:
  assumes "otp_in_flow c code expires n cx" "now \<le> expires" "n < unat (vo_max_attempts c)" "s \<noteq> code"
    and "vo_attempts_field c \<noteq> vo_stored_field c" "vo_attempts_field c \<noteq> ''otp_expires_at''"
  shows "otp_in_flow c code expires (Suc n) (after_outcome cx (submit_code c now cx s))"
proof -
  let ?out = "submit_code c now cx s" and ?k = "vo_attempts_field c"
  have patch: "flow_patch_of ?out = Some (JObject [(?k, jnat (Suc n))])"
    by (simp add: wrong_code_outcome[OF assms(1-4)])
  obtain m where m: "cx_flow_context cx = JObject m"
    using assms(1) by (auto simp: otp_in_flow_def elim: is_object.elims)
  have "unat (vo_max_attempts c) < 2 ^ LENGTH(8)" by (rule unsigned_less)
  then have "Suc n < 256" using assms(3) by simp
  moreover have "flow_config (after_outcome cx ?out) ?k = Some (jnat (Suc n))"
    using patch m merge_entries_lookup[of "[(?k, jnat (Suc n))]" m ?k]
    by (simp add: after_outcome_def flow_config_def jnat_def split: option.splits)
  ultimately have "unat (current_attempts (after_outcome cx ?out) ?k) = Suc n"
    using as_u64_jnat[of "Suc n"] by (simp add: current_attempts_def context_value_def)
  moreover have "is_object (cx_flow_context (after_outcome cx ?out))"
    using patch m by (simp add: after_outcome_def)
  ultimately show ?thesis
    using assms(1) flow_config_after[OF m patch] assms(5,6) by (simp add: otp_in_flow_def)
qed

lemma blocked_stays:
  assumes "otp_in_flow c code expires n cx" "now \<le> expires" "unat (vo_max_attempts c) \<le> n"
  shows "submit_code c now cx s = Failed ''MAX_ATTEMPTS_EXCEEDED'' False"
    "after_outcome cx (submit_code c now cx s) = cx"
proof -
  have "vo_max_attempts c \<le> current_attempts cx (vo_attempts_field c)"
    using assms(1,3) unfolding otp_in_flow_def word_le_nat_alt by blast
  then show "submit_code c now cx s = Failed ''MAX_ATTEMPTS_EXCEEDED'' False"
    using assms(2) otp_in_flow_context[OF assms(1)]
    by (simp add: submit_code_def verify_code_def Let_def)
  then show "after_outcome cx (submit_code c now cx s) = cx" by (simp add: after_outcome_def)
qed

section \<open>Properties\<close>

text \<open>
  A code is accepted exactly when it equals the stored one, has not expired and fewer
  than the maximum attempts are spent. Verification changes nothing in the database.
\<close>

lemma verify_otp_accepts_iff:
  assumes "parse_step_config (de_verify_otp ox) default_verify_otp cx = Inr c"
  shows "(\<exists>out upd. verify_otp ox cx input w = (Inr (Branched ''verified'' out upd), w)) \<longleftrightarrow>
    (\<exists>code expires. Option.bind (json_get (vo_input_field c) input) as_str = Some code
       \<and> Option.bind (context_value cx (vo_stored_field c)) as_str = Some code
       \<and> Option.bind (context_value cx ''otp_expires_at'') as_i64 = Some expires
       \<and> seconds_of (w_clock w) \<le> expires
       \<and> current_attempts cx (vo_attempts_field c) < vo_max_attempts c)"
  using assms
  by (auto simp: verify_otp_def bindE_def submit_code_verified ok_or_def split: option.splits)

text \<open>
  A code kept in the flow context works once. After it was accepted, submitting it again
  finds no code.
\<close>

lemma otp_consumed_in_flow:
  assumes "otp_in_flow c code expires n cx" "vo_stored_field c = ''otp''"
    "session_config cx ''otp'' = None" "submit_code c now cx code = Branched ''verified'' out upd"
  shows "submit_code c now' (after_outcome cx (submit_code c now cx code)) s = Failed ''NO_OTP_FOUND'' False"
proof -
  obtain m where m: "cx_flow_context cx = JObject m"
    using assms(1) by (auto simp: otp_in_flow_def elim: is_object.elims)
  let ?p = "obj_insert (vo_attempts_field c) JNull (obj_insert ''otp_expires_at'' JNull (obj_insert ''otp'' JNull []))"
  have patch: "flow_patch_of (submit_code c now cx code) = Some (JObject ?p)"
    using assms(4) by (auto simp: submit_code_def verify_code_def Let_def consumed_patch_def
        split: option.splits if_splits)
  have "distinct (map fst ?p)"
    by (intro keys_sorted_distinct keys_sorted_insert keys_sorted_Nil)
  moreover have "map_of ?p ''otp'' = Some JNull" by simp
  ultimately have "flow_config (after_outcome cx (submit_code c now cx code)) ''otp'' = None"
    using patch m merge_entries_lookup[of ?p m "''otp''"] by (simp add: after_outcome_def flow_config_def)
  then have "context_value (after_outcome cx (submit_code c now cx code)) ''otp'' = None"
    using assms(3) by (simp add: context_value_def session_config_def)
  then show ?thesis
    using assms(2) by (simp add: submit_code_def verify_code_def)
qed

text \<open>
  A code kept in the session context is not consumed: verification clears keys of the
  flow context only, so the same code is accepted again until it expires.
\<close>

lemma otp_in_session_replayable:
  assumes "cx_flow_context cx = JObject m" "map_of m ''otp'' = None" "map_of m ''otp_expires_at'' = None"
    "session_config cx (vo_attempts_field c) = None" "vo_stored_field c = ''otp''"
    "submit_code c now cx code = Branched ''verified'' out upd"
  shows "submit_code c now (after_outcome cx (submit_code c now cx code)) code = Branched ''verified'' out upd"
proof -
  let ?a = "vo_attempts_field c"
  define cx' where "cx' = after_outcome cx (submit_code c now cx code)"
  let ?p = "obj_insert ?a JNull (obj_insert ''otp_expires_at'' JNull (obj_insert ''otp'' JNull []))"
  note ok = assms(6)[unfolded submit_code_verified assms(5)]
  have patch: "flow_patch_of (submit_code c now cx code) = Some (JObject ?p)"
    using ok by (simp add: assms(6) consumed_patch_def)
  have dist: "distinct (map fst ?p)"
    by (intro keys_sorted_distinct keys_sorted_insert keys_sorted_Nil)
  have "flow_config cx' k = (if k \<in> {?a, ''otp'', ''otp_expires_at''} then None else flow_config cx k)" for k
    using patch assms(1) merge_entries_lookup[OF dist, of m k]
    by (auto simp: cx'_def after_outcome_def flow_config_def)
  then have same: "context_value cx' ''otp'' = context_value cx ''otp''"
    "context_value cx' ''otp_expires_at'' = context_value cx ''otp_expires_at''"
    and none: "context_value cx' ?a = None"
    using assms(1-4) by (simp_all add: context_value_def flow_config_def session_config_def cx'_def)
  have "0 < vo_max_attempts c" using ok by (auto simp: word_less_nat_alt)
  then show ?thesis
    unfolding cx'_def[symmetric] submit_code_verified assms(5) same
    using ok by (auto simp: current_attempts_def none)
qed

text \<open>
  C28: generation and verification fit together. A numeric password of 1 to 19 digits is drawn
  without overflow, has exactly the configured number of digits, and once it is merged into
  the flow context it is accepted until the configured expiry.
\<close>

theorem generate_verify_roundtrip:
  assumes "rng_in_range ox" "parse_step_config (de_generate_otp ox) default_generate_otp cx = Inr g"
    "go_otp_type g = Numeric" "1 \<le> unat (go_length g)" "unat (go_length g) \<le> 19" "go_save_to g = SaveFlow"
    "is_object (cx_flow_context cx)"
    "0 \<le> seconds_of (w_clock w)" "seconds_of (w_clock w) + int (unat (go_expiry_seconds g)) < 2 ^ 63"
    "vo_stored_field c = ''otp''" "vo_attempts_field c \<notin> {''otp'', ''otp_expires_at''}"
    "current_attempts cx (vo_attempts_field c) < vo_max_attempts c"
  shows "\<exists>otp out w'. exec_generate_otp ox cx w = (Inr out, w')
    \<and> length otp = unat (go_length g) \<and> (\<forall>ch\<in>set otp. is_ascii_digit ch)
    \<and> (\<forall>now. now \<le> seconds_of (w_clock w) + int (unat (go_expiry_seconds g)) \<longrightarrow>
          (\<exists>res upd. submit_code c now (after_outcome cx out) otp = Branched ''verified'' res upd))"
proof -
  let ?n = "unat (go_length g)"
  let ?exp = "seconds_of (w_clock w) + int (unat (go_expiry_seconds g))"
  let ?num = "ox_rng ox (w_next_id w) (10 ^ ?n)"
  let ?otp = "pad_zero ?n (show_nat ?num)"
  let ?w' = "w\<lparr>w_next_id := Suc (w_next_id w)\<rparr>"
  let ?out = "Done (Some (JObject [(''expires_at'', jint ?exp), (''generated'', JBool True), (''otp'', JString ?otp)]))
      (Some (no_updates\<lparr>cu_flow_context_patch := Some (JObject [(''otp'', JString ?otp), (''otp_expires_at'', jint ?exp)])\<rparr>))"
  have run: "exec_generate_otp ox cx w = (Inr ?out, ?w')"
    using assms(2,3,6) expiry_in_range[OF assms(8,9)] unat_power_ten[OF assms(5)]
    by (simp add: exec_generate_otp_def bindE_def generate_otp_def random_range_def Let_def)
  have "?num < 10 ^ ?n" using assms(1) by (simp add: rng_in_range_def)
  then have otp: "length ?otp = ?n" "\<forall>ch\<in>set ?otp. is_ascii_digit ch"
    using assms(4) pad_zero_digits by simp_all
  have low: "- (2 ^ 63) \<le> ?exp" using assms(8) by (intro order_trans[OF _ add_nonneg_nonneg]) simp_all
  have "flow_patch_of ?out = Some (JObject [(''otp'', JString ?otp), (''otp_expires_at'', jint ?exp)])"
    by simp
  note cx' = generated_context[OF assms(7) low assms(9) this assms(11)]
  have "submit_code c now (after_outcome cx ?out) ?otp
      = Branched ''verified'' (Some (JObject [(''verified'', JBool True)]))
          (Some (no_updates\<lparr>cu_flow_context_patch := Some (consumed_patch (vo_attempts_field c))\<rparr>))"
    if "now \<le> ?exp" for now
    unfolding submit_code_verified assms(10) cx' using that assms(12) by simp
  with run otp show ?thesis by blast
qed

section \<open>Witnesses\<close>

definition example_ox :: otp_ext where
  "example_ox = \<lparr>de_generate_otp = (\<lambda>_. Inl ''no config''), de_verify_otp = (\<lambda>_. Inl ''no config''),
     ox_rng = (\<lambda>n bound. bound - 1)\<rparr>"

definition example_context :: "json \<Rightarrow> json \<Rightarrow> step_context" where
  "example_context session flow = \<lparr>cx_session_id = ''ses_1'', cx_session_user_id = Some ''usr_1'', cx_flow_id = ''flw_1'',
     cx_step_id = ''stp_1'', cx_input = JObject [], cx_session_context = session, cx_flow_context = flow,
     cx_services = \<lparr>svc_storage = None, svc_user_lookup = True, svc_user_contact = True, svc_config = None\<rparr>\<rparr>"

definition example_otp :: json where
  "example_otp = JObject [(''otp'', JString ''123456''), (''otp_expires_at'', jint 1000)]"

lemma example_parse:
  "parse_step_config (de_verify_otp example_ox) default_verify_otp (example_context s f) = Inr default_verify_otp"
  "parse_step_config (de_generate_otp example_ox) default_generate_otp (example_context s f) = Inr default_generate_otp"
  by (simp_all add: parse_step_config_def example_context_def)

lemma example_in_flow:
  "otp_in_flow default_verify_otp ''123456'' 1000 0 (example_context (JObject []) example_otp)"
  by (simp add: otp_in_flow_def example_context_def example_otp_def default_verify_otp_def flow_config_def
      current_attempts_def context_value_def session_config_def as_i64_jint)

lemma verify_otp_accepts_iff_witness:
  "\<exists>out upd. verify_otp example_ox (example_context (JObject []) example_otp) (JObject [(''code'', JString ''123456'')]) (empty_world 0)
     = (Inr (Branched ''verified'' out upd), empty_world 0)"
  unfolding verify_otp_accepts_iff[OF example_parse(1)]
  by (simp add: example_context_def example_otp_def default_verify_otp_def flow_config_def
      current_attempts_def context_value_def session_config_def as_i64_jint empty_world_def seconds_of_def)

lemma example_accepted:
  "\<exists>out upd. submit_code default_verify_otp 5 (example_context (JObject []) example_otp) ''123456'' = Branched ''verified'' out upd"
  "\<exists>out upd. submit_code default_verify_otp 5 (example_context example_otp (JObject [])) ''123456'' = Branched ''verified'' out upd"
  unfolding submit_code_verified
  by (simp_all add: example_context_def example_otp_def default_verify_otp_def flow_config_def
      current_attempts_def context_value_def session_config_def as_i64_jint)

lemma otp_consumed_in_flow_witness:
  "let cx = example_context (JObject []) example_otp in
   submit_code default_verify_otp 6 (after_outcome cx (submit_code default_verify_otp 5 cx ''123456'')) ''123456''
     = Failed ''NO_OTP_FOUND'' False"
proof -
  obtain out upd where a: "submit_code default_verify_otp 5 (example_context (JObject []) example_otp) ''123456''
      = Branched ''verified'' out upd"
    using example_accepted(1) by blast
  show ?thesis unfolding Let_def
    by (rule otp_consumed_in_flow[OF example_in_flow _ _ a])
       (simp_all add: default_verify_otp_def session_config_def example_context_def)
qed

lemma otp_in_session_replayable_witness:
  "let cx = example_context example_otp (JObject []) in
   \<exists>out upd. submit_code default_verify_otp 5 (after_outcome cx (submit_code default_verify_otp 5 cx ''123456'')) ''123456''
     = Branched ''verified'' out upd"
proof -
  obtain out upd where a: "submit_code default_verify_otp 5 (example_context example_otp (JObject [])) ''123456''
      = Branched ''verified'' out upd"
    using example_accepted(2) by blast
  have "submit_code default_verify_otp 5 (after_outcome (example_context example_otp (JObject []))
      (submit_code default_verify_otp 5 (example_context example_otp (JObject [])) ''123456'')) ''123456''
     = Branched ''verified'' out upd"
    by (rule otp_in_session_replayable[OF _ _ _ _ _ a, of "[]"])
       (simp_all add: default_verify_otp_def session_config_def example_context_def example_otp_def)
  then show ?thesis by simp
qed

theorem generate_verify_roundtrip_witness:
  "\<exists>otp out w'. exec_generate_otp example_ox (example_context (JObject []) (JObject [])) (empty_world 0) = (Inr out, w')
     \<and> length otp = 6
     \<and> (\<exists>res upd. submit_code default_verify_otp 300
           (after_outcome (example_context (JObject []) (JObject [])) out) otp = Branched ''verified'' res upd)"
proof -
  have rng: "rng_in_range example_ox" by (simp add: rng_in_range_def example_ox_def)
  show ?thesis
    using generate_verify_roundtrip[OF rng example_parse(2)[of "JObject []" "JObject []"],
        of "empty_world 0" default_verify_otp]
    by (simp add: default_generate_otp_def default_verify_otp_def example_context_def empty_world_def
        seconds_of_def current_attempts_def context_value_def flow_config_def session_config_def)
       blast
qed

end
