(* ===== verification/Kyc.thy ===== *)
theory Kyc
  imports Actions
begin

text \<open>
  The KYC and deposit steps: upload and review of documents and validation of a deposit
  (\<open>actions/kyc.rs\<close>), and the resolution of the deposit's recipient
  (\<open>flows/definitions/shared_steps.rs\<close>). Floats are IEEE doubles: finite values by their
  rational value, infinities and NaN. The parser and printer of floats, Unicode lower case,
  RFC 3339 printing and the regular expressions are parameters.
\<close>

section \<open>Doubles\<close>

datatype f64 = Fin rat | PosInf | NegInf | NaN

fun f64_le :: "f64 \<Rightarrow> f64 \<Rightarrow> bool" where
  "f64_le NaN _ = False"
| "f64_le _ NaN = False"
| "f64_le NegInf _ = True"
| "f64_le _ PosInf = True"
| "f64_le (Fin a) (Fin b) = (a \<le> b)"
| "f64_le _ _ = False"

fun f64_less :: "f64 \<Rightarrow> f64 \<Rightarrow> bool" where
  "f64_less NaN _ = False"
| "f64_less _ NaN = False"
| "f64_less (Fin a) (Fin b) = (a < b)"
| "f64_less NegInf b = (b \<noteq> NegInf)"
| "f64_less a PosInf = (a \<noteq> PosInf)"
| "f64_less _ _ = False"

text \<open>The nearest double of an integer, ties to even: 53 significant bits.\<close>

fun bit_length :: "nat \<Rightarrow> nat" where
  "bit_length n = (if n = 0 then 0 else Suc (bit_length (n div 2)))"

declare bit_length.simps [simp del]

definition f64_of_nat :: "nat \<Rightarrow> rat" where
  "f64_of_nat n =
     (if n < 2 ^ 53 then of_nat n
      else
        (let s = bit_length n - 53; q = n div 2 ^ s; r = n mod 2 ^ s; half = 2 ^ (s - 1)
         in of_nat ((if half < r \<or> r = half \<and> odd q then q + 1 else q) * 2 ^ s)))"

fun as_f64 :: "json \<Rightarrow> f64 option" where
  "as_f64 (JNumber (PosInt n)) = Some (Fin (f64_of_nat (unat n)))"
| "as_f64 (JNumber (NegInt n)) = Some (Fin (- f64_of_nat (nat (- sint n))))"
| "as_f64 (JNumber (Float r)) = Some (Fin r)"
| "as_f64 _ = None"

text \<open>\<open>json!\<close> of a double: infinities and NaN become null.\<close>

fun jf64 :: "f64 \<Rightarrow> json" where
  "jf64 (Fin r) = JNumber (Float r)"
| "jf64 _ = JNull"

section \<open>Configurations and parameters\<close>

datatype document_type = DocId | DocAddress | DocSelfie

record review_config =
  rv_document_type :: string
  rv_on_approve :: "string option"
  rv_on_reject :: "string option"

record deposit_config =
  dc_min_amount :: f64
  dc_max_amount :: f64
  dc_currencies :: "string list"

record recipient_rule =
  rx_provider :: string
  rx_full_name :: string
  rx_phone_number :: string
  rx_regex :: string

record kyc_ext =
  de_upload :: "json \<Rightarrow> string + document_type"
  de_review :: "json \<Rightarrow> string + review_config"
  de_deposit :: "json \<Rightarrow> string + deposit_config"
  de_recipients :: "json \<Rightarrow> string + recipient_rule list"
  kx_parse_f64 :: "string \<Rightarrow> f64 option"
  kx_show_f64 :: "f64 \<Rightarrow> string"
  kx_to_lowercase :: "string \<Rightarrow> string"
  kx_rfc3339 :: "instant \<Rightarrow> string"
  kx_regex :: "string \<Rightarrow> string + (string \<Rightarrow> bool)"

section \<open>UPLOAD_DOCUMENT\<close>

fun document_type_str :: "document_type \<Rightarrow> string" where
  "document_type_str DocId = ''id''"
| "document_type_str DocAddress = ''address''"
| "document_type_str DocSelfie = ''selfie''"

definition exec_upload_document :: "kyc_ext \<Rightarrow> step_context \<Rightarrow> step_exec" where
  "exec_upload_document kx cx =
     bindE (lift_res (parse_step_config (de_upload kx) DocId cx)) (\<lambda>ty.
     case svc_storage (cx_services cx) of
       None \<Rightarrow> ret (Waiting EndUser)
     | Some generate \<Rightarrow>
         bindE (lift_res (map_errR InvalidDefinition (generate (document_type_str ty) (cx_session_id cx)))) (\<lambda>_.
         ret (Waiting EndUser)))"

definition validate_upload_document :: "json \<Rightarrow> flow_error + unit" where
  "validate_upload_document input =
     (if json_get ''upload_key'' input = None \<and> json_get ''uploaded'' input = None
      then Inl (InvalidDefinition ''Missing upload_key or uploaded confirmation'') else Inr ())"

definition verify_upload_document :: "kyc_ext \<Rightarrow> step_context \<Rightarrow> json \<Rightarrow> step_exec" where
  "verify_upload_document kx cx input =
     bindE (lift_res (parse_step_config (de_upload kx) DocId cx)) (\<lambda>ty.
     case Option.bind (json_get ''upload_key'' input) as_str of
       Some key \<Rightarrow>
         ret (Done (Some (JObject [(''document_type'', JString (document_type_str ty)),
                 (''upload_key'', JString key), (''uploaded'', JBool True)]))
           (Some (no_updates\<lparr>cu_flow_context_patch :=
              Some (JObject [(''document_type'', JString (document_type_str ty)), (''document_uploaded'', JBool True),
                (''upload_key'', JString key)])\<rparr>)))
     | None \<Rightarrow> ret (Failed ''UPLOAD_INCOMPLETE'' True))"

section \<open>REVIEW_DOCUMENT\<close>

definition default_review :: review_config where
  "default_review = \<lparr>rv_document_type = ''id'', rv_on_approve = None, rv_on_reject = None\<rparr>"

definition exec_review_document :: "kyc_ext \<Rightarrow> step_context \<Rightarrow> step_exec" where
  "exec_review_document kx cx =
     bindE (lift_res (parse_step_config (de_review kx) default_review cx)) (\<lambda>_. ret (Waiting Admin))"

definition validate_review_document :: "json \<Rightarrow> flow_error + unit" where
  "validate_review_document input =
     (if json_get ''approved'' input = None then Inl (InvalidDefinition ''Missing approved field in input'')
      else Inr ())"

definition verify_review_document :: "kyc_ext \<Rightarrow> step_context \<Rightarrow> json \<Rightarrow> step_exec" where
  "verify_review_document kx cx input =
     bindE (lift_res (parse_step_config (de_review kx) default_review cx)) (\<lambda>c.
     bindE (lift_res (ok_or (InvalidDefinition ''approved must be a boolean'')
              (Option.bind (json_get ''approved'' input) as_bool))) (\<lambda>approved.
     bindE (gets w_clock) (\<lambda>now.
     let notes = unwrap_or [] (Option.bind (json_get ''notes'' input) as_str);
         ty = rv_document_type c;
         flow_patch = JObject [(''review_approved'', JBool approved), (''review_completed'', JBool True),
            (''review_document_type'', JString ty), (''review_notes'', JString notes)];
         metadata = (if approved
            then JObject (obj_insert (kx_to_lowercase kx ty @ ''_verified_at'') (JString (kx_rfc3339 kx now))
                   [(''kyc_status'', JString ''VERIFIED'')])
            else JObject [(''kyc_status'', JString ''REJECTED''), (''rejection_reason'', JString notes)])
     in ret (Done (Some (JObject [(''approved'', JBool approved), (''document_type'', JString ty),
              (''reviewed'', JBool True)]))
          (Some (no_updates\<lparr>cu_flow_context_patch := Some flow_patch, cu_user_metadata_patch := Some metadata\<rparr>))))))"

section \<open>VALIDATE_DEPOSIT\<close>

definition default_deposit :: deposit_config where
  "default_deposit = \<lparr>dc_min_amount = Fin 1, dc_max_amount = Fin 100000,
     dc_currencies = [''USD'', ''EUR'', ''XAF'']\<rparr>"

definition input_or_session :: "step_context \<Rightarrow> string \<Rightarrow> string \<Rightarrow> json option" where
  "input_or_session cx key session_key =
     (case json_get key (cx_input cx) of Some v \<Rightarrow> Some v | None \<Rightarrow> session_config cx session_key)"

definition deposit_amount :: "kyc_ext \<Rightarrow> step_context \<Rightarrow> f64 option" where
  "deposit_amount kx cx =
     (let v = input_or_session cx ''amount'' ''deposit_amount'' in
      case Option.bind v as_f64 of
        Some a \<Rightarrow> Some a
      | None \<Rightarrow> Option.bind (Option.bind v as_str) (kx_parse_f64 kx))"

definition deposit_valid :: "deposit_config \<Rightarrow> f64 \<Rightarrow> string \<Rightarrow> bool" where
  "deposit_valid c amt ccy \<longleftrightarrow>
     f64_le (dc_min_amount c) amt \<and> f64_le amt (dc_max_amount c)
     \<and> (\<exists>x\<in>set (dc_currencies c). eq_ignore_ascii_case x ccy)"

definition exec_validate_deposit :: "kyc_ext \<Rightarrow> step_context \<Rightarrow> step_exec" where
  "exec_validate_deposit kx cx =
     bindE (lift_res (parse_step_config (de_deposit kx) default_deposit cx)) (\<lambda>c.
     case (deposit_amount kx cx, Option.bind (input_or_session cx ''currency'' ''deposit_currency'') as_str) of
       (Some amt, Some ccy) \<Rightarrow>
         if deposit_valid c amt ccy
         then ret (Done (Some (JObject [(''amount'', jf64 amt), (''currency'', JString ccy), (''valid'', JBool True)])) None)
         else
           (let reason =
              (if f64_less amt (dc_min_amount c)
               then ''Amount below minimum ('' @ kx_show_f64 kx (dc_min_amount c) @ '')''
               else if f64_less (dc_max_amount c) amt
               then ''Amount above maximum ('' @ kx_show_f64 kx (dc_max_amount c) @ '')''
               else ''Currency '' @ ccy @ '' not supported'')
            in ret (Failed reason True))
     | (None, _) \<Rightarrow> throw (InvalidDefinition ''Missing amount'')
     | (_, None) \<Rightarrow> throw (InvalidDefinition ''Missing currency''))"

section \<open>RESOLVE_RECIPIENT\<close>

definition recipient_config :: "kyc_ext \<Rightarrow> step_context \<Rightarrow> flow_error + recipient_rule list" where
  "recipient_config kx cx =
     bindR (ok_or (InvalidDefinition ''RESOLVE_RECIPIENT requires step config with recipients'')
              (svc_config (cx_services cx))) (\<lambda>config.
     case map_of config ''recipients'' of
       Some v \<Rightarrow> map_errR InvalidDefinition (de_recipients kx v)
     | None \<Rightarrow> Inl (InvalidDefinition ''RESOLVE_RECIPIENT requires config.recipients in flow step definition''))"

definition resolve_user_phone :: "step_context \<Rightarrow> flow_error + string" where
  "resolve_user_phone cx =
     ok_or (InvalidDefinition ''Missing phone number'')
       (case Option.bind (Option.bind (Option.bind (json_get ''step_output'' (cx_flow_context cx))
               (json_get ''get_user'')) (json_get ''phoneNumber'')) as_str of
          Some p \<Rightarrow> Some p
        | None \<Rightarrow> Option.bind (json_get ''phone_number'' (cx_session_context cx)) as_str)"

definition resolve_full_name :: "step_context \<Rightarrow> string option" where
  "resolve_full_name cx =
     Option.bind (case json_get ''full_name'' (cx_session_context cx) of
                    Some v \<Rightarrow> Some v | None \<Rightarrow> json_get ''fullname'' (cx_session_context cx)) as_str"

fun first_recipient :: "kyc_ext \<Rightarrow> string \<Rightarrow> recipient_rule list \<Rightarrow> flow_error + recipient_rule option" where
  "first_recipient kx phone [] = Inr None"
| "first_recipient kx phone (r # rs) =
     bindR (map_errR (\<lambda>e. InvalidDefinition (''Invalid regex: '' @ e)) (kx_regex kx (rx_regex r))) (\<lambda>matches.
     if matches phone then Inr (Some r) else first_recipient kx phone rs)"

definition resolve_recipient_from_config ::
    "kyc_ext \<Rightarrow> string \<Rightarrow> recipient_rule list \<Rightarrow> flow_error + recipient_rule option" where
  "resolve_recipient_from_config kx phone rules =
     (if rules = [] then Inl (InvalidDefinition ''RESOLVE_RECIPIENT requires config.recipients in flow step definition'')
      else first_recipient kx phone rules)"

definition jval :: "json option \<Rightarrow> json" where
  "jval v = (case v of None \<Rightarrow> JNull | Some x \<Rightarrow> x)"

definition exec_resolve_recipient :: "kyc_ext \<Rightarrow> step_context \<Rightarrow> step_exec" where
  "exec_resolve_recipient kx cx =
     bindE (lift_res (recipient_config kx cx)) (\<lambda>rules.
     bindE (lift_res (resolve_user_phone cx)) (\<lambda>phone.
     bindE (lift_res (resolve_recipient_from_config kx phone rules)) (\<lambda>found.
     let session_patch = JObject
           [(''deposit_amount'', jval (json_get ''amount'' (cx_input cx))),
            (''deposit_currency'', jval (json_get ''currency'' (cx_input cx))),
            (''provider'', jopt (map_option rx_provider found)),
            (''recipient_full_name'', JString (unwrap_or ''Unknown'' (map_option rx_full_name found))),
            (''recipient_name'', JString (unwrap_or (unwrap_or ''Unknown'' (resolve_full_name cx)) (map_option rx_full_name found))),
            (''recipient_phone'', JString (unwrap_or phone (map_option rx_phone_number found))),
            (''recipient_staff_id'', JString (unwrap_or [] (map_option rx_provider found)))];
         contact = (case found of
             None \<Rightarrow> JNull
           | Some r \<Rightarrow> JObject [(''fullName'', JString (rx_full_name r)), (''phoneNumber'', JString (rx_phone_number r)),
                          (''staffId'', JString (rx_provider r))])
     in ret (Done (Some (JObject [(''recipientContact'', contact)]))
          (Some (no_updates\<lparr>cu_session_context_patch := Some session_patch,
             cu_flow_context_patch := Some (JObject [(''provider_matched'', JBool (found \<noteq> None))])\<rparr>))))))"

section \<open>Properties\<close>

text \<open>
  A deposit that passes validation has a finite amount within the configured bounds and a
  configured currency; NaN and infinities never pass, and the amount in the output is the
  validated one.
\<close>

lemma validate_deposit_sound:
  assumes "parse_step_config (de_deposit kx) default_deposit cx = Inr c"
    "dc_min_amount c = Fin lo" "dc_max_amount c = Fin hi"
    "exec_validate_deposit kx cx w = (Inr (Done out upd), w')"
  shows "\<exists>a ccy. deposit_amount kx cx = Some (Fin a) \<and> lo \<le> a \<and> a \<le> hi
    \<and> (\<exists>x\<in>set (dc_currencies c). eq_ignore_ascii_case x ccy)
    \<and> out = Some (JObject [(''amount'', JNumber (Float a)), (''currency'', JString ccy), (''valid'', JBool True)])
    \<and> upd = None \<and> w' = w"
proof -
  from assms(1,4) obtain amt ccy where amt: "deposit_amount kx cx = Some amt" "deposit_valid c amt ccy"
    "out = Some (JObject [(''amount'', jf64 amt), (''currency'', JString ccy), (''valid'', JBool True)])"
    "upd = None" "w' = w"
    by (auto simp: exec_validate_deposit_def bindE_def Let_def split: option.splits if_splits)
  then show ?thesis
    using assms(2,3) by (cases amt) (auto simp: deposit_valid_def)
qed

text \<open>
  Resolving the recipient without an amount or currency in the step's input removes the
  deposit's amount and currency from the session context: the patch carries nulls, which the
  merge treats as deletions.
\<close>

lemma resolve_recipient_drops_deposit:
  assumes "exec_resolve_recipient kx cx w = (Inr (Done out (Some upd)), w')"
    "json_get ''amount'' (cx_input cx) = None" "json_get ''currency'' (cx_input cx) = None"
    "cx_session_context cx = JObject s"
  shows "\<exists>patch. cu_session_context_patch upd = Some patch
    \<and> json_get ''deposit_amount'' (merge_json_value (cx_session_context cx) patch) = None
    \<and> json_get ''deposit_currency'' (merge_json_value (cx_session_context cx) patch) = None"
proof -
  from assms(1-3) obtain rest where
    patch: "cu_session_context_patch upd = Some (JObject ((''deposit_amount'', JNull) # (''deposit_currency'', JNull) # rest))"
    and dist: "distinct (map fst ((''deposit_amount'', JNull) # (''deposit_currency'', JNull) # rest))"
    by (auto simp: exec_resolve_recipient_def bindE_def Let_def jval_def split: prod.splits sum.splits)
  show ?thesis
    using patch merge_entries_lookup[OF dist, of s] assms(4) by simp
qed

section \<open>Witnesses\<close>

definition example_kx :: kyc_ext where
  "example_kx = \<lparr>de_upload = (\<lambda>_. Inr DocId), de_review = (\<lambda>_. Inr default_review), de_deposit = (\<lambda>_. Inr default_deposit),
     de_recipients = (\<lambda>_. Inr [\<lparr>rx_provider = ''MTN'', rx_full_name = ''Ann'', rx_phone_number = ''+1'', rx_regex = ''.''\<rparr>]),
     kx_parse_f64 = (\<lambda>_. None), kx_show_f64 = (\<lambda>_. ''1''), kx_to_lowercase = to_ascii_lowercase,
     kx_rfc3339 = (\<lambda>_. ''t''), kx_regex = (\<lambda>_. Inr (\<lambda>_. True))\<rparr>"

definition deposit_context :: "json \<Rightarrow> step_context" where
  "deposit_context input = \<lparr>cx_session_id = ''ses_1'', cx_session_user_id = None, cx_flow_id = ''flw_1'',
     cx_step_id = ''stp_1'', cx_input = input,
     cx_session_context = JObject [(''deposit_amount'', jnat 500), (''deposit_currency'', JString ''XAF''), (''phone_number'', JString ''+2'')],
     cx_flow_context = JObject [],
     cx_services = \<lparr>svc_storage = None, svc_user_lookup = True, svc_user_contact = True,
        svc_config = Some [(''recipients'', JArray [])]\<rparr>\<rparr>"

lemma validate_deposit_sound_witness:
  "\<exists>out upd w' a ccy. exec_validate_deposit example_kx (deposit_context (JObject [])) (empty_world 0) = (Inr (Done out upd), w')
     \<and> deposit_amount example_kx (deposit_context (JObject [])) = Some (Fin a) \<and> 1 \<le> a
     \<and> out = Some (JObject [(''amount'', JNumber (Float a)), (''currency'', JString ccy), (''valid'', JBool True)])"
proof -
  have p: "parse_step_config (de_deposit example_kx) default_deposit (deposit_context (JObject [])) = Inr default_deposit"
    by (simp add: parse_step_config_def deposit_context_def example_kx_def)
  obtain out upd w' where
    r: "exec_validate_deposit example_kx (deposit_context (JObject [])) (empty_world 0) = (Inr (Done out upd), w')"
    by (simp add: exec_validate_deposit_def bindE_def parse_step_config_def example_kx_def deposit_amount_def
        input_or_session_def session_config_def deposit_context_def jnat_def f64_of_nat_def deposit_valid_def
        default_deposit_def)
  from validate_deposit_sound[OF p _ _ r, of 1 100000] r show ?thesis
    by (auto simp: default_deposit_def)
qed

lemma resolve_recipient_drops_deposit_witness:
  "\<exists>out upd w' patch. exec_resolve_recipient example_kx (deposit_context (JObject [])) (empty_world 0) = (Inr (Done out (Some upd)), w')
     \<and> cu_session_context_patch upd = Some patch
     \<and> json_get ''deposit_amount'' (merge_json_value (cx_session_context (deposit_context (JObject []))) patch) = None"
proof -
  obtain out upd w' where
    r: "exec_resolve_recipient example_kx (deposit_context (JObject [])) (empty_world 0) = (Inr (Done out (Some upd)), w')"
    by (simp add: exec_resolve_recipient_def bindE_def recipient_config_def deposit_context_def example_kx_def
        resolve_user_phone_def resolve_recipient_from_config_def Let_def)
  show ?thesis
    using resolve_recipient_drops_deposit[OF r] r by (fastforce simp: deposit_context_def)
qed

end
