(* ===== verification/Steps.thy ===== *)
theory Steps
  imports Webhook Otp Kyc
begin

text \<open>
  The built-in steps under one type: their registration by name and the three operations of
  the \<open>Step\<close> trait (\<open>execute\<close>, \<open>validate_input\<close>, \<open>verify_input\<close>), with the defaults of the
  trait where a step does not override them, and the proxy step that adds the configuration of
  the flow definition (\<open>flows/registry.rs\<close>).
\<close>

datatype builtin =
    NoopAction | ErrorAction | RetryAction | WaitAction | SetAction | MapAction | GenerateOtpAction
  | VerifyOtpAction | GetUserAction | DebugLogAction | ConditionalAction | UpdateUserMetadataAction
  | UpdatePhoneNumberAction | CloseSessionAction | UploadDocumentAction | ReviewDocumentAction
  | ValidateDepositAction | UpgradeFullNameAction | ResolveRecipientStep | WebhookStep

definition builtin_actions :: "(string \<times> builtin) list" where
  "builtin_actions =
     [(''NOOP'', NoopAction), (''ERROR'', ErrorAction), (''RETRY'', RetryAction), (''WAIT'', WaitAction),
      (''SET'', SetAction), (''MAP'', MapAction), (''GENERATE_OTP'', GenerateOtpAction),
      (''VERIFY_OTP'', VerifyOtpAction), (''GET_USER'', GetUserAction), (''DEBUG_LOG'', DebugLogAction),
      (''CONDITIONAL'', ConditionalAction), (''UPDATE_USER_METADATA'', UpdateUserMetadataAction),
      (''update-phone-number'', UpdatePhoneNumberAction), (''CLOSE_SESSION'', CloseSessionAction),
      (''UPLOAD_DOCUMENT'', UploadDocumentAction), (''REVIEW_DOCUMENT'', ReviewDocumentAction),
      (''VALIDATE_DEPOSIT'', ValidateDepositAction), (''UPGRADE_FULL_NAME'', UpgradeFullNameAction),
      (''RESOLVE_RECIPIENT'', ResolveRecipientStep), (''WEBHOOK_HTTP'', WebhookStep)]"

record step_ext =
  sx_serde :: serde_ext
  sx_otp :: otp_ext
  sx_kyc :: kyc_ext
  sx_webhook :: webhook_ext

fun exec_builtin :: "step_ext \<Rightarrow> builtin \<Rightarrow> step_context \<Rightarrow> step_exec" where
  "exec_builtin sx NoopAction cx = exec_noop cx"
| "exec_builtin sx ErrorAction cx = exec_error (sx_serde sx) cx"
| "exec_builtin sx RetryAction cx = exec_retry (sx_serde sx) cx"
| "exec_builtin sx WaitAction cx = exec_wait (sx_serde sx) cx"
| "exec_builtin sx SetAction cx = exec_set (sx_serde sx) cx"
| "exec_builtin sx MapAction cx = exec_map (sx_serde sx) cx"
| "exec_builtin sx GenerateOtpAction cx = exec_generate_otp (sx_otp sx) cx"
| "exec_builtin sx VerifyOtpAction cx = exec_verify_otp cx"
| "exec_builtin sx GetUserAction cx = exec_get_user (sx_serde sx) cx"
| "exec_builtin sx DebugLogAction cx = exec_debug (sx_serde sx) cx"
| "exec_builtin sx ConditionalAction cx = exec_conditional (sx_serde sx) cx"
| "exec_builtin sx UpdateUserMetadataAction cx = exec_update_user_metadata (sx_serde sx) cx"
| "exec_builtin sx UpdatePhoneNumberAction cx = exec_update_phone_number (sx_serde sx) cx"
| "exec_builtin sx CloseSessionAction cx = exec_close_session (sx_serde sx) cx"
| "exec_builtin sx UploadDocumentAction cx = exec_upload_document (sx_kyc sx) cx"
| "exec_builtin sx ReviewDocumentAction cx = exec_review_document (sx_kyc sx) cx"
| "exec_builtin sx ValidateDepositAction cx = exec_validate_deposit (sx_kyc sx) cx"
| "exec_builtin sx UpgradeFullNameAction cx = exec_upgrade_full_name (sx_serde sx) cx"
| "exec_builtin sx ResolveRecipientStep cx = exec_resolve_recipient (sx_kyc sx) cx"
| "exec_builtin sx WebhookStep cx = exec_webhook (sx_webhook sx) cx"

definition validate_builtin :: "step_ext \<Rightarrow> builtin \<Rightarrow> json \<Rightarrow> flow_error + unit" where
  "validate_builtin sx b input =
     (case b of
        VerifyOtpAction \<Rightarrow> validate_verify_otp input
      | UploadDocumentAction \<Rightarrow> validate_upload_document input
      | ReviewDocumentAction \<Rightarrow> validate_review_document input
      | UpgradeFullNameAction \<Rightarrow> validate_upgrade_full_name (sx_serde sx) input
      | _ \<Rightarrow> Inr ())"

definition verify_builtin :: "step_ext \<Rightarrow> builtin \<Rightarrow> step_context \<Rightarrow> json \<Rightarrow> step_exec" where
  "verify_builtin sx b cx input =
     (case b of
        VerifyOtpAction \<Rightarrow> verify_otp (sx_otp sx) cx input
      | UploadDocumentAction \<Rightarrow> verify_upload_document (sx_kyc sx) cx input
      | ReviewDocumentAction \<Rightarrow> verify_review_document (sx_kyc sx) cx input
      | UpgradeFullNameAction \<Rightarrow> verify_upgrade_full_name (sx_serde sx) cx input
      | _ \<Rightarrow> ret (Done (Some (JObject [(''verified'', JBool True)])) None))"

text \<open>The proxy step: the entries of its configuration override those of the context.\<close>

definition context_with_config :: "builtin proxy_step \<Rightarrow> step_context \<Rightarrow> step_context" where
  "context_with_config ps cx =
     (case ps_config ps of
        None \<Rightarrow> cx
      | Some config \<Rightarrow>
          (let base = unwrap_or [] (svc_config (cx_services cx));
               merged = (case as_object config of None \<Rightarrow> base | Some m \<Rightarrow> fold (\<lambda>(k, v). obj_insert k v) m base)
           in cx\<lparr>cx_services := (cx_services cx)\<lparr>svc_config := (if merged = [] then None else Some merged)\<rparr>\<rparr>))"

definition proxy_execute :: "step_ext \<Rightarrow> builtin proxy_step \<Rightarrow> step_context \<Rightarrow> step_exec" where
  "proxy_execute sx ps cx = exec_builtin sx (ps_inner ps) (context_with_config ps cx)"

definition proxy_validate_input :: "step_ext \<Rightarrow> builtin proxy_step \<Rightarrow> json \<Rightarrow> flow_error + unit" where
  "proxy_validate_input sx ps input = validate_builtin sx (ps_inner ps) input"

definition proxy_verify_input :: "step_ext \<Rightarrow> builtin proxy_step \<Rightarrow> step_context \<Rightarrow> json \<Rightarrow> step_exec" where
  "proxy_verify_input sx ps cx input = verify_builtin sx (ps_inner ps) (context_with_config ps cx) input"

text \<open>\<open>runtime::step_services\<close>: the user services are present, there is no storage.\<close>

definition runtime_services :: step_services where
  "runtime_services = \<lparr>svc_storage = None, svc_user_lookup = True, svc_user_contact = True, svc_config = None\<rparr>"

fun actor_label :: "actor \<Rightarrow> string" where
  "actor_label System = ''SYSTEM''"
| "actor_label Admin = ''ADMIN''"
| "actor_label EndUser = ''END_USER''"

fun waiting_status :: "actor \<Rightarrow> string" where
  "waiting_status System = ''RUNNING''"
| "waiting_status Admin = ''WAITING''"
| "waiting_status EndUser = ''WAITING''"

section \<open>What a step may change\<close>

text \<open>
  The tables a step leaves alone: everything but the rows of its session's user and the
  counter of random draws.
\<close>

definition step_view :: "step_context \<Rightarrow> world \<Rightarrow> user_row list \<times> world" where
  "step_view cx w = (filter (\<lambda>r. Some (us_user_id r) \<noteq> cx_session_user_id cx) (w_users w),
     w\<lparr>w_users := [], w_next_id := 0\<rparr>)"

lemma user_writes_keep [frame_rules]:
  "cx_session_user_id cx = Some uid \<Longrightarrow> keeps (step_view cx) (update_phone_number uid phone)"
  "cx_session_user_id cx = Some uid \<Longrightarrow> keeps (step_view cx) (update_full_name uid name)"
  by (auto intro!: keepsI filter_update_where
      simp: step_view_def update_phone_number_def update_full_name_def modify_user_def split: option.splits)

lemma reads_keep [frame_rules]: "keeps v (get_user uid)" "keeps v (get_user_metadata uid)"
  by (simp_all add: get_user_def get_user_metadata_def frame_rules)

lemma random_keep [frame_rules]: "keeps (step_view cx) (random_range ox b)"
  by (auto intro!: keepsI simp: random_range_def step_view_def)

lemma random_chars_keep [frame_rules]: "keeps (step_view cx) (random_chars ox n)"
  by (induction n) (auto intro!: frame_rules)

lemma context_with_config_user [simp]: "cx_session_user_id (context_with_config ps cx) = cx_session_user_id cx"
  by (simp add: context_with_config_def Let_def split: option.split)

lemma step_view_config [simp]: "step_view (context_with_config ps cx) = step_view cx"
  by (simp add: step_view_def fun_eq_iff)

lemma control_keep [frame_rules]:
  "keeps v (exec_noop cx)" "keeps v (exec_error sx cx)" "keeps v (exec_retry sx cx)" "keeps v (exec_wait sx cx)"
  "keeps v (exec_set sx cx)" "keeps v (exec_debug sx cx)" "keeps v (exec_close_session sx cx)"
  "keeps v (exec_conditional sx cx)" "keeps v (exec_map sx cx)" "keeps v (exec_update_user_metadata sx cx)"
  unfolding exec_noop_def exec_error_def exec_retry_def exec_wait_def exec_set_def exec_debug_def
    exec_close_session_def exec_conditional_def exec_map_def exec_update_user_metadata_def
  by (intro frame_rules)+

lemma kyc_keep [frame_rules]:
  "keeps v (exec_upload_document kx cx)" "keeps v (exec_review_document kx cx)"
  "keeps v (exec_validate_deposit kx cx)" "keeps v (exec_resolve_recipient kx cx)"
  "keeps v (verify_upload_document kx cx input)" "keeps v (verify_review_document kx cx input)"
  "keeps v (exec_verify_otp cx)" "keeps v (verify_otp ox cx input)" "keeps v (verify_upgrade_full_name sx cx input)"
  unfolding exec_upload_document_def exec_review_document_def exec_validate_deposit_def exec_resolve_recipient_def
    verify_upload_document_def verify_review_document_def exec_verify_otp_def verify_otp_def verify_upgrade_full_name_def
  by (intro frame_rules)+

lemma user_steps_keep [frame_rules]:
  "keeps (step_view cx) (exec_generate_otp ox cx)" "keeps (step_view cx) (exec_get_user sx cx)"
  "keeps (step_view cx) (exec_update_phone_number sx cx)" "keeps (step_view cx) (exec_upgrade_full_name sx cx)"
  unfolding exec_generate_otp_def exec_get_user_def exec_update_phone_number_def exec_upgrade_full_name_def
    generate_otp_def lookup_user_def contact_update_phone_def persist_full_name_def contact_update_full_name_def
  by (auto intro!: frame_rules split: option.split otp_type.split)

lemma http_send_keeps [frame_rules]: "keeps (step_view cx) (http_send wx rq)"
  by (auto intro!: keepsI simp: http_send_def step_view_def)

lemma webhook_keeps [frame_rules]: "keeps (step_view cx) (exec_webhook wx cx)"
  unfolding exec_webhook_def authenticate_def send_webhook_def
  by (auto intro!: frame_rules split: option.split sum.split webhook_auth.split)

lemma exec_builtin_keeps: "keeps (step_view cx) (exec_builtin sx b cx)"
  by (cases b) (auto intro: frame_rules)

lemma verify_builtin_keeps: "keeps (step_view cx) (verify_builtin sx b cx input)"
  by (cases b) (auto simp: verify_builtin_def intro: frame_rules)

lemma step_view_frame:
  assumes "step_view cx w' = step_view cx w"
  shows "w' = w\<lparr>w_users := w_users w', w_next_id := w_next_id w'\<rparr>"
    "filter (\<lambda>r. Some (us_user_id r) \<noteq> cx_session_user_id cx) (w_users w')
       = filter (\<lambda>r. Some (us_user_id r) \<noteq> cx_session_user_id cx) (w_users w)"
proof -
  from assms have "w'\<lparr>w_users := [], w_next_id := 0\<rparr> = w\<lparr>w_users := [], w_next_id := 0\<rparr>"
    by (simp add: step_view_def)
  then have "w'\<lparr>w_users := [], w_next_id := 0\<rparr>\<lparr>w_users := w_users w', w_next_id := w_next_id w'\<rparr>
      = w\<lparr>w_users := [], w_next_id := 0\<rparr>\<lparr>w_users := w_users w', w_next_id := w_next_id w'\<rparr>" by simp
  then show "w' = w\<lparr>w_users := w_users w', w_next_id := w_next_id w'\<rparr>" by simp
  show "filter (\<lambda>r. Some (us_user_id r) \<noteq> cx_session_user_id cx) (w_users w')
      = filter (\<lambda>r. Some (us_user_id r) \<noteq> cx_session_user_id cx) (w_users w)"
    using assms by (simp add: step_view_def)
qed

section \<open>Properties\<close>

text \<open>
  C23: a step changes nothing but its own user. Whatever its configuration, its input and the
  answers of the services it calls, the execution of a step and the verification of an input
  leave every table as it was, the rows of the session's user apart.
\<close>

theorem steps_touch_only_their_user:
  assumes "proxy_execute sx ps cx w = (r, w') \<or> proxy_verify_input sx ps cx input w = (r, w')"
  shows "\<exists>users n. w' = w\<lparr>w_users := users, w_next_id := n\<rparr>
    \<and> filter (\<lambda>u. Some (us_user_id u) \<noteq> cx_session_user_id cx) users
        = filter (\<lambda>u. Some (us_user_id u) \<noteq> cx_session_user_id cx) (w_users w)"
proof -
  have "step_view cx w' = step_view cx w"
    using assms keepsD[OF exec_builtin_keeps[of "context_with_config ps cx" sx "ps_inner ps"]]
      keepsD[OF verify_builtin_keeps[of "context_with_config ps cx" sx "ps_inner ps" input]]
    by (auto simp: proxy_execute_def proxy_verify_input_def)
  from step_view_frame[OF this] show ?thesis by blast
qed

section \<open>Witnesses\<close>

definition example_serde :: serde_ext where
  "example_serde = \<lparr>de_error = (\<lambda>_. Inl []), de_retry_after_ms = (\<lambda>_. Inl []), de_wait = (\<lambda>_. Inl []),
     de_set = (\<lambda>_. Inl []), de_debug = (\<lambda>_. Inl []), de_close_reason = (\<lambda>_. Inl []), de_conditional = (\<lambda>_. Inl []),
     de_get_user = (\<lambda>_. Inl []), de_phone = (\<lambda>_. Inl []), de_map = (\<lambda>_. Inl []), de_metadata = (\<lambda>_. Inl []),
     de_full_name = (\<lambda>_. Inl []), de_full_name_input = (\<lambda>_. Inl []), value_to_string = (\<lambda>_. [])\<rparr>"

definition example_wx :: webhook_ext where
  "example_wx = \<lparr>wx_config = (\<lambda>_. Inl []), wx_send = (\<lambda>_ _. Inl ''offline''), wx_method_ok = (\<lambda>_. True),
     wx_header_name = Some, wx_header_value_ok = (\<lambda>_. True), wx_base64 = (\<lambda>s. s), wx_to_string = (\<lambda>_. [])\<rparr>"

definition example_sx :: step_ext where
  "example_sx = \<lparr>sx_serde = example_serde, sx_otp = example_ox, sx_kyc = example_kx, sx_webhook = example_wx\<rparr>"

definition example_proxy :: "string \<Rightarrow> actor \<Rightarrow> builtin \<Rightarrow> builtin proxy_step" where
  "example_proxy name a b = \<lparr>ps_step_type = name, ps_actor = a, ps_human_id = name, ps_feature = None,
     ps_config = None, ps_inner = b\<rparr>"

theorem steps_touch_only_their_user_witness:
  "\<exists>r users n. proxy_execute example_sx (example_proxy ''save'' System UpdatePhoneNumberAction)
       (example_context (JObject [(''phone_number'', JString ''+1'')]) (JObject []))
       (add_user example_user (empty_world 0))
     = (r, (add_user example_user (empty_world 0))\<lparr>w_users := users, w_next_id := n\<rparr>)"
proof -
  obtain r w' where "proxy_execute example_sx (example_proxy ''save'' System UpdatePhoneNumberAction)
       (example_context (JObject [(''phone_number'', JString ''+1'')]) (JObject []))
       (add_user example_user (empty_world 0)) = (r, w')" by fastforce
  with steps_touch_only_their_user[OF disjI1[OF this]] show ?thesis by blast
qed

end
