(* ===== verification/Service.thy ===== *)
theory Service
  imports Steps
begin

text \<open>
  The flow service behind the BFF (\<open>backend-server/src/api/bff_flow/service.rs\<close>): sessions, flows,
  steps, the chain of synchronous system steps, submission of a step and the aggregation of flow
  states into a session state. The loop of \<open>create_step_chain\<close> may run forever on a cyclic
  definition, so its result is optional: \<open>None\<close> is a call that never returns.
\<close>

section \<open>The server and its results\<close>

text \<open>
  What a handler sees of the application state: the registry, the steps, the id generator, the
  date formats of \<open>chrono\<close> and the notification queue, given by the notifications it takes: those
  that decode as a job and that the queue accepts. The others are logged and dropped.
\<close>

record server =
  sv_registry :: "builtin flow_registry"
  sv_steps :: step_ext
  sv_cuid :: cuid_gen
  sv_format_date :: "instant \<Rightarrow> string"
  sv_rfc3339 :: "instant \<Rightarrow> string"
  sv_enqueues :: "json \<Rightarrow> bool"

type_synonym 'a run = "world \<Rightarrow> ((app_error + 'a) \<times> world) option"

definition returns :: "'a db \<Rightarrow> 'a run" where
  "returns m w = Some (m w)"

definition bindO :: "'a run \<Rightarrow> ('a \<Rightarrow> 'b run) \<Rightarrow> 'b run" where
  "bindO m k w =
     (case m w of
        None \<Rightarrow> None
      | Some (Inl e, w') \<Rightarrow> Some (Inl e, w')
      | Some (Inr a, w') \<Rightarrow> k a w')"

fun flow_error_to_http :: "flow_error \<Rightarrow> app_error" where
  "flow_error_to_http (FeatureNotEnabled f _ _) = bad_request ''FEATURE_NOT_ENABLED'' (''Feature not enabled: '' @ f)"
| "flow_error_to_http (UnknownFlowType t) = bad_request ''UNKNOWN_FLOW_TYPE'' (''Unknown flow type: '' @ t)"
| "flow_error_to_http (UnknownStepType t) = bad_request ''UNKNOWN_STEP_TYPE'' (''Unknown step type: '' @ t)"
| "flow_error_to_http (UnknownSessionType t) = bad_request ''UNKNOWN_SESSION_TYPE'' (''Unknown session type: '' @ t)"
| "flow_error_to_http (InvalidHumanReadableId r) = bad_request ''INVALID_HUMAN_ID'' r"
| "flow_error_to_http (InvalidDefinition r) = bad_request ''INVALID_FLOW_DEFINITION'' r"
| "flow_error_to_http (Serialization r) = internal ''FLOW_SERIALIZATION_ERROR'' r"
| "flow_error_to_http (IoError e) = internal ''FLOW_IO_ERROR'' e"
| "flow_error_to_http (StepPanic p) = Panic p"

section \<open>Definitions, names and contexts\<close>

definition flow_definition_for :: "server \<Rightarrow> string \<Rightarrow> app_error + builtin dynamic_flow" where
  "flow_definition_for sv flow_type =
     ok_or (bad_request ''UNKNOWN_FLOW_TYPE'' (''Unknown flow type: '' @ flow_type))
       (get_flow (sv_registry sv) flow_type)"

definition unknown_step :: "builtin dynamic_flow \<Rightarrow> string \<Rightarrow> app_error" where
  "unknown_step f step_type = bad_request ''UNKNOWN_STEP_TYPE''
     (''Unknown step type '' @ backticked step_type @ '' for flow '' @ backticked (df_flow_type f))"

definition step_definition_for :: "builtin dynamic_flow \<Rightarrow> string \<Rightarrow> app_error + builtin proxy_step" where
  "step_definition_for f step_type =
     ok_or (unknown_step f step_type) (List.find (\<lambda>s. ps_step_type s = step_type) (df_steps f))"

definition ensure_flow_step_exists :: "builtin dynamic_flow \<Rightarrow> string \<Rightarrow> app_error + unit" where
  "ensure_flow_step_exists f step_type =
     (if has_flow_step f step_type then Inr () else Inl (unknown_step f step_type))"

definition terminal_status :: "string \<Rightarrow> string" where
  "terminal_status step_type =
     (if eq_ignore_ascii_case step_type ''FAILED'' then ''FAILED''
      else if eq_ignore_ascii_case step_type ''CLOSED'' then ''CLOSED''
      else ''COMPLETED'')"

definition validate_session_flow_compatibility :: "server \<Rightarrow> session_row \<Rightarrow> string \<Rightarrow> app_error + unit" where
  "validate_session_flow_compatibility sv session flow_type =
     (case get_session_definition (sv_registry sv) (se_session_type session) of
        None \<Rightarrow> Inr ()
      | Some d \<Rightarrow>
          if sd_allowed_flows d = [] \<or> (\<exists>a\<in>set (sd_allowed_flows d). eq_ignore_ascii_case a flow_type)
          then Inr ()
          else Inl (bad_request ''FLOW_NOT_ALLOWED''
                 (''Flow '' @ backticked flow_type @ '' is not allowed for session type '' @ backticked (se_session_type session))))"

definition is_async_step :: "flow_definition option \<Rightarrow> string \<Rightarrow> bool" where
  "is_async_step fd step_type =
     unwrap_or False (Option.bind (Option.bind (Option.bind (Option.bind fd
       (\<lambda>d. map_of (fd_steps d) step_type)) fsd_config) (json_get ''async'')) as_bool)"

definition append_step_id :: "json \<Rightarrow> string \<Rightarrow> json" where
  "append_step_id step_ids step_id =
     JArray (filter (\<lambda>v. as_str v \<noteq> Some step_id) (unwrap_or [] (as_array step_ids)) @ [JString step_id])"

definition store_step_output :: "json \<Rightarrow> string \<Rightarrow> json \<Rightarrow> json" where
  "store_step_output context step_type input =
     (let root = unwrap_or [] (as_object context);
          step_map = unwrap_or [] (Option.bind (map_of root ''step_output'') as_object)
      in JObject (obj_insert ''step_output'' (JObject (obj_insert step_type input step_map)) root))"

definition normalize_or_default_human_id :: "string option \<Rightarrow> string \<Rightarrow> app_error + string" where
  "normalize_or_default_human_id v fallback =
     (let candidate = unwrap_or fallback v
      in bindR (map_errR flow_error_to_http (hid_parse candidate)) (\<lambda>_. Inr candidate))"

definition object_context :: "json option \<Rightarrow> json" where
  "object_context context =
     (let v = unwrap_or (JObject []) context in if is_object v then v else JObject [])"

definition session_context_with_user_id :: "json option \<Rightarrow> string \<Rightarrow> json" where
  "session_context_with_user_id context uid =
     merge_json_value (object_context context) (JObject [(''user_id'', JString uid)])"

text \<open>
  \<open>Utc::now() + Duration::from_std(after).unwrap_or_else(...)\<close>: a delay beyond the range of
  \<open>chrono\<close>'s durations is replaced by the fallback (in seconds), and a sum beyond its last
  instant panics.
\<close>

definition max_utc :: instant where
  "max_utc = 8210266876799999999"

definition after_delay :: "nat \<Rightarrow> nat \<Rightarrow> instant \<Rightarrow> app_error + instant" where
  "after_delay fallback_secs delay_ms now =
     (let t = now + millis (if 2 ^ 63 \<le> delay_ms then int fallback_secs * 1000 else int delay_ms)
      in if max_utc < t then Inl (Panic ''`DateTime + TimeDelta` overflowed'') else Inr t)"

section \<open>Context updates\<close>

definition notify :: "server \<Rightarrow> json \<Rightarrow> unit db" where
  "notify sv n w = (Inr (), if sv_enqueues sv n then w\<lparr>w_notifications := w_notifications w @ [n]\<rparr> else w)"

definition update_user_metadata_of :: "session_row \<Rightarrow> context_updates \<Rightarrow> unit db" where
  "update_user_metadata_of session u =
     (case (cu_user_metadata_patch u, se_user_id session) of
        (Some patch, Some uid) \<Rightarrow> update_metadata uid patch (cu_user_metadata_eager_patch u)
      | _ \<Rightarrow> ret ())"

definition apply_context_updates :: "server \<Rightarrow> session_row \<Rightarrow> context_updates \<Rightarrow> unit db" where
  "apply_context_updates sv session u =
     bindE (case cu_session_context_patch u of
              None \<Rightarrow> ret ()
            | Some patch \<Rightarrow>
                bindE (get_session (se_id session)) (\<lambda>found.
                bindE (lift_res (ok_or (internal ''SESSION_NOT_FOUND'' ''Session not found'') found)) (\<lambda>current.
                update_session_context (se_id session) (merged_json (se_context current) patch)))) (\<lambda>_.
     bindE (update_user_metadata_of session u) (\<lambda>_.
     forE (notify sv) (unwrap_or [] (cu_notifications u))))"

section \<open>States of flows and sessions\<close>

definition completed_kyc_entry :: "server \<Rightarrow> instant \<Rightarrow> session_row \<Rightarrow> flow_row \<Rightarrow> json" where
  "completed_kyc_entry sv now session flow =
     JObject [(''kyc'', JObject [(se_session_type session, JObject [(fl_flow_type flow, JObject
       [(''completed'', JBool True), (''completed_at'', JString (sv_rfc3339 sv now)),
        (''flow_id'', JString (fl_id flow)), (''session_id'', JString (se_id session))])])])]"

definition write_completed_kyc_metadata :: "server \<Rightarrow> flow_row \<Rightarrow> unit db" where
  "write_completed_kyc_metadata sv flow =
     bindE (get_session (fl_session_id flow)) (\<lambda>found.
       case found of
         None \<Rightarrow> ret ()
       | Some session \<Rightarrow>
           (case se_user_id session of
              None \<Rightarrow> ret ()
            | Some uid \<Rightarrow>
                bindE (gets w_clock) (\<lambda>now.
                update_metadata uid (completed_kyc_entry sv now session flow)
                  (Some (JObject [(''kyc'', JBool False)])))))"

definition any_status :: "string \<Rightarrow> flow_row list \<Rightarrow> bool" where
  "any_status s flows \<longleftrightarrow> (\<exists>f\<in>set flows. eq_ignore_ascii_case (fl_status f) s)"

definition refresh_session_status :: "string \<Rightarrow> unit db" where
  "refresh_session_status session_id =
     bindE (list_flows_for_session session_id) (\<lambda>flows.
     bindE (gets w_clock) (\<lambda>now.
       if flows = [] then update_session_status session_id ''OPEN'' None
       else if any_status ''RUNNING'' flows then update_session_status session_id ''RUNNING'' None
       else if any_status ''FAILED'' flows then update_session_status session_id ''FAILED'' (Some now)
       else if \<forall>f\<in>set flows. eq_ignore_ascii_case (fl_status f) ''COMPLETED''
                 \<or> eq_ignore_ascii_case (fl_status f) ''CLOSED''
       then update_session_status session_id
              (if any_status ''CLOSED'' flows then ''CLOSED'' else ''COMPLETED'') (Some now)
       else update_session_status session_id ''OPEN'' None))"

definition finalize_flow :: "server \<Rightarrow> flow_row \<Rightarrow> string \<Rightarrow> flow_row db" where
  "finalize_flow sv flow status =
     bindE (update_flow (fl_id flow) (no_flow_update\<lparr>fu_status := Some status, fu_current_step := Some None\<rparr>)) (\<lambda>finalized.
     bindE (if eq_ignore_ascii_case status ''COMPLETED'' then write_completed_kyc_metadata sv finalized else ret ()) (\<lambda>_.
     bindE (refresh_session_status (fl_session_id finalized)) (\<lambda>_.
     ret finalized)))"

section \<open>The step chain\<close>

definition handle_completed_step ::
    "server \<Rightarrow> session_row \<Rightarrow> flow_row \<Rightarrow> step_row \<Rightarrow> string \<Rightarrow> json \<Rightarrow> json \<Rightarrow> context_updates option \<Rightarrow> flow_row db" where
  "handle_completed_step sv session flow created step_type input output updates =
     bindE (gets w_clock) (\<lambda>now.
     bindE (patch_step (st_id created) (patch_finished_at now (patch_clear_error (patch_output output
              (patch_input input (patch_status ''COMPLETED'' patch_new)))))) (\<lambda>_.
     let stored = store_step_output (fl_context flow) step_type output;
         context = (case Option.bind updates cu_flow_context_patch of
                      None \<Rightarrow> stored | Some patch \<Rightarrow> merged_json stored patch)
     in bindE (case updates of None \<Rightarrow> ret () | Some u \<Rightarrow> apply_context_updates sv session u) (\<lambda>_.
        update_flow (fl_id flow) (no_flow_update\<lparr>fu_context := Some context\<rparr>))))"

datatype chain_result = ChainReturn flow_row | ChainContinue flow_row string

text \<open>The target of a transition: a step of the flow continues the chain, any other ends the flow.\<close>

definition follow :: "server \<Rightarrow> builtin dynamic_flow \<Rightarrow> flow_row \<Rightarrow> string option \<Rightarrow> string \<Rightarrow> chain_result db" where
  "follow sv fd flow target default_status =
     (case target of
        None \<Rightarrow> bindE (finalize_flow sv flow default_status) (\<lambda>f. ret (ChainReturn f))
      | Some t \<Rightarrow>
          if has_flow_step fd t then ret (ChainContinue flow t)
          else bindE (finalize_flow sv flow (terminal_status t)) (\<lambda>f. ret (ChainReturn f)))"

definition result_done :: json where
  "result_done = JObject [(''result'', JString ''done'')]"

definition chain_outcome ::
    "server \<Rightarrow> session_row \<Rightarrow> builtin dynamic_flow \<Rightarrow> flow_row \<Rightarrow> step_row \<Rightarrow> string \<Rightarrow> json \<Rightarrow> step_outcome \<Rightarrow> chain_result db" where
  "chain_outcome sv session fd flow created step_type input outcome =
     (case outcome of
        Done output updates \<Rightarrow>
          bindE (handle_completed_step sv session flow created step_type input (unwrap_or result_done output) updates) (\<lambda>flow'.
          follow sv fd flow' (resolve_transition fd step_type None False) ''COMPLETED'')
      | Branched branch output updates \<Rightarrow>
          bindE (handle_completed_step sv session flow created step_type input (unwrap_or result_done output) updates) (\<lambda>flow'.
          follow sv fd flow' (resolve_transition fd step_type (Some branch) False) ''COMPLETED'')
      | Waiting _ \<Rightarrow>
          bindE (patch_step (st_id created) (patch_status ''WAITING'' patch_new)) (\<lambda>_. ret (ChainReturn flow))
      | Failed error retryable \<Rightarrow>
          bindE (gets w_clock) (\<lambda>now.
          bindE (patch_step (st_id created) (patch_finished_at now (patch_error
                   (JObject [(''error'', JString error), (''retryable'', JBool retryable)])
                   (patch_status ''FAILED'' patch_new)))) (\<lambda>_.
          follow sv fd flow (resolve_transition fd step_type None True) ''FAILED''))
      | Retry after \<Rightarrow>
          bindE (gets w_clock) (\<lambda>now.
          bindE (lift_res (after_delay 0 after now)) (\<lambda>t.
          bindE (patch_step (st_id created) (patch_next_retry_at t (patch_status ''WAITING'' patch_new))) (\<lambda>_.
          ret (ChainReturn flow)))))"

definition step_human_id :: "string \<Rightarrow> string \<Rightarrow> i32 \<Rightarrow> flow_error + string" where
  "step_human_id flow_human_id step_human attempt_no =
     bindR (hid_parse flow_human_id) (\<lambda>h. hid_with_suffix h
       (if attempt_no = 0 then step_human else step_human @ ''-'' @ show_int (sint attempt_no)))"

definition attempts_of :: "string \<Rightarrow> step_row list \<Rightarrow> nat" where
  "attempts_of step_type steps = length (filter (\<lambda>r. st_step_type r = step_type) steps)"

text \<open>The row of the step the chain enters, and the flow that points to it.\<close>

definition enter_step ::
    "server \<Rightarrow> flow_row \<Rightarrow> builtin proxy_step \<Rightarrow> bool \<Rightarrow> string \<Rightarrow> json option \<Rightarrow> (string \<times> step_row \<times> flow_row) db" where
  "enter_step sv flow sd runs_async step_type pending =
     bindE (list_steps_for_flow (fl_id flow)) (\<lambda>existing.
     let attempt_no = of_nat (attempts_of step_type existing) in
     bindE (flow_step_id (sv_cuid sv)) (\<lambda>step_id.
     bindE (lift_res (map_errR flow_error_to_http (step_human_id (fl_human_id flow) (ps_human_id sd) attempt_no))) (\<lambda>human.
     bindE (gets w_clock) (\<lambda>now.
     bindE (create_step
       \<lparr>tci_id = step_id, tci_human_id = human, tci_flow_id = fl_id flow, tci_step_type = step_type,
        tci_actor = actor_label (ps_actor sd),
        tci_status = (if runs_async then ''WAITING'' else waiting_status (ps_actor sd)),
        tci_attempt_no = attempt_no, tci_input = pending, tci_output = None, tci_error = None,
        tci_next_retry_at = (if runs_async then Some now else None), tci_finished_at = None\<rparr>) (\<lambda>created.
     bindE (update_flow (fl_id flow)
       (no_flow_update\<lparr>fu_status := Some ''RUNNING'', fu_current_step := Some (Some step_type),
          fu_step_ids := Some (append_step_id (fl_step_ids flow) (st_id created))\<rparr>)) (\<lambda>flow'.
     ret (step_id, created, flow')))))))"

definition chain_context :: "session_row \<Rightarrow> flow_row \<Rightarrow> string \<Rightarrow> json \<Rightarrow> step_context" where
  "chain_context session flow step_id input =
     \<lparr>cx_session_id = fl_session_id flow, cx_session_user_id = se_user_id session, cx_flow_id = fl_id flow,
      cx_step_id = step_id, cx_input = input, cx_session_context = se_context session,
      cx_flow_context = fl_context flow, cx_services = runtime_services\<rparr>"

definition runs_async :: "server \<Rightarrow> string \<Rightarrow> builtin proxy_step \<Rightarrow> string \<Rightarrow> bool" where
  "runs_async sv flow_type sd step_type \<longleftrightarrow>
     ps_actor sd = System \<and> is_async_step (get_flow_definition (sv_registry sv) flow_type) step_type"

text \<open>One round of the loop of \<open>create_step_chain\<close>, and the loop.\<close>

definition chain_round ::
    "server \<Rightarrow> session_row \<Rightarrow> flow_row \<Rightarrow> string \<Rightarrow> json option \<Rightarrow> chain_result db" where
  "chain_round sv session flow step_type pending =
     bindE (lift_res (flow_definition_for sv (fl_flow_type flow))) (\<lambda>fd.
     bindE (lift_res (step_definition_for fd step_type)) (\<lambda>sd.
     let async = runs_async sv (fl_flow_type flow) sd step_type in
     bindE (enter_step sv flow sd async step_type pending) (\<lambda>(step_id, created, flow').
       if async then ret (ChainReturn flow')
       else if ps_actor sd \<noteq> System then ret (ChainReturn flow')
       else
         (let input = unwrap_or (JObject []) pending in
          bindE (map_errE flow_error_to_http
            (proxy_execute (sv_steps sv) sd (chain_context session flow' step_id input))) (\<lambda>outcome.
          chain_outcome sv session fd flow' created step_type input outcome)))))"

partial_function (option) create_step_chain ::
    "server \<Rightarrow> session_row \<Rightarrow> flow_row \<Rightarrow> string \<Rightarrow> json option \<Rightarrow> world \<Rightarrow> ((app_error + flow_row) \<times> world) option" where
  "create_step_chain sv session flow step_type pending w =
     (case chain_round sv session flow step_type pending w of
        (Inl e, w') \<Rightarrow> Some (Inl e, w')
      | (Inr (ChainReturn f), w') \<Rightarrow> Some (Inr f, w')
      | (Inr (ChainContinue f t), w') \<Rightarrow> create_step_chain sv session f t None w')"

declare create_step_chain.simps [code]

section \<open>Handlers\<close>

definition ensure_session_owner :: "string \<Rightarrow> string \<Rightarrow> session_row db" where
  "ensure_session_owner session_id uid =
     bindE (get_session session_id) (\<lambda>found.
     bindE (lift_res (ok_or (not_found ''SESSION_NOT_FOUND'' ''Session not found'') found)) (\<lambda>session.
       if se_user_id session \<noteq> Some uid then throw (unauthorized ''Session does not belong to caller'')
       else ret session))"

definition ensure_flow_owner :: "flow_row \<Rightarrow> string \<Rightarrow> unit db" where
  "ensure_flow_owner flow uid =
     bindE (get_session (fl_session_id flow)) (\<lambda>found.
     bindE (lift_res (ok_or (not_found ''SESSION_NOT_FOUND'' ''Session not found'') found)) (\<lambda>session.
       if se_user_id session \<noteq> Some uid then throw (unauthorized ''Flow does not belong to caller'')
       else ret ()))"

text \<open>A flow or step response has the columns of its row; a session response omits one.\<close>

record session_response =
  sr_id :: string
  sr_human_id :: string
  sr_session_type :: string
  sr_status :: string
  sr_user_id :: "string option"
  sr_context :: json
  sr_created_at :: instant
  sr_updated_at :: instant

definition session_response_of :: "session_row \<Rightarrow> session_response" where
  "session_response_of r =
     \<lparr>sr_id = se_id r, sr_human_id = se_human_id r, sr_session_type = se_session_type r,
      sr_status = se_status r, sr_user_id = se_user_id r, sr_context = se_context r,
      sr_created_at = se_created_at r, sr_updated_at = se_updated_at r\<rparr>"

record create_session_request =
  cs_session_type :: string
  cs_human_id :: "string option"
  cs_context :: "json option"

definition bff_create_session :: "server \<Rightarrow> string \<Rightarrow> create_session_request \<Rightarrow> session_response db" where
  "bff_create_session sv uid body =
     bindE (lift_res (ok_or (bad_request ''UNKNOWN_SESSION_TYPE'' (''Unknown session type: '' @ cs_session_type body))
              (get_session_definition (sv_registry sv) (cs_session_type body)))) (\<lambda>d.
     bindE (flow_session_id (sv_cuid sv)) (\<lambda>session_id.
     bindE (gets w_clock) (\<lambda>now.
     bindE (lift_res (normalize_or_default_human_id (cs_human_id body)
              (sd_human_id_prefix d @ ''.'' @ sv_format_date sv now @ ''.'' @ session_id))) (\<lambda>human.
     bindE (create_session \<lparr>sci_id = session_id, sci_human_id = human, sci_user_id = Some uid,
              sci_session_type = cs_session_type body, sci_status = ''OPEN'',
              sci_context = session_context_with_user_id (cs_context body) uid\<rparr>) (\<lambda>row.
     ret (session_response_of row))))))"

definition bff_list_sessions :: "string \<Rightarrow> session_response list db" where
  "bff_list_sessions uid =
     bindE (list_sessions \<lparr>sf_user_id = Some uid, sf_user_ids = None, sf_session_type = None,
              sf_status = None, sf_page = 1, sf_limit = 100\<rparr>) (\<lambda>(rows, _).
     ret (map session_response_of rows))"

definition bff_get_session :: "string \<Rightarrow> string \<Rightarrow> (session_response \<times> flow_row list) db" where
  "bff_get_session session_id uid =
     bindE (ensure_session_owner session_id uid) (\<lambda>session.
     bindE (list_flows_for_session (se_id session)) (\<lambda>flows.
     ret (session_response_of session, flows)))"

definition bff_list_session_flows :: "string \<Rightarrow> string \<Rightarrow> flow_row list db" where
  "bff_list_session_flows session_id uid =
     bindE (ensure_session_owner session_id uid) (\<lambda>_. list_flows_for_session session_id)"

definition owned_flow :: "string \<Rightarrow> string \<Rightarrow> flow_row db" where
  "owned_flow flow_id uid =
     bindE (get_flow_row flow_id) (\<lambda>found.
     bindE (lift_res (ok_or (not_found ''FLOW_NOT_FOUND'' ''Flow not found'') found)) (\<lambda>flow.
     bindE (ensure_flow_owner flow uid) (\<lambda>_. ret flow)))"

definition bff_get_flow :: "string \<Rightarrow> string \<Rightarrow> (flow_row \<times> step_row list) db" where
  "bff_get_flow flow_id uid =
     bindE (owned_flow flow_id uid) (\<lambda>flow.
     bindE (list_steps_for_flow flow_id) (\<lambda>steps. ret (flow, steps)))"

definition bff_list_flow_steps :: "string \<Rightarrow> string \<Rightarrow> step_row list db" where
  "bff_list_flow_steps flow_id uid =
     bindE (owned_flow flow_id uid) (\<lambda>_. list_steps_for_flow flow_id)"

definition owned_step :: "string \<Rightarrow> string \<Rightarrow> (step_row \<times> flow_row) db" where
  "owned_step step_id uid =
     bindE (get_step step_id) (\<lambda>found.
     bindE (lift_res (ok_or (not_found ''STEP_NOT_FOUND'' ''Step not found'') found)) (\<lambda>step.
     bindE (owned_flow (st_flow_id step) uid) (\<lambda>flow. ret (step, flow))))"

definition bff_get_step :: "string \<Rightarrow> string \<Rightarrow> step_row db" where
  "bff_get_step step_id uid = bindE (owned_step step_id uid) (\<lambda>(step, _). ret step)"

record add_flow_request =
  af_flow_type :: string
  af_human_id :: "string option"
  af_context :: "json option"
  af_initial_step :: "string option"

text \<open>\<open>add_flow_to_session\<close> up to the chain: the session, the created flow and the first step.\<close>

definition open_flow :: "server \<Rightarrow> string \<Rightarrow> string \<Rightarrow> add_flow_request \<Rightarrow> (session_row \<times> flow_row \<times> string) db" where
  "open_flow sv session_id uid body =
     bindE (ensure_session_owner session_id uid) (\<lambda>session.
     bindE (lift_res (flow_definition_for sv (af_flow_type body))) (\<lambda>fd.
     bindE (lift_res (validate_session_flow_compatibility sv session (df_flow_type fd))) (\<lambda>_.
     let initial_step = unwrap_or (df_initial_step fd) (af_initial_step body) in
     bindE (lift_res (ensure_flow_step_exists fd initial_step)) (\<lambda>_.
     bindE (flow_instance_id (sv_cuid sv)) (\<lambda>flow_id.
     bindE (lift_res (normalize_or_default_human_id (af_human_id body)
              (se_human_id session @ ''.'' @ df_human_id fd))) (\<lambda>human.
     bindE (create_flow \<lparr>fci_id = flow_id, fci_human_id = human, fci_session_id = session_id,
              fci_flow_type = af_flow_type body, fci_status = ''RUNNING'', fci_current_step = None,
              fci_step_ids = JArray [], fci_context = object_context (af_context body)\<rparr>) (\<lambda>created.
     bindE (update_session_status session_id ''RUNNING'' None) (\<lambda>_.
     ret (session, created, initial_step)))))))))"

definition add_flow_to_session :: "server \<Rightarrow> string \<Rightarrow> string \<Rightarrow> add_flow_request \<Rightarrow> flow_row run" where
  "add_flow_to_session sv session_id uid body =
     bindO (returns (open_flow sv session_id uid body)) (\<lambda>(session, created, initial_step).
     bindO (create_step_chain sv session created initial_step None) (\<lambda>advanced.
     bindO (returns (refresh_session_status session_id)) (\<lambda>_.
     returns (ret advanced))))"

definition verified :: json where
  "verified = JObject [(''verified'', JBool True)]"

definition verify_result :: "step_outcome \<Rightarrow> app_error + (json \<times> context_updates option \<times> string option)" where
  "verify_result outcome =
     (case outcome of
        Done output updates \<Rightarrow> Inr (unwrap_or verified output, updates, None)
      | Branched branch output updates \<Rightarrow> Inr (unwrap_or verified output, updates, Some branch)
      | Failed error _ \<Rightarrow> Inl (bad_request ''VERIFICATION_FAILED'' error)
      | _ \<Rightarrow> Inr (verified, None, None))"

definition verify_context :: "session_row \<Rightarrow> flow_row \<Rightarrow> step_row \<Rightarrow> json \<Rightarrow> step_context" where
  "verify_context session flow step input =
     \<lparr>cx_session_id = se_id session, cx_session_user_id = se_user_id session, cx_flow_id = fl_id flow,
      cx_step_id = st_id step, cx_input = input, cx_session_context = se_context session,
      cx_flow_context = fl_context flow, cx_services = runtime_services\<rparr>"

text \<open>
  \<open>submit_step\<close> up to the transition: the caller's step is found, its input validated and
  verified, its row completed and the flow's context stored. It returns the definition, the
  session, the completed step, the flow and the branch taken.
\<close>

definition complete_submission ::
    "server \<Rightarrow> session_row \<Rightarrow> flow_row \<Rightarrow> string \<Rightarrow> json \<Rightarrow> json \<Rightarrow> context_updates option \<Rightarrow> (step_row \<times> flow_row) db" where
  "complete_submission sv session flow step_id input output updates =
     (let context = (case Option.bind updates cu_flow_context_patch of
                       None \<Rightarrow> fl_context flow | Some patch \<Rightarrow> merged_json (fl_context flow) patch) in
      bindE (case updates of None \<Rightarrow> ret () | Some u \<Rightarrow> apply_context_updates sv session u) (\<lambda>_.
      bindE (gets w_clock) (\<lambda>now.
      bindE (patch_step step_id (patch_finished_at now (patch_clear_error (patch_output output
               (patch_input input (patch_status ''COMPLETED'' patch_new)))))) (\<lambda>updated_step.
      bindE (update_flow (fl_id flow)
               (no_flow_update\<lparr>fu_context := Some (store_step_output context (st_step_type updated_step) input)\<rparr>)) (\<lambda>flow'.
      ret (updated_step, flow'))))))"

definition accept_submission ::
    "server \<Rightarrow> string \<Rightarrow> string \<Rightarrow> json
      \<Rightarrow> (builtin dynamic_flow \<times> session_row \<times> step_row \<times> flow_row \<times> string option) db" where
  "accept_submission sv step_id uid input =
     bindE (owned_step step_id uid) (\<lambda>(step, flow).
     bindE (lift_res (flow_definition_for sv (fl_flow_type flow))) (\<lambda>fd.
     bindE (lift_res (step_definition_for fd (st_step_type step))) (\<lambda>sd.
     if ps_actor sd = System
     then throw (conflict ''SYSTEM_STEP_NOT_SUBMITTABLE'' ''System steps are executed automatically'')
     else
       bindE (lift_res (map_errR flow_error_to_http (proxy_validate_input (sv_steps sv) sd input))) (\<lambda>_.
       bindE (get_session (fl_session_id flow)) (\<lambda>found.
       bindE (lift_res (ok_or (not_found ''SESSION_NOT_FOUND'' ''Session not found'') found)) (\<lambda>session.
       bindE (map_errE flow_error_to_http
         (proxy_verify_input (sv_steps sv) sd (verify_context session flow step input) input)) (\<lambda>outcome.
       bindE (lift_res (verify_result outcome)) (\<lambda>(output, updates, branch).
       bindE (complete_submission sv session flow step_id input output updates) (\<lambda>(updated_step, flow').
       ret (fd, session, updated_step, flow', branch))))))))))"

definition submit_step :: "server \<Rightarrow> string \<Rightarrow> string \<Rightarrow> json \<Rightarrow> step_row run" where
  "submit_step sv step_id uid input =
     bindO (returns (accept_submission sv step_id uid input)) (\<lambda>(fd, session, updated_step, flow, branch).
     bindO (case resolve_transition fd (st_step_type updated_step) branch False of
              Some next_step \<Rightarrow>
                if has_flow_step fd next_step then create_step_chain sv session flow next_step None
                else returns (finalize_flow sv flow (terminal_status next_step))
            | None \<Rightarrow> returns (finalize_flow sv flow ''COMPLETED'')) (\<lambda>current_flow.
     bindO (returns (refresh_session_status (fl_session_id current_flow))) (\<lambda>_.
     returns (ret updated_step))))"

section \<open>Frames\<close>

text \<open>The flow tables, which steps, metadata and notifications leave alone.\<close>

definition flow_tables :: "world \<Rightarrow> session_row list \<times> flow_row list \<times> step_row list \<times> instant" where
  "flow_tables w = (w_sessions w, w_flows w, w_steps w, w_clock w)"

lemma step_view_flow_tables: "step_view cx w = step_view cx w' \<Longrightarrow> flow_tables w = flow_tables w'"
proof -
  assume "step_view cx w = step_view cx w'"
  then have "w\<lparr>w_users := [], w_next_id := 0\<rparr> = w'\<lparr>w_users := [], w_next_id := 0\<rparr>"
    by (simp add: step_view_def)
  then have "flow_tables (w\<lparr>w_users := [], w_next_id := 0\<rparr>) = flow_tables (w'\<lparr>w_users := [], w_next_id := 0\<rparr>)"
    by (rule arg_cong)
  then show ?thesis by (simp add: flow_tables_def)
qed

lemma proxy_keeps_flow_tables [frame_rules]:
  "keeps flow_tables (proxy_execute sx ps cx)" "keeps flow_tables (proxy_verify_input sx ps cx input)"
  unfolding proxy_execute_def proxy_verify_input_def
  by (rule keeps_weaken[OF exec_builtin_keeps step_view_flow_tables], assumption)
     (rule keeps_weaken[OF verify_builtin_keeps step_view_flow_tables], assumption)

lemma fold_patch_metadata_flow_tables:
  "flow_tables (fold (patch_metadata_key uid eo) kvs w) = flow_tables w"
  by (induction kvs arbitrary: w)
     (auto simp: patch_metadata_key_def flow_tables_def put_user_data_def Let_def split: prod.splits)

lemma side_writes_keep [frame_rules]:
  "keeps flow_tables (update_metadata uid patch eager)" "keeps flow_tables (notify sv n)"
  "keeps flow_tables (flow_step_id cuid)" "keeps flow_tables (flow_instance_id cuid)"
  "keeps flow_tables (flow_session_id cuid)"
  by (auto intro!: keepsI simp: update_metadata_def fold_patch_metadata_flow_tables notify_def
        flow_step_id_def flow_instance_id_def flow_session_id_def prefixed_def split: option.split)
     (simp_all add: flow_tables_def modify_user_def)

lemma service_reads_keep [frame_rules]:
  "keeps v (get_session i)" "keeps v (get_flow_row i)" "keeps v (get_step i)"
  "keeps v (list_flows_for_session i)" "keeps v (list_steps_for_flow i)"
  by (simp_all add: get_session_def get_flow_row_def get_step_def list_flows_for_session_def
      list_steps_for_flow_def frame_rules)

lemma metadata_writes_keep [frame_rules]:
  "keeps flow_tables (update_user_metadata_of session u)" "keeps flow_tables (write_completed_kyc_metadata sv flow)"
  unfolding update_user_metadata_of_def write_completed_kyc_metadata_def
  by (auto intro!: frame_rules split: option.split)

section \<open>The schema invariant\<close>

lemma flow_tables_ok: "flow_tables w = flow_tables w' \<Longrightarrow> tables_ok w = tables_ok w'"
  by (simp add: flow_tables_def tables_ok_def)

lemmas side_preserve = keeps_preserves[OF _ flow_tables_ok]

lemma repo_preserves [inv_rules]:
  "preserves tables_ok (create_session i)" "preserves tables_ok (create_flow j)" "preserves tables_ok (create_step k)"
  "preserves tables_ok (update_session_status a b c)" "preserves tables_ok (update_session_context a d)"
  "preserves tables_ok (update_flow a u)" "preserves tables_ok (patch_step a p)"
  using run_op_tables_ok[of _ "CreateSession i"] run_op_tables_ok[of _ "CreateFlow j"]
    run_op_tables_ok[of _ "CreateStep k"] run_op_tables_ok[of _ "SessionStatus a b c"]
    run_op_tables_ok[of _ "SessionContext a d"] run_op_tables_ok[of _ "UpdateFlow a u"]
    run_op_tables_ok[of _ "PatchStep a p"]
  by (simp_all add: preserves_def)

lemma side_preserves [inv_rules]:
  "preserves tables_ok (update_user_metadata_of session u)" "preserves tables_ok (write_completed_kyc_metadata sv flow)"
  "preserves tables_ok (notify sv n)" "preserves tables_ok (flow_step_id cuid)"
  "preserves tables_ok (flow_instance_id cuid)" "preserves tables_ok (flow_session_id cuid)"
  "preserves tables_ok (proxy_execute sx ps cx)" "preserves tables_ok (proxy_verify_input sx ps cx input)"
  by (rule side_preserve, rule frame_rules, assumption)+

lemma reads_preserve [inv_rules]:
  "preserves I (get_session i)" "preserves I (get_flow_row i)" "preserves I (get_step i)"
  "preserves I (list_flows_for_session i)" "preserves I (list_steps_for_flow i)"
  by (simp_all add: get_session_def get_flow_row_def get_step_def list_flows_for_session_def
      list_steps_for_flow_def inv_rules)

lemma helpers_preserve [inv_rules]:
  "preserves tables_ok (apply_context_updates sv session u)" "preserves tables_ok (refresh_session_status sid)"
  unfolding apply_context_updates_def refresh_session_status_def by (intro inv_rules)+

lemma flow_helpers_preserve [inv_rules]:
  "preserves tables_ok (finalize_flow sv flow status)"
  "preserves tables_ok (handle_completed_step sv session flow created step_type input output updates)"
  "preserves tables_ok (enter_step sv flow sd async step_type pending)"
  unfolding finalize_flow_def handle_completed_step_def enter_step_def by (intro inv_rules)+

lemma follow_preserves [inv_rules]: "preserves tables_ok (follow sv fd flow target status)"
  unfolding follow_def by (intro inv_rules)

lemma chain_outcome_preserves [inv_rules]:
  "preserves tables_ok (chain_outcome sv session fd flow created step_type input outcome)"
  unfolding chain_outcome_def by (cases outcome) (auto intro!: inv_rules)

lemma chain_round_preserves [inv_rules]: "preserves tables_ok (chain_round sv session flow step_type pending)"
  unfolding chain_round_def by (intro inv_rules)

lemma create_step_chain_preserves:
  assumes "create_step_chain sv session flow step_type pending w = Some y" "tables_ok w"
  shows "tables_ok (snd y)"
proof -
  have "tables_ok w \<longrightarrow> tables_ok (snd y)"
  proof (rule create_step_chain.raw_induct[where P = "\<lambda>_ _ _ _ _ w y. tables_ok w \<longrightarrow> tables_ok (snd y)", OF _ assms(1)])
    fix chain sv session flow step_type pending w y
    assume IH: "\<And>sv session flow step_type pending w y. chain sv session flow step_type pending w = Some y \<Longrightarrow>
        tables_ok w \<longrightarrow> tables_ok (snd y)"
      and run: "(case chain_round sv session flow step_type pending w of
          (Inl e, w') \<Rightarrow> Some (Inl e, w') | (Inr (ChainReturn f), w') \<Rightarrow> Some (Inr f, w')
        | (Inr (ChainContinue f t), w') \<Rightarrow> chain sv session f t None w') = Some y"
    obtain r w1 where round: "chain_round sv session flow step_type pending w = (r, w1)" by fastforce
    have "tables_ok w \<Longrightarrow> tables_ok w1" using preservesD[OF chain_round_preserves round] .
    with run round show "tables_ok w \<longrightarrow> tables_ok (snd y)"
      by (auto split: sum.splits chain_result.splits dest: IH)
  qed
  with assms(2) show ?thesis by simp
qed

text \<open>Programs that may not return.\<close>

definition run_preserves :: "(world \<Rightarrow> bool) \<Rightarrow> 'a run \<Rightarrow> bool" where
  "run_preserves I m \<longleftrightarrow> (\<forall>w y. m w = Some y \<longrightarrow> I w \<longrightarrow> I (snd y))"

lemma run_preserves_rules [inv_rules]:
  "preserves I p \<Longrightarrow> run_preserves I (returns p)"
  "run_preserves I m \<Longrightarrow> (\<And>a. run_preserves I (k a)) \<Longrightarrow> run_preserves I (bindO m k)"
  "run_preserves I m \<Longrightarrow> run_preserves I n \<Longrightarrow> run_preserves I (if b then m else n)"
  "run_preserves I m \<Longrightarrow> (\<And>x. run_preserves I (j x)) \<Longrightarrow> run_preserves I (case v of None \<Rightarrow> m | Some x \<Rightarrow> j x)"
  "(\<And>x y. run_preserves I (h x y)) \<Longrightarrow> run_preserves I (case z of (x, y) \<Rightarrow> h x y)"
  unfolding run_preserves_def
  by (auto simp: preserves_def returns_def bindO_def split: option.splits prod.splits sum.splits)

lemma chain_run_preserves [inv_rules]: "run_preserves tables_ok (create_step_chain sv session flow t pending)"
  by (auto simp: run_preserves_def dest: create_step_chain_preserves)

lemma owners_preserve [inv_rules]:
  "preserves I (ensure_session_owner sid uid)" "preserves I (owned_flow fid uid)" "preserves I (owned_step tid uid)"
  unfolding ensure_session_owner_def owned_flow_def owned_step_def ensure_flow_owner_def by (intro inv_rules)+

lemma handlers_preserve [inv_rules]:
  "preserves tables_ok (bff_create_session sv uid csr)" "preserves tables_ok (open_flow sv sid uid afr)"
  "preserves tables_ok (complete_submission sv session flow tid input output updates)"
  unfolding bff_create_session_def open_flow_def complete_submission_def by (intro inv_rules)+

lemma accept_submission_preserves [inv_rules]: "preserves tables_ok (accept_submission sv tid uid input)"
  unfolding accept_submission_def by (intro inv_rules)

lemma mutators_preserve:
  "run_preserves tables_ok (add_flow_to_session sv sid uid afr)"
  "run_preserves tables_ok (submit_step sv tid uid input)"
  unfolding add_flow_to_session_def submit_step_def by (intro inv_rules)+

section \<open>Termination of the chain\<close>

definition flow_type_of :: "string \<Rightarrow> world \<Rightarrow> string option" where
  "flow_type_of i w = map_option fl_flow_type (flow_of i w)"

text \<open>What bounds the chain: the type of its flow, and the number of step rows.\<close>

definition chain_view :: "string \<Rightarrow> world \<Rightarrow> string option \<times> nat" where
  "chain_view i w = (flow_type_of i w, length (w_steps w))"

lemma flow_tables_chain_view: "flow_tables w = flow_tables w' \<Longrightarrow> chain_view i w = chain_view i w'"
  by (simp add: flow_tables_def chain_view_def flow_type_of_def flow_of_def)

lemmas side_chain_view = keeps_weaken[OF _ flow_tables_chain_view]

lemma writes_keep_chain_view [frame_rules]:
  "keeps (chain_view i) (update_session_status a b c)" "keeps (chain_view i) (update_session_context a d)"
  "keeps (chain_view i) (update_flow k u)" "keeps (chain_view i) (patch_step a p)"
proof -
  have type: "fl_flow_type (set_flow_columns u r) = fl_flow_type r" for u r
    by (simp add: set_flow_columns_def)
  then have flow: "map_option fl_flow_type (flow_of i (modify_flow k (set_flow_columns u) w))
      = map_option fl_flow_type (flow_of i w)" for u w
    by (simp add: flw.get_modify option.map_comp comp_def)
  then show "keeps (chain_view i) (update_flow k u)"
    by (intro keepsI) (simp add: update_flow_def Let_def chain_view_def flow_type_of_def modify_flow_def split: option.split)
  show "keeps (chain_view i) (patch_step a p)"
    by (intro keepsI) (simp add: patch_step_def Let_def chain_view_def flow_type_of_def flow_of_def modify_step_def
        update_where_def split: option.split)
qed (auto intro!: keepsI simp: update_session_status_def update_session_context_def chain_view_def
       flow_type_of_def flow_of_def modify_session_def)

lemma side_keep_chain_view [frame_rules]:
  "keeps (chain_view i) (update_user_metadata_of session u)" "keeps (chain_view i) (write_completed_kyc_metadata sv flow)"
  "keeps (chain_view i) (notify sv n)" "keeps (chain_view i) (flow_step_id cuid)"
  "keeps (chain_view i) (proxy_execute sx ps cx)" "keeps (chain_view i) (proxy_verify_input sx ps cx input)"
  by (rule side_chain_view, rule frame_rules, assumption)+

lemma helpers_keep_chain_view [frame_rules]:
  "keeps (chain_view i) (apply_context_updates sv session u)" "keeps (chain_view i) (refresh_session_status sid)"
  unfolding apply_context_updates_def refresh_session_status_def by (intro frame_rules)+

lemma chain_helpers_keep_chain_view [frame_rules]:
  "keeps (chain_view i) (finalize_flow sv flow status)"
  "keeps (chain_view i) (handle_completed_step sv session flow created step_type input output updates)"
  unfolding finalize_flow_def handle_completed_step_def by (intro frame_rules)+

lemma follow_keeps_chain_view [frame_rules]: "keeps (chain_view i) (follow sv fd flow target status)"
  unfolding follow_def by (intro frame_rules)

lemma chain_outcome_keeps_chain_view [frame_rules]:
  "keeps (chain_view i) (chain_outcome sv session fd flow created step_type input outcome)"
  unfolding chain_outcome_def by (cases outcome) (auto intro!: frame_rules)

lemma update_flow_result:
  assumes "update_flow i u w = (Inr f, w')"
  shows "fl_id f = i" "flow_type_of i w = Some (fl_flow_type f)" "flow_type_of i w' = Some (fl_flow_type f)"
proof -
  from update_flow_read_back[OF assms] have f: "flow_of i w' = Some f" by simp
  then show "fl_id f = i" "flow_type_of i w' = Some (fl_flow_type f)"
    by (auto simp: flow_type_of_def dest: flw.get_key)
  then show "flow_type_of i w = Some (fl_flow_type f)"
    using keepsD[OF writes_keep_chain_view(3) assms, of i] by (simp add: chain_view_def)
qed

lemma follow_continue: "follow sv fd flow target status w = (Inr (ChainContinue f t), w') \<longleftrightarrow>
    target = Some t \<and> has_flow_step fd t \<and> f = flow \<and> w' = w"
  by (auto simp: follow_def bindE_def split: option.splits prod.splits sum.splits)

lemma handle_completed_result:
  assumes "handle_completed_step sv session flow created t input output updates w = (Inr f, w')"
  shows "fl_id f = fl_id flow" "flow_type_of (fl_id flow) w' = Some (fl_flow_type f)"
  using assms by (auto simp: handle_completed_step_def Let_def bindE_Inr_iff dest: update_flow_result)

lemma chain_outcome_continue:
  assumes "chain_outcome sv session fd flow created t input outcome w = (Inr (ChainContinue f t'), w')"
    and "flow_type_of (fl_id flow) w = Some (fl_flow_type flow)"
  shows "\<exists>branch failed. resolve_transition fd t branch failed = Some t'" "has_flow_step fd t'"
    "fl_id f = fl_id flow" "fl_flow_type f = fl_flow_type flow"
proof -
  have kept: "flow_type_of (fl_id flow) w' = Some (fl_flow_type flow)"
    using keepsD[OF chain_outcome_keeps_chain_view assms(1), of "fl_id flow"] assms(2) by (simp add: chain_view_def)
  from assms(1) have "(\<exists>branch failed. resolve_transition fd t branch failed = Some t') \<and> has_flow_step fd t'
      \<and> fl_id f = fl_id flow \<and> (f = flow \<or> flow_type_of (fl_id flow) w' = Some (fl_flow_type f))"
    by (cases outcome)
       (auto simp: chain_outcome_def bindE_Inr_iff follow_continue dest: handle_completed_result)
  with kept show "\<exists>branch failed. resolve_transition fd t branch failed = Some t'" "has_flow_step fd t'"
    "fl_id f = fl_id flow" "fl_flow_type f = fl_flow_type flow" by auto
qed

text \<open>How many step rows a program adds.\<close>

definition grows :: "nat \<Rightarrow> (world, 'e, 'a) sem \<Rightarrow> bool" where
  "grows n m \<longleftrightarrow> (\<forall>w. length (w_steps (snd (m w))) \<le> length (w_steps w) + n)"

lemma grows_bindE:
  assumes "grows a m" "\<And>x. grows b (k x)"
  shows "grows (a + b) (bindE m k)"
  unfolding grows_def
proof
  fix w
  obtain r w1 where m: "m w = (r, w1)" by fastforce
  have first: "length (w_steps w1) \<le> length (w_steps w) + a"
    using assms(1) m unfolding grows_def by (metis snd_conv)
  show "length (w_steps (snd (bindE m k w))) \<le> length (w_steps w) + (a + b)"
  proof (cases r)
    case (Inr x)
    have "length (w_steps (snd (k x w1))) \<le> length (w_steps w1) + b"
      using assms(2)[of x] by (simp add: grows_def)
    with first m Inr show ?thesis by (simp add: bindE_def)
  qed (use first m in \<open>simp add: bindE_def\<close>)
qed

lemma grows_keeps: "keeps (chain_view i) m \<Longrightarrow> grows 0 m"
  by (simp add: grows_def keeps_def chain_view_def)

lemma grows_bind0: "keeps (chain_view i) m \<Longrightarrow> (\<And>x. grows b (k x)) \<Longrightarrow> grows b (bindE m k)"
  by (rule grows_bindE[of 0 m b k, simplified]) (rule grows_keeps)

lemma grows_bind1: "grows b m \<Longrightarrow> (\<And>x. keeps (chain_view i) (k x)) \<Longrightarrow> grows b (bindE m k)"
  by (rule grows_bindE[of b m 0 k, simplified]) (auto intro: grows_keeps)

lemma create_step_grows: "grows 1 (create_step i)"
  unfolding grows_def
proof
  show "length (w_steps (snd (create_step i w))) \<le> length (w_steps w) + 1" for w
    using create_step_cases[of i w] by (auto simp: add_step_def)
qed

lemma create_step_flow_type: "keeps (flow_type_of i) (create_step j)"
  unfolding keeps_def flow_type_of_def using create_step_cases[of j]
  by (metis table_frames(8))

lemma enter_step_grows: "grows 1 (enter_step sv flow sd async t pending)"
  unfolding enter_step_def Let_def
  by (intro grows_bind0[OF keeps_basic(3)] grows_bind0[OF keeps_basic(4)] grows_bind0[OF service_reads_keep(5)]
      grows_bind0[OF side_keep_chain_view(4)] grows_bind1[OF create_step_grows] frame_rules)

lemma chain_view_flow_type: "keeps (chain_view i) m \<Longrightarrow> keeps (flow_type_of i) m"
  by (simp add: keeps_def chain_view_def)

lemma enter_step_flow_type: "keeps (flow_type_of i) (enter_step sv flow sd async t pending)"
  unfolding enter_step_def
  by (intro keeps_bindE keeps_Let keeps_basic create_step_flow_type chain_view_flow_type service_reads_keep
      side_keep_chain_view(4) writes_keep_chain_view(3))

lemma enter_step_result:
  assumes "enter_step sv flow sd async t pending w = (Inr (step_id, created, f), w')"
  shows "fl_id f = fl_id flow" "flow_type_of (fl_id flow) w' = Some (fl_flow_type f)"
  using assms by (auto simp: enter_step_def Let_def bindE_Inr_iff dest: update_flow_result)

text \<open>A transition that the chain takes by itself, out of a synchronous system step.\<close>

definition sync_edge :: "server \<Rightarrow> string \<Rightarrow> string \<Rightarrow> string \<Rightarrow> bool" where
  "sync_edge sv flow_type t t' \<longleftrightarrow>
     (\<exists>fd sd branch failed. get_flow (sv_registry sv) flow_type = Some fd
        \<and> List.find (\<lambda>s. ps_step_type s = t) (df_steps fd) = Some sd \<and> ps_actor sd = System
        \<and> \<not> runs_async sv flow_type sd t \<and> resolve_transition fd t branch failed = Some t' \<and> has_flow_step fd t')"

lemma chain_round_grows: "grows 1 (chain_round sv session flow t pending)"
  unfolding chain_round_def Let_def
  by (intro grows_bind0[OF keeps_basic(3)] grows_bind1[OF enter_step_grows]) (intro frame_rules)

lemma chain_round_flow_type: "keeps (flow_type_of i) (chain_round sv session flow t pending)"
  unfolding chain_round_def
  by (intro keeps_bindE keeps_Let keeps_basic enter_step_flow_type keeps_case_prod keeps_if keeps_map_errE
      chain_view_flow_type[OF side_keep_chain_view(5)] chain_view_flow_type[OF chain_outcome_keeps_chain_view])

lemma chain_round_continue:
  assumes "chain_round sv session flow t pending w = (Inr (ChainContinue f t'), w')"
    and "flow_type_of (fl_id flow) w = Some (fl_flow_type flow)"
  shows "sync_edge sv (fl_flow_type flow) t t'" "fl_id f = fl_id flow" "fl_flow_type f = fl_flow_type flow"
proof -
  from assms(1) obtain fd sd step_id created f1 w1 outcome w2
    where fd: "get_flow (sv_registry sv) (fl_flow_type flow) = Some fd"
      and sd: "List.find (\<lambda>s. ps_step_type s = t) (df_steps fd) = Some sd" "ps_actor sd = System"
        "\<not> runs_async sv (fl_flow_type flow) sd t"
      and enter: "enter_step sv flow sd False t pending w = (Inr (step_id, created, f1), w1)"
      and exec: "proxy_execute (sv_steps sv) sd
        (chain_context session f1 step_id (unwrap_or (JObject []) pending)) w1 = (Inr outcome, w2)"
      and out: "chain_outcome sv session fd f1 created t (unwrap_or (JObject []) pending) outcome w2
        = (Inr (ChainContinue f t'), w')"
    by (auto simp: chain_round_def Let_def bindE_Inr_iff flow_definition_for_def step_definition_for_def
        split: if_splits)
  have f1: "fl_id f1 = fl_id flow" "fl_flow_type f1 = fl_flow_type flow"
    using enter_step_result[OF enter] keepsD[OF enter_step_flow_type enter, of "fl_id flow"] assms(2) by simp_all
  have "flow_type_of (fl_id f1) w2 = Some (fl_flow_type f1)"
    using keepsD[OF chain_view_flow_type[OF side_keep_chain_view(5)] exec, of "fl_id flow"]
      enter_step_result[OF enter] f1 by simp
  from chain_outcome_continue[OF out this] f1 fd sd
  show "sync_edge sv (fl_flow_type flow) t t'" "fl_id f = fl_id flow" "fl_flow_type f = fl_flow_type flow"
    by (auto simp: sync_edge_def)
qed

lemma chain_terminates:
  assumes "\<And>t t'. sync_edge sv (fl_flow_type flow) t t' \<Longrightarrow> rank t' < rank t"
    and "flow_type_of (fl_id flow) w = Some (fl_flow_type flow)"
  shows "\<exists>r w'. create_step_chain sv session flow t pending w = Some (r, w')
    \<and> length (w_steps w') \<le> length (w_steps w) + Suc (rank t)"
  using assms
proof (induction "rank t" arbitrary: flow t pending w rule: less_induct)
  case less
  obtain res w1 where round: "chain_round sv session flow t pending w = (res, w1)" by fastforce
  have one: "length (w_steps w1) \<le> Suc (length (w_steps w))"
    using chain_round_grows[of sv session flow t pending] round unfolding grows_def by (metis Suc_eq_plus1 snd_conv)
  show ?case
  proof (cases "\<exists>f t'. res = Inr (ChainContinue f t')")
    case True
    then obtain f t' where res: "res = Inr (ChainContinue f t')" by blast
    note cont = chain_round_continue[OF round[unfolded res] less.prems(2)]
    have "flow_type_of (fl_id f) w1 = Some (fl_flow_type f)"
      using keepsD[OF chain_round_flow_type round, of "fl_id flow"] cont less.prems(2) by simp
    moreover have "rank t' < rank t" using cont(1) by (rule less.prems(1))
    ultimately obtain r w' where "create_step_chain sv session f t' None w1 = Some (r, w')"
        "length (w_steps w') \<le> length (w_steps w1) + Suc (rank t')"
      using less.hyps[of t' f w1 None] less.prems(1) cont(3) by auto
    with round res one \<open>rank t' < rank t\<close> show ?thesis
      by (subst create_step_chain.simps) auto
  next
    case False
    with round one show ?thesis
      by (subst create_step_chain.simps) (auto split: sum.split chain_result.split)
  qed
qed

end
