(* ===== verification/Executor.thy ===== *)
theory Executor
  imports Service
begin

text \<open>
  The executor of system steps (\<open>backend-server/src/flows/executor.rs\<close>) and the polling loop of
  the worker that drives it (\<open>run\<close> of \<open>backend-server/src/worker.rs\<close>). A claimed step is executed
  once; its outcome completes it and moves the flow on, keeps it waiting, schedules a retry or
  fails it.
\<close>

section \<open>Ends of flows\<close>

definition is_terminal_step :: "string \<Rightarrow> bool" where
  "is_terminal_step step_type \<longleftrightarrow>
     eq_ignore_ascii_case step_type ''FAILED'' \<or> eq_ignore_ascii_case step_type ''END''
     \<or> eq_ignore_ascii_case step_type ''COMPLETE'' \<or> eq_ignore_ascii_case step_type ''COMPLETED''
     \<or> eq_ignore_ascii_case step_type ''CLOSED''"

definition terminal_status_for :: "string \<Rightarrow> string" where
  "terminal_status_for step_type =
     (if eq_ignore_ascii_case step_type ''FAILED'' then ''FAILED''
      else if eq_ignore_ascii_case step_type ''CLOSED'' then ''CLOSED''
      else ''COMPLETED'')"

definition exec_write_completed_kyc :: "server \<Rightarrow> flow_row \<Rightarrow> unit db" where
  "exec_write_completed_kyc sv flow =
     bindE (get_session (fl_session_id flow)) (\<lambda>found.
       case found of
         None \<Rightarrow> ret ()
       | Some session \<Rightarrow>
           (case se_user_id session of
              None \<Rightarrow> ret ()
            | Some uid \<Rightarrow>
                bindE (gets w_clock) (\<lambda>now.
                update_metadata uid
                  (JObject [(''kyc'', JObject [(se_session_type session, JObject [(fl_flow_type flow, JObject
                     [(''completed'', JBool True), (''completed_at'', JString (sv_rfc3339 sv now)),
                      (''flow_id'', JString (fl_id flow)), (''session_id'', JString (se_id session))])])])])
                  (Some (JObject [(''kyc'', JBool False)])))))"

definition exec_finalize_flow :: "server \<Rightarrow> string \<Rightarrow> string option \<Rightarrow> string \<Rightarrow> unit db" where
  "exec_finalize_flow sv flow_id session_id status =
     bindE (get_flow_row flow_id) (\<lambda>found.
     bindE (lift_res (ok_or (internal ''FLOW_NOT_FOUND'' ''Flow not found'') found)) (\<lambda>flow.
     bindE (update_flow flow_id (no_flow_update\<lparr>fu_status := Some status, fu_current_step := Some None\<rparr>)) (\<lambda>_.
     bindE (if eq_ignore_ascii_case status ''COMPLETED'' then exec_write_completed_kyc sv flow else ret ()) (\<lambda>_.
       case session_id of
         None \<Rightarrow> ret ()
       | Some sid \<Rightarrow> bindE (gets w_clock) (\<lambda>now. update_session_status sid status (Some now))))))"

section \<open>The next step\<close>

definition push_step_id :: "json \<Rightarrow> string \<Rightarrow> json" where
  "push_step_id step_ids step_id =
     (case as_array step_ids of None \<Rightarrow> step_ids | Some xs \<Rightarrow> JArray (xs @ [JString step_id]))"

definition next_human_suffix :: "string \<Rightarrow> nat \<Rightarrow> string" where
  "next_human_suffix step_type n = (if n = 0 then step_type else step_type @ ''-'' @ show_nat n)"

definition next_step_human_id :: "string \<Rightarrow> string \<Rightarrow> nat \<Rightarrow> app_error + string" where
  "next_step_human_id flow_human_id step_type n =
     bindR (map_errR (\<lambda>e. internal ''INVALID_FLOW_HUMAN_ID'' (flow_error_display e)) (hid_parse flow_human_id)) (\<lambda>h.
     map_errR (\<lambda>e. internal ''INVALID_STEP_HUMAN_ID'' (flow_error_display e))
       (hid_with_suffix h (next_human_suffix step_type n)))"

definition advance_to_next_step ::
    "server \<Rightarrow> flow_row \<Rightarrow> session_row \<Rightarrow> step_row \<Rightarrow> builtin dynamic_flow \<Rightarrow> json \<Rightarrow> string option \<Rightarrow> bool \<Rightarrow> unit db" where
  "advance_to_next_step sv flow session step fd next_flow_context branch failed =
     (case resolve_transition fd (st_step_type step) branch failed of
        Some next_step_type \<Rightarrow>
          if \<not> is_terminal_step next_step_type then
            bindE (lift_res (ok_or (internal ''NEXT_STEP_NOT_FOUND'' (''Next step not found: '' @ next_step_type))
                     (List.find (\<lambda>s. ps_step_type s = next_step_type) (df_steps fd)))) (\<lambda>sd.
            bindE (list_steps_for_flow (fl_id flow)) (\<lambda>existing.
            bindE (lift_res (next_step_human_id (fl_human_id flow) next_step_type
                     (attempts_of next_step_type existing))) (\<lambda>human.
            bindE (flow_step_id (sv_cuid sv)) (\<lambda>step_id.
            bindE (gets w_clock) (\<lambda>now.
            bindE (create_step
              \<lparr>tci_id = step_id, tci_human_id = human, tci_flow_id = fl_id flow, tci_step_type = next_step_type,
               tci_actor = actor_label (ps_actor sd), tci_status = ''WAITING'', tci_attempt_no = 1,
               tci_input = None, tci_output = None, tci_error = None,
               tci_next_retry_at = (if ps_actor sd = System then Some now else None), tci_finished_at = None\<rparr>) (\<lambda>created.
            bindE (update_flow (fl_id flow)
              \<lparr>fu_status = Some ''RUNNING'', fu_current_step = Some (Some next_step_type),
               fu_step_ids = Some (push_step_id (fl_step_ids flow) (st_id created)),
               fu_context = Some next_flow_context\<rparr>) (\<lambda>_. ret ())))))))
          else exec_finalize_flow sv (fl_id flow) (Some (se_id session)) (terminal_status_for next_step_type)
      | None \<Rightarrow>
          exec_finalize_flow sv (fl_id flow) (Some (se_id session)) (if failed then ''FAILED'' else ''COMPLETED''))"

section \<open>Outcomes\<close>

text \<open>
  The updates of a step: the flow context is patched in place, the session context is the one
  read before the step ran.
\<close>

definition apply_updates :: "server \<Rightarrow> session_row \<Rightarrow> json \<Rightarrow> context_updates \<Rightarrow> json db" where
  "apply_updates sv session next_flow_context u =
     (let patched = (case cu_flow_context_patch u of
                       None \<Rightarrow> next_flow_context | Some patch \<Rightarrow> merge_json_value next_flow_context patch) in
      bindE (case cu_session_context_patch u of
               None \<Rightarrow> ret ()
             | Some patch \<Rightarrow> update_session_context (se_id session) (merge_json_value (se_context session) patch)) (\<lambda>_.
      bindE (case (cu_user_metadata_patch u, se_user_id session) of
               (Some patch, Some uid) \<Rightarrow> update_metadata uid patch (cu_user_metadata_eager_patch u)
             | _ \<Rightarrow> ret ()) (\<lambda>_.
      bindE (forE (notify sv) (unwrap_or [] (cu_notifications u))) (\<lambda>_.
      ret patched))))"

text \<open>The output of a step goes below \<open>step_output\<close>, unless something else than an object is there.\<close>

definition put_step_output :: "json \<Rightarrow> string \<Rightarrow> json \<Rightarrow> json" where
  "put_step_output context step_type output =
     (case as_object context of
        None \<Rightarrow> context
      | Some entries \<Rightarrow>
          (case unwrap_or (JObject []) (map_of entries ''step_output'') of
             JObject step_map \<Rightarrow>
               JObject (obj_insert ''step_output'' (JObject (obj_insert step_type output step_map)) entries)
           | _ \<Rightarrow> context))"

definition handle_done ::
    "server \<Rightarrow> step_row \<Rightarrow> flow_row \<Rightarrow> session_row \<Rightarrow> json option \<Rightarrow> context_updates option
      \<Rightarrow> builtin dynamic_flow \<Rightarrow> string option \<Rightarrow> unit db" where
  "handle_done sv step flow session output updates fd branch =
     (let actual_output = unwrap_or result_done output in
      bindE (gets w_clock) (\<lambda>now.
      bindE (patch_step (st_id step) (patch_finished_at now (patch_clear_error (patch_output actual_output
               (patch_status ''COMPLETED'' patch_new))))) (\<lambda>_.
      let stored = put_step_output (fl_context flow) (st_step_type step) actual_output in
      bindE (case updates of None \<Rightarrow> ret stored | Some u \<Rightarrow> apply_updates sv session stored u) (\<lambda>next_flow_context.
      advance_to_next_step sv flow session step fd next_flow_context branch False))))"

definition schedule_retry :: "string \<Rightarrow> i32 \<Rightarrow> nat \<Rightarrow> unit db" where
  "schedule_retry step_id next_attempt delay_ms =
     bindE (gets w_clock) (\<lambda>now.
     bindE (lift_res (after_delay 1 delay_ms now)) (\<lambda>next_retry_at.
     bindE (patch_step step_id (patch_next_retry_at next_retry_at (patch_attempt_no next_attempt
              (patch_status ''WAITING'' patch_new)))) (\<lambda>_. ret ())))"

definition handle_failed ::
    "server \<Rightarrow> step_row \<Rightarrow> flow_row \<Rightarrow> session_row \<Rightarrow> string \<Rightarrow> bool \<Rightarrow> retry_config \<Rightarrow> unit db" where
  "handle_failed sv step flow session error retryable rc =
     (if retryable \<and> sint (st_attempt_no step) < rc_max rc
      then schedule_retry (st_id step) (st_attempt_no step + 1) (rc_delay_ms rc)
      else
        bindE (gets w_clock) (\<lambda>now.
        bindE (patch_step (st_id step) (patch_finished_at now (patch_error
                 (JObject [(''attempts'', jint (sint (st_attempt_no step))), (''error'', JString error),
                    (''retryable'', JBool retryable)])
                 (patch_status ''FAILED'' patch_new)))) (\<lambda>_.
        bindE (lift_res (ok_or (internal ''UNKNOWN_FLOW_TYPE'' ''Flow not found'')
                 (get_flow (sv_registry sv) (fl_flow_type flow)))) (\<lambda>fd.
        advance_to_next_step sv flow session step fd (fl_context flow) None True))))"

definition handle_retry :: "server \<Rightarrow> step_row \<Rightarrow> flow_row \<Rightarrow> nat \<Rightarrow> retry_config \<Rightarrow> unit db" where
  "handle_retry sv step flow after rc =
     (if sint (st_attempt_no step) < rc_max rc
      then schedule_retry (st_id step) (st_attempt_no step + 1) (max after (rc_delay_ms rc))
      else
        bindE (gets w_clock) (\<lambda>now.
        bindE (patch_step (st_id step) (patch_finished_at now (patch_error
                 (JObject [(''attempts'', jint (sint (st_attempt_no step))),
                    (''error'', JString ''max_retries_exceeded'')])
                 (patch_status ''FAILED'' patch_new)))) (\<lambda>_.
        exec_finalize_flow sv (fl_id flow) None ''FAILED'')))"

section \<open>One step\<close>

fun step_execution_error :: "flow_error \<Rightarrow> app_error" where
  "step_execution_error (StepPanic p) = Panic p"
| "step_execution_error e = internal ''STEP_EXECUTION_FAILED'' (flow_error_display e)"

definition retry_config_for :: "server \<Rightarrow> string \<Rightarrow> string \<Rightarrow> retry_config" where
  "retry_config_for sv flow_type step_type =
     unwrap_or default_retry_config
       (map_option (\<lambda>fd. get_step_retry_config fd step_type) (get_flow_definition (sv_registry sv) flow_type))"

definition exec_context :: "session_row \<Rightarrow> flow_row \<Rightarrow> step_row \<Rightarrow> step_context" where
  "exec_context session flow step =
     \<lparr>cx_session_id = se_id session, cx_session_user_id = se_user_id session, cx_flow_id = fl_id flow,
      cx_step_id = st_id step, cx_input = unwrap_or (JObject []) (st_input step),
      cx_session_context = se_context session, cx_flow_context = fl_context flow, cx_services = runtime_services\<rparr>"

definition handle_outcome ::
    "server \<Rightarrow> step_row \<Rightarrow> flow_row \<Rightarrow> session_row \<Rightarrow> builtin dynamic_flow \<Rightarrow> retry_config \<Rightarrow> step_outcome \<Rightarrow> unit db" where
  "handle_outcome sv step flow session fd rc outcome =
     (case outcome of
        Done output updates \<Rightarrow> handle_done sv step flow session output updates fd None
      | Branched branch output updates \<Rightarrow> handle_done sv step flow session output updates fd (Some branch)
      | Waiting _ \<Rightarrow> bindE (patch_step (st_id step) (patch_status ''WAITING'' patch_new)) (\<lambda>_. ret ())
      | Failed error retryable \<Rightarrow> handle_failed sv step flow session error retryable rc
      | Retry after \<Rightarrow> handle_retry sv step flow after rc)"

definition process_flow_step :: "server \<Rightarrow> step_row \<Rightarrow> unit db" where
  "process_flow_step sv step =
     bindE (get_flow_row (st_flow_id step)) (\<lambda>found_flow.
     bindE (lift_res (ok_or (internal ''FLOW_NOT_FOUND'' ''Flow not found for step'') found_flow)) (\<lambda>flow.
     bindE (get_session (fl_session_id flow)) (\<lambda>found_session.
     bindE (lift_res (ok_or (internal ''SESSION_NOT_FOUND'' ''Session not found for flow'') found_session)) (\<lambda>session.
     bindE (lift_res (ok_or (internal ''UNKNOWN_FLOW_TYPE'' (''Unknown flow type: '' @ fl_flow_type flow))
              (get_flow (sv_registry sv) (fl_flow_type flow)))) (\<lambda>fd.
     let rc = retry_config_for sv (fl_flow_type flow) (st_step_type step) in
     bindE (lift_res (ok_or (internal ''UNKNOWN_STEP_TYPE'' (''Unknown step type: '' @ st_step_type step))
              (List.find (\<lambda>s. ps_step_type s = st_step_type step) (df_steps fd)))) (\<lambda>sd.
     bindE (map_errE step_execution_error
              (proxy_execute (sv_steps sv) sd (exec_context session flow step))) (\<lambda>outcome.
     handle_outcome sv step flow session fd rc outcome)))))))"

text \<open>
  One turn of the worker's loop: the claimed step, if any. An error of the executor is logged and
  the loop goes on; a panic ends it.
\<close>

definition log_error :: "unit db \<Rightarrow> unit db" where
  "log_error m w = (case m w of (Inl (Panic p), w') \<Rightarrow> (Inl (Panic p), w') | (_, w') \<Rightarrow> (Inr (), w'))"

definition worker_turn :: "server \<Rightarrow> step_row option db" where
  "worker_turn sv =
     bindE claim_next_system_step (\<lambda>maybe_step.
       case maybe_step of
         None \<Rightarrow> ret None
       | Some step \<Rightarrow> bindE (log_error (process_flow_step sv step)) (\<lambda>_. ret (Some step)))"

section \<open>The schema invariant\<close>

lemma exec_write_completed_kyc_eq: "exec_write_completed_kyc sv flow = write_completed_kyc_metadata sv flow"
  unfolding exec_write_completed_kyc_def write_completed_kyc_metadata_def completed_kyc_entry_def by (rule refl)

lemma update_metadata_preserves [inv_rules]: "preserves tables_ok (update_metadata uid patch eager)"
  by (rule side_preserve[OF side_writes_keep(1)])

lemma executor_helpers_preserve [inv_rules]:
  "preserves tables_ok (exec_finalize_flow sv fid sid status)" "preserves tables_ok (apply_updates sv session c u)"
  "preserves tables_ok (schedule_retry tid n ms)"
  unfolding exec_finalize_flow_def apply_updates_def schedule_retry_def exec_write_completed_kyc_eq
  by (intro inv_rules)+

lemma advance_preserves [inv_rules]:
  "preserves tables_ok (advance_to_next_step sv flow session step fd c branch failed)"
  unfolding advance_to_next_step_def by (intro inv_rules)

lemma outcomes_preserve [inv_rules]:
  "preserves tables_ok (handle_done sv step flow session output updates fd branch)"
  "preserves tables_ok (handle_failed sv step flow session e retryable rc)"
  "preserves tables_ok (handle_retry sv step flow after rc)"
  unfolding handle_done_def handle_failed_def handle_retry_def by (intro inv_rules)+

lemma process_preserves [inv_rules]: "preserves tables_ok (process_flow_step sv step)"
proof -
  have "preserves tables_ok (handle_outcome sv step flow session fd rc outcome)" for flow session fd rc outcome
    unfolding handle_outcome_def by (cases outcome) (auto intro!: inv_rules)
  then show ?thesis unfolding process_flow_step_def by (intro inv_rules)
qed

lemma log_error_snd: "snd (log_error m w) = snd (m w)"
  by (auto simp: log_error_def split: prod.split sum.split app_error.split)

lemma log_error_preserves [inv_rules]: "preserves I m \<Longrightarrow> preserves I (log_error m)"
  by (simp add: preserves_def log_error_snd)

lemma claim_preserves [inv_rules]: "preserves tables_ok claim_next_system_step"
  using run_op_tables_ok[of _ ClaimStep] by (simp add: preserves_def)

lemma worker_turn_preserves: "preserves tables_ok (worker_turn sv)"
  unfolding worker_turn_def by (intro inv_rules)

section \<open>What a step execution does to the step rows\<close>

text \<open>
  An execution touches the rows of the step table in two ways only: it patches the row of its
  step, with an attempt number that the retry configuration bounds, and it creates rows of first
  attempts. An invariant of the step table that both keep is kept by the executor.
\<close>

definition steps_view :: "world \<Rightarrow> step_row list \<times> instant" where
  "steps_view w = (w_steps w, w_clock w)"

locale step_invariant =
  fixes I :: "world \<Rightarrow> bool" and tid :: string and bound :: int
  assumes view: "steps_view w = steps_view w' \<Longrightarrow> I w = I w'"
    and create: "tci_attempt_no i = 1 \<Longrightarrow> preserves I (create_step i)"
    and patch: "(\<And>n. pa_attempt_no p = Some n \<Longrightarrow> sint n \<le> bound) \<Longrightarrow> preserves I (patch_step tid p)"
begin

lemma kept: "keeps steps_view m \<Longrightarrow> preserves I m"
  by (erule keeps_preserves[of steps_view]) (rule view)

lemma side: "keeps flow_tables m \<Longrightarrow> preserves I m"
  by (rule keeps_preserves[of flow_tables]) (auto intro!: view simp: flow_tables_def steps_view_def)

lemma table_writes:
  "preserves I (update_session_status a b c)" "preserves I (update_session_context a d)" "preserves I (update_flow a u)"
  by (rule kept, rule keepsI, simp add: steps_view_def update_session_status_def update_session_context_def
      update_flow_def modify_session_def modify_flow_def Let_def split: option.split)+

lemma patch_plain: "pa_attempt_no p = None \<Longrightarrow> preserves I (patch_step tid p)"
  by (rule patch) simp

lemma finalize: "preserves I (exec_finalize_flow sv fid sid status)"
  unfolding exec_finalize_flow_def exec_write_completed_kyc_eq
  by (intro inv_rules table_writes side frame_rules)

lemma updates: "preserves I (apply_updates sv session c u)"
  unfolding apply_updates_def by (intro inv_rules table_writes side frame_rules)

lemma advance: "preserves I (advance_to_next_step sv flow session step fd c branch failed)"
  unfolding advance_to_next_step_def
  by (intro inv_rules table_writes finalize create side_writes_keep[THEN side]) simp

lemma retry: "sint n \<le> bound \<Longrightarrow> preserves I (schedule_retry tid n ms)"
  unfolding schedule_retry_def
  by (intro inv_rules patch) (simp add: patch_next_retry_at_def patch_attempt_no_def patch_status_def)

lemmas plain = patch_new_def patch_status_def patch_output_def patch_error_def patch_clear_error_def
  patch_finished_at_def

lemma done_outcome:
  assumes id: "st_id step = tid"
  shows "preserves I (handle_done sv step flow session output updates fd branch)"
  unfolding handle_done_def id by (intro inv_rules advance updates patch_plain) (simp add: plain)

end

lemma next_attempt:
  assumes "sint (n :: i32) < m" "m < 2 ^ 31"
  shows "sint (n + 1) = sint n + 1"
proof -
  have "sint (word_of_int (sint n + 1) :: i32) = sint n + 1"
    using assms sint32_range[of n] by (intro sint32_word_of_int) auto
  then show ?thesis by simp
qed

context step_invariant
begin

lemma scheduled:
  assumes "rc_max rc \<le> bound" "bound < 2 ^ 31" "sint (st_attempt_no step) < rc_max rc"
  shows "preserves I (schedule_retry tid (st_attempt_no step + 1) ms)"
  by (rule retry) (use assms next_attempt[OF assms(3)] in simp)

lemma failed_outcome:
  assumes "st_id step = tid" "rc_max rc \<le> bound" "bound < 2 ^ 31"
  shows "preserves I (handle_failed sv step flow session e retryable rc)"
    "preserves I (handle_retry sv step flow after rc)"
proof -
  show "preserves I (handle_failed sv step flow session e retryable rc)"
    unfolding handle_failed_def
    by (cases "retryable \<and> sint (st_attempt_no step) < rc_max rc")
       (auto intro!: inv_rules advance patch_plain scheduled[OF assms(2,3)] simp: assms(1) plain)
  show "preserves I (handle_retry sv step flow after rc)"
    unfolding handle_retry_def
    by (cases "sint (st_attempt_no step) < rc_max rc")
       (auto intro!: inv_rules finalize patch_plain scheduled[OF assms(2,3)] simp: assms(1) plain)
qed

lemma processed:
  assumes "st_id step = tid" "\<And>ft. rc_max (retry_config_for sv ft (st_step_type step)) \<le> bound" "bound < 2 ^ 31"
  shows "preserves I (process_flow_step sv step)"
proof -
  have "preserves I (handle_outcome sv step flow session fd (retry_config_for sv ft (st_step_type step)) outcome)"
    for flow session fd ft outcome
    unfolding handle_outcome_def
    by (cases outcome)
       (auto intro!: inv_rules done_outcome failed_outcome[OF _ _ assms(3)] patch_plain simp: assms(1,2) plain)
  then show ?thesis
    unfolding process_flow_step_def Let_def by (intro inv_rules side[OF proxy_keeps_flow_tables(1)])
qed

end

section \<open>Attempts\<close>

definition attempts_within :: "int \<Rightarrow> world \<Rightarrow> bool" where
  "attempts_within bound w \<longleftrightarrow> (\<forall>r\<in>set (w_steps w). sint (st_attempt_no r) \<le> bound)"

lemma ball_update_where:
  "(\<forall>x\<in>set (update_where p f xs). Q x) \<longleftrightarrow> (\<forall>y\<in>set xs. Q (if p y then f y else y))"
  by (auto simp: update_where_def)

lemma step_of_member: "step_of i w = Some r \<Longrightarrow> r \<in> set (w_steps w)"
  by (auto simp: step_of_def dest: select_first_Some)

lemma patch_step_snd:
  "snd (patch_step i p w) = (case step_of i w of None \<Rightarrow> w
     | Some r \<Rightarrow> modify_step i (set_step_columns (apply_step_patch (w_clock w) p r)) w)"
  by (simp add: patch_step_def Let_def split: option.split)

interpretation att: step_invariant "attempts_within (max 1 m)" tid "max 1 m" for tid m
proof
  show "attempts_within (max 1 m) w = attempts_within (max 1 m) w'" if "steps_view w = steps_view w'" for w w'
    using that by (simp add: steps_view_def attempts_within_def)
  show "preserves (attempts_within (max 1 m)) (create_step i)" if "tci_attempt_no i = 1" for i
  proof (rule preservesI)
    show "attempts_within (max 1 m) (snd (create_step i w))" if "attempts_within (max 1 m) w" for w
      using create_step_cases[of i w] that \<open>tci_attempt_no i = 1\<close>
      by (auto simp: attempts_within_def add_step_def new_step_row_def)
  qed
  show "preserves (attempts_within (max 1 m)) (patch_step tid p)"
    if small: "\<And>n. pa_attempt_no p = Some n \<Longrightarrow> sint n \<le> max 1 m" for p
  proof (rule preservesI)
    show "attempts_within (max 1 m) (snd (patch_step tid p w))" if w: "attempts_within (max 1 m) w" for w
    proof (cases "step_of tid w")
      case (Some r)
      then have "sint (st_attempt_no r) \<le> max 1 m" using w step_of_member by (auto simp: attempts_within_def)
      with small have "sint (unwrap_or (st_attempt_no r) (pa_attempt_no p)) \<le> max 1 m"
        by (cases "pa_attempt_no p") (simp_all add: unwrap_or_def)
      with Some w show ?thesis
        by (simp add: patch_step_snd attempts_within_def modify_step_def ball_update_where set_step_columns_def
            apply_step_patch_def)
    qed (use w in \<open>simp add: patch_step_snd\<close>)
  qed
qed

section \<open>The worker's turns\<close>

text \<open>
  The loop of \<open>run\<close>, as far as a list of delays goes: the time each turn takes, counted beyond the
  one unit that separates two turns. It yields the claimed steps, and whether the loop is still
  running.
\<close>

definition time_passes :: "nat \<Rightarrow> world \<Rightarrow> world" where
  "time_passes n w = w\<lparr>w_clock := w_clock w + 1 + int n\<rparr>"

fun worker_run :: "server \<Rightarrow> nat list \<Rightarrow> world \<Rightarrow> string list \<times> bool \<times> world" where
  "worker_run sv [] w = ([], True, w)"
| "worker_run sv (n # ns) w =
     (case worker_turn sv w of
        (Inl _, w') \<Rightarrow> ([], False, w')
      | (Inr maybe_step, w') \<Rightarrow>
          (case worker_run sv ns (time_passes n w') of
             (claimed, alive, w'') \<Rightarrow> ((case maybe_step of None \<Rightarrow> [] | Some r \<Rightarrow> [st_id r]) @ claimed, alive, w'')))"

lemma worker_turn_cases:
  assumes "worker_turn sv w = (res, w')"
  obtains "res = Inr None" "claim_next_system_step w = (Inr None, w)" "w' = w"
  | r w1 where "claim_next_system_step w = (Inr (Some r), w1)" "w' = snd (process_flow_step sv r w1)"
      "res = Inr (Some r) \<or> (\<exists>p. res = Inl (Panic p))"
proof -
  obtain c w1 where claim: "claim_next_system_step w = (c, w1)" by fastforce
  consider "c = Inr None" | r where "c = Inr (Some r)" using claim claim_total(1) by (cases c) auto
  then show thesis
  proof cases
    case 1
    with claim claim_total(2) assms show ?thesis by (auto simp: worker_turn_def bindE_def intro!: that(1))
  next
    case 2
    with claim assms show ?thesis
      by (intro that(2)[of r w1])
         (auto simp: worker_turn_def bindE_def log_error_def split: prod.splits sum.splits app_error.splits)
  qed
qed

lemma claim_attempts: "attempts_within b w \<Longrightarrow> attempts_within b (snd (claim_next_system_step w))"
  by (simp add: claim_next_system_step_def attempts_within_def modify_step_def ball_update_where Let_def
      split: list.split)

lemma worker_turn_attempts:
  assumes "\<And>ft t. rc_max (retry_config_for sv ft t) \<le> m" "m < 2 ^ 31" "attempts_within (max 1 m) w"
  shows "attempts_within (max 1 m) (snd (worker_turn sv w))"
proof -
  obtain res w' where turn: "worker_turn sv w = (res, w')" by fastforce
  then have "attempts_within (max 1 m) w'"
  proof (cases rule: worker_turn_cases)
    case (2 r w1)
    have "preserves (attempts_within (max 1 m)) (process_flow_step sv r)"
      using assms(1,2) by (intro att.processed[OF refl]) (auto intro: max.coboundedI2)
    then show ?thesis
      using claim_attempts[OF assms(3)] 2(1,2) by (simp add: preserves_def)
  qed (use assms(3) in simp)
  with turn show ?thesis by simp
qed

section \<open>Fairness\<close>

text \<open>
  What an execution leaves of the past: the rows last updated before the current instant stay as
  they are, and the row of the step is not among them.
\<close>

definition settled :: "string \<Rightarrow> instant \<Rightarrow> step_row list \<Rightarrow> world \<Rightarrow> bool" where
  "settled tid now past w \<longleftrightarrow> w_clock w = now \<and> filter (\<lambda>r. st_updated_at r < now) (w_steps w) = past
     \<and> (\<forall>r\<in>set (w_steps w). st_id r = tid \<longrightarrow> now \<le> st_updated_at r)"

interpretation past: step_invariant "settled tid now L" tid m for tid now L m
proof
  show "settled tid now L w = settled tid now L w'" if "steps_view w = steps_view w'" for w w'
    using that by (simp add: steps_view_def settled_def)
  show "preserves (settled tid now L) (create_step i)" if "tci_attempt_no i = 1" for i
  proof (rule preservesI)
    show "settled tid now L (snd (create_step i w))" if "settled tid now L w" for w
      using create_step_cases[of i w] that by (auto simp: settled_def add_step_def new_step_row_def)
  qed
  show "preserves (settled tid now L) (patch_step tid p)" for p
  proof (rule preservesI)
    show "settled tid now L (snd (patch_step tid p w))" if "settled tid now L w" for w
    proof -
      let ?f = "\<lambda>r0. set_step_columns (apply_step_patch now p r0)"
      have upd: "st_updated_at (?f r0 r) = now" for r0 r
        by (simp add: set_step_columns_def apply_step_patch_def)
      have "filter (\<lambda>r. st_updated_at r < now) (update_where (\<lambda>r. st_id r = tid) (?f r0) (w_steps w))
          = filter (\<lambda>r. st_updated_at r < now) (w_steps w)" for r0
        using that by (intro filter_update_where) (auto simp: upd settled_def)
      with that upd show ?thesis
        by (simp add: patch_step_snd settled_def modify_step_def ball_update_where split: option.split)
    qed
  qed
qed

text \<open>One turn of the worker, seen by a step that is due and was last updated in the past.\<close>

definition not_newer :: "step_row \<Rightarrow> world \<Rightarrow> nat" where
  "not_newer r w = length (filter (\<lambda>q. st_updated_at q \<le> st_updated_at r) (w_steps w))"

lemma claim_settled:
  assumes "claim_next_system_step w = (Inr (Some c), w1)"
  shows "settled (st_id c) (w_clock w)
    (filter (\<lambda>q. st_updated_at q < w_clock w) (filter (\<lambda>q. st_id q \<noteq> st_id c) (w_steps w))) w1"
proof -
  obtain r0 where r0: "c = r0\<lparr>st_status := ''RUNNING'', st_updated_at := w_clock w\<rparr>"
    and w1: "w1 = modify_step (st_id r0) (\<lambda>x. x\<lparr>st_status := ''RUNNING'', st_updated_at := w_clock w\<rparr>) w"
    by (rule claim_some[OF assms])
  from r0 have c: "st_id c = st_id r0" by simp
  have "filter (\<lambda>q. st_updated_at q < now)
      (update_where (\<lambda>r. st_id r = i) (\<lambda>x. x\<lparr>st_status := s, st_updated_at := now\<rparr>) xs)
    = filter (\<lambda>q. st_updated_at q < now) (filter (\<lambda>q. st_id q \<noteq> i) xs)" for xs now i s
    by (induction xs) (auto simp: update_where_def)
  then show ?thesis
    unfolding settled_def c w1 by (simp add: modify_step_def ball_update_where)
qed

lemma turn_past:
  assumes "claim_next_system_step w = (Inr (Some c), w1)" "w' = snd (process_flow_step sv c w1)"
    and "\<And>ft t. rc_max (retry_config_for sv ft t) < 2 ^ 31"
  shows "settled (st_id c) (w_clock w)
    (filter (\<lambda>q. st_updated_at q < w_clock w) (filter (\<lambda>q. st_id q \<noteq> st_id c) (w_steps w))) w'"
proof -
  have "preserves (settled (st_id c) now L) (process_flow_step sv c)" for now L
    using assms(3)[of _ "st_step_type c"]
    by (intro past.processed[where m = "2 ^ 31 - 1", OF refl]) (simp_all add: zle_diff1_eq[symmetric])
  with claim_settled[OF assms(1)] assms(2) show ?thesis by (simp add: preserves_def)
qed

lemma filter_below: "(\<And>x. q x \<Longrightarrow> p x) \<Longrightarrow> filter q (filter p xs) = filter q xs"
  by (induction xs) auto

lemma turn_leaves_due:
  assumes "tables_ok w" "r \<in> set (w_steps w)" "claimable (w_clock w) r" "st_updated_at r < w_clock w"
    and "worker_turn sv w = (Inr c, w')" "c = None \<or> (\<exists>q. c = Some q \<and> st_id q \<noteq> st_id r)"
    and "\<And>ft t. rc_max (retry_config_for sv ft t) < 2 ^ 31"
  shows "r \<in> set (w_steps w')" "w_clock w' = w_clock w" "not_newer r w' < not_newer r w"
proof -
  from assms(5) obtain q w1 where claim: "claim_next_system_step w = (Inr (Some q), w1)"
    and w': "w' = snd (process_flow_step sv q w1)" and c: "c = Some q"
    by (cases rule: worker_turn_cases) (use assms(2,3) claim_total(2) in auto)
  with assms(6) have q: "st_id q \<noteq> st_id r" by auto
  let ?past = "filter (\<lambda>x. st_updated_at x < w_clock w) (filter (\<lambda>x. st_id x \<noteq> st_id q) (w_steps w))"
  have settled: "w_clock w' = w_clock w" "filter (\<lambda>x. st_updated_at x < w_clock w) (w_steps w') = ?past"
    using turn_past[OF claim w' assms(7)] by (simp_all add: settled_def)
  show "w_clock w' = w_clock w" by (fact settled)
  have "r \<in> set ?past" using assms(2,4) q by simp
  then show "r \<in> set (w_steps w')" unfolding settled(2)[symmetric] by simp
  from claim obtain r0 where r0: "r0 \<in> set (w_steps w)" "st_updated_at r0 \<le> st_updated_at r" "st_id r0 = st_id q"
    using assms(2,3) by (auto elim!: claim_some)
  let ?le = "\<lambda>x. st_updated_at x \<le> st_updated_at r"
  have "not_newer r w' = length (filter ?le ?past)"
    unfolding not_newer_def settled(2)[symmetric] using assms(4) by (subst filter_below) auto
  also have "\<dots> = length (filter (\<lambda>x. st_id x \<noteq> st_id q) (filter ?le (w_steps w)))"
    using assms(4) by (subst filter_below) (auto simp: conj_commute)
  also have "\<dots> < not_newer r w"
    unfolding not_newer_def using r0 by (intro length_filter_less[of r0]) auto
  finally show "not_newer r w' < not_newer r w" .
qed

lemma due_step_claimed:
  assumes "tables_ok w" "r \<in> set (w_steps w)" "claimable (w_clock w) r" "st_updated_at r < w_clock w"
    and "\<And>ft t. rc_max (retry_config_for sv ft t) < 2 ^ 31"
    and "worker_run sv ns w = (claimed, True, w')" "not_newer r w \<le> length ns"
  shows "st_id r \<in> set claimed"
  using assms
proof (induction ns arbitrary: w claimed w')
  case Nil
  then have "filter (\<lambda>q. st_updated_at q \<le> st_updated_at r) (w_steps w) = []" by (simp add: not_newer_def)
  with Nil(2) have False by (auto simp: filter_empty_conv dest!: bspec)
  then show ?case ..
next
  case (Cons n ns)
  from Cons.prems(6) obtain c w1 rest where turn: "worker_turn sv w = (Inr c, w1)"
    and rest: "worker_run sv ns (time_passes n w1) = (rest, True, w')"
    and claimed: "claimed = (case c of None \<Rightarrow> [] | Some q \<Rightarrow> [st_id q]) @ rest"
    by (auto split: prod.splits sum.splits)
  show ?case
  proof (cases "c = None \<or> (\<exists>q. c = Some q \<and> st_id q \<noteq> st_id r)")
    case True
    note due = turn_leaves_due[OF Cons.prems(1-4) turn True Cons.prems(5)]
    have "tables_ok w1" using preservesD[OF worker_turn_preserves turn Cons.prems(1)] .
    then have "tables_ok (time_passes n w1)" by (simp add: tables_ok_def time_passes_def)
    moreover have "claimable (w_clock (time_passes n w1)) r"
      using Cons.prems(3) due(2) by (auto simp: claimable_def time_passes_def split: option.splits)
    moreover have "not_newer r (time_passes n w1) \<le> length ns"
      using due(3) Cons.prems(7) by (simp add: not_newer_def time_passes_def)
    ultimately have "st_id r \<in> set rest"
      using due(1,2) Cons.prems(4) by (intro Cons.IH[OF _ _ _ _ Cons.prems(5) rest]) (simp_all add: time_passes_def)
    with claimed show ?thesis by simp
  next
    case False
    then obtain q where "c = Some q" "st_id q = st_id r" by (cases c) auto
    with claimed show ?thesis by simp
  qed
qed

lemma worker_run_invariant:
  assumes "\<And>ft t. rc_max (retry_config_for sv ft t) \<le> m" "m < 2 ^ 31"
    and "tables_ok w" "attempts_within (max 1 m) w" "worker_run sv ns w = (claimed, alive, w')"
  shows "tables_ok w' \<and> attempts_within (max 1 m) w'"
  using assms(3-5)
proof (induction ns arbitrary: w claimed)
  case (Cons n ns)
  obtain res w1 where turn: "worker_turn sv w = (res, w1)" by fastforce
  have ok: "tables_ok w1" "attempts_within (max 1 m) w1"
    using preservesD[OF worker_turn_preserves turn Cons.prems(1)]
      worker_turn_attempts[OF assms(1,2) Cons.prems(2)] turn by simp_all
  then have later: "tables_ok (time_passes n w1)" "attempts_within (max 1 m) (time_passes n w1)"
    by (simp_all add: tables_ok_def attempts_within_def time_passes_def)
  show ?case
  proof (cases res)
    case (Inr c)
    with Cons.prems(3) turn obtain rest where "worker_run sv ns (time_passes n w1) = (rest, alive, w')"
      by (auto split: prod.splits)
    then show ?thesis using Cons.IH later by blast
  qed (use Cons.prems(3) turn ok in simp)
qed simp

end
