(* ===== verification/Service_Props.thy ===== *)
theory Service_Props
  imports Service
begin

text \<open>
  The properties of the flow service: who may read and change what, the state of a session, the
  outputs of steps, the schema invariant and the termination of the step chain.
\<close>

section \<open>Lemmas\<close>

lemma map_errE_ok [simp]: "m w = (Inr a, w') \<Longrightarrow> map_errE f m w = (Inr a, w')"
  by (simp add: map_errE_def)

lemma bindO_error: "m w = Some (Inl e, w') \<Longrightarrow> bindO m k w = Some (Inl e, w')"
  by (simp add: bindO_def)

lemma bindO_Some_Inr: "bindO m k w = Some (Inr b, w2) \<longleftrightarrow>
    (\<exists>a w1. m w = Some (Inr a, w1) \<and> k a w1 = Some (Inr b, w2))"
  by (auto simp: bindO_def split: option.splits prod.splits sum.splits)

lemma owned_flow_foreign:
  assumes "flow_of fid w = Some f" "session_of (fl_session_id f) w = Some s" "se_user_id s \<noteq> Some uid"
  shows "owned_flow fid uid w = (Inl (unauthorized ''Flow does not belong to caller''), w)"
  using assms by (simp add: owned_flow_def ensure_flow_owner_def get_flow_row_def get_session_def bindE_def)

lemma ensure_session_owner_foreign:
  assumes "session_of sid w = Some s" "se_user_id s \<noteq> Some uid"
  shows "ensure_session_owner sid uid w = (Inl (unauthorized ''Session does not belong to caller''), w)"
  using assms by (simp add: ensure_session_owner_def get_session_def bindE_def)

lemma open_flow_existing:
  assumes "open_flow sv sid uid body w = (Inr (session, created, initial), w')"
    and "tables_ok w" "f \<in> set (w_flows w)" "af_human_id body = Some (fl_human_id f)"
  shows "created = f" "w_flows w' = w_flows w" "tables_ok w'"
proof -
  have find: "select_first (\<lambda>r. fl_human_id r = fl_human_id f) (w_flows w) = Some f"
    using assms(2,3) by (intro distinct_key_find) (simp_all add: tables_ok_def)
  show "created = f" "w_flows w' = w_flows w"
    using assms(1,3,4) find
    by (auto simp: open_flow_def Let_def bindE_Inr_iff ensure_session_owner_def get_session_def flow_instance_id_def
        prefixed_def bindR_Inr_iff normalize_or_default_human_id_def unwrap_or_def create_flow_def insert_unique_def
        flow_clash_def new_flow_row_def update_session_status_def modify_session_def
        split: if_splits option.splits)
  show "tables_ok w'" using preservesD[OF handlers_preserve(2) assms(1,2)] .
qed

text \<open>A step that is not the system's ends the chain in its first round.\<close>

lemma chain_stops:
  assumes "create_step_chain sv session flow t pending w = Some (Inr f, w')"
    and "flow_definition_for sv (fl_flow_type flow) = Inr fd" "step_definition_for fd t = Inr sd" "ps_actor sd \<noteq> System"
  shows "\<exists>step_id created. enter_step sv flow sd False t pending w = (Inr (step_id, created, f), w')"
  using assms
  by (subst (asm) create_step_chain.simps)
     (auto simp: chain_round_def Let_def runs_async_def bindE_def split: prod.splits sum.splits)

lemma enter_step_flow:
  assumes "enter_step sv flow sd async t pending w = (Inr (step_id, created, f), w')"
    and "flow_of (fl_id flow) w = Some f0"
  shows "fl_id f = fl_id flow" "fl_current_step f = Some t" "fl_status f = ''RUNNING''" "fl_context f = fl_context f0"
    "flow_of (fl_id flow) w' = Some f"
proof -
  from assms(1) obtain w1 u where run: "update_flow (fl_id flow) u w1 = (Inr f, w')"
    and u: "fu_current_step u = Some (Some t)" "fu_status u = Some ''RUNNING''" "fu_context u = None"
    and w1: "flow_of (fl_id flow) w1 = flow_of (fl_id flow) w"
  proof -
    from assms(1) obtain i created' w0 w1 where
      draw: "flow_step_id (sv_cuid sv) w = (Inr step_id, w0)" and create: "create_step i w0 = (Inr created', w1)"
      and run: "update_flow (fl_id flow) (no_flow_update\<lparr>fu_status := Some ''RUNNING'',
         fu_current_step := Some (Some t), fu_step_ids := Some (append_step_id (fl_step_ids flow) (st_id created'))\<rparr>) w1
         = (Inr f, w')"
      by (auto simp: enter_step_def Let_def bindE_Inr_iff list_steps_for_flow_def)
    have "flow_of (fl_id flow) w0 = flow_of (fl_id flow) w"
      using keepsD[OF side_writes_keep(3) draw] by (simp add: flow_tables_def flow_of_def)
    with create_step_cases[of i w0] create have "flow_of (fl_id flow) w1 = flow_of (fl_id flow) w" by auto
    then show thesis by (intro that[OF run]) (simp_all add: no_flow_update_def)
  qed
  have "f = apply_flow_update (w_clock w1) u f0"
    using update_flow_reads[of "fl_id flow" w1 f0 u] run w1 assms(2) by simp
  then show "fl_current_step f = Some t" "fl_status f = ''RUNNING''" "fl_context f = fl_context f0"
    using u by (simp_all add: apply_flow_update_def unwrap_or_def)
  show "fl_id f = fl_id flow" using update_flow_result(1)[OF run] .
  show "flow_of (fl_id flow) w' = Some f" using update_flow_read_back(1)[OF run] .
qed

lemma refresh_keeps_flows: "keeps w_flows (refresh_session_status sid)"
  unfolding refresh_session_status_def
  by (intro frame_rules keepsI) (simp_all add: update_session_status_def modify_session_def)

text \<open>The order of flow states in the state of a session.\<close>

definition status_rank :: "string \<Rightarrow> nat" where
  "status_rank s = (if s = ''RUNNING'' then 3 else if s = ''FAILED'' then 2 else if s = ''CLOSED'' then 1 else 0)"

definition flow_statuses :: "string set" where
  "flow_statuses = {''RUNNING'', ''FAILED'', ''CLOSED'', ''COMPLETED''}"

lemma status_compare:
  "s \<in> flow_statuses \<Longrightarrow> s' \<in> flow_statuses \<Longrightarrow> eq_ignore_ascii_case s s' \<longleftrightarrow> s = s'"
  by (auto simp: flow_statuses_def eq_ignore_ascii_case_def to_ascii_lowercase_def ascii_lower_def)

lemma any_status_iff:
  "\<forall>f\<in>set flows. fl_status f \<in> flow_statuses \<Longrightarrow> s \<in> flow_statuses \<Longrightarrow>
   any_status s flows \<longleftrightarrow> s \<in> fl_status ` set flows"
  unfolding any_status_def by (auto simp: status_compare)

lemma four_cases:
  assumes "S \<subseteq> {r, f, c, d}" "S \<noteq> {}"
  obtains "r \<in> S" | "r \<notin> S" "f \<in> S" | "S \<subseteq> {d, c}" "c \<in> S" | "S = {d}"
proof -
  consider "r \<in> S" | "r \<notin> S" "f \<in> S" | "r \<notin> S" "f \<notin> S" "c \<in> S" | "r \<notin> S" "f \<notin> S" "c \<notin> S" by blast
  then show thesis
  proof cases
    case 3
    with assms(1) have "S \<subseteq> {d, c}" by blast
    with 3 show ?thesis using that(3) by blast
  next
    case 4
    with assms have "S = {d}" by blast
    then show ?thesis by (rule that(4))
  qed (use that in blast)+
qed

lemma refresh_writes:
  assumes "\<forall>f\<in>set (flows_of_session sid w). fl_status f \<in> flow_statuses" "flows_of_session sid w \<noteq> []"
  obtains s where "s \<in> fl_status ` set (flows_of_session sid w)"
    "\<forall>f\<in>set (flows_of_session sid w). status_rank (fl_status f) \<le> status_rank s"
    "refresh_session_status sid w
      = update_session_status sid s (if s = ''RUNNING'' then None else Some (w_clock w)) w"
proof -
  let ?F = "flows_of_session sid w" and ?S = "fl_status ` set (flows_of_session sid w)"
  note any = any_status_iff[OF assms(1)]
  have sub: "?S \<subseteq> flow_statuses" "?S \<noteq> {}" using assms by auto
  have all: "(\<forall>f\<in>set ?F. eq_ignore_ascii_case (fl_status f) ''COMPLETED'' \<or> eq_ignore_ascii_case (fl_status f) ''CLOSED'')
      \<longleftrightarrow> ?S \<subseteq> {''COMPLETED'', ''CLOSED''}"
    using assms(1) by (auto simp: status_compare flow_statuses_def)
  have run: "refresh_session_status sid w =
      (if ''RUNNING'' \<in> ?S then update_session_status sid ''RUNNING'' None w
       else if ''FAILED'' \<in> ?S then update_session_status sid ''FAILED'' (Some (w_clock w)) w
       else if ?S \<subseteq> {''COMPLETED'', ''CLOSED''}
       then update_session_status sid (if ''CLOSED'' \<in> ?S then ''CLOSED'' else ''COMPLETED'') (Some (w_clock w)) w
       else update_session_status sid ''OPEN'' None w)"
    using assms(2) unfolding all[symmetric]
    by (auto simp: refresh_session_status_def list_flows_for_session_def any flow_statuses_def)
  consider "''RUNNING'' \<in> ?S" | "''RUNNING'' \<notin> ?S" "''FAILED'' \<in> ?S"
    | "?S \<subseteq> {''COMPLETED'', ''CLOSED''}" "''CLOSED'' \<in> ?S" | "?S = {''COMPLETED''}"
    using sub unfolding flow_statuses_def by (rule four_cases)
  then show thesis
  proof cases
    case 1
    with run show ?thesis by (intro that[of "''RUNNING''"]) (auto simp: status_rank_def)
  next
    case 2
    then have "\<forall>f\<in>set ?F. fl_status f \<noteq> ''RUNNING''" by (metis image_eqI)
    with run 2 show ?thesis by (intro that[of "''FAILED''"]) (auto simp: status_rank_def)
  next
    case 3
    have "''RUNNING'' \<notin> ?S" "''FAILED'' \<notin> ?S" using 3(1) by auto
    with run 3 have r: "refresh_session_status sid w = update_session_status sid ''CLOSED'' (Some (w_clock w)) w"
      by simp
    have "\<forall>s\<in>?S. status_rank s \<le> 1" using 3(1) by (auto simp: status_rank_def)
    then have "\<forall>f\<in>set ?F. status_rank (fl_status f) \<le> status_rank ''CLOSED''" by (simp add: status_rank_def)
    with 3(2) r show ?thesis by (intro that[of "''CLOSED''"]) simp_all
  next
    case 4
    from run have r: "refresh_session_status sid w = update_session_status sid ''COMPLETED'' (Some (w_clock w)) w"
      unfolding 4 by simp
    have "\<forall>s\<in>?S. status_rank s = 0" unfolding 4 by (simp add: status_rank_def)
    then have "\<forall>f\<in>set ?F. status_rank (fl_status f) \<le> status_rank ''COMPLETED''" by simp
    moreover have "''COMPLETED'' \<in> ?S" unfolding 4 by simp
    ultimately show ?thesis using r by (intro that[of "''COMPLETED''"]) simp_all
  qed
qed

text \<open>The approval of a document, as the review step verifies it.\<close>

definition approval :: json where
  "approval = JObject [(''approved'', JBool True)]"

lemma suffix_differs: "length y \<le> length x \<Longrightarrow> last x \<noteq> last y \<Longrightarrow> x \<noteq> (y :: string)"
  by auto

lemma verify_review_approval:
  assumes "ps_inner sd = ReviewDocumentAction"
    and "parse_step_config (de_review (sx_kyc sx)) default_review (context_with_config sd cx) = Inr c"
  obtains out u m where "proxy_verify_input sx sd cx approval w = (Inr (Done (Some out) (Some u)), w)"
    "cu_session_context_patch u = None" "cu_notifications u = None" "cu_user_metadata_patch u = Some (JObject m)"
    "distinct (map fst m)" "map_of m ''kyc_status'' = Some (JString ''VERIFIED'')"
proof -
  let ?key = "kx_to_lowercase (sx_kyc sx) (rv_document_type c) @ ''_verified_at''"
  let ?m = "obj_insert ?key (JString (kx_rfc3339 (sx_kyc sx) (w_clock w))) [(''kyc_status'', JString ''VERIFIED'')]"
  have key: "?key \<noteq> ''kyc_status''" by (rule suffix_differs) simp_all
  have "keys_sorted [(''kyc_status'', JString ''VERIFIED'')]" by (simp add: keys_sorted_Cons)
  then have "distinct (map fst ?m)" by (intro keys_sorted_distinct keys_sorted_insert)
  moreover have "map_of ?m ''kyc_status'' = Some (JString ''VERIFIED'')" using key by simp
  moreover obtain out fp where "proxy_verify_input sx sd cx approval w = (Inr (Done (Some out)
      (Some (no_updates\<lparr>cu_flow_context_patch := Some fp, cu_user_metadata_patch := Some (JObject ?m)\<rparr>))), w)"
    using assms by (auto simp: proxy_verify_input_def verify_builtin_def verify_review_document_def approval_def
        Let_def bindE_def simp del: obj_insert.simps)
  ultimately show thesis
    by (intro that[where m = ?m]) (assumption | simp add: no_updates_def del: obj_insert.simps)+
qed

lemma update_metadata_value:
  assumes "user_of uid w \<noteq> None" "distinct (map fst m)" "map_of m k = Some (JString v)"
  shows "metadata_value uid k (snd (update_metadata uid (JObject m) e w)) = Some (JString v)"
  using assms by (auto simp: update_metadata_def fold_patch_metadata merge_json_value_nonobject)

lemma complete_submission_metadata:
  assumes "step_of tid w = Some t" "flow_of (fl_id flow) w = Some f0"
    and "se_user_id session = Some uid" "user_of uid w \<noteq> None"
    and "cu_session_context_patch u = None" "cu_notifications u = None" "cu_user_metadata_patch u = Some (JObject m)"
    and "distinct (map fst m)" "map_of m k = Some (JString v)"
  obtains t' f' w' where "complete_submission sv session flow tid input output (Some u) w = (Inr (t', f'), w')"
    "st_status t' = ''COMPLETED''" "metadata_value uid k w' = Some (JString v)"
proof -
  let ?w1 = "snd (update_metadata uid (JObject m) (cu_user_metadata_eager_patch u) w)"
  have run: "apply_context_updates sv session u w = (Inr (), ?w1)"
    using assms(3-7) by (auto simp: apply_context_updates_def update_user_metadata_of_def update_metadata_def
        unwrap_or_def bindE_def split: option.splits)
  have "flow_tables ?w1 = flow_tables w"
    using side_writes_keep(1)[of uid "JObject m" "cu_user_metadata_eager_patch u"] by (simp add: keeps_def)
  then have t1: "step_of tid ?w1 = Some t" and f1: "flow_of (fl_id flow) ?w1 = Some f0"
    using assms(1,2) by (simp_all add: flow_tables_def step_of_def flow_of_def)
  have value1: "metadata_value uid k ?w1 = Some (JString v)"
    using update_metadata_value[OF assms(4,8,9)] .
  let ?p = "patch_finished_at (w_clock ?w1) (patch_clear_error (patch_output output (patch_input input
      (patch_status ''COMPLETED'' patch_new))))"
  let ?t = "apply_step_patch (w_clock ?w1) ?p t"
  let ?w2 = "modify_step tid (set_step_columns ?t) ?w1"
  have f2: "flow_of (fl_id flow) ?w2 = Some f0" using f1 by simp
  have frame: "metadata_value uid k (modify_flow i g (modify_step j h w)) = metadata_value uid k w" for i g j h w
    by (simp add: metadata_value_def user_data_of_def modify_step_def modify_flow_def)
  show thesis
    by (rule that[of ?t "apply_flow_update (w_clock ?w2) _ f0" "modify_flow (fl_id flow) _ ?w2"])
       (use run patch_step_reads[OF t1, of ?p] update_flow_reads[OF f2] value1 in
        \<open>auto simp: complete_submission_def Let_def bindE_def frame apply_step_patch_def patch_finished_at_def
          patch_clear_error_def patch_output_def patch_input_def patch_status_def unwrap_or_def\<close>)
qed

section \<open>Properties\<close>

text \<open>
  C2: each of the seven operations that name an existing session, flow or step by its id refuses a caller who does not
  own the session it belongs to: reading the session, listing its flows, adding a flow to it, reading the flow, listing its steps, reading
  the step and submitting to it are answered as unauthorized and leave the world as it was. The operations that
  create a session or a flow under a human id that exists already are outside this statement: they do give access to it.
\<close>

theorem foreign_access_refused:
  assumes "step_of tid w = Some t" "flow_of (st_flow_id t) w = Some f"
    and "session_of (fl_session_id f) w = Some s" "se_user_id s \<noteq> Some uid"
  shows "bff_get_session (fl_session_id f) uid w = (Inl (unauthorized ''Session does not belong to caller''), w)
    \<and> bff_list_session_flows (fl_session_id f) uid w = (Inl (unauthorized ''Session does not belong to caller''), w)
    \<and> add_flow_to_session sv (fl_session_id f) uid body w
        = Some (Inl (unauthorized ''Session does not belong to caller''), w)
    \<and> bff_get_flow (st_flow_id t) uid w = (Inl (unauthorized ''Flow does not belong to caller''), w)
    \<and> bff_list_flow_steps (st_flow_id t) uid w = (Inl (unauthorized ''Flow does not belong to caller''), w)
    \<and> bff_get_step tid uid w = (Inl (unauthorized ''Flow does not belong to caller''), w)
    \<and> submit_step sv tid uid input w = Some (Inl (unauthorized ''Flow does not belong to caller''), w)"
proof -
  note session = ensure_session_owner_foreign[OF assms(3,4)] and flow = owned_flow_foreign[OF assms(2-4)]
  have step: "owned_step tid uid w = (Inl (unauthorized ''Flow does not belong to caller''), w)"
    using assms(1) flow by (simp add: owned_step_def get_step_def bindE_def)
  show ?thesis
    using session flow step
    by (simp add: bff_get_session_def bff_list_session_flows_def add_flow_to_session_def open_flow_def
        bff_get_flow_def bff_list_flow_steps_def bff_get_step_def submit_step_def accept_submission_def
        bindO_def returns_def bindE_def)
qed

text \<open>
  C38: the ownership check can be bypassed when a session is created. A caller who asks for a new
  session under the human id of an existing session is answered with that session, its context
  included, whoever owns it; no session is created, only an id is used up.
\<close>

theorem create_session_discloses:
  assumes "get_session_definition (sv_registry sv) ty = Some d" "sv_cuid sv (w_next_id w) = Inr c"
    and "tables_ok w" "s \<in> set (w_sessions w)" "hid_parse (se_human_id s) = Inr h"
  shows "bff_create_session sv uid \<lparr>cs_session_type = ty, cs_human_id = Some (se_human_id s), cs_context = cx\<rparr> w
    = (Inr (session_response_of s), w\<lparr>w_next_id := Suc (w_next_id w)\<rparr>)"
proof -
  let ?w = "w\<lparr>w_next_id := Suc (w_next_id w)\<rparr>"
  have find: "select_first (\<lambda>r. se_human_id r = se_human_id s) (w_sessions w) = Some s"
    using assms(3,4) distinct_key_find[of se_human_id "w_sessions w" s]
    by (simp add: tables_ok_def select_first_def)
  have "create_session \<lparr>sci_id = ''ses_'' @ c, sci_human_id = se_human_id s, sci_user_id = Some uid,
      sci_session_type = ty, sci_status = ''OPEN'', sci_context = session_context_with_user_id cx uid\<rparr> ?w = (Inr s, ?w)"
    using assms(4) find
    by (auto simp: create_session_def Let_def insert_unique_def session_clash_def new_session_row_def)
  then show ?thesis
    using assms(1,2,5)
    by (simp add: bff_create_session_def flow_session_id_def prefixed_def normalize_or_default_human_id_def
        unwrap_or_def bindE_def)
qed

text \<open>
  C39: the ownership check can be bypassed when a flow is added. A caller who adds a flow to a
  session of theirs under the human id of an existing flow is given that flow, whoever owns it:
  it is returned with its context, and in the database its current step becomes the step the caller names (one that is not a system step).
\<close>

theorem add_flow_hijacks:
  assumes "tables_ok w" "f \<in> set (w_flows w)" "af_human_id body = Some (fl_human_id f)"
    and "flow_definition_for sv (fl_flow_type f) = Inr fd" "step_definition_for fd t = Inr sd" "ps_actor sd \<noteq> System"
    and "af_initial_step body = Some t"
    and "add_flow_to_session sv sid uid body w = Some (Inr f', w')"
  shows "fl_id f' = fl_id f \<and> fl_context f' = fl_context f \<and> fl_current_step f' = Some t
    \<and> flow_of (fl_id f) w' = Some f'"
proof -
  from assms(8) obtain session created initial w1 w2 where
    opened: "open_flow sv sid uid body w = (Inr (session, created, initial), w1)"
    and chain: "create_step_chain sv session created initial None w1 = Some (Inr f', w2)"
    and refresh: "refresh_session_status sid w2 = (Inr (), w')"
    by (auto simp: add_flow_to_session_def bindO_Some_Inr returns_def)
  note ex = open_flow_existing[OF opened assms(1-3)]
  have initial: "initial = t"
    using opened assms(7) by (auto simp: open_flow_def Let_def bindE_Inr_iff unwrap_or_def)
  from chain_stops[OF chain[unfolded ex(1) initial] assms(4-6)] obtain step_id created' where
    enter: "enter_step sv f sd False t None w1 = (Inr (step_id, created', f'), w2)" by blast
  have "flow_of (fl_id f) w1 = Some f" using in_flows[OF ex(3)] assms(2) ex(2) by simp
  note res = enter_step_flow[OF enter this]
  moreover have "flow_of (fl_id f) w' = flow_of (fl_id f) w2"
    using keepsD[OF refresh_keeps_flows refresh] by (simp add: flow_of_def)
  ultimately show ?thesis by simp
qed

text \<open>
  The operations of the service preserve the constraints of the schema, whether they succeed
  or fail: ids and human ids stay unique, every flow has a session and every step a flow.
\<close>

lemma service_preserves_schema:
  assumes "tables_ok w"
  shows "tables_ok (snd (bff_create_session sv uid csr w))
    \<and> (\<forall>r w'. add_flow_to_session sv sid uid afr w = Some (r, w') \<longrightarrow> tables_ok w')
    \<and> (\<forall>r w'. submit_step sv tid uid input w = Some (r, w') \<longrightarrow> tables_ok w')"
proof -
  have "tables_ok (snd (bff_create_session sv uid csr w))"
    using handlers_preserve(1)[of sv uid csr] assms by (simp add: preserves_def)
  moreover have "tables_ok w'" if "add_flow_to_session sv sid uid afr w = Some (r, w')" for r w'
    using mutators_preserve(1)[of sv sid uid afr] assms that by (auto simp: run_preserves_def)
  moreover have "tables_ok w'" if "submit_step sv tid uid input w = Some (r, w')" for r w'
    using mutators_preserve(2)[of sv tid uid input] assms that by (auto simp: run_preserves_def)
  ultimately show ?thesis by blast
qed

text \<open>
  C4: the chain of steps returns, and opens a bounded number of steps, in every flow whose
  synchronous system steps do not form a cycle: when each transition the chain takes by itself
  lowers a rank, a chain entered at a step opens at most one step more than its rank.
\<close>

theorem create_step_chain_returns:
  assumes "\<forall>t t'. sync_edge sv (fl_flow_type flow) t t' \<longrightarrow> rank t' < rank t"
    and "flow_of (fl_id flow) w = Some f0" "fl_flow_type f0 = fl_flow_type flow"
  shows "\<exists>r w'. create_step_chain sv session flow t pending w = Some (r, w')
    \<and> length (w_steps w') \<le> length (w_steps w) + Suc (rank t)"
  using assms by (intro chain_terminates) (simp_all add: flow_type_of_def)

text \<open>
  C5: the state of a session after a refresh is the state of one of its flows, the one of the
  highest priority (running, failed, closed, completed, in this order). The session has an end
  time unless a flow runs, and no other session changes.
\<close>

theorem refresh_session_status_priority:
  assumes "\<forall>f\<in>set (w_flows w). fl_status f \<in> flow_statuses" "\<exists>f\<in>set (w_flows w). fl_session_id f = sid"
    and "session_of sid w = Some s" "refresh_session_status sid w = (r, w')"
  shows "\<exists>s'. session_of sid w' = Some s'
    \<and> (\<exists>f\<in>set (w_flows w). fl_session_id f = sid \<and> fl_status f = se_status s')
    \<and> (\<forall>f\<in>set (w_flows w). fl_session_id f = sid \<longrightarrow> status_rank (fl_status f) \<le> status_rank (se_status s'))
    \<and> se_completed_at s' = (if se_status s' = ''RUNNING'' then None else Some (w_clock w))
    \<and> (\<forall>i. i \<noteq> sid \<longrightarrow> session_of i w' = session_of i w)"
proof -
  have set: "set (flows_of_session sid w) = {f \<in> set (w_flows w). fl_session_id f = sid}"
    by (simp add: flows_of_session_def)
  then have "\<forall>f\<in>set (flows_of_session sid w). fl_status f \<in> flow_statuses" "flows_of_session sid w \<noteq> []"
    using assms(1,2) by (auto simp flip: set_empty)
  then obtain st where st: "st \<in> fl_status ` set (flows_of_session sid w)"
    "\<forall>f\<in>set (flows_of_session sid w). status_rank (fl_status f) \<le> status_rank st"
    and run: "refresh_session_status sid w
      = update_session_status sid st (if st = ''RUNNING'' then None else Some (w_clock w)) w"
    by (rule refresh_writes)
  let ?s = "s\<lparr>se_status := st, se_updated_at := w_clock w,
      se_completed_at := (if st = ''RUNNING'' then None else Some (w_clock w))\<rparr>"
  have new: "session_of sid w' = Some ?s" "i \<noteq> sid \<Longrightarrow> session_of i w' = session_of i w" for i
    using run assms(3,4) by (auto simp: update_session_status_def sess.get_modify)
  show ?thesis
    by (rule exI[of _ ?s]) (use new st in \<open>auto simp: set\<close>)
qed

text \<open>
  The output of a step, stored in the context of its flow, is what later steps read under
  the step's name; the outputs of the other steps and the other keys of the context are kept.
\<close>

lemma store_step_output_read:
  "previous_step_output (cx\<lparr>cx_flow_context := store_step_output ctxt t out\<rparr>) t = Some out
   \<and> (t' \<noteq> t \<longrightarrow> previous_step_output (cx\<lparr>cx_flow_context := store_step_output ctxt t out\<rparr>) t'
        = previous_step_output (cx\<lparr>cx_flow_context := ctxt\<rparr>) t')
   \<and> (k \<noteq> ''step_output'' \<longrightarrow> json_get k (store_step_output ctxt t out) = json_get k ctxt)"
proof -
  have get: "json_get t' (JObject (unwrap_or [] (Option.bind v as_object))) = Option.bind v (json_get t')" for v t'
    by (cases v; cases "the v") (auto simp: unwrap_or_def)
  have obj: "map_of (unwrap_or [] (as_object ctxt)) k' = json_get k' ctxt" for k'
    by (cases ctxt) (simp_all add: unwrap_or_def)
  have read: "previous_step_output (cx\<lparr>cx_flow_context := store_step_output ctxt t out\<rparr>) t'
      = (if t' = t then Some out else Option.bind (json_get ''step_output'' ctxt) (json_get t'))" for t'
    using get obj
    by (simp add: previous_step_output_def store_step_output_def Let_def)
  have "k \<noteq> ''step_output'' \<Longrightarrow> json_get k (store_step_output ctxt t out) = json_get k ctxt"
    using obj[of k] by (simp add: store_step_output_def Let_def)
  moreover have "previous_step_output (cx\<lparr>cx_flow_context := ctxt\<rparr>) t'
      = Option.bind (json_get ''step_output'' ctxt) (json_get t')"
    by (simp add: previous_step_output_def)
  ultimately show ?thesis by (simp add: read)
qed

text \<open>
  C40: submission checks that the caller owns the flow but not that the step is theirs to
  submit, nor that it is waiting. The owner of a flow can submit the review of their own
  document, a step of the administrator: it is accepted, completed, and marks their identity as
  verified.
\<close>

theorem owner_approves_own_review:
  assumes "step_of tid w = Some t" "flow_of (st_flow_id t) w = Some f"
    and "session_of (fl_session_id f) w = Some s" "se_user_id s = Some uid" "user_of uid w \<noteq> None"
    and "flow_definition_for sv (fl_flow_type f) = Inr fd" "step_definition_for fd (st_step_type t) = Inr sd"
    and "ps_actor sd = Admin" "ps_inner sd = ReviewDocumentAction"
    and "parse_step_config (de_review (sx_kyc (sv_steps sv))) default_review
      (context_with_config sd (verify_context s f t approval)) = Inr c"
  shows "\<exists>t' f' w'. accept_submission sv tid uid approval w = (Inr (fd, s, t', f', None), w')
    \<and> st_status t' = ''COMPLETED'' \<and> metadata_value uid ''kyc_status'' w' = Some (JString ''VERIFIED'')"
proof -
  have fid: "fl_id f = st_flow_id t" using assms(2) by (rule flw.get_key)
  obtain out u m where verify: "proxy_verify_input (sv_steps sv) sd (verify_context s f t approval) approval w
      = (Inr (Done (Some out) (Some u)), w)"
    and u: "cu_session_context_patch u = None" "cu_notifications u = None" "cu_user_metadata_patch u = Some (JObject m)"
      "distinct (map fst m)" "map_of m ''kyc_status'' = Some (JString ''VERIFIED'')"
    by (rule verify_review_approval[OF assms(9,10)])
  obtain t' f' w' where complete: "complete_submission sv s f tid approval out (Some u) w = (Inr (t', f'), w')"
    "st_status t' = ''COMPLETED''" "metadata_value uid ''kyc_status'' w' = Some (JString ''VERIFIED'')"
    using complete_submission_metadata[OF assms(1) assms(2)[folded fid] assms(4,5) u, of sv approval out] by blast
  have "owned_step tid uid w = (Inr (t, f), w)"
    using assms(1-4) by (simp add: owned_step_def owned_flow_def ensure_flow_owner_def get_step_def get_flow_row_def
        get_session_def bindE_def)
  moreover have "proxy_validate_input (sv_steps sv) sd approval = Inr ()"
    using assms(9) by (simp add: proxy_validate_input_def validate_builtin_def validate_review_document_def approval_def)
  ultimately have "accept_submission sv tid uid approval w = (Inr (fd, s, t', f', None), w')"
    using assms(3,6-8) verify complete(1)
    by (simp add: accept_submission_def get_session_def verify_result_def unwrap_or_def bindE_def)
  with complete show ?thesis by blast
qed

section \<open>Witnesses\<close>

definition example_transition :: "string \<Rightarrow> step_transition" where
  "example_transition t = \<lparr>tr_on_success = t, tr_on_failure = None, tr_branches = []\<rparr>"

definition example_flow :: "builtin dynamic_flow" where
  "example_flow = \<lparr>df_flow_type = ''DOC'', df_human_id = ''doc'', df_feature = None,
     df_steps = [example_proxy ''prepare'' System NoopAction, example_proxy ''upload'' EndUser UploadDocumentAction,
       example_proxy ''review'' Admin ReviewDocumentAction],
     df_initial_step = ''prepare'',
     df_transitions = [(''prepare'', example_transition ''upload''), (''upload'', example_transition ''review''),
       (''review'', example_transition ''COMPLETED'')]\<rparr>"

definition example_server :: server where
  "example_server = \<lparr>sv_registry = \<lparr>fr_steps = [], fr_flows = [(''DOC'', example_flow)], fr_flow_definitions = [],
       fr_sessions = [(''KYC'', \<lparr>sd_session_type = ''KYC'', sd_human_id_prefix = ''kyc'', sd_feature = None,
         sd_allowed_flows = []\<rparr>)]\<rparr>,
     sv_steps = example_sx, sv_cuid = (\<lambda>n. Inr (show_nat n)), sv_format_date = (\<lambda>_. ''2026-01-01''),
     sv_rfc3339 = (\<lambda>_. ''t''), sv_enqueues = (\<lambda>_. True)\<rparr>"

definition victim_session :: session_row where
  "victim_session = new_session_row 0 \<lparr>sci_id = ''s1'', sci_human_id = ''k1'', sci_user_id = Some ''usr_1'',
     sci_session_type = ''KYC'', sci_status = ''RUNNING'', sci_context = JObject [(''otp'', JString ''1'')]\<rparr>"

definition victim_flow :: flow_row where
  "victim_flow = new_flow_row 0 \<lparr>fci_id = ''f1'', fci_human_id = ''k1.d'', fci_session_id = ''s1'', fci_flow_type = ''DOC'',
     fci_status = ''RUNNING'', fci_current_step = Some ''review'', fci_step_ids = JArray [], fci_context = JObject []\<rparr>"

definition victim_step :: step_row where
  "victim_step = new_step_row 0 \<lparr>tci_id = ''t1'', tci_human_id = ''k1.d.review'', tci_flow_id = ''f1'',
     tci_step_type = ''review'', tci_actor = ''ADMIN'', tci_status = ''WAITING'', tci_attempt_no = 0,
     tci_input = None, tci_output = None, tci_error = None, tci_next_retry_at = None, tci_finished_at = None\<rparr>"

definition service_world :: world where
  "service_world = (empty_world 0)\<lparr>w_users := [example_user],
     w_sessions := [victim_session, new_session_row 0 \<lparr>sci_id = ''s2'', sci_human_id = ''k2'', sci_user_id = Some ''usr_2'',
       sci_session_type = ''KYC'', sci_status = ''OPEN'', sci_context = JObject []\<rparr>],
     w_flows := [victim_flow], w_steps := [victim_step]\<rparr>"

lemmas example_rows = service_world_def victim_session_def victim_flow_def victim_step_def
  new_session_row_def new_flow_row_def new_step_row_def

lemma service_world_ok: "tables_ok service_world"
  by (simp add: tables_ok_def example_rows)

lemma service_world_rows:
  "step_of ''t1'' service_world = Some victim_step" "flow_of (st_flow_id victim_step) service_world = Some victim_flow"
  "session_of (fl_session_id victim_flow) service_world = Some victim_session"
  "se_user_id victim_session = Some ''usr_1''" "user_of ''usr_1'' service_world \<noteq> None"
  by (simp_all add: step_of_def flow_of_def session_of_def user_of_def example_rows example_user_def)

lemma example_definitions:
  "flow_definition_for example_server ''DOC'' = Inr example_flow"
  "step_definition_for example_flow ''review'' = Inr (example_proxy ''review'' Admin ReviewDocumentAction)"
  "step_definition_for example_flow ''upload'' = Inr (example_proxy ''upload'' EndUser UploadDocumentAction)"
  by (simp_all add: flow_definition_for_def get_flow_def example_server_def step_definition_for_def example_flow_def
      example_proxy_def)

theorem foreign_access_refused_witness:
  "bff_get_step ''t1'' ''usr_2'' service_world
     = (Inl (unauthorized ''Flow does not belong to caller''), service_world)
   \<and> submit_step example_server ''t1'' ''usr_2'' approval service_world
     = Some (Inl (unauthorized ''Flow does not belong to caller''), service_world)"
  using foreign_access_refused[OF service_world_rows(1-3), of "''usr_2''" example_server _ approval]
  by (simp add: service_world_rows(4))

theorem create_session_discloses_witness:
  "bff_create_session example_server ''usr_2''
      \<lparr>cs_session_type = ''KYC'', cs_human_id = Some (se_human_id victim_session), cs_context = None\<rparr> service_world
    = (Inr (session_response_of victim_session), service_world\<lparr>w_next_id := Suc (w_next_id service_world)\<rparr>)"
proof (rule create_session_discloses[OF _ _ service_world_ok])
  show "get_session_definition (sv_registry example_server) ''KYC'' = Some \<lparr>sd_session_type = ''KYC'',
      sd_human_id_prefix = ''kyc'', sd_feature = None, sd_allowed_flows = []\<rparr>"
    by (simp add: get_session_definition_def example_server_def)
  show "sv_cuid example_server (w_next_id service_world) = Inr (show_nat (w_next_id service_world))"
    by (simp add: example_server_def)
  show "victim_session \<in> set (w_sessions service_world)" by (simp add: service_world_def)
  show "hid_parse (se_human_id victim_session) = Inr ''k1''" unfolding example_rows by code_simp
qed

definition hijack_request :: add_flow_request where
  "hijack_request = \<lparr>af_flow_type = ''DOC'', af_human_id = Some ''k1.d'', af_context = None, af_initial_step = Some ''upload''\<rparr>"

theorem owner_approves_own_review_witness:
  "\<exists>t' f' w'. accept_submission example_server ''t1'' ''usr_1'' approval service_world
       = (Inr (example_flow, victim_session, t', f', None), w')
     \<and> metadata_value ''usr_1'' ''kyc_status'' w' = Some (JString ''VERIFIED'')"
proof -
  have "parse_step_config (de_review (sx_kyc (sv_steps example_server))) default_review
      (context_with_config (example_proxy ''review'' Admin ReviewDocumentAction)
        (verify_context victim_session victim_flow victim_step approval)) = Inr default_review"
    by (simp add: parse_step_config_def context_with_config_def example_proxy_def verify_context_def runtime_services_def)
  then have "\<exists>t' f' w'. accept_submission example_server ''t1'' ''usr_1'' approval service_world
       = (Inr (example_flow, victim_session, t', f', None), w')
     \<and> st_status t' = ''COMPLETED'' \<and> metadata_value ''usr_1'' ''kyc_status'' w' = Some (JString ''VERIFIED'')"
    by (intro owner_approves_own_review[OF service_world_rows])
       (simp_all add: example_definitions example_proxy_def victim_flow_def victim_step_def new_flow_row_def new_step_row_def)
  then show ?thesis by blast
qed

lemma example_flow_row: "flow_of (fl_id victim_flow) service_world = Some victim_flow"
  by (simp add: flow_of_def example_rows)

lemma example_sync_edge: "sync_edge example_server ''DOC'' t t' \<Longrightarrow> t = ''prepare'' \<and> t' = ''upload''"
  by (auto simp: sync_edge_def get_flow_def example_server_def example_flow_def example_proxy_def example_transition_def
      resolve_transition_def has_flow_step_def split: if_splits option.splits bind_splits)

theorem create_step_chain_returns_witness:
  "\<exists>r w'. create_step_chain example_server victim_session victim_flow ''prepare'' None service_world = Some (r, w')
    \<and> length (w_steps w') \<le> 3"
proof -
  have "\<exists>r w'. create_step_chain example_server victim_session victim_flow ''prepare'' None service_world = Some (r, w')
      \<and> length (w_steps w') \<le> length (w_steps service_world) + Suc ((\<lambda>t. if t = ''prepare'' then 1 else 0) ''prepare'')"
    by (rule create_step_chain_returns[OF _ example_flow_row refl])
       (auto simp: victim_flow_def new_flow_row_def dest!: example_sync_edge)
  then obtain r w' where "create_step_chain example_server victim_session victim_flow ''prepare'' None service_world
      = Some (r, w')" "length (w_steps w') \<le> length (w_steps service_world) + 2" by auto
  moreover have "length (w_steps service_world) = 1" by (simp add: service_world_def)
  ultimately show ?thesis by auto
qed

lemma service_preserves_schema_witness:
  "tables_ok (snd (bff_create_session example_server ''usr_1''
      \<lparr>cs_session_type = ''KYC'', cs_human_id = None, cs_context = None\<rparr> service_world))"
  using service_preserves_schema[OF service_world_ok] by blast

theorem refresh_session_status_priority_witness:
  "\<exists>s'. session_of ''s1'' (snd (refresh_session_status ''s1'' service_world)) = Some s' \<and> se_status s' = ''RUNNING''"
proof -
  have statuses: "\<forall>f\<in>set (w_flows service_world). fl_status f \<in> flow_statuses"
    by (simp add: example_rows flow_statuses_def)
  have flows: "\<exists>f\<in>set (w_flows service_world). fl_session_id f = ''s1''" by (simp add: example_rows)
  have session: "session_of ''s1'' service_world = Some victim_session" by (simp add: session_of_def example_rows)
  from refresh_session_status_priority[OF statuses flows session prod.collapse[symmetric]] obtain s' where
    s': "session_of ''s1'' (snd (refresh_session_status ''s1'' service_world)) = Some s'"
    and all: "\<forall>f\<in>set (w_flows service_world). fl_session_id f = ''s1'' \<longrightarrow>
      status_rank (fl_status f) \<le> status_rank (se_status s')" by blast
  from all have "3 \<le> status_rank (se_status s')" by (simp add: example_rows status_rank_def)
  then have "se_status s' = ''RUNNING''" by (simp add: status_rank_def split: if_splits)
  with s' show ?thesis by blast
qed

lemma store_step_output_read_witness:
  "json_get ''phone'' (store_step_output (JObject [(''phone'', JNull)]) ''upload'' (JBool True)) = Some JNull
   \<and> previous_step_output ((example_context JNull JNull)\<lparr>cx_flow_context :=
        store_step_output (JObject [(''phone'', JNull)]) ''upload'' (JBool True)\<rparr>) ''upload'' = Some (JBool True)"
  using store_step_output_read[where cx = "example_context JNull JNull" and ctxt = "JObject [(''phone'', JNull)]"
      and t = "''upload''" and out = "JBool True" and k = "''phone''"]
  by simp

theorem add_flow_hijacks_witness:
  "\<exists>f' w'. add_flow_to_session example_server ''s2'' ''usr_2'' hijack_request service_world = Some (Inr f', w')
    \<and> fl_id f' = ''f1'' \<and> flow_of ''f1'' w' = Some f'"
proof -
  have "case add_flow_to_session example_server ''s2'' ''usr_2'' hijack_request service_world of
      Some (Inr _, _) \<Rightarrow> True | _ \<Rightarrow> False"
    by code_simp
  then obtain f' w' where run: "add_flow_to_session example_server ''s2'' ''usr_2'' hijack_request service_world
      = Some (Inr f', w')" by (auto split: option.splits prod.splits sum.splits)
  have "fl_id f' = fl_id victim_flow \<and> fl_context f' = fl_context victim_flow \<and> fl_current_step f' = Some ''upload''
    \<and> flow_of (fl_id victim_flow) w' = Some f'"
    by (rule add_flow_hijacks[OF service_world_ok _ _ _ example_definitions(3) _ _ run])
       (simp_all add: example_rows hijack_request_def example_proxy_def example_definitions(1))
  with run show ?thesis by (auto simp: victim_flow_def new_flow_row_def)
qed

end
