(* ===== verification/Executor_Props.thy ===== *)
theory Executor_Props
  imports Executor Service_Props
begin

text \<open>
  The properties of the executor and of the worker's loop: attempts are bounded, no due step
  starves, what retries and ends of flows write, and where the executor and the service agree.
\<close>

section \<open>Lemmas\<close>

text \<open>What \<open>process_flow_step\<close> needs to reach the outcome of its step.\<close>

definition outcome_of ::
    "server \<Rightarrow> step_row \<Rightarrow> flow_row \<Rightarrow> session_row \<Rightarrow> world \<Rightarrow> ((flow_error + step_outcome) \<times> world) option" where
  "outcome_of sv t f s w =
     Option.bind (get_flow (sv_registry sv) (fl_flow_type f)) (\<lambda>fd.
     map_option (\<lambda>sd. proxy_execute (sv_steps sv) sd (exec_context s f t) w)
       (List.find (\<lambda>x. ps_step_type x = st_step_type t) (df_steps fd)))"

definition executes ::
    "server \<Rightarrow> step_row \<Rightarrow> flow_row \<Rightarrow> session_row \<Rightarrow> step_outcome \<Rightarrow> world \<Rightarrow> world \<Rightarrow> bool" where
  "executes sv t f s outcome w w1 \<longleftrightarrow>
     step_of (st_id t) w = Some t \<and> flow_of (st_flow_id t) w = Some f \<and> session_of (fl_session_id f) w = Some s
     \<and> outcome_of sv t f s w = Some (Inr outcome, w1)"

lemma executes_tables: "executes sv t f s outcome w w1 \<Longrightarrow> flow_tables w1 = flow_tables w"
  unfolding executes_def outcome_of_def
  by (auto dest: keepsD[OF proxy_keeps_flow_tables(1)] split: bind_splits)

lemma executes_rows:
  assumes "executes sv t f s outcome w w1"
  shows "step_of (st_id t) w1 = Some t" "flow_of (fl_id f) w1 = Some f" "session_of (fl_session_id f) w1 = Some s"
    "w_clock w1 = w_clock w"
proof -
  have "fl_id f = st_flow_id t" using assms by (auto simp: executes_def dest: flw.get_key)
  with executes_tables[OF assms] assms
  show "step_of (st_id t) w1 = Some t" "flow_of (fl_id f) w1 = Some f" "session_of (fl_session_id f) w1 = Some s"
    "w_clock w1 = w_clock w"
    by (simp_all add: executes_def flow_tables_def step_of_def flow_of_def session_of_def)
qed

lemma process_executes:
  assumes "executes sv t f s outcome w w1"
  obtains fd where "get_flow (sv_registry sv) (fl_flow_type f) = Some fd"
    "process_flow_step sv t w
      = handle_outcome sv t f s fd (retry_config_for sv (fl_flow_type f) (st_step_type t)) outcome w1"
  using assms
  by (auto simp: executes_def outcome_of_def process_flow_step_def get_flow_row_def get_session_def bindE_def
      split: bind_splits)

text \<open>What the end of a flow writes: the flow, the metadata of the user, the session.\<close>

definition ended :: "string \<Rightarrow> flow_update" where
  "ended status = no_flow_update\<lparr>fu_status := Some status, fu_current_step := Some None\<rparr>"

lemma kyc_write_ok: "fst (write_completed_kyc_metadata sv f w) = Inr ()"
  by (simp add: write_completed_kyc_metadata_def get_session_def bindE_def update_metadata_def split: option.split)

lemma kyc_write_tables: "flow_tables (snd (write_completed_kyc_metadata sv f w)) = flow_tables w"
  using metadata_writes_keep(2)[of sv f] by (simp add: keeps_def)

lemma flow_tables_reads:
  assumes "flow_tables w = flow_tables w'"
  shows "session_of i w = session_of i w'" "flow_of i w = flow_of i w'" "step_of i w = step_of i w'"
    "w_clock w = w_clock w'" "w_steps w = w_steps w'" "w_flows w = w_flows w'" "w_sessions w = w_sessions w'"
  using assms by (simp_all add: flow_tables_def session_of_def flow_of_def step_of_def)

definition ended_world :: "server \<Rightarrow> flow_row \<Rightarrow> string \<Rightarrow> world \<Rightarrow> world" where
  "ended_world sv f status w =
     (let w2 = snd (update_flow (fl_id f) (ended status) w)
      in if eq_ignore_ascii_case status ''COMPLETED'' then snd (write_completed_kyc_metadata sv f w2) else w2)"

lemma ended_world_tables: "flow_tables (ended_world sv f status w) = flow_tables (snd (update_flow (fl_id f) (ended status) w))"
  by (simp add: ended_world_def Let_def kyc_write_tables)

lemma exec_finalize_run:
  assumes "flow_of (fl_id f) w = Some f"
  shows "exec_finalize_flow sv (fl_id f) sid status w
    = (Inr (), case sid of None \<Rightarrow> ended_world sv f status w
         | Some i \<Rightarrow> snd (update_session_status i status (Some (w_clock w)) (ended_world sv f status w)))"
proof -
  obtain f' w2 where upd: "update_flow (fl_id f) (ended status) w = (Inr f', w2)"
    using update_flow_reads[OF assms] by simp
  obtain w3 where kyc: "write_completed_kyc_metadata sv f w2 = (Inr (), w3)"
    using kyc_write_ok[of sv f w2] by (metis prod.collapse)
  have "w_clock w2 = w_clock w" "w_clock w3 = w_clock w2"
    using upd update_flow_reads[OF assms, of "ended status"] kyc flow_tables_reads(4)[OF kyc_write_tables[of sv f w2]]
    by auto
  then show ?thesis
    using upd kyc assms unfolding exec_finalize_flow_def ended_def[symmetric] exec_write_completed_kyc_eq
    by (cases sid) (simp_all add: get_flow_row_def ended_world_def Let_def bindE_def update_session_status_def)
qed

lemma table_lists [simp]:
  "w_steps (modify_flow i g w) = w_steps w" "w_steps (modify_session i h w) = w_steps w"
  "w_sessions (modify_flow i g w) = w_sessions w" "w_flows (modify_session i h w) = w_flows w"
  by (simp_all add: modify_flow_def modify_session_def)

lemma ended_world_rows:
  assumes "flow_of (fl_id f) w = Some f"
  shows "flow_of (fl_id f) (ended_world sv f status w) = Some (f\<lparr>fl_status := status, fl_current_step := None,
      fl_updated_at := w_clock w\<rparr>)"
    "session_of i (ended_world sv f status w) = session_of i w" "step_of j (ended_world sv f status w) = step_of j w"
    "w_steps (ended_world sv f status w) = w_steps w" "w_clock (ended_world sv f status w) = w_clock w"
proof -
  have "apply_flow_update now (ended status) f = f\<lparr>fl_status := status, fl_current_step := None, fl_updated_at := now\<rparr>"
    for now by (simp add: ended_def no_flow_update_def apply_flow_update_def unwrap_or_def)
  then show "flow_of (fl_id f) (ended_world sv f status w) = Some (f\<lparr>fl_status := status, fl_current_step := None,
      fl_updated_at := w_clock w\<rparr>)"
    "session_of i (ended_world sv f status w) = session_of i w" "step_of j (ended_world sv f status w) = step_of j w"
    "w_steps (ended_world sv f status w) = w_steps w" "w_clock (ended_world sv f status w) = w_clock w"
    using flow_tables_reads[OF ended_world_tables[of sv f status w]] assms
      update_flow_reads[OF assms, of "ended status"]
    by (simp_all add: flw.get_modify set_flow_columns_def table_lists)
qed

lemma waiting_runs:
  assumes "executes sv t f s (Waiting a) w w1"
  shows "process_flow_step sv t w = (Inr (), snd (patch_step (st_id t) (patch_status ''WAITING'' patch_new) w1))"
proof -
  have "process_flow_step sv t w = bindE (patch_step (st_id t) (patch_status ''WAITING'' patch_new)) (\<lambda>_. ret ()) w1"
    using process_executes[OF assms] by (auto simp: handle_outcome_def)
  then show ?thesis using patch_step_reads[OF executes_rows(1)[OF assms]] by (simp add: bindE_def)
qed

lemma worker_turn_ok:
  "claim_next_system_step w = (Inr (Some c), w1) \<Longrightarrow> process_flow_step sv c w1 = (Inr (), w') \<Longrightarrow>
   worker_turn sv w = (Inr (Some c), w')"
  by (simp add: worker_turn_def log_error_def bindE_def)

lemma set_filter_update_where:
  assumes "\<And>y. q (g y) = q y"
  shows "set (filter q (update_where p g xs)) = (\<lambda>y. if p y then g y else y) ` set (filter q xs)"
  by (induction xs) (auto simp: update_where_def assms)

section \<open>Properties\<close>

text \<open>
  C6: no due step starves. A waiting system step whose retry time has come is claimed within as
  many turns of the worker as there are steps that were not updated more recently than it,
  whatever the steps that are executed before it do: they may wait, retry, fail or create steps.
  The worker must not panic and time must pass between two turns.
\<close>

theorem worker_no_starvation:
  assumes "tables_ok w" "r \<in> set (w_steps w)" "claimable (w_clock w) r" "st_updated_at r < w_clock w"
    and "\<forall>ft t. rc_max (retry_config_for sv ft t) < 2 ^ 31"
    and "worker_run sv ns w = (claimed, True, w')"
    and "length (filter (\<lambda>q. st_updated_at q \<le> st_updated_at r) (w_steps w)) \<le> length ns"
  shows "st_id r \<in> set claimed"
  using assms by (intro due_step_claimed[of w r sv ns]) (auto simp: not_newer_def)

text \<open>
  C7: the worker keeps the constraints of the schema, and however long it runs it never takes
  the attempt number of a step beyond the largest number of attempts configured (and the one a
  step starts with): retries are bounded.
\<close>

theorem worker_bounds_attempts:
  assumes "\<forall>ft t. rc_max (retry_config_for sv ft t) \<le> m" "m < 2 ^ 31"
    and "tables_ok w" "\<forall>r\<in>set (w_steps w). sint (st_attempt_no r) \<le> max 1 m"
    and "worker_run sv ns w = (claimed, alive, w')"
  shows "tables_ok w' \<and> (\<forall>r\<in>set (w_steps w'). sint (st_attempt_no r) \<le> max 1 m)"
  using worker_run_invariant[of sv m w ns claimed alive w'] assms by (simp add: attempts_within_def)

text \<open>
  C8: a step that asks for a retry is either scheduled again, with the next attempt number and a
  delay of at least the configured one, and nothing else changes; or its attempts are used up: then the step and its
  flow are failed and nothing else changes, so that a session whose only flow has failed this way keeps its status. The world
  is compared with the one the action left, whose sessions, flows and steps are those before it. It is assumed that the configured
  maximum is a positive 32-bit integer's and that the retry time is within the range of chrono's durations and instants.
\<close>

theorem retry_schedules_or_fails:
  assumes "executes sv t f s (Retry after) w w1" "rc = retry_config_for sv (fl_flow_type f) (st_step_type t)"
    and "rc_max rc < 2 ^ 31" "max after (rc_delay_ms rc) < 2 ^ 63"
    and "w_clock w + millis (int (max after (rc_delay_ms rc))) \<le> max_utc"
  shows "\<exists>w' t'. process_flow_step sv t w = (Inr (), w') \<and> step_of (st_id t) w' = Some t'
    \<and> (\<forall>k. k \<noteq> st_id t \<longrightarrow> step_of k w' = step_of k w)
    \<and> (\<forall>k. k \<noteq> fl_id f \<longrightarrow> flow_of k w' = flow_of k w)
    \<and> w_sessions w' = w_sessions w
    \<and> w'\<lparr>w_steps := [], w_flows := []\<rparr> = w1\<lparr>w_steps := [], w_flows := []\<rparr>
    \<and> (if sint (st_attempt_no t) < rc_max rc
       then t' = t\<lparr>st_status := ''WAITING'', st_attempt_no := st_attempt_no t + 1, st_updated_at := w_clock w,
              st_next_retry_at := Some (w_clock w + millis (int (max after (rc_delay_ms rc))))\<rparr>
         \<and> sint (st_attempt_no t') = sint (st_attempt_no t) + 1 \<and> w_flows w' = w_flows w
       else st_status t' = ''FAILED'' \<and> st_attempt_no t' = st_attempt_no t
         \<and> flow_of (fl_id f) w' = Some (f\<lparr>fl_status := ''FAILED'', fl_current_step := None, fl_updated_at := w_clock w\<rparr>))"
proof -
  note rows = executes_rows[OF assms(1)]
  have tables: "w_sessions w1 = w_sessions w" "w_flows w1 = w_flows w" "w_steps w1 = w_steps w"
    using executes_tables[OF assms(1)] by (simp_all add: flow_tables_def)
  then have same: "step_of k w1 = step_of k w" "flow_of k w1 = flow_of k w" for k by (simp_all add: step_of_def flow_of_def)
  have step_write: "(modify_step i g v)\<lparr>w_steps := [], w_flows := []\<rparr> = v\<lparr>w_steps := [], w_flows := []\<rparr>"
    "w_sessions (modify_step i g v) = w_sessions v" "w_flows (modify_step i g v) = w_flows v" for i g v
    by (simp_all add: modify_step_def)
  have flow_write: "(modify_flow i g v)\<lparr>w_steps := [], w_flows := []\<rparr> = v\<lparr>w_steps := [], w_flows := []\<rparr>"
    "w_sessions (modify_flow i g v) = w_sessions v" for i g v by (simp_all add: modify_flow_def)
  obtain fd where run: "process_flow_step sv t w = handle_retry sv t f after rc w1"
    using process_executes[OF assms(1)] assms(2) by (auto simp: handle_outcome_def)
  show ?thesis
  proof (cases "sint (st_attempt_no t) < rc_max rc")
    case True
    let ?p = "patch_next_retry_at (w_clock w + millis (int (max after (rc_delay_ms rc))))
      (patch_attempt_no (st_attempt_no t + 1) (patch_status ''WAITING'' patch_new))"
    have "after_delay 1 n now = Inr (now + millis (int n))" if "n < 2 ^ 63" "now + millis (int n) \<le> max_utc" for n now
      using that by (simp add: after_delay_def Let_def)
    note delay = this[OF assms(4,5)]
    have "handle_retry sv t f after rc w1 = (Inr (), snd (patch_step (st_id t) ?p w1))"
      using True rows(4) delay patch_step_reads[OF rows(1), of ?p]
      by (simp add: handle_retry_def schedule_retry_def bindE_def)
    then show ?thesis
      using run True rows patch_step_reads[OF rows(1), of ?p] next_attempt[OF True assms(3)] tables same
      by (auto simp: stp.get_modify set_step_columns_def apply_step_patch_def patch_next_retry_at_def
          patch_attempt_no_def patch_status_def patch_new_def unwrap_or_def step_write)
  next
    case False
    let ?p = "patch_finished_at (w_clock w) (patch_error
                 (JObject [(''attempts'', jint (sint (st_attempt_no t))), (''error'', JString ''max_retries_exceeded'')])
                 (patch_status ''FAILED'' patch_new))"
    let ?w2 = "snd (patch_step (st_id t) ?p w1)"
    have f2: "flow_of (fl_id f) ?w2 = Some f" "w_clock ?w2 = w_clock w" "session_of (fl_session_id f) ?w2 = Some s"
      using rows patch_step_reads[OF rows(1), of ?p] by simp_all
    have "handle_retry sv t f after rc w1 = exec_finalize_flow sv (fl_id f) None ''FAILED'' ?w2"
      using False rows(4) patch_step_reads[OF rows(1), of ?p]
      by (simp add: handle_retry_def bindE_def del: if_not_P)
    also have "\<dots> = (Inr (), ended_world sv f ''FAILED'' ?w2)"
      using exec_finalize_run[OF f2(1)] by simp
    finally have "process_flow_step sv t w = (Inr (), ended_world sv f ''FAILED'' ?w2)" using run by simp
    moreover have w3: "ended_world sv f ''FAILED'' ?w2 = snd (update_flow (fl_id f) (ended ''FAILED'') ?w2)"
      by (simp add: ended_world_def Let_def eq_ignore_ascii_case_def to_ascii_lowercase_def)
    moreover note ended = ended_world_rows[OF f2(1), where sv = sv and status = "''FAILED''"]
    have w2: "?w2 = modify_step (st_id t) (set_step_columns (apply_step_patch (w_clock w) ?p t)) w1"
      using patch_step_reads[OF rows(1), of ?p] rows(4) by simp
    have t': "step_of (st_id t) ?w2 = Some (set_step_columns (apply_step_patch (w_clock w) ?p t) t)"
      using rows by (simp only: w2) (simp add: stp.get_modify)
    have others: "step_of k ?w2 = step_of k w" if "k \<noteq> st_id t" for k
      using that same by (simp only: w2) (simp add: stp.get_modify)
    have flows: "flow_of k (ended_world sv f ''FAILED'' ?w2) = flow_of k w" if "k \<noteq> fl_id f" for k
      using that same update_flow_reads[OF f2(1), of "ended ''FAILED''"]
      by (simp only: w3) (simp add: flw.get_modify w2)
    have frame: "w_sessions (ended_world sv f ''FAILED'' ?w2) = w_sessions w"
      "(ended_world sv f ''FAILED'' ?w2)\<lparr>w_steps := [], w_flows := []\<rparr> = w1\<lparr>w_steps := [], w_flows := []\<rparr>"
      using update_flow_reads[OF f2(1), of "ended ''FAILED''"] tables
      by (simp_all only: w3) (simp_all add: flow_write w2 step_write)
    ultimately show ?thesis
      using False f2(2) t' others flows frame ended
      by (intro exI[of _ "ended_world sv f ''FAILED'' ?w2"] exI[of _ "set_step_columns (apply_step_patch (w_clock w) ?p t) t"])
         (simp add: set_step_columns_def apply_step_patch_def patch_finished_at_def patch_error_def patch_status_def
            patch_new_def unwrap_or_def)
  qed
qed

text \<open>
  When the transition of a completed system step leads to a terminal name, the flow ends at
  once, even where the flow has a step of that name, which is never entered; the context of the
  flow stays what it was before the step, so that the output of the step is only in its row; and
  the session takes the final status of this flow, completion time included, whatever the states
  of its other flows.
\<close>

lemma executor_ends_flow:
  assumes "executes sv t f s (Done output None) w w1" "get_flow (sv_registry sv) (fl_flow_type f) = Some fd"
    and "resolve_transition fd (st_step_type t) None False = Some target" "is_terminal_step target"
  shows "\<exists>w' t' s'. process_flow_step sv t w = (Inr (), w') \<and> map st_id (w_steps w') = map st_id (w_steps w)
    \<and> step_of (st_id t) w' = Some t' \<and> st_status t' = ''COMPLETED'' \<and> st_output t' = Some (unwrap_or result_done output)
    \<and> flow_of (fl_id f) w' = Some (f\<lparr>fl_status := terminal_status_for target, fl_current_step := None,
        fl_updated_at := w_clock w\<rparr>)
    \<and> session_of (fl_session_id f) w' = Some s' \<and> se_status s' = terminal_status_for target
    \<and> se_completed_at s' = Some (w_clock w)"
proof -
  note rows = executes_rows[OF assms(1)]
  let ?p = "patch_finished_at (w_clock w) (patch_clear_error (patch_output (unwrap_or result_done output)
               (patch_status ''COMPLETED'' patch_new)))"
  let ?w2 = "snd (patch_step (st_id t) ?p w1)" and ?status = "terminal_status_for target"
  note patched = patch_step_reads[OF rows(1), of ?p]
  have two: "flow_of (fl_id f) ?w2 = Some f" "w_clock ?w2 = w_clock w" "session_of (fl_session_id f) ?w2 = Some s"
    using rows patched by simp_all
  have ids: "map st_id (w_steps ?w2) = map st_id (w_steps w)"
    using patched flow_tables_reads(5)[OF executes_tables[OF assms(1)]]
    by (simp add: modify_step_def update_where_def comp_def)
  have sid: "se_id s = fl_session_id f" using rows(3) by (rule sess.get_key)
  have "process_flow_step sv t w = handle_done sv t f s output None fd None w1"
    using process_executes[OF assms(1)] assms(2) by (auto simp: handle_outcome_def)
  also have "\<dots> = exec_finalize_flow sv (fl_id f) (Some (fl_session_id f)) ?status ?w2"
    using patched rows(4) assms(3,4) by (simp add: handle_done_def advance_to_next_step_def sid Let_def bindE_def)
  also have "\<dots> = (Inr (), snd (update_session_status (fl_session_id f) ?status (Some (w_clock w))
      (ended_world sv f ?status ?w2)))"
    using exec_finalize_run[OF two(1)] two(2) by simp
  finally show ?thesis
    using ended_world_rows[OF two(1)] two ids patched rows
    by (simp add: update_session_status_def sess.get_modify stp.get_modify set_step_columns_def apply_step_patch_def
        patch_finished_at_def patch_clear_error_def patch_output_def patch_status_def patch_new_def unwrap_or_def)
qed

text \<open>
  A system step that answers that it waits is marked waiting and keeps its retry time, which
  has come: it is claimable again at once, so the worker executes it again in its next turns
  rather than when what it waits for happens.
\<close>

lemma waiting_step_claimable_again:
  assumes "executes sv t f s (Waiting a) w w1" "st_actor t = ''SYSTEM''" "st_next_retry_at t = Some due" "due \<le> w_clock w"
  shows "\<exists>w' t'. process_flow_step sv t w = (Inr (), w') \<and> step_of (st_id t) w' = Some t'
    \<and> claimable (w_clock w') t' \<and> st_attempt_no t' = st_attempt_no t"
proof -
  note rows = executes_rows[OF assms(1)]
  show ?thesis
    using waiting_runs[OF assms(1)] assms(2-4) rows patch_step_reads[OF rows(1), of "patch_status ''WAITING'' patch_new"]
    by (simp add: stp.get_modify set_step_columns_def apply_step_patch_def patch_status_def patch_new_def
        unwrap_or_def claimable_def)
qed

text \<open>
  C9: the two ways to end a flow agree on sessions with one flow. When the service finalizes the
  only flow of a session, with one of the final statuses, it leaves the same world as the executor
  does, session status, completion times and user metadata included.
\<close>

theorem finalizers_agree:
  assumes "flow_of (fl_id f) w = Some f" "\<forall>g\<in>set (w_flows w). fl_session_id g = fl_session_id f \<longrightarrow> g = f"
    and "status \<in> {''COMPLETED'', ''FAILED'', ''CLOSED''}"
  shows "snd (finalize_flow sv f status w)
    = snd (exec_finalize_flow sv (fl_id f) (Some (fl_session_id f)) status w)"
proof -
  let ?f = "f\<lparr>fl_status := status, fl_current_step := None, fl_updated_at := w_clock w\<rparr>"
  obtain w2 where upd: "update_flow (fl_id f) (ended status) w = (Inr ?f, w2)"
    using update_flow_reads[OF assms(1), of "ended status"]
    by (simp add: ended_def no_flow_update_def apply_flow_update_def unwrap_or_def)
  have kyc: "write_completed_kyc_metadata sv ?f = write_completed_kyc_metadata sv f"
    by (simp add: write_completed_kyc_metadata_def completed_kyc_entry_def cong: option.case_cong)
  let ?w3 = "ended_world sv f status w"
  have flows: "w_flows ?w3 = update_where (\<lambda>r. fl_id r = fl_id f) (set_flow_columns ?f) (w_flows w)"
    using flow_tables_reads(6)[OF ended_world_tables] update_flow_reads[OF assms(1), of "ended status"] upd
    by (simp add: modify_flow_def)
  have "f \<in> set (w_flows w)" using assms(1) by (auto simp: flow_of_def dest: select_first_Some)
  then have "set (filter (\<lambda>r. fl_session_id r = fl_session_id f) (w_flows w)) = {f}" using assms(2) by auto
  moreover have "set_flow_columns ?f f = ?f" by (simp add: set_flow_columns_def)
  ultimately have flows: "set (flows_of_session (fl_session_id f) ?w3) = {?f}"
    unfolding flows_of_session_def flows set_sort by (subst set_filter_update_where) auto
  then have only: "\<forall>g\<in>set (flows_of_session (fl_session_id f) ?w3). fl_status g = status"
      "flows_of_session (fl_session_id f) ?w3 \<noteq> []" by auto
  obtain st where "st = status"
    "refresh_session_status (fl_session_id f) ?w3
      = update_session_status (fl_session_id f) st (if st = ''RUNNING'' then None else Some (w_clock ?w3)) ?w3"
    using refresh_writes[of "fl_session_id f" ?w3] only assms(3) by (auto simp: flow_statuses_def)
  then have refresh: "refresh_session_status (fl_session_id f) ?w3
      = (Inr (), snd (update_session_status (fl_session_id f) status (Some (w_clock w)) ?w3))"
    using assms(3) ended_world_rows(5)[OF assms(1)] by (auto simp: update_session_status_def)
  have written: "(if eq_ignore_ascii_case status ''COMPLETED'' then write_completed_kyc_metadata sv f else ret ()) w2
      = (Inr (), ?w3)"
    using upd kyc_write_ok[of sv f w2] by (auto simp: ended_world_def prod_eq_iff)
  show ?thesis
    using upd kyc written refresh exec_finalize_run[OF assms(1), of sv "Some (fl_session_id f)" status]
    unfolding finalize_flow_def ended_def[symmetric]
    by (cases "eq_ignore_ascii_case status ''COMPLETED''") (simp_all add: bindE_def)
qed

section \<open>Witnesses\<close>

text \<open>
  A flow whose last transition leads to a step with a terminal name, next to a step that waits
  and one that retries; the flow \<open>f2\<close> of the same session is still running.
\<close>

definition exec_flow :: "builtin dynamic_flow" where
  "exec_flow = \<lparr>df_flow_type = ''OTP'', df_human_id = ''otp'', df_feature = None,
     df_steps = [example_proxy ''run'' System NoopAction, example_proxy ''wait'' System WaitAction,
       example_proxy ''again'' System RetryAction, example_proxy ''COMPLETE'' System NoopAction],
     df_initial_step = ''run'',
     df_transitions = [(''run'', example_transition ''COMPLETE''), (''wait'', example_transition ''run''),
       (''again'', example_transition ''run''), (''COMPLETE'', example_transition ''COMPLETED'')]\<rparr>"

definition exec_server :: server where
  "exec_server = example_server\<lparr>sv_registry := \<lparr>fr_steps = [], fr_flows = [(''OTP'', exec_flow)],
     fr_flow_definitions = [], fr_sessions = []\<rparr>\<rparr>"

definition exec_step :: "string \<Rightarrow> string \<Rightarrow> i32 \<Rightarrow> step_row" where
  "exec_step i t n = new_step_row 0 \<lparr>tci_id = i, tci_human_id = i, tci_flow_id = ''f1'', tci_step_type = t,
     tci_actor = ''SYSTEM'', tci_status = ''WAITING'', tci_attempt_no = n, tci_input = None, tci_output = None,
     tci_error = None, tci_next_retry_at = Some 5, tci_finished_at = None\<rparr>"

definition exec_flow_row :: flow_row where
  "exec_flow_row = new_flow_row 0 \<lparr>fci_id = ''f1'', fci_human_id = ''k1.o'', fci_session_id = ''s1'', fci_flow_type = ''OTP'',
     fci_status = ''RUNNING'', fci_current_step = Some ''run'', fci_step_ids = JArray [], fci_context = JObject []\<rparr>"

definition exec_world :: world where
  "exec_world = (empty_world 10)\<lparr>w_users := [example_user], w_sessions := [victim_session],
     w_flows := [exec_flow_row, exec_flow_row\<lparr>fl_id := ''f2'', fl_human_id := ''k1.p''\<rparr>],
     w_steps := [exec_step ''a'' ''run'' 1, exec_step ''b'' ''wait'' 1, exec_step ''c'' ''again'' 1, exec_step ''d'' ''again'' 3]\<rparr>"

lemmas exec_rows = exec_world_def exec_step_def exec_flow_row_def victim_session_def new_step_row_def new_flow_row_def
  new_session_row_def

lemma exec_world_ok: "tables_ok exec_world"
  by (simp add: tables_ok_def exec_rows)

lemma exec_retry_config: "retry_config_for exec_server ft t = default_retry_config"
  by (simp add: retry_config_for_def exec_server_def get_flow_definition_def unwrap_or_def)

lemma exec_retry_max: "\<forall>ft t. rc_max (retry_config_for exec_server ft t) < 2 ^ 31"
    "\<forall>ft t. rc_max (retry_config_for exec_server ft t) \<le> 3"
  by (simp_all add: exec_retry_config default_retry_config_def default_max_retries_def)

theorem worker_bounds_attempts_witness:
  "list_all (\<lambda>r. sint (st_attempt_no r) \<le> 3) (w_steps (snd (snd (worker_run exec_server (replicate 40 1000000) exec_world))))"
proof -
  have start: "\<forall>r\<in>set (w_steps exec_world). sint (st_attempt_no r) \<le> max 1 3" by (simp add: exec_rows)
  obtain claimed alive w' where run: "worker_run exec_server (replicate 40 1000000) exec_world = (claimed, alive, w')"
    by (metis prod.collapse)
  from worker_bounds_attempts[OF exec_retry_max(2) _ exec_world_ok start run] run show ?thesis by (simp add: list_all_iff)
qed

lemma exec_reads:
  "step_of ''a'' exec_world = Some (exec_step ''a'' ''run'' 1)" "step_of ''b'' exec_world = Some (exec_step ''b'' ''wait'' 1)"
  "step_of ''d'' exec_world = Some (exec_step ''d'' ''again'' 3)"
  "flow_of ''f1'' exec_world = Some exec_flow_row" "session_of ''s1'' exec_world = Some victim_session"
  by (simp_all add: step_of_def flow_of_def session_of_def exec_rows)

lemma exec_row_keys:
  "st_id (exec_step i t n) = i" "st_flow_id (exec_step i t n) = ''f1''" "fl_session_id exec_flow_row = ''s1''"
  "fl_id exec_flow_row = ''f1''" "fl_flow_type exec_flow_row = ''OTP''" "st_step_type (exec_step i t n) = t"
  by (simp_all add: exec_step_def exec_flow_row_def new_step_row_def new_flow_row_def)

lemmas exec_defs = exec_server_def exec_flow_def get_flow_def example_proxy_def proxy_execute_def context_with_config_def
  exec_noop_def exec_wait_def exec_retry_def parse_step_config_def exec_context_def runtime_services_def bindE_def

lemma exec_outcomes:
  "st_step_type t = ''run'' \<Longrightarrow> outcome_of exec_server t exec_flow_row s w = Some (Inr (Done None None), w)"
  "st_step_type t = ''wait'' \<Longrightarrow> outcome_of exec_server t exec_flow_row s w = Some (Inr (Waiting EndUser), w)"
  "st_step_type t = ''again'' \<Longrightarrow> outcome_of exec_server t exec_flow_row s w = Some (Inr (Retry 1000), w)"
  by (simp_all add: outcome_of_def exec_row_keys exec_defs)

lemma exec_executes:
  "executes exec_server (exec_step ''a'' ''run'' 1) exec_flow_row victim_session (Done None None) exec_world exec_world"
  "executes exec_server (exec_step ''b'' ''wait'' 1) exec_flow_row victim_session (Waiting EndUser) exec_world exec_world"
  "executes exec_server (exec_step ''d'' ''again'' 3) exec_flow_row victim_session (Retry 1000) exec_world exec_world"
  by (simp_all add: executes_def exec_outcomes exec_row_keys exec_reads)

lemma exec_flow_found: "get_flow (sv_registry exec_server) (fl_flow_type exec_flow_row) = Some exec_flow"
  by (simp add: get_flow_def exec_server_def exec_row_keys)

text \<open>The step \<open>COMPLETE\<close> of the flow is skipped, and the session completed while \<open>f2\<close> is running.\<close>

lemma executor_ends_flow_witness:
  "\<exists>w' s'. process_flow_step exec_server (exec_step ''a'' ''run'' 1) exec_world = (Inr (), w')
    \<and> has_flow_step exec_flow ''COMPLETE'' \<and> map st_id (w_steps w') = map st_id (w_steps exec_world)
    \<and> session_of ''s1'' w' = Some s' \<and> se_status s' = ''COMPLETED''"
proof -
  have "resolve_transition exec_flow (st_step_type (exec_step ''a'' ''run'' 1)) None False = Some ''COMPLETE''"
    by (simp add: resolve_transition_def exec_flow_def exec_row_keys example_transition_def)
  moreover have "is_terminal_step ''COMPLETE''" by (simp add: is_terminal_step_def)
  moreover have "terminal_status_for ''COMPLETE'' = ''COMPLETED''" by code_simp
  moreover have "has_flow_step exec_flow ''COMPLETE''" by (simp add: has_flow_step_def exec_flow_def example_proxy_def)
  ultimately show ?thesis
    using executor_ends_flow[OF exec_executes(1) exec_flow_found] by (auto simp: exec_row_keys)
qed

lemma waiting_step_claimable_again_witness:
  "\<exists>w' t'. process_flow_step exec_server (exec_step ''b'' ''wait'' 1) exec_world = (Inr (), w')
    \<and> step_of ''b'' w' = Some t' \<and> claimable (w_clock w') t'"
proof -
  have "st_actor (exec_step ''b'' ''wait'' 1) = ''SYSTEM''" "st_next_retry_at (exec_step ''b'' ''wait'' 1) = Some 5"
    "5 \<le> w_clock exec_world" by (simp_all add: exec_rows empty_world_def)
  from waiting_step_claimable_again[OF exec_executes(2) this] show ?thesis unfolding exec_row_keys by blast
qed

theorem retry_schedules_or_fails_witness:
  "\<exists>w' t'. process_flow_step exec_server (exec_step ''d'' ''again'' 3) exec_world = (Inr (), w')
    \<and> step_of ''d'' w' = Some t' \<and> st_status t' = ''FAILED'' \<and> w_sessions w' = w_sessions exec_world"
proof -
  have "st_attempt_no (exec_step ''d'' ''again'' 3) = 3" by (simp add: exec_step_def new_step_row_def)
  moreover have "w_clock exec_world = 10" by (simp add: exec_world_def empty_world_def)
  ultimately show ?thesis
    using retry_schedules_or_fails[OF exec_executes(3) refl]
    by (auto simp: exec_retry_config default_retry_config_def default_max_retries_def default_delay_ms_def exec_row_keys
        millis_def max_utc_def)
qed

theorem finalizers_agree_witness:
  "snd (finalize_flow example_server victim_flow ''CLOSED'' service_world)
    = snd (exec_finalize_flow example_server ''f1'' (Some ''s1'') ''CLOSED'' service_world)"
  using finalizers_agree[OF example_flow_row, of "''CLOSED''" example_server]
  by (simp add: service_world_def victim_flow_def new_flow_row_def)

theorem worker_no_starvation_witness: "''b'' \<in> set (fst (worker_run exec_server [0] (exec_world\<lparr>w_steps := [exec_step ''b'' ''wait'' 1]\<rparr>)))"
proof -
  let ?r = "exec_step ''b'' ''wait'' 1" and ?w = "exec_world\<lparr>w_steps := [exec_step ''b'' ''wait'' 1]\<rparr>"
  let ?c = "?r\<lparr>st_status := ''RUNNING'', st_updated_at := 10\<rparr>" and ?w1 = "exec_world\<lparr>w_steps := [?r\<lparr>st_status := ''RUNNING'', st_updated_at := 10\<rparr>]\<rparr>"
  have ok: "tables_ok ?w" by (simp add: tables_ok_def exec_rows)
  have due: "claimable (w_clock ?w) ?r" by (simp add: exec_rows claimable_def empty_world_def)
  have claim: "claim_next_system_step ?w = (Inr (Some ?c), ?w1)"
    using due by (simp add: claim_next_system_step_def modify_step_def update_where_def exec_row_keys exec_world_def empty_world_def)
  have runs: "executes exec_server ?c exec_flow_row victim_session (Waiting EndUser) ?w1 ?w1"
    using exec_reads(4,5)
    by (simp add: executes_def exec_outcomes exec_row_keys step_of_def flow_of_def session_of_def select_first_def)
  obtain w' where "worker_turn exec_server ?w = (Inr (Some ?c), w')"
    using worker_turn_ok[OF claim waiting_runs[OF runs]] by (rule that)
  then have run: "worker_run exec_server [0] ?w = ([''b''], True, time_passes 0 w')" by (simp add: exec_row_keys)
  have "st_id ?r \<in> set [''b'']"
    by (rule worker_no_starvation[OF ok _ due _ exec_retry_max(1) run]) (simp_all add: exec_rows empty_world_def)
  then show ?thesis unfolding run by (simp add: exec_row_keys)
qed

end
