(* ===== verification/Device_Repo.thy ===== *)
theory Device_Repo
  imports User_Repo
begin

text \<open>
  The device repository (\<open>backend-repository/src/pg/device.rs\<close>): device bindings, the
  recovery binding with its idempotency record, and the old-device policy of a recovery case.
  The unique indexes of the migrations are on the device id, the key thumbprint and the record
  id. JSON printing and SHA-256 are parameters.
\<close>

section \<open>Parameters and requests\<close>

record device_ext =
  dx_to_string :: "jmap \<Rightarrow> string + string"
  dx_sha256_hex :: "string \<Rightarrow> string"

text \<open>What the code relies on: SHA-256 in hexadecimal has 64 characters.\<close>

definition sha256_hex_length :: "device_ext \<Rightarrow> bool" where
  "sha256_hex_length dx \<longleftrightarrow> (\<forall>s. length (dx_sha256_hex dx s) = 64)"

type_synonym kc_any_map = "(string \<times> json) list"

record bind_request =
  br_user_id :: string
  br_device_id :: string
  br_jkt :: string
  br_public_jwk :: kc_any_map

record recovery_request =
  rr_realm :: string
  rr_target_user_id :: string
  rr_approval_revision :: int
  rr_device_id :: string
  rr_jkt :: string
  rr_public_jwk :: kc_any_map
  rr_binding_operation_id :: string

definition sorted_jwk :: "kc_any_map \<Rightarrow> jmap" where
  "sorted_jwk m = fold (\<lambda>(k, v). obj_insert k v) m []"

definition device_record_id :: "device_ext \<Rightarrow> string \<Rightarrow> string \<Rightarrow> string" where
  "device_record_id dx device_id public_jwk = device_id @ '':'' @ dx_sha256_hex dx public_jwk"

section \<open>Lookups and status\<close>

definition opt_eq :: "'a option \<Rightarrow> 'a \<Rightarrow> bool" where
  "opt_eq f x = (case f of None \<Rightarrow> True | Some a \<Rightarrow> x = a)"

definition lookup_device :: "string option \<Rightarrow> string option \<Rightarrow> device_row option db" where
  "lookup_device device_id jkt w =
     (if device_id = None \<and> jkt = None then (Inr None, w)
      else
        (case select_first (\<lambda>r. opt_eq device_id (dv_device_id r) \<and> opt_eq jkt (dv_jkt r)) (w_devices w) of
           None \<Rightarrow> (Inr None, w)
         | Some row \<Rightarrow>
             (Inr (Some (row\<lparr>dv_last_seen_at := Some (w_clock w)\<rparr>)),
              w\<lparr>w_devices := update_where
                  (\<lambda>r. dv_device_id r = dv_device_id row \<and> dv_public_jwk r = dv_public_jwk row)
                  (\<lambda>r. r\<lparr>dv_last_seen_at := Some (w_clock w)\<rparr>) (w_devices w)\<rparr>)))"

definition list_user_devices :: "string \<Rightarrow> bool \<Rightarrow> device_row list db" where
  "list_user_devices uid include_revoked =
     gets (\<lambda>w. filter (\<lambda>r. dv_user_id r = uid \<and> (include_revoked \<or> dv_status r = ''ACTIVE'')) (w_devices w))"

definition get_user_device :: "string \<Rightarrow> string \<Rightarrow> device_row option db" where
  "get_user_device uid device_id =
     gets (\<lambda>w. select_first (\<lambda>r. dv_user_id r = uid \<and> dv_device_id r = device_id) (w_devices w))"

definition set_status :: "string \<Rightarrow> string \<Rightarrow> world \<Rightarrow> world" where
  "set_status record_id status w =
     w\<lparr>w_devices := update_where (\<lambda>r. dv_record_id r = record_id) (\<lambda>r. r\<lparr>dv_status := status\<rparr>) (w_devices w)\<rparr>"

definition update_device_status :: "string \<Rightarrow> string \<Rightarrow> device_row db" where
  "update_device_status record_id status w =
     (let w' = set_status record_id status w
      in (ok_or (Diesel ''Record not found'')
            (select_first (\<lambda>r. dv_record_id r = record_id) (w_devices w')), w'))"

definition find_device_binding :: "string \<Rightarrow> string \<Rightarrow> (string \<times> string) option db" where
  "find_device_binding device_id jkt =
     gets (\<lambda>w. map_option (\<lambda>r. (dv_user_id r, dv_record_id r))
       (select_first (\<lambda>r. dv_device_id r = device_id \<and> dv_jkt r = jkt) (w_devices w)))"

definition count_user_devices :: "string \<Rightarrow> int db" where
  "count_user_devices uid = gets (\<lambda>w. int (length (filter (\<lambda>r. dv_user_id r = uid) (w_devices w))))"

section \<open>Binding a device\<close>

definition device_clash :: "device_row \<Rightarrow> device_row \<Rightarrow> bool" where
  "device_clash r r' \<longleftrightarrow>
     dv_device_id r = dv_device_id r' \<or> dv_jkt r = dv_jkt r' \<or> dv_record_id r = dv_record_id r'"

definition same_device_or_key :: "string \<Rightarrow> string \<Rightarrow> device_row \<Rightarrow> bool" where
  "same_device_or_key device_id jkt r \<longleftrightarrow> dv_device_id r = device_id \<or> dv_jkt r = jkt"

definition new_device_row ::
    "device_ext \<Rightarrow> instant \<Rightarrow> string \<Rightarrow> string \<Rightarrow> string \<Rightarrow> string \<Rightarrow> device_row" where
  "new_device_row dx now uid device_id jkt jwk =
     \<lparr>dv_device_id = device_id, dv_user_id = uid, dv_jkt = jkt, dv_public_jwk = jwk,
      dv_record_id = device_record_id dx device_id jwk, dv_status = ''ACTIVE'', dv_label = None,
      dv_created_at = now, dv_last_seen_at = Some now\<rparr>"

definition already_bound :: app_error where
  "already_bound = conflict ''DEVICE_ALREADY_BOUND'' ''Device already bound to a different user''"

definition bind_device :: "device_ext \<Rightarrow> bind_request \<Rightarrow> string db" where
  "bind_device dx req w =
     (case map_errR (\<lambda>e. Server (''Failed to serialize public_jwk for device bind: '' @ e))
             (dx_to_string dx (sorted_jwk (br_public_jwk req))) of
        Inl e \<Rightarrow> (Inl e, w)
      | Inr jwk \<Rightarrow>
          (let record_id = device_record_id dx (br_device_id req) jwk;
               new = new_device_row dx (w_clock w) (br_user_id req) (br_device_id req) (br_jkt req) jwk;
               first_match = select_first (same_device_or_key (br_device_id req) (br_jkt req)) (w_devices w)
           in if (case first_match of Some r \<Rightarrow> dv_user_id r \<noteq> br_user_id req | None \<Rightarrow> False)
              then (Inl already_bound, w)
              else
                (case insert_unique device_clash new (w_devices w) of
                   Some t \<Rightarrow> if user_of (br_user_id req) w = None then (Inl fk_error, w)
                              else (Inr record_id, w\<lparr>w_devices := t\<rparr>)
                 | None \<Rightarrow>
                     (case first_match of
                        Some winner \<Rightarrow>
                          if dv_user_id winner \<noteq> br_user_id req then (Inl already_bound, w)
                          else (Inr (dv_record_id winner), w)
                      | None \<Rightarrow> (Inr record_id, w)))))"

section \<open>Recovery binding\<close>

definition find_recovery_idempotency :: "string \<Rightarrow> recovery_row option db" where
  "find_recovery_idempotency key = gets (\<lambda>w. select_first (\<lambda>r. ri_idempotency_key r = key) (w_recovery w))"

definition find_recovery_bind_by_case :: "string \<Rightarrow> recovery_row option db" where
  "find_recovery_bind_by_case case_id =
     gets (\<lambda>w. select_first (\<lambda>r. ri_recovery_case_id r = case_id) (w_recovery w))"

definition same_operation :: "string \<Rightarrow> string \<Rightarrow> recovery_row \<Rightarrow> bool" where
  "same_operation key op_id r \<longleftrightarrow> ri_idempotency_key r = key \<or> ri_binding_operation_id r = op_id"

definition idempotency_conflict :: app_error where
  "idempotency_conflict =
     conflict ''IDEMPOTENCY_CONFLICT'' ''Idempotency key or operation ID reused with modified payload''"

text \<open>What a recorded operation answers to a request with this hash and case.\<close>

definition replay_recovery :: "string \<Rightarrow> string \<Rightarrow> recovery_row \<Rightarrow> app_error + string" where
  "replay_recovery case_id hash r =
     (if ri_request_hash r = hash \<and> ri_recovery_case_id r = case_id then Inr (ri_device_record_id r)
      else Inl idempotency_conflict)"

definition insert_do_nothing :: "('r \<Rightarrow> 'r \<Rightarrow> bool) \<Rightarrow> 'r \<Rightarrow> 'r list \<Rightarrow> 'r list" where
  "insert_do_nothing clash r t = (case insert_unique clash r t of None \<Rightarrow> t | Some t' \<Rightarrow> t')"

text \<open>Step 5 of the binding: the row that now holds the device id or the key must be the approved one.\<close>

definition check_credential :: "recovery_request \<Rightarrow> string \<Rightarrow> string \<Rightarrow> device_row \<Rightarrow> app_error + unit" where
  "check_credential req jwk record_id winner =
     (if dv_user_id winner \<noteq> rr_target_user_id req then Inl already_bound
      else if \<not> (dv_device_id winner = rr_device_id req \<and> dv_jkt winner = rr_jkt req
                 \<and> dv_public_jwk winner = jwk \<and> dv_record_id winner = record_id)
      then Inl (conflict ''DEVICE_CREDENTIAL_MISMATCH'' ''A device row collides on device id or JKT but does not match the approved recovery credential'')
      else if dv_status winner \<noteq> ''ACTIVE''
      then Inl (conflict ''DEVICE_NOT_ACTIVE'' ''The approved recovery credential exists but is not in an active state'')
      else Inr ())"

definition new_recovery_row ::
    "instant \<Rightarrow> string \<Rightarrow> string \<Rightarrow> string \<Rightarrow> recovery_request \<Rightarrow> string \<Rightarrow> recovery_row" where
  "new_recovery_row now key case_id hash req record_id =
     \<lparr>ri_idempotency_key = key, ri_recovery_case_id = case_id, ri_request_hash = hash,
      ri_bound_user_id = rr_target_user_id req, ri_device_id = rr_device_id req,
      ri_binding_operation_id = rr_binding_operation_id req, ri_device_record_id = record_id,
      ri_created_at = now\<rparr>"

definition record_recovery ::
    "string \<Rightarrow> string \<Rightarrow> string \<Rightarrow> recovery_request \<Rightarrow> string \<Rightarrow> string db" where
  "record_recovery key case_id hash req record_id w =
     (let row = new_recovery_row (w_clock w) key case_id hash req record_id;
          t = insert_do_nothing (\<lambda>r r'. ri_idempotency_key r = ri_idempotency_key r'
                \<or> ri_binding_operation_id r = ri_binding_operation_id r') row (w_recovery w);
          w' = w\<lparr>w_recovery := t\<rparr>
      in case select_first (same_operation key (rr_binding_operation_id req)) t of
           Some winner \<Rightarrow> (replay_recovery case_id hash winner, w')
         | None \<Rightarrow> (Inr record_id, w'))"

definition bind_new_recovery ::
    "device_ext \<Rightarrow> string \<Rightarrow> string \<Rightarrow> string \<Rightarrow> recovery_request \<Rightarrow> string db" where
  "bind_new_recovery dx key case_id hash req =
     bindE (gets (\<lambda>w. filter (\<lambda>u. us_user_id u = rr_target_user_id req \<and> us_realm u = rr_realm req) (w_users w)))
       (\<lambda>users.
     if users = [] then throw (bad_request ''USER_NOT_FOUND'' ''Target user does not exist in the specified realm'')
     else
     bindE (lift_res (map_errR (\<lambda>e. Server (''Failed to serialize public_jwk for recovery device bind: '' @ e))
             (dx_to_string dx (sorted_jwk (rr_public_jwk req))))) (\<lambda>jwk.
     let record_id = device_record_id dx (rr_device_id req) jwk;
         matching = same_device_or_key (rr_device_id req) (rr_jkt req) in
     bindE (gets (\<lambda>w. select_first matching (w_devices w))) (\<lambda>conflicting.
     if (case conflicting of Some r \<Rightarrow> dv_user_id r \<noteq> rr_target_user_id req | None \<Rightarrow> False)
     then throw already_bound
     else
     bindE (\<lambda>w. (Inr (), w\<lparr>w_devices := insert_do_nothing device_clash
              (new_device_row dx (w_clock w) (rr_target_user_id req) (rr_device_id req) (rr_jkt req) jwk)
              (w_devices w)\<rparr>)) (\<lambda>_.
     bindE (gets (\<lambda>w. select_first matching (w_devices w))) (\<lambda>winner.
     bindE (lift_res (case winner of None \<Rightarrow> Inr () | Some r \<Rightarrow> check_credential req jwk record_id r)) (\<lambda>_.
     record_recovery key case_id hash req record_id))))))"

definition bind_recovery_device ::
    "device_ext \<Rightarrow> string \<Rightarrow> string \<Rightarrow> string \<Rightarrow> recovery_request \<Rightarrow> string db" where
  "bind_recovery_device dx key case_id hash req = transaction
     (bindE (gets (\<lambda>w. select_first (same_operation key (rr_binding_operation_id req)) (w_recovery w)))
        (\<lambda>existing.
           case existing of
             Some r \<Rightarrow> lift_res (replay_recovery case_id hash r)
           | None \<Rightarrow> bind_new_recovery dx key case_id hash req))"

section \<open>The old-device policy\<close>

record policy_outcome =
  po_already_applied :: bool
  po_affected :: "string list"

definition find_old_device_policy_idempotency :: "string \<Rightarrow> policy_row option db" where
  "find_old_device_policy_idempotency key =
     gets (\<lambda>w. select_first (\<lambda>r. op_idempotency_key r = key) (w_policies w))"

definition deserialize_affected :: "json \<Rightarrow> string list" where
  "deserialize_affected v =
     (case as_array v of
        None \<Rightarrow> []
      | Some arr \<Rightarrow> concat (map (\<lambda>x. case as_str x of None \<Rightarrow> [] | Some s \<Rightarrow> [s]) arr))"

definition replay_policy ::
    "bool \<Rightarrow> app_error \<Rightarrow> string \<Rightarrow> string \<Rightarrow> string \<Rightarrow> string \<Rightarrow> policy_row \<Rightarrow> app_error + policy_outcome" where
  "replay_policy applied err case_id hash target policy r =
     (if op_request_hash r = hash \<and> op_recovery_case_id r = case_id \<and> op_target_user_id r = target
         \<and> op_policy r = policy
      then Inr \<lparr>po_already_applied = applied, po_affected = deserialize_affected (op_affected_device_ids r)\<rparr>
      else Inl err)"

definition policy_status :: "string \<Rightarrow> string" where
  "policy_status policy = (if policy = ''QUARANTINE_ALL_PREVIOUS'' then ''QUARANTINED'' else ''REVOKED'')"

definition policy_targets :: "string \<Rightarrow> string list \<Rightarrow> world \<Rightarrow> device_row list" where
  "policy_targets target except w =
     filter (\<lambda>d. dv_device_id d \<notin> set except) (filter (\<lambda>d. dv_user_id d = target) (w_devices w))"

definition apply_to_device :: "string \<Rightarrow> device_row \<Rightarrow> world \<Rightarrow> world" where
  "apply_to_device new_status d w = (if dv_status d \<noteq> new_status then set_status (dv_record_id d) new_status w else w)"

definition new_policy_row ::
    "instant \<Rightarrow> string \<Rightarrow> string \<Rightarrow> string \<Rightarrow> string \<Rightarrow> string \<Rightarrow> string list \<Rightarrow> policy_row" where
  "new_policy_row now key case_id hash target policy affected =
     \<lparr>op_idempotency_key = key, op_recovery_case_id = case_id, op_request_hash = hash,
      op_target_user_id = target, op_policy = policy,
      op_affected_device_ids = JArray (map JString affected), op_created_at = now\<rparr>"

definition apply_new_policy ::
    "string \<Rightarrow> string \<Rightarrow> string \<Rightarrow> string \<Rightarrow> string \<Rightarrow> string list \<Rightarrow> policy_outcome db" where
  "apply_new_policy key case_id hash target policy except w =
     (if user_of target w = None then (Inl (bad_request ''USER_NOT_FOUND'' ''Target user does not exist''), w)
      else
        (let targets = policy_targets target except w;
             w1 = fold (apply_to_device (policy_status policy)) targets w;
             affected = map dv_record_id targets;
             row = new_policy_row (w_clock w) key case_id hash target policy affected;
             t = insert_do_nothing (\<lambda>r r'. op_idempotency_key r = op_idempotency_key r'
                   \<or> op_recovery_case_id r = op_recovery_case_id r') row (w_policies w1);
             w2 = w1\<lparr>w_policies := t\<rparr>
         in case select_first (\<lambda>r. op_recovery_case_id r = case_id) t of
              Some winner \<Rightarrow>
                (replay_policy False (conflict ''POLICY_ALREADY_APPLIED''
                   ''Concurrent finalization applied a different policy for this recovery case'')
                   case_id hash target policy winner, w2)
            | None \<Rightarrow> (Inr \<lparr>po_already_applied = False, po_affected = affected\<rparr>, w2)))"

definition apply_old_device_policy ::
    "string \<Rightarrow> string \<Rightarrow> string \<Rightarrow> string \<Rightarrow> string \<Rightarrow> string list \<Rightarrow> policy_outcome db" where
  "apply_old_device_policy key case_id hash target policy except = transaction
     (bindE (find_old_device_policy_idempotency key) (\<lambda>existing.
        case existing of
          Some r \<Rightarrow> lift_res (replay_policy True (conflict ''IDEMPOTENCY_CONFLICT''
                       ''Idempotency key reused with modified payload'') case_id hash target policy r)
        | None \<Rightarrow>
            bindE (gets (\<lambda>w. select_first (\<lambda>r. op_recovery_case_id r = case_id) (w_policies w))) (\<lambda>applied.
              case applied of
                Some r \<Rightarrow> lift_res (replay_policy True (conflict ''POLICY_ALREADY_APPLIED''
                   ''Old-device policy already applied for this recovery case with a different payload'')
                   case_id hash target policy r)
              | None \<Rightarrow> apply_new_policy key case_id hash target policy except)))"

section \<open>Lemmas\<close>

definition devices_ok :: "device_ext \<Rightarrow> world \<Rightarrow> bool" where
  "devices_ok dx w \<longleftrightarrow>
     distinct (map dv_device_id (w_devices w)) \<and> distinct (map dv_jkt (w_devices w))
     \<and> distinct (map dv_record_id (w_devices w))
     \<and> (\<forall>r\<in>set (w_devices w). dv_record_id r = device_record_id dx (dv_device_id r) (dv_public_jwk r))"

lemma device_record_id_inj:
  "sha256_hex_length dx \<Longrightarrow> device_record_id dx d k = device_record_id dx d' k' \<Longrightarrow> d = d'"
  by (auto simp: device_record_id_def sha256_hex_length_def append_eq_append_conv)

lemma device_clash_iff:
  assumes "devices_ok dx w" "sha256_hex_length dx" "r \<in> set (w_devices w)"
  shows "device_clash (new_device_row dx now uid did jkt jwk) r \<longleftrightarrow> same_device_or_key did jkt r"
  using assms device_record_id_inj[OF assms(2)]
  by (auto simp: devices_ok_def device_clash_def new_device_row_def same_device_or_key_def)

lemma insert_device:
  assumes "devices_ok dx w" "sha256_hex_length dx"
  shows "insert_unique device_clash (new_device_row dx now uid did jkt jwk) (w_devices w)
    = (if select_first (same_device_or_key did jkt) (w_devices w) = None
       then Some (w_devices w @ [new_device_row dx now uid did jkt jwk]) else None)"
  using device_clash_iff[OF assms] by (auto simp: insert_unique_def select_first_None)

lemma devices_ok_append:
  assumes "devices_ok dx w" "sha256_hex_length dx"
    "select_first (same_device_or_key did jkt) (w_devices w) = None"
  shows "devices_ok dx (w\<lparr>w_devices := w_devices w @ [new_device_row dx now uid did jkt jwk]\<rparr>)"
proof -
  have "\<forall>r\<in>set (w_devices w). \<not> device_clash (new_device_row dx now uid did jkt jwk) r"
    using device_clash_iff[OF assms(1,2)] assms(3) by (auto simp: select_first_None)
  then have "\<forall>r\<in>set (w_devices w). dv_device_id r \<noteq> did \<and> dv_jkt r \<noteq> jkt
      \<and> dv_record_id r \<noteq> device_record_id dx did jwk"
    by (auto simp: device_clash_def new_device_row_def)
  then show ?thesis
    using assms(1) by (auto simp: devices_ok_def new_device_row_def)
qed

lemma replay_same: "replay_recovery c h r = Inr rid \<longleftrightarrow>
    ri_request_hash r = h \<and> ri_recovery_case_id r = c \<and> rid = ri_device_record_id r"
  by (auto simp: replay_recovery_def)

lemma deserialize_strings [simp]: "deserialize_affected (JArray (map JString xs)) = xs"
  by (induction xs) (auto simp: deserialize_affected_def)

text \<open>The effect of the policy loop: the listed devices get the status, no other row changes.\<close>

lemma apply_to_device_fields:
  "w_users (apply_to_device s d w) = w_users w" "w_policies (apply_to_device s d w) = w_policies w"
  "w_recovery (apply_to_device s d w) = w_recovery w" "w_clock (apply_to_device s d w) = w_clock w"
  by (simp_all add: apply_to_device_def set_status_def)

lemma fold_apply_fields [simp]:
  "w_users (fold (apply_to_device s) ds w) = w_users w"
  "w_policies (fold (apply_to_device s) ds w) = w_policies w"
  "w_recovery (fold (apply_to_device s) ds w) = w_recovery w"
  "w_clock (fold (apply_to_device s) ds w) = w_clock w"
  by (induction ds arbitrary: w) (simp_all add: apply_to_device_fields)

lemma apply_to_device_rows:
  assumes "distinct (map dv_record_id (w_devices w))" "d \<in> set (w_devices w)"
  shows "w_devices (apply_to_device s d w)
    = map (\<lambda>r. if dv_record_id r = dv_record_id d then r\<lparr>dv_status := s\<rparr> else r) (w_devices w)"
proof (cases "dv_status d = s")
  case True
  have "r\<lparr>dv_status := s\<rparr> = r" if "r \<in> set (w_devices w)" "dv_record_id r = dv_record_id d" for r
  proof -
    have "r = d" using assms that by (auto simp: distinct_map inj_on_def)
    with True show ?thesis by simp
  qed
  with True show ?thesis
    by (auto simp: apply_to_device_def intro!: map_idI[symmetric])
qed (simp add: apply_to_device_def set_status_def update_where_def)

lemma fold_apply_rows:
  assumes "distinct (map dv_record_id (w_devices w))" "set ds \<subseteq> set (w_devices w)" "distinct (map dv_record_id ds)"
  shows "w_devices (fold (apply_to_device s) ds w)
    = map (\<lambda>r. if dv_record_id r \<in> dv_record_id ` set ds then r\<lparr>dv_status := s\<rparr> else r) (w_devices w)"
  using assms
proof (induction ds arbitrary: w)
  case (Cons d ds)
  let ?w1 = "apply_to_device s d w"
  have rows: "w_devices ?w1 = map (\<lambda>r. if dv_record_id r = dv_record_id d then r\<lparr>dv_status := s\<rparr> else r) (w_devices w)"
    using Cons.prems by (intro apply_to_device_rows) auto
  have "map dv_record_id (w_devices ?w1) = map dv_record_id (w_devices w)"
    by (simp add: rows)
  moreover have "x \<in> set (w_devices ?w1)" if "x \<in> set ds" for x
  proof -
    have "dv_record_id x \<noteq> dv_record_id d" "x \<in> set (w_devices w)"
      using Cons.prems that by (auto intro: rev_image_eqI)
    then show ?thesis unfolding rows set_map by (intro rev_image_eqI[of x]) auto
  qed
  ultimately have "w_devices (fold (apply_to_device s) ds ?w1)
      = map (\<lambda>r. if dv_record_id r \<in> dv_record_id ` set ds then r\<lparr>dv_status := s\<rparr> else r) (w_devices ?w1)"
    using Cons.IH[of ?w1] Cons.prems by (simp add: subset_iff)
  then show ?case by (simp add: rows)
qed simp

lemma bind_device_cases:
  assumes "devices_ok dx w" "sha256_hex_length dx" "bind_device dx req w = (Inr rid, w')"
  obtains (existing) r where
      "select_first (same_device_or_key (br_device_id req) (br_jkt req)) (w_devices w) = Some r"
      "dv_user_id r = br_user_id req" "rid = dv_record_id r" "w' = w"
  | (fresh) jwk where
      "select_first (same_device_or_key (br_device_id req) (br_jkt req)) (w_devices w) = None"
      "w' = w\<lparr>w_devices := w_devices w
         @ [new_device_row dx (w_clock w) (br_user_id req) (br_device_id req) (br_jkt req) jwk]\<rparr>"
      "rid = device_record_id dx (br_device_id req) jwk"
  using assms(3)
  by (auto simp: bind_device_def Let_def insert_device[OF assms(1,2)] split: sum.splits option.splits if_splits)

lemma record_recovery_new:
  assumes "select_first (same_operation key (rr_binding_operation_id req)) (w_recovery w) = None"
  shows "record_recovery key c h req rid w
    = (Inr rid, w\<lparr>w_recovery := w_recovery w @ [new_recovery_row (w_clock w) key c h req rid]\<rparr>)"
proof -
  have "insert_unique (\<lambda>r r'. ri_idempotency_key r = ri_idempotency_key r'
          \<or> ri_binding_operation_id r = ri_binding_operation_id r')
        (new_recovery_row (w_clock w) key c h req rid) (w_recovery w)
      = Some (w_recovery w @ [new_recovery_row (w_clock w) key c h req rid])"
    using assms by (auto simp: insert_unique_def select_first_None same_operation_def new_recovery_row_def)
  then show ?thesis
    using assms by (simp add: record_recovery_def Let_def insert_do_nothing_def same_operation_def
        new_recovery_row_def replay_recovery_def)
qed

text \<open>A successful new recovery binding, read off its steps.\<close>

lemma bind_new_recovery_ok:
  assumes "devices_ok dx w" "sha256_hex_length dx"
    and "select_first (same_operation key (rr_binding_operation_id req)) (w_recovery w) = None"
    and "bind_new_recovery dx key c h req w = (Inr rid, w')"
  obtains r row where "r \<in> set (w_devices w')" "dv_user_id r = rr_target_user_id req"
    "dv_device_id r = rr_device_id req" "dv_jkt r = rr_jkt req" "dv_record_id r = rid" "dv_status r = ''ACTIVE''"
    "w_devices w' = w_devices w \<or> w_devices w' = w_devices w @ [r]"
    "w_recovery w' = w_recovery w @ [row]" "ri_idempotency_key row = key" "ri_recovery_case_id row = c"
    "ri_request_hash row = h" "ri_bound_user_id row = rr_target_user_id req" "ri_device_id row = rr_device_id req"
    "ri_binding_operation_id row = rr_binding_operation_id req" "ri_device_record_id row = rid"
    "devices_ok dx w'" "w_users w' = w_users w" "w_policies w' = w_policies w"
proof -
  let ?m = "same_device_or_key (rr_device_id req) (rr_jkt req)"
  from assms(4) obtain jwk where
    jwk: "dx_to_string dx (sorted_jwk (rr_public_jwk req)) = Inr jwk"
    by (auto simp: bind_new_recovery_def bindE_def split: if_splits sum.splits prod.splits)
  let ?rid = "device_record_id dx (rr_device_id req) jwk"
  let ?new = "new_device_row dx (w_clock w) (rr_target_user_id req) (rr_device_id req) (rr_jkt req) jwk"
  let ?ds = "insert_do_nothing device_clash ?new (w_devices w)"
  let ?w1 = "w\<lparr>w_devices := ?ds\<rparr>"
  have ds: "?ds = (if select_first ?m (w_devices w) = None then w_devices w @ [?new] else w_devices w)"
    by (simp add: insert_do_nothing_def insert_device[OF assms(1,2)])
  have self: "?m ?new" by (simp add: same_device_or_key_def new_device_row_def)
  obtain r where r: "select_first ?m ?ds = Some r"
    using self by (cases "select_first ?m (w_devices w)") (auto simp: ds)
  from assms(4) jwk r have cred: "check_credential req jwk ?rid r = Inr ()"
    and rec: "record_recovery key c h req ?rid ?w1 = (Inr rid, w')"
    by (auto simp: bind_new_recovery_def bindE_def Let_def split: if_splits sum.splits prod.splits option.splits)
  have rin: "r \<in> set ?ds" using r select_first_Some by fast
  have new_r: "r = ?new" if "select_first ?m (w_devices w) = None"
    using r self that by (simp add: ds)
  let ?row = "new_recovery_row (w_clock w) key c h req ?rid"
  have row: "w' = ?w1\<lparr>w_recovery := w_recovery w @ [?row]\<rparr>" "rid = ?rid"
    using rec record_recovery_new[of key req ?w1 c h ?rid] assms(3) by auto
  show thesis
  proof (rule that[of r ?row])
    show "w_devices w' = w_devices w \<or> w_devices w' = w_devices w @ [r]"
      using new_r by (auto simp: row(1) ds)
    have "devices_ok dx ?w1"
      using assms(1) devices_ok_append[OF assms(1,2)] by (auto simp: ds)
    then show "devices_ok dx w'" by (simp add: row(1) devices_ok_def)
  qed (use row rin cred in \<open>simp_all add: check_credential_def new_recovery_row_def split: if_splits\<close>)
qed

lemma new_policy_row_sel [simp]:
  "op_idempotency_key (new_policy_row t k c h u p a) = k" "op_recovery_case_id (new_policy_row t k c h u p a) = c"
  "op_request_hash (new_policy_row t k c h u p a) = h" "op_target_user_id (new_policy_row t k c h u p a) = u"
  "op_policy (new_policy_row t k c h u p a) = p"
  "deserialize_affected (op_affected_device_ids (new_policy_row t k c h u p a)) = a"
  by (simp_all add: new_policy_row_def)

lemma apply_new_policy_ok:
  assumes "select_first (\<lambda>r. op_idempotency_key r = key) (w_policies w) = None"
    "select_first (\<lambda>r. op_recovery_case_id r = c) (w_policies w) = None" "user_of target w \<noteq> None"
  shows "apply_new_policy key c h target policy except w
    = (Inr \<lparr>po_already_applied = False, po_affected = map dv_record_id (policy_targets target except w)\<rparr>,
       (fold (apply_to_device (policy_status policy)) (policy_targets target except w) w)
         \<lparr>w_policies := w_policies w @ [new_policy_row (w_clock w) key c h target policy
             (map dv_record_id (policy_targets target except w))]\<rparr>)"
proof -
  let ?row = "new_policy_row (w_clock w) key c h target policy (map dv_record_id (policy_targets target except w))"
  have "insert_unique (\<lambda>r r'. op_idempotency_key r = op_idempotency_key r'
      \<or> op_recovery_case_id r = op_recovery_case_id r') ?row (w_policies w) = Some (w_policies w @ [?row])"
    using assms(1,2) by (auto simp: insert_unique_def select_first_None)
  then show ?thesis
    using assms by (simp add: apply_new_policy_def Let_def insert_do_nothing_def replay_policy_def)
qed

lemma policy_targets_rows:
  assumes "devices_ok dx w"
  shows "w_devices (fold (apply_to_device s) (policy_targets target except w) w)
    = map (\<lambda>d. if dv_user_id d = target \<and> dv_device_id d \<notin> set except
                then d\<lparr>dv_status := s\<rparr> else d) (w_devices w)"
proof -
  let ?ts = "policy_targets target except w"
  have dist: "distinct (map dv_record_id (w_devices w))" using assms by (simp add: devices_ok_def)
  then have "w_devices (fold (apply_to_device s) ?ts w)
      = map (\<lambda>r. if dv_record_id r \<in> dv_record_id ` set ?ts then r\<lparr>dv_status := s\<rparr> else r) (w_devices w)"
    by (intro fold_apply_rows) (auto simp: policy_targets_def distinct_map_filter)
  also have "\<dots> = map (\<lambda>d. if dv_user_id d = target \<and> dv_device_id d \<notin> set except
                then d\<lparr>dv_status := s\<rparr> else d) (w_devices w)"
    using dist by (intro map_cong) (auto simp: policy_targets_def distinct_map inj_on_def)
  finally show ?thesis .
qed

lemma apply_old_device_policy_new:
  assumes "apply_old_device_policy key c h target policy except w = (Inr out, w')" "\<not> po_already_applied out"
  shows "select_first (\<lambda>r. op_idempotency_key r = key) (w_policies w) = None"
    "select_first (\<lambda>r. op_recovery_case_id r = c) (w_policies w) = None"
    "w' = (fold (apply_to_device (policy_status policy)) (policy_targets target except w) w)
         \<lparr>w_policies := w_policies w @ [new_policy_row (w_clock w) key c h target policy
             (map dv_record_id (policy_targets target except w))]\<rparr>"
    "out = \<lparr>po_already_applied = False, po_affected = map dv_record_id (policy_targets target except w)\<rparr>"
proof -
  show none: "select_first (\<lambda>r. op_idempotency_key r = key) (w_policies w) = None"
    "select_first (\<lambda>r. op_recovery_case_id r = c) (w_policies w) = None"
    using assms
    by (auto simp: apply_old_device_policy_def transaction_ok bindE_def replay_policy_def
        find_old_device_policy_idempotency_def split: option.splits if_splits)
  then have new: "apply_new_policy key c h target policy except w = (Inr out, w')"
    using assms by (auto simp: apply_old_device_policy_def transaction_ok bindE_def
        find_old_device_policy_idempotency_def)
  then have user: "user_of target w \<noteq> None"
    by (auto simp: apply_new_policy_def split: if_splits)
  show "w' = (fold (apply_to_device (policy_status policy)) (policy_targets target except w) w)
         \<lparr>w_policies := w_policies w @ [new_policy_row (w_clock w) key c h target policy
             (map dv_record_id (policy_targets target except w))]\<rparr>"
    "out = \<lparr>po_already_applied = False, po_affected = map dv_record_id (policy_targets target except w)\<rparr>"
    using new apply_new_policy_ok[OF none user, of h policy except] by auto
qed

lemma apply_old_device_policy_devices:
  assumes "devices_ok dx w" "apply_old_device_policy key c h target policy except w = (Inr out, w')"
    "\<not> po_already_applied out"
  shows "w_devices w' = map (\<lambda>d. if dv_user_id d = target \<and> dv_device_id d \<notin> set except
                                 then d\<lparr>dv_status := policy_status policy\<rparr> else d) (w_devices w)"
  using policy_targets_rows[OF assms(1)] by (simp add: apply_old_device_policy_new(3)[OF assms(2,3)])

section \<open>Properties\<close>

text \<open>
  C25: a device binding never changes an existing row. Every outcome keeps the unique keys and the shape of the
  record ids. A binding that fails changes nothing. One that succeeds either appends one active row for
  the requesting user, device and key, or changes nothing, and the record it reports exists and belongs to the
  requesting user. Where the first row with the device id or the key belongs to another user, the binding fails.
\<close>

theorem bind_device_never_rebinds:
  assumes "devices_ok dx w" "sha256_hex_length dx" "bind_device dx req w = (x, w')"
  shows "devices_ok dx w'
    \<and> (\<forall>e. x = Inl e \<longrightarrow> w' = w)
    \<and> (\<forall>rid. x = Inr rid \<longrightarrow>
        (\<exists>r\<in>set (w_devices w'). dv_record_id r = rid \<and> dv_user_id r = br_user_id req
           \<and> (dv_device_id r = br_device_id req \<or> dv_jkt r = br_jkt req))
        \<and> (w' = w \<or> (\<exists>r. w' = w\<lparr>w_devices := w_devices w @ [r]\<rparr> \<and> dv_user_id r = br_user_id req
             \<and> dv_device_id r = br_device_id req \<and> dv_jkt r = br_jkt req \<and> dv_status r = ''ACTIVE'')))
    \<and> (\<forall>r. select_first (same_device_or_key (br_device_id req) (br_jkt req)) (w_devices w) = Some r
         \<and> dv_user_id r \<noteq> br_user_id req \<longrightarrow> (\<exists>e. x = Inl e))"
proof (cases x)
  case (Inl e)
  with assms(3) have "w' = w"
    by (auto simp: bind_device_def Let_def split: sum.splits option.splits if_splits)
  with Inl assms(1) show ?thesis by simp
next
  case (Inr rid)
  from assms(1,2) assms(3)[unfolded Inr] show ?thesis
  proof (cases rule: bind_device_cases)
    case (existing r)
    then show ?thesis
      using Inr assms(1) select_first_Some by (fastforce simp: same_device_or_key_def)
  next
    case (fresh jwk)
    then show ?thesis
      using Inr devices_ok_append[OF assms(1,2)] by (auto simp: new_device_row_def)
  qed
qed

text \<open>
  A recovery binding that was not recorded before and succeeds has left exactly the
  approved credential: an active device of the target user with the requested device id and
  key and the reported record id; no other device row changed, and the operation is recorded
  with its key, case, hash and user.
\<close>

lemma bind_recovery_device_exact:
  assumes "devices_ok dx w" "sha256_hex_length dx"
    and "select_first (same_operation key (rr_binding_operation_id req)) (w_recovery w) = None"
    and "bind_recovery_device dx key c h req w = (Inr rid, w')"
  shows "\<exists>r row. r \<in> set (w_devices w') \<and> dv_user_id r = rr_target_user_id req
    \<and> dv_device_id r = rr_device_id req \<and> dv_jkt r = rr_jkt req \<and> dv_record_id r = rid
    \<and> dv_status r = ''ACTIVE''
    \<and> (w_devices w' = w_devices w \<or> w_devices w' = w_devices w @ [r])
    \<and> w_recovery w' = w_recovery w @ [row] \<and> ri_idempotency_key row = key
    \<and> ri_recovery_case_id row = c \<and> ri_request_hash row = h \<and> ri_device_record_id row = rid
    \<and> ri_bound_user_id row = rr_target_user_id req \<and> ri_device_id row = rr_device_id req"
proof -
  have "bind_new_recovery dx key c h req w = (Inr rid, w')"
    using assms(3,4) by (simp add: bind_recovery_device_def transaction_ok bindE_def)
  from bind_new_recovery_ok[OF assms(1-3) this] show ?thesis by metis
qed

text \<open>
  The recovery binding is atomic and idempotent: a call that fails changes nothing, and
  repeating a call that succeeded returns the same record id and changes nothing.
\<close>

lemma bind_recovery_device_idempotent:
  assumes "devices_ok dx w" "sha256_hex_length dx" "bind_recovery_device dx key c h req w = (res, w')"
  shows "(case res of Inl e \<Rightarrow> w' = w | Inr rid \<Rightarrow> bind_recovery_device dx key c h req w' = (Inr rid, w'))"
proof (cases res)
  case (Inl e)
  with assms(3) show ?thesis by (auto simp: bind_recovery_device_def dest: transaction_error)
next
  case (Inr rid)
  note run = assms(3)[unfolded Inr]
  show ?thesis
  proof (cases "select_first (same_operation key (rr_binding_operation_id req)) (w_recovery w)")
    case (Some r)
    with run have "w' = w" by (simp add: bind_recovery_device_def transaction_ok bindE_def)
    with run Inr show ?thesis by simp
  next
    case None
    with run have "bind_new_recovery dx key c h req w = (Inr rid, w')"
      by (simp add: bind_recovery_device_def transaction_ok bindE_def)
    then obtain row where row: "w_recovery w' = w_recovery w @ [row]" "ri_idempotency_key row = key"
      "ri_recovery_case_id row = c" "ri_request_hash row = h" "ri_device_record_id row = rid"
      using bind_new_recovery_ok[OF assms(1,2) None] by metis
    then have "select_first (same_operation key (rr_binding_operation_id req)) (w_recovery w') = Some row"
      using None by (simp add: same_operation_def)
    with row Inr show ?thesis
      by (simp add: bind_recovery_device_def transaction_ok bindE_def replay_same)
  qed
qed

text \<open>
  Applying the old-device policy of a recovery case for the first time gives every device
  of the target user outside the exception list the policy's status and leaves every other
  device as it was; it reports exactly the record ids of these devices. From then on the case
  is closed: repeating the call changes nothing and reports the same devices, and a call for
  the same case with another hash, user or policy fails.
\<close>

lemma apply_old_device_policy_once:
  assumes "devices_ok dx w" "apply_old_device_policy key c h target policy except w = (Inr out, w')"
    and "\<not> po_already_applied out"
  shows "w_devices w' = map (\<lambda>d. if dv_user_id d = target \<and> dv_device_id d \<notin> set except
                                 then d\<lparr>dv_status := policy_status policy\<rparr> else d) (w_devices w)
    \<and> po_affected out = map dv_record_id (policy_targets target except w)
    \<and> apply_old_device_policy key c h target policy except w'
        = (Inr \<lparr>po_already_applied = True, po_affected = po_affected out\<rparr>, w')
    \<and> (\<forall>key' h' target' policy' except'. (h', target', policy') \<noteq> (h, target, policy) \<longrightarrow>
         (\<exists>e. apply_old_device_policy key' c h' target' policy' except' w' = (Inl e, w')))"
proof -
  let ?row = "new_policy_row (w_clock w) key c h target policy (map dv_record_id (policy_targets target except w))"
  note none = apply_old_device_policy_new(1,2)[OF assms(2,3)]
    and w' = apply_old_device_policy_new(3)[OF assms(2,3)] and out = apply_old_device_policy_new(4)[OF assms(2,3)]
  have row: "select_first (\<lambda>r. op_idempotency_key r = key) (w_policies w') = Some ?row"
    "select_first (\<lambda>r. op_recovery_case_id r = c) (w_policies w') = Some ?row"
    using none by (simp_all add: w')
  have retry: "apply_old_device_policy key c h target policy except w'
        = (Inr \<lparr>po_already_applied = True, po_affected = po_affected out\<rparr>, w')"
    using row(1) by (simp add: apply_old_device_policy_def transaction_ok bindE_def replay_policy_def
        find_old_device_policy_idempotency_def out)
  have "\<exists>e. apply_old_device_policy key' c h' target' policy' except' w' = (Inl e, w')"
    if "(h', target', policy') \<noteq> (h, target, policy)" for key' h' target' policy' except'
  proof (cases "select_first (\<lambda>r. op_idempotency_key r = key') (w_policies w')")
    case None
    then show ?thesis using that row(2)
      by (auto simp: apply_old_device_policy_def transaction_def bindE_def replay_policy_def
          find_old_device_policy_idempotency_def)
  next
    case (Some r)
    have "r \<in> set (w_policies w')" using Some select_first_Some by fast
    then have "r = ?row \<or> op_recovery_case_id r \<noteq> c"
      using none(2) by (auto simp: w' select_first_None)
    then have "op_recovery_case_id r \<noteq> c
        \<or> op_request_hash r = h \<and> op_target_user_id r = target \<and> op_policy r = policy"
      by (metis new_policy_row_sel(3-5))
    then show ?thesis using that Some
      by (auto simp: apply_old_device_policy_def transaction_def bindE_def replay_policy_def
          find_old_device_policy_idempotency_def)
  qed
  with retry apply_old_device_policy_devices[OF assms] out show ?thesis by simp
qed

section \<open>Witnesses\<close>

definition example_dx :: device_ext where
  "example_dx = \<lparr>dx_to_string = (\<lambda>m. Inr (concat (map fst m))), dx_sha256_hex = (\<lambda>s. replicate 64 (CHR ''0''))\<rparr>"

definition example_bind :: bind_request where
  "example_bind = \<lparr>br_user_id = ''usr_1'', br_device_id = ''d1'', br_jkt = ''j1'', br_public_jwk = [(''kty'', JString ''EC'')]\<rparr>"

definition example_recovery :: recovery_request where
  "example_recovery = \<lparr>rr_realm = ''r'', rr_target_user_id = ''usr_1'', rr_approval_revision = 1,
     rr_device_id = ''d2'', rr_jkt = ''j2'', rr_public_jwk = [(''kty'', JString ''EC'')],
     rr_binding_operation_id = ''op1''\<rparr>"

definition old_device :: device_row where
  "old_device = new_device_row example_dx 0 ''usr_1'' ''d0'' ''j0'' ''kty''"

definition device_world :: world where
  "device_world = (add_user example_user (empty_world 0))\<lparr>w_devices := [old_device]\<rparr>"

lemma example_dx_hash: "sha256_hex_length example_dx"
  by (simp add: sha256_hex_length_def example_dx_def)

lemma device_world_ok: "devices_ok example_dx device_world"
  by (simp add: devices_ok_def device_world_def old_device_def new_device_row_def)

lemma device_world_user: "user_of ''usr_1'' device_world = Some example_user"
  by (simp add: user_of_def device_world_def add_user_def empty_world_def example_user_def)

theorem bind_device_never_rebinds_witness:
  "\<exists>rid w'. bind_device example_dx example_bind device_world = (Inr rid, w') \<and> devices_ok example_dx w'
     \<and> (\<exists>r\<in>set (w_devices w'). dv_record_id r = rid \<and> dv_user_id r = ''usr_1'')"
proof -
  obtain rid w' where b: "bind_device example_dx example_bind device_world = (Inr rid, w')"
    using device_world_user
    by (simp add: bind_device_def example_bind_def sorted_jwk_def example_dx_def Let_def device_world_def
        old_device_def new_device_row_def same_device_or_key_def insert_unique_def device_clash_def
        device_record_id_def)
  from bind_device_never_rebinds[OF device_world_ok example_dx_hash b] b show ?thesis
    by (auto simp: example_bind_def)
qed

lemma example_recovery_runs:
  "\<exists>rid w'. bind_recovery_device example_dx k c h example_recovery device_world = (Inr rid, w')"
proof -
  have "bind_new_recovery example_dx k c h example_recovery device_world \<in> {x. \<exists>rid w'. x = (Inr rid, w')}"
    by (simp add: bind_new_recovery_def bindE_def device_world_def add_user_def empty_world_def
        example_user_def example_recovery_def example_dx_def sorted_jwk_def Let_def old_device_def
        new_device_row_def same_device_or_key_def insert_do_nothing_def insert_unique_def device_clash_def
        device_record_id_def check_credential_def record_recovery_def new_recovery_row_def
        same_operation_def replay_recovery_def)
  then show ?thesis
    by (auto simp: bind_recovery_device_def transaction_ok bindE_def device_world_def add_user_def
        empty_world_def)
qed

lemma bind_recovery_device_exact_witness:
  "\<exists>rid w' r. bind_recovery_device example_dx ''k'' ''case'' ''h'' example_recovery device_world = (Inr rid, w')
     \<and> r \<in> set (w_devices w') \<and> dv_record_id r = rid \<and> dv_status r = ''ACTIVE''"
proof -
  obtain rid w' where b: "bind_recovery_device example_dx ''k'' ''case'' ''h'' example_recovery device_world = (Inr rid, w')"
    using example_recovery_runs by blast
  have "select_first (same_operation ''k'' (rr_binding_operation_id example_recovery)) (w_recovery device_world) = None"
    by (simp add: device_world_def add_user_def empty_world_def)
  from bind_recovery_device_exact[OF device_world_ok example_dx_hash this b] b show ?thesis by blast
qed

lemma bind_recovery_device_idempotent_witness:
  "\<exists>rid w'. bind_recovery_device example_dx ''k'' ''case'' ''h'' example_recovery device_world = (Inr rid, w')
     \<and> bind_recovery_device example_dx ''k'' ''case'' ''h'' example_recovery w' = (Inr rid, w')"
proof -
  obtain rid w' where b: "bind_recovery_device example_dx ''k'' ''case'' ''h'' example_recovery device_world = (Inr rid, w')"
    using example_recovery_runs by blast
  from bind_recovery_device_idempotent[OF device_world_ok example_dx_hash b] b show ?thesis by auto
qed

lemma apply_old_device_policy_once_witness:
  "\<exists>out w'. apply_old_device_policy ''k'' ''case'' ''h'' ''usr_1'' ''REVOKE_ALL_PREVIOUS'' [''d2''] device_world = (Inr out, w')
     \<and> w_devices w' = [old_device\<lparr>dv_status := ''REVOKED''\<rparr>]"
proof -
  have "apply_old_device_policy ''k'' ''case'' ''h'' ''usr_1'' ''REVOKE_ALL_PREVIOUS'' [''d2''] device_world
      \<in> {x. \<exists>out w'. x = (Inr out, w') \<and> \<not> po_already_applied out}"
    using apply_new_policy_ok[of "''k''" device_world "''case''" "''usr_1''" "''h''" "''REVOKE_ALL_PREVIOUS''" "[''d2'']"]
      device_world_user
    by (simp add: apply_old_device_policy_def transaction_ok bindE_def find_old_device_policy_idempotency_def
        device_world_def add_user_def empty_world_def transaction_def)
  then obtain out w' where
    b: "apply_old_device_policy ''k'' ''case'' ''h'' ''usr_1'' ''REVOKE_ALL_PREVIOUS'' [''d2''] device_world = (Inr out, w')"
    "\<not> po_already_applied out" by blast
  from apply_old_device_policy_once[OF device_world_ok b] b show ?thesis
    by (auto simp: device_world_def old_device_def new_device_row_def policy_status_def)
qed

end
