(* ===== verification/Kc_Api.thy ===== *)
theory Kc_Api
  imports Device_Repo
begin

text \<open>
  The Keycloak-facing API (\<open>backend-server/src/api/kc.rs\<close>) and its record conversion
  (\<open>backend-model/src/kc.rs\<close>): users, device enrolment, recovery binding and the old-device
  policy. A handler returns the response it builds, or the error it passes on. The UUID syntax
  check and the printing of JSON values are parameters.
\<close>

section \<open>User records\<close>

record user_record =
  ur_user_id :: string
  ur_realm :: "string option"
  ur_username :: string
  ur_first_name :: "string option"
  ur_last_name :: "string option"
  ur_email :: "string option"
  ur_enabled :: bool
  ur_email_verified :: bool
  ur_created_at :: "instant option"
  ur_attributes :: "kc_map option"
  ur_custom :: "kc_map option"

definition parse_attributes :: "json option \<Rightarrow> kc_map option" where
  "parse_attributes v =
     (case v of
        Some (JObject m) \<Rightarrow>
          Some (fold (\<lambda>(k, x) out. case as_str x of Some s \<Rightarrow> AList.update k s out | None \<Rightarrow> out) m [])
      | _ \<Rightarrow> None)"

definition add_parameter :: "user_data_row \<Rightarrow> jmap \<Rightarrow> jmap" where
  "add_parameter row by_name =
     (let entry = JObject [(''content'', ud_content row), (''data_type'', JString (ud_data_type row))]
      in case map_of by_name (ud_name row) of
           None \<Rightarrow> obj_insert (ud_name row) entry by_name
         | Some (JArray arr) \<Rightarrow> obj_insert (ud_name row) (JArray (arr @ [entry])) by_name
         | Some previous \<Rightarrow> obj_insert (ud_name row) (JArray [previous, entry]) by_name)"

definition build_parameters_json :: "user_data_row list \<Rightarrow> json option" where
  "build_parameters_json rows = (if rows = [] then None else Some (JObject (fold add_parameter rows [])))"

definition build_custom :: "(json \<Rightarrow> string) \<Rightarrow> kc_map option \<Rightarrow> user_data_row list \<Rightarrow> kc_map option" where
  "build_custom print attrs rows =
     (let base = unwrap_or [] attrs;
          custom = (case build_parameters_json rows of
                      None \<Rightarrow> base | Some p \<Rightarrow> AList.update ''parameters'' (print p) base)
      in if custom = [] then None else Some custom)"

definition user_record_of :: "(json \<Rightarrow> string) \<Rightarrow> user_row \<Rightarrow> user_data_row list \<Rightarrow> user_record" where
  "user_record_of print row rows =
     (let attrs = parse_attributes (us_attributes row) in
      \<lparr>ur_user_id = us_user_id row, ur_realm = Some (us_realm row), ur_username = us_username row,
       ur_first_name = us_full_name row,
       ur_last_name = map_option (\<lambda>_. []) (us_full_name row),
       ur_email = us_email row, ur_enabled = (\<not> us_disabled row),
       ur_email_verified = us_email_verified row, ur_created_at = Some (us_created_at row),
       ur_attributes = attrs, ur_custom = build_custom print attrs rows\<rparr>)"

definition load_record :: "(json \<Rightarrow> string) \<Rightarrow> user_row \<Rightarrow> user_record db" where
  "load_record print row = bindE (list_user_data (us_user_id row) True) (\<lambda>rows. ret (user_record_of print row rows))"

fun mapE :: "('a \<Rightarrow> 'b db) \<Rightarrow> 'a list \<Rightarrow> 'b list db" where
  "mapE f [] = ret []"
| "mapE f (x # xs) = bindE (f x) (\<lambda>y. bindE (mapE f xs) (\<lambda>ys. ret (y # ys)))"

section \<open>User handlers\<close>

text \<open>\<open>None\<close> is the 404 response.\<close>

definition create_user_handler :: "cuid_gen \<Rightarrow> (json \<Rightarrow> string) \<Rightarrow> user_upsert \<Rightarrow> user_record db" where
  "create_user_handler cuid print req = bindE (create_user cuid req) (load_record print)"

definition delete_user_handler :: "string \<Rightarrow> bool db" where
  "delete_user_handler uid = bindE (delete_user uid) (\<lambda>n. ret (0 < n))"

definition get_user_handler :: "(json \<Rightarrow> string) \<Rightarrow> string \<Rightarrow> user_record option db" where
  "get_user_handler print uid =
     bindE (get_user uid) (\<lambda>u. case u of
       None \<Rightarrow> ret None | Some row \<Rightarrow> bindE (load_record print row) (\<lambda>d. ret (Some d)))"

definition search_users_handler ::
    "(string \<Rightarrow> string \<Rightarrow> bool) \<Rightarrow> (json \<Rightarrow> string) \<Rightarrow> user_search \<Rightarrow> user_record list db" where
  "search_users_handler ilike print req = bindE (search_users ilike req) (mapE (load_record print))"

definition update_user_handler :: "(json \<Rightarrow> string) \<Rightarrow> string \<Rightarrow> user_upsert \<Rightarrow> user_record option db" where
  "update_user_handler print uid req =
     bindE (update_user uid req) (\<lambda>u. case u of
       None \<Rightarrow> ret None | Some row \<Rightarrow> bindE (load_record print row) (\<lambda>d. ret (Some d)))"

section \<open>Devices\<close>

text \<open>
  The lookup of a device. The reader of the generated status type is a parameter; the columns the
  row does not have (\<open>device_os\<close>, \<open>device_model\<close>, \<open>device_app_version\<close>) are always \<open>None\<close>. As above,
  \<open>None\<close> is the 404 response.
\<close>

record device_record_dto =
  dd_device_id :: string
  dd_jkt :: string
  dd_status :: string
  dd_created_at :: instant
  dd_last_seen_at :: "instant option"
  dd_label :: "string option"
  dd_device_os :: "string option"
  dd_device_model :: "string option"
  dd_device_app_version :: "string option"

definition parse_device_status :: "(string \<Rightarrow> string option) \<Rightarrow> string \<Rightarrow> string" where
  "parse_device_status parse status = unwrap_or ''ACTIVE'' (parse status)"

definition device_record_dto_of :: "(string \<Rightarrow> string option) \<Rightarrow> device_row \<Rightarrow> device_record_dto" where
  "device_record_dto_of parse row =
     \<lparr>dd_device_id = dv_device_id row, dd_jkt = dv_jkt row, dd_status = parse_device_status parse (dv_status row),
      dd_created_at = dv_created_at row, dd_last_seen_at = dv_last_seen_at row, dd_label = dv_label row,
      dd_device_os = None, dd_device_model = None, dd_device_app_version = None\<rparr>"

record device_lookup_response =
  dl_device :: "device_record_dto option"
  dl_found :: bool
  dl_public_jwk :: "jmap option"
  dl_user_id :: "string option"

definition lookup_device_handler ::
    "(string \<Rightarrow> string option) \<Rightarrow> (string \<Rightarrow> jmap option) \<Rightarrow> string option \<Rightarrow> string option \<Rightarrow> device_lookup_response option db" where
  "lookup_device_handler parse parse_jwk device_id jkt =
     bindE (lookup_device device_id jkt) (\<lambda>res. ret (map_option (\<lambda>row.
       \<lparr>dl_device = Some (device_record_dto_of parse row), dl_found = True,
        dl_public_jwk = parse_jwk (dv_public_jwk row), dl_user_id = Some (dv_user_id row)\<rparr>) res))"

section \<open>Enrolment and recovery\<close>

datatype bind_response =
    Bound string string
  | AlreadyBound string string
  | BindBadRequest string string
  | BindConflict string string

definition enrollment_bind :: "device_ext \<Rightarrow> bind_request \<Rightarrow> bind_response db" where
  "enrollment_bind dx req =
     bindE (find_device_binding (br_device_id req) (br_jkt req)) (\<lambda>existing.
       if (case existing of Some (uid, _) \<Rightarrow> uid \<noteq> br_user_id req | None \<Rightarrow> False)
       then ret (BindConflict ''CONFLICT'' ''Device already bound to another user'')
       else bindE (bind_device dx req) (\<lambda>rid. ret (Bound rid (br_user_id req))))"

definition compute_recovery_bind_hash :: "device_ext \<Rightarrow> string \<Rightarrow> recovery_request \<Rightarrow> string" where
  "compute_recovery_bind_hash dx case_id b =
     dx_sha256_hex dx
       (case_id @ ''|'' @ rr_realm b @ ''|'' @ rr_target_user_id b @ ''|'' @ show_int (rr_approval_revision b)
        @ ''|'' @ rr_device_id b @ ''|'' @ rr_jkt b @ ''|'' @ rr_binding_operation_id b @ ''|''
        @ (case dx_to_string dx (sorted_jwk (rr_public_jwk b)) of Inl _ \<Rightarrow> [] | Inr s \<Rightarrow> s))"

record policy_request =
  pr_realm :: string
  pr_approval_revision :: int
  pr_policy :: string
  pr_except_device_ids :: "string list"
  pr_reason :: "string option"

definition compute_old_device_policy_hash :: "device_ext \<Rightarrow> string \<Rightarrow> policy_request \<Rightarrow> string" where
  "compute_old_device_policy_hash dx case_id b =
     dx_sha256_hex dx
       (case_id @ ''|'' @ pr_realm b @ ''|'' @ show_int (pr_approval_revision b) @ ''|'' @ pr_policy b @ ''|''
        @ concat (map (\<lambda>i. i @ '','') (sort (pr_except_device_ids b)))
        @ (case pr_reason b of None \<Rightarrow> [] | Some r \<Rightarrow> ''|'' @ r))"

text \<open>Errors with status 409 and 400 become responses, the others are passed on.\<close>

definition catch_http ::
    "(string \<Rightarrow> string \<Rightarrow> 'a) \<Rightarrow> (string \<Rightarrow> string \<Rightarrow> 'a) \<Rightarrow> 'a db \<Rightarrow> 'a db" where
  "catch_http on409 on400 m w =
     (case m w of
        (Inl (Http key status msg), w') \<Rightarrow>
          if status = 409 then (Inr (on409 key msg), w')
          else if status = 400 then (Inr (on400 key msg), w')
          else (Inl (Http key status msg), w')
      | r \<Rightarrow> r)"

definition recovery_bind ::
    "device_ext \<Rightarrow> (string \<Rightarrow> bool) \<Rightarrow> string \<Rightarrow> string \<Rightarrow> recovery_request \<Rightarrow> bind_response db" where
  "recovery_bind dx uuid_ok key case_id body =
     (if \<not> uuid_ok key
      then ret (BindBadRequest ''BAD_REQUEST'' ''Idempotency-Key header must be a valid UUID string'')
      else if trim (rr_target_user_id body) = []
      then ret (BindBadRequest ''BAD_REQUEST'' ''target_user_id is required'')
      else
        (let hash = compute_recovery_bind_hash dx case_id body in
         bindE (find_recovery_idempotency key) (\<lambda>existing.
           case existing of
             Some r \<Rightarrow>
               if ri_request_hash r = hash \<and> ri_recovery_case_id r = case_id
               then ret (AlreadyBound (ri_device_record_id r) (ri_bound_user_id r))
               else ret (BindConflict ''CONFLICT'' ''Idempotency-Key reused with modified payload or path case ID'')
           | None \<Rightarrow>
               catch_http BindConflict BindBadRequest
                 (bindE (bind_recovery_device dx key case_id hash body) (\<lambda>rid.
                    ret (Bound rid (rr_target_user_id body)))))))"

text \<open>A recovery case is never found.\<close>

definition get_recovery_case :: "string \<Rightarrow> unit option db" where
  "get_recovery_case case_id = ret None"

datatype policy_response =
    PolicyApplied bool string "string list"
  | PolicyBadRequest string string
  | PolicyConflict string string

definition old_devices_policy ::
    "device_ext \<Rightarrow> (string \<Rightarrow> bool) \<Rightarrow> string \<Rightarrow> string \<Rightarrow> policy_request \<Rightarrow> policy_response db" where
  "old_devices_policy dx uuid_ok key case_id body =
     (if \<not> uuid_ok key
      then ret (PolicyBadRequest ''BAD_REQUEST'' ''Idempotency-Key header must be a valid UUID string'')
      else
        bindE (find_recovery_bind_by_case case_id) (\<lambda>bind_record.
          case bind_record of
            None \<Rightarrow> ret (PolicyBadRequest ''RECOVERY_CASE_NOT_BOUND'' ''Recovery case has no completed device binding'')
          | Some b \<Rightarrow>
              (let req = body\<lparr>pr_except_device_ids := [ri_device_id b]\<rparr>;
                   hash = compute_old_device_policy_hash dx case_id req
               in catch_http PolicyConflict PolicyBadRequest
                    (bindE (apply_old_device_policy key case_id hash (ri_bound_user_id b) (pr_policy req)
                              (pr_except_device_ids req)) (\<lambda>out.
                       ret (PolicyApplied (po_already_applied out) (pr_policy body) (po_affected out)))))))"

section \<open>Lemmas\<close>

lemma catch_http_ok:
  assumes "catch_http f g m w = (Inr x, w')" "\<And>k s. x \<noteq> f k s" "\<And>k s. x \<noteq> g k s"
  shows "m w = (Inr x, w')"
  using assms by (auto simp: catch_http_def split: prod.splits sum.splits app_error.splits if_splits)

lemma recovery_bind_ok:
  assumes "recovery_bind dx uuid_ok key c body w = (Inr (Bound rid uid), w')"
  shows "bind_recovery_device dx key c (compute_recovery_bind_hash dx c body) body w = (Inr rid, w')"
    "uid = rr_target_user_id body" "select_first (\<lambda>r. ri_idempotency_key r = key) (w_recovery w) = None"
  using assms
  by (auto simp: recovery_bind_def Let_def find_recovery_idempotency_def bindE_def
      split: if_splits option.splits prod.splits sum.splits dest!: catch_http_ok)

lemma old_devices_policy_ok:
  assumes "old_devices_policy dx uuid_ok key c body w = (Inr (PolicyApplied a p ids), w')"
  obtains b hash where "select_first (\<lambda>r. ri_recovery_case_id r = c) (w_recovery w) = Some b"
    "apply_old_device_policy key c hash (ri_bound_user_id b) (pr_policy body) [ri_device_id b] w
       = (Inr \<lparr>po_already_applied = a, po_affected = ids\<rparr>, w')" "p = pr_policy body"
proof -
  from assms obtain b where b: "select_first (\<lambda>r. ri_recovery_case_id r = c) (w_recovery w) = Some b"
    by (auto simp: old_devices_policy_def Let_def find_recovery_bind_by_case_def bindE_def
        split: if_splits option.splits)
  let ?req = "body\<lparr>pr_except_device_ids := [ri_device_id b]\<rparr>"
  let ?m = "bindE (apply_old_device_policy key c (compute_old_device_policy_hash dx c ?req) (ri_bound_user_id b)
      (pr_policy body) [ri_device_id b]) (\<lambda>out. ret (PolicyApplied (po_already_applied out) (pr_policy body) (po_affected out)))"
  have "catch_http PolicyConflict PolicyBadRequest ?m w = (Inr (PolicyApplied a p ids), w')"
    using assms b by (auto simp: old_devices_policy_def Let_def find_recovery_bind_by_case_def bindE_def
        split: if_splits)
  then have "?m w = (Inr (PolicyApplied a p ids), w')" by (rule catch_http_ok) simp_all
  then have "apply_old_device_policy key c (compute_old_device_policy_hash dx c ?req) (ri_bound_user_id b)
      (pr_policy body) [ri_device_id b] w = (Inr \<lparr>po_already_applied = a, po_affected = ids\<rparr>, w')"
    and "p = pr_policy body"
    by (auto simp: bindE_def split: prod.splits sum.splits)
  with b show thesis by (rule that)
qed

lemma recovery_then_policy:
  assumes "devices_ok dx w" "sha256_hex_length dx"
    and bind: "recovery_bind dx uuid_ok key c body w = (Inr (Bound rid uid), w1)"
    and policy: "old_devices_policy dx uuid_ok key2 c preq w1 = (Inr (PolicyApplied False p ids), w2)"
    and fresh: "select_first (same_operation key (rr_binding_operation_id body)) (w_recovery w) = None"
  obtains b r row where
    "select_first (\<lambda>r. ri_recovery_case_id r = c) (w_recovery w @ [row]) = Some b"
    "ri_recovery_case_id row = c" "ri_bound_user_id row = uid" "ri_device_id row = rr_device_id body"
    "r \<in> set (w_devices w1)" "dv_user_id r = uid" "dv_device_id r = rr_device_id body" "dv_status r = ''ACTIVE''"
    "dv_jkt r = rr_jkt body" "dv_record_id r = rid"
    "w_devices w1 = w_devices w \<or> w_devices w1 = w_devices w @ [r]" "devices_ok dx w1"
    "w_devices w2 = map (\<lambda>d. if dv_user_id d = ri_bound_user_id b \<and> dv_device_id d \<noteq> ri_device_id b
        then d\<lparr>dv_status := policy_status (pr_policy preq)\<rparr> else d) (w_devices w1)"
proof -
  note bound = recovery_bind_ok[OF bind]
  have "bind_new_recovery dx key c (compute_recovery_bind_hash dx c body) body w = (Inr rid, w1)"
    using bound(1) fresh by (simp add: bind_recovery_device_def transaction_ok bindE_def)
  then obtain r row where r: "r \<in> set (w_devices w1)" "dv_user_id r = uid" "dv_device_id r = rr_device_id body"
    "dv_status r = ''ACTIVE''" "dv_jkt r = rr_jkt body" "dv_record_id r = rid"
    "w_devices w1 = w_devices w \<or> w_devices w1 = w_devices w @ [r]"
    and row: "w_recovery w1 = w_recovery w @ [row]" "ri_recovery_case_id row = c" "ri_bound_user_id row = uid"
    "ri_device_id row = rr_device_id body" and ok: "devices_ok dx w1"
    using bind_new_recovery_ok[OF assms(1,2) fresh] bound(2) by metis
  from policy obtain b hash where b: "select_first (\<lambda>r. ri_recovery_case_id r = c) (w_recovery w1) = Some b"
    and run: "apply_old_device_policy key2 c hash (ri_bound_user_id b) (pr_policy preq) [ri_device_id b] w1
       = (Inr \<lparr>po_already_applied = False, po_affected = ids\<rparr>, w2)"
    by (rule old_devices_policy_ok)
  from apply_old_device_policy_devices[OF ok run]
  have "w_devices w2 = map (\<lambda>d. if dv_user_id d = ri_bound_user_id b \<and> dv_device_id d \<noteq> ri_device_id b
        then d\<lparr>dv_status := policy_status (pr_policy preq)\<rparr> else d) (w_devices w1)"
    by simp
  with b r row ok show thesis by (intro that[of row b r]) simp_all
qed

lemma policy_status_inactive: "policy_status p \<noteq> ''ACTIVE''"
  by (simp add: policy_status_def)

section \<open>Properties\<close>

text \<open>
  C24: a recovery end to end. The recovery binding of a case with no earlier binding, followed
  by the case's old-device policy, leaves the recovered user an active device with the approved device id, key and
  record id, as the only active device of that user, whatever exception list the caller sends, and changes no device of
  another user.
\<close>

theorem recovery_leaves_only_new_device:
  assumes "devices_ok dx w" "sha256_hex_length dx"
    and "\<forall>r\<in>set (w_recovery w). ri_recovery_case_id r \<noteq> c"
    and "select_first (same_operation key (rr_binding_operation_id body)) (w_recovery w) = None"
    and "recovery_bind dx uuid_ok key c body w = (Inr (Bound rid uid), w1)"
    and "old_devices_policy dx uuid_ok key2 c preq w1 = (Inr (PolicyApplied False p ids), w2)"
  shows "(\<exists>d\<in>set (w_devices w2). dv_user_id d = uid \<and> uid = rr_target_user_id body \<and> dv_device_id d = rr_device_id body
            \<and> dv_jkt d = rr_jkt body \<and> dv_record_id d = rid \<and> dv_status d = ''ACTIVE'')
    \<and> (\<forall>d\<in>set (w_devices w2). dv_user_id d = uid \<longrightarrow>
            (dv_status d = ''ACTIVE'' \<longleftrightarrow> dv_device_id d = rr_device_id body))
    \<and> (\<forall>d. dv_user_id d \<noteq> uid \<longrightarrow> (d \<in> set (w_devices w2) \<longleftrightarrow> d \<in> set (w_devices w)))"
proof -
  from assms(1,2,5,6,4) obtain b r row where b: "select_first (\<lambda>r. ri_recovery_case_id r = c) (w_recovery w @ [row]) = Some b"
    and row: "ri_recovery_case_id row = c" "ri_bound_user_id row = uid" "ri_device_id row = rr_device_id body"
    and r: "r \<in> set (w_devices w1)" "dv_user_id r = uid" "dv_device_id r = rr_device_id body" "dv_status r = ''ACTIVE''"
      "dv_jkt r = rr_jkt body" "dv_record_id r = rid" "w_devices w1 = w_devices w \<or> w_devices w1 = w_devices w @ [r]" and ok: "devices_ok dx w1"
    and w2: "w_devices w2 = map (\<lambda>d. if dv_user_id d = ri_bound_user_id b \<and> dv_device_id d \<noteq> ri_device_id b
        then d\<lparr>dv_status := policy_status (pr_policy preq)\<rparr> else d) (w_devices w1)"
    by (rule recovery_then_policy)
  have "b = row"
    using b row(1) assms(3) by (cases "select_first (\<lambda>r. ri_recovery_case_id r = c) (w_recovery w)")
      (auto dest: select_first_Some)
  then have set2: "set (w_devices w2) = (\<lambda>d. if dv_user_id d = uid \<and> dv_device_id d \<noteq> rr_device_id body
        then d\<lparr>dv_status := policy_status (pr_policy preq)\<rparr> else d) ` set (w_devices w1)"
    using w2 row by simp
  have only: "d = r" if "d \<in> set (w_devices w1)" "dv_device_id d = rr_device_id body" for d
    using that r(1,3) ok by (auto simp: devices_ok_def distinct_map inj_on_def)
  have "dv_status d = ''ACTIVE'' \<longleftrightarrow> dv_device_id d = rr_device_id body"
    if d: "d \<in> set (w_devices w2)" "dv_user_id d = uid" for d
  proof -
    from d(1) obtain e where e: "e \<in> set (w_devices w1)"
      "d = (if dv_user_id e = uid \<and> dv_device_id e \<noteq> rr_device_id body
            then e\<lparr>dv_status := policy_status (pr_policy preq)\<rparr> else e)"
      unfolding set2 by blast
    show ?thesis
    proof (cases "dv_device_id e = rr_device_id body")
      case True
      with e only[of e] r(4) show ?thesis by simp
    next
      case False
      with e d(2) policy_status_inactive[of "pr_policy preq"] show ?thesis by (simp split: if_splits)
    qed
  qed
  moreover have "d \<in> set (w_devices w2) \<longleftrightarrow> d \<in> set (w_devices w)" if "dv_user_id d \<noteq> uid" for d
    using that r(2,7) unfolding set2 by (auto split: if_splits intro: rev_image_eqI)
  moreover have "r \<in> set (w_devices w2)" using r(1,3) unfolding set2 by (auto intro: rev_image_eqI)
  moreover have "uid = rr_target_user_id body" using recovery_bind_ok(2)[OF assms(5)] .
  ultimately show ?thesis using r(2-6) by blast
qed

text \<open>
  Nothing stops a second recovery binding for a case, under another key and operation id.
  The policy then follows the first record of the case, not the newest: it takes the device
  that was just bound out of use.
\<close>

lemma second_recovery_bind_deactivated:
  assumes "devices_ok dx w" "sha256_hex_length dx"
    and "select_first (\<lambda>r. ri_recovery_case_id r = c) (w_recovery w) = Some b0"
    and "ri_bound_user_id b0 = rr_target_user_id body" "ri_device_id b0 \<noteq> rr_device_id body"
    and "select_first (same_operation key (rr_binding_operation_id body)) (w_recovery w) = None"
    and "recovery_bind dx uuid_ok key c body w = (Inr (Bound rid uid), w1)"
    and "old_devices_policy dx uuid_ok key2 c preq w1 = (Inr (PolicyApplied False p ids), w2)"
  shows "\<exists>d\<in>set (w_devices w2). dv_user_id d = uid \<and> dv_device_id d = rr_device_id body \<and> dv_status d \<noteq> ''ACTIVE''"
proof -
  from assms(1,2,7,8,6) obtain b r row where b: "select_first (\<lambda>r. ri_recovery_case_id r = c) (w_recovery w @ [row]) = Some b"
    and r: "r \<in> set (w_devices w1)" "dv_user_id r = uid" "dv_device_id r = rr_device_id body"
    and w2: "w_devices w2 = map (\<lambda>d. if dv_user_id d = ri_bound_user_id b \<and> dv_device_id d \<noteq> ri_device_id b
        then d\<lparr>dv_status := policy_status (pr_policy preq)\<rparr> else d) (w_devices w1)"
    by (rule recovery_then_policy)
  have "b = b0" using b assms(3) by simp
  moreover have "uid = rr_target_user_id body" using assms(7) by (rule recovery_bind_ok)
  ultimately have "r\<lparr>dv_status := policy_status (pr_policy preq)\<rparr> \<in> set (w_devices w2)"
    using r assms(4,5) unfolding w2 by (auto intro!: rev_image_eqI[OF r(1)])
  then show ?thesis
    using r policy_status_inactive by (intro bexI[of _ "r\<lparr>dv_status := policy_status (pr_policy preq)\<rparr>"]) auto
qed

section \<open>Witnesses\<close>

definition example_policy :: policy_request where
  "example_policy = \<lparr>pr_realm = ''r'', pr_approval_revision = 1, pr_policy = ''REVOKE_ALL_PREVIOUS'',
     pr_except_device_ids = [''d0''], pr_reason = None\<rparr>"

lemma old_devices_policy_applies:
  assumes "select_first (\<lambda>r. ri_recovery_case_id r = c) (w_recovery w) = Some b" "w_policies w = []"
    "user_of (ri_bound_user_id b) w \<noteq> None"
  shows "\<exists>p ids w'. old_devices_policy dx (\<lambda>_. True) key c body w = (Inr (PolicyApplied False p ids), w')"
  using assms
  by (auto simp: old_devices_policy_def bindE_def find_recovery_bind_by_case_def Let_def catch_http_def
      apply_old_device_policy_def transaction_def find_old_device_policy_idempotency_def apply_new_policy_ok)

text \<open>The example binding from a world that may hold earlier recovery records.\<close>

lemma example_recovery_bind:
  assumes "w_recovery w \<in> {[], [row0]}" "ri_idempotency_key row0 = ''k0''" "ri_binding_operation_id row0 = ''op0''"
    "w_devices w = w_devices device_world" "w_users w = w_users device_world" "w_clock w = 0"
  shows "\<exists>rid w1. recovery_bind example_dx (\<lambda>_. True) ''k'' ''case'' example_recovery w = (Inr (Bound rid ''usr_1''), w1)"
proof -
  have t: "trim ''usr_1'' = ''usr_1''" by code_simp
  have none: "select_first (same_operation ''k'' ''op1'') (w_recovery w) = None"
    using assms(1-3) by (auto simp: same_operation_def)
  have "bind_new_recovery example_dx ''k'' c h example_recovery w \<in> {x. \<exists>rid w'. x = (Inr rid, w')}" for c h
    using assms none
    by (simp add: bind_new_recovery_def bindE_def device_world_def add_user_def empty_world_def
        example_user_def example_recovery_def example_dx_def sorted_jwk_def Let_def old_device_def
        new_device_row_def same_device_or_key_def insert_do_nothing_def device_clash_def insert_unique_def
        device_record_id_def check_credential_def record_recovery_new)
  then obtain rid w1 where new: "bind_new_recovery example_dx ''k'' ''case''
      (compute_recovery_bind_hash example_dx ''case'' example_recovery) example_recovery w = (Inr rid, w1)"
    by blast
  have op: "rr_binding_operation_id example_recovery = ''op1''" "rr_target_user_id example_recovery = ''usr_1''"
    by (simp_all add: example_recovery_def)
  have "select_first (\<lambda>r. ri_idempotency_key r = ''k'') (w_recovery w) = None"
    using assms(1,2) by auto
  then have "recovery_bind example_dx (\<lambda>_. True) ''k'' ''case'' example_recovery w = (Inr (Bound rid ''usr_1''), w1)"
    using new none t by (simp add: recovery_bind_def Let_def op bindE_def find_recovery_idempotency_def
        catch_http_def bind_recovery_device_def transaction_def)
  then show ?thesis by blast
qed

lemma example_recovery_policy:
  assumes "w_recovery w \<in> {[], [row0]}" "ri_idempotency_key row0 = ''k0''" "ri_binding_operation_id row0 = ''op0''"
    "ri_bound_user_id row0 = ''usr_1''"
    "w_devices w = w_devices device_world" "w_users w = w_users device_world" "w_clock w = 0" "w_policies w = []"
  shows "\<exists>rid w1 p ids w2.
     recovery_bind example_dx (\<lambda>_. True) ''k'' ''case'' example_recovery w = (Inr (Bound rid ''usr_1''), w1)
     \<and> old_devices_policy example_dx (\<lambda>_. True) ''k2'' ''case'' example_policy w1 = (Inr (PolicyApplied False p ids), w2)"
proof -
  obtain rid w1 where b: "recovery_bind example_dx (\<lambda>_. True) ''k'' ''case'' example_recovery w = (Inr (Bound rid ''usr_1''), w1)"
    using example_recovery_bind[OF assms(1-3,5-7)] by blast
  have none: "select_first (same_operation ''k'' (rr_binding_operation_id example_recovery)) (w_recovery w) = None"
    using assms(1-3) by (auto simp: same_operation_def example_recovery_def)
  have ok: "devices_ok example_dx w"
    using device_world_ok assms(5) by (simp add: devices_ok_def)
  from recovery_bind_ok(1)[OF b] none
  have new: "bind_new_recovery example_dx ''k'' ''case'' (compute_recovery_bind_hash example_dx ''case'' example_recovery)
      example_recovery w = (Inr rid, w1)"
    by (simp add: bind_recovery_device_def transaction_ok bindE_def)
  obtain row where row: "w_recovery w1 = w_recovery w @ [row]" "ri_recovery_case_id row = ''case''"
    "ri_bound_user_id row = ''usr_1''" "w_users w1 = w_users w" "w_policies w1 = []"
    by (rule bind_new_recovery_ok[OF ok example_dx_hash none new])
       (use assms(8) in \<open>auto simp: example_recovery_def\<close>)
  obtain b0 where b0: "select_first (\<lambda>r. ri_recovery_case_id r = ''case'') (w_recovery w1) = Some b0"
    and "ri_bound_user_id b0 = ''usr_1''"
    using row assms(1,4) by (cases "ri_recovery_case_id row0 = ''case''") auto
  moreover have "user_of ''usr_1'' w1 \<noteq> None"
    using device_world_user row(4) assms(6) by (simp add: user_of_def)
  ultimately show ?thesis
    using b old_devices_policy_applies[OF b0 row(5)] by metis
qed

theorem recovery_leaves_only_new_device_witness:
  "\<exists>rid w1 p ids w2.
     recovery_bind example_dx (\<lambda>_. True) ''k'' ''case'' example_recovery device_world = (Inr (Bound rid ''usr_1''), w1)
     \<and> old_devices_policy example_dx (\<lambda>_. True) ''k2'' ''case'' example_policy w1 = (Inr (PolicyApplied False p ids), w2)
     \<and> (\<forall>d\<in>set (w_devices w2). dv_user_id d = ''usr_1'' \<longrightarrow> (dv_status d = ''ACTIVE'' \<longleftrightarrow> dv_device_id d = ''d2''))"
proof -
  let ?row0 = "new_recovery_row 0 ''k0'' ''case'' ''h'' (example_recovery\<lparr>rr_binding_operation_id := ''op0''\<rparr>) ''rid''"
  have empty: "w_recovery device_world = []" "w_policies device_world = []" "w_clock device_world = 0"
    by (simp_all add: device_world_def add_user_def empty_world_def)
  obtain rid w1 p ids w2 where
    b: "recovery_bind example_dx (\<lambda>_. True) ''k'' ''case'' example_recovery device_world = (Inr (Bound rid ''usr_1''), w1)"
    and o: "old_devices_policy example_dx (\<lambda>_. True) ''k2'' ''case'' example_policy w1 = (Inr (PolicyApplied False p ids), w2)"
    using example_recovery_policy[of device_world ?row0] empty
    by (auto simp: new_recovery_row_def example_recovery_def)
  have fresh: "\<forall>r\<in>set (w_recovery device_world). ri_recovery_case_id r \<noteq> ''case''"
    "select_first (same_operation ''k'' (rr_binding_operation_id example_recovery)) (w_recovery device_world) = None"
    using empty by simp_all
  from recovery_leaves_only_new_device[OF device_world_ok example_dx_hash fresh b o] b o show ?thesis
    by (auto simp: example_recovery_def)
qed

lemma second_recovery_bind_deactivated_witness:
  "\<exists>w rid w1 p ids w2.
     recovery_bind example_dx (\<lambda>_. True) ''k'' ''case'' example_recovery w = (Inr (Bound rid ''usr_1''), w1)
     \<and> old_devices_policy example_dx (\<lambda>_. True) ''k2'' ''case'' example_policy w1 = (Inr (PolicyApplied False p ids), w2)
     \<and> (\<exists>d\<in>set (w_devices w2). dv_device_id d = ''d2'' \<and> dv_status d \<noteq> ''ACTIVE'')"
proof -
  let ?row0 = "new_recovery_row 0 ''k0'' ''case'' ''h''
     (example_recovery\<lparr>rr_binding_operation_id := ''op0'', rr_device_id := ''d0''\<rparr>) ''rid''"
  let ?w = "device_world\<lparr>w_recovery := [?row0]\<rparr>"
  have ok: "devices_ok example_dx ?w" using device_world_ok by (simp add: devices_ok_def)
  have "w_policies ?w = []" "w_clock ?w = 0"
    by (simp_all add: device_world_def add_user_def empty_world_def)
  then obtain rid w1 p ids w2 where
    b: "recovery_bind example_dx (\<lambda>_. True) ''k'' ''case'' example_recovery ?w = (Inr (Bound rid ''usr_1''), w1)"
    and o: "old_devices_policy example_dx (\<lambda>_. True) ''k2'' ''case'' example_policy w1 = (Inr (PolicyApplied False p ids), w2)"
    using example_recovery_policy[of ?w ?row0] by (auto simp: new_recovery_row_def example_recovery_def)
  have pre: "select_first (\<lambda>r. ri_recovery_case_id r = ''case'') (w_recovery ?w) = Some ?row0"
    "ri_bound_user_id ?row0 = rr_target_user_id example_recovery" "ri_device_id ?row0 \<noteq> rr_device_id example_recovery"
    "select_first (same_operation ''k'' (rr_binding_operation_id example_recovery)) (w_recovery ?w) = None"
    by (simp_all add: new_recovery_row_def example_recovery_def same_operation_def)
  from second_recovery_bind_deactivated[OF ok example_dx_hash pre b o] b o show ?thesis
    by (fastforce simp: example_recovery_def)
qed

end
