(* ===== verification/Redis.thy ===== *)
theory Redis
  imports Db_Model
begin

text \<open>
  Redis as the server uses it: a parameter of the model, with the commands the code sends. What
  the code relies on is \<open>redis_laws\<close>, the documented behaviour of \<open>SET NX EX\<close>, \<open>GET\<close>, \<open>EXPIRE\<close>
  and \<open>DEL\<close> on keys with an expiry time. A command may fail; then it has or has not taken effect.
\<close>

record 'r redis =
  rd_client :: "string + unit"
  rd_connect :: "'r \<Rightarrow> string + unit"
  rd_set_nx_ex :: "string \<Rightarrow> string \<Rightarrow> int \<Rightarrow> instant \<Rightarrow> 'r \<Rightarrow> (string + bool) \<times> 'r"
  rd_expire :: "string \<Rightarrow> int \<Rightarrow> instant \<Rightarrow> 'r \<Rightarrow> bool \<times> 'r"
  rd_del :: "string \<Rightarrow> instant \<Rightarrow> 'r \<Rightarrow> bool \<times> 'r"
  rd_entry :: "'r \<Rightarrow> string \<Rightarrow> (string \<times> instant) option"

text \<open>A key is live until its expiry time; \<open>GET\<close> returns the value of a live key.\<close>

definition rd_get :: "'r redis \<Rightarrow> string \<Rightarrow> instant \<Rightarrow> 'r \<Rightarrow> string option" where
  "rd_get R k now s =
     (case rd_entry R s k of None \<Rightarrow> None | Some (v, t) \<Rightarrow> if now < t then Some v else None)"

definition expires_at :: "instant \<Rightarrow> int \<Rightarrow> instant" where
  "expires_at now ttl = now + ttl * 1000000"

definition set_nx_law :: "'r redis \<Rightarrow> bool" where
  "set_nx_law R \<longleftrightarrow> (\<forall>k v ttl now s r s'. rd_set_nx_ex R k v ttl now s = (r, s') \<longrightarrow>
     (let fresh = (rd_get R k now s = None);
          written = (rd_entry R s' = (rd_entry R s)(k \<mapsto> (v, expires_at now ttl)));
          kept = (rd_entry R s' = rd_entry R s)
      in case r of Inr True \<Rightarrow> fresh \<and> written | Inr False \<Rightarrow> \<not> fresh \<and> kept
         | Inl _ \<Rightarrow> kept \<or> fresh \<and> written))"

definition expire_law :: "'r redis \<Rightarrow> bool" where
  "expire_law R \<longleftrightarrow> (\<forall>k ttl now s r s'. rd_expire R k ttl now s = (r, s') \<longrightarrow>
     (case rd_get R k now s of
        None \<Rightarrow> \<not> r \<and> rd_entry R s' = rd_entry R s
      | Some v \<Rightarrow> r \<and> rd_entry R s' = (rd_entry R s)(k \<mapsto> (v, expires_at now ttl))))"

definition del_law :: "'r redis \<Rightarrow> bool" where
  "del_law R \<longleftrightarrow> (\<forall>k now s r s'. rd_del R k now s = (r, s') \<longrightarrow>
     r = (rd_get R k now s \<noteq> None) \<and> rd_entry R s' = (rd_entry R s)(k := None))"

definition redis_laws :: "'r redis \<Rightarrow> bool" where
  "redis_laws R \<longleftrightarrow> set_nx_law R \<and> expire_law R \<and> del_law R"

lemma set_nx_cases:
  assumes "redis_laws R" "rd_set_nx_ex R k v ttl now s = (r, s')"
  obtains "r = Inr True" "rd_get R k now s = None" "rd_entry R s' = (rd_entry R s)(k \<mapsto> (v, expires_at now ttl))"
  | "r = Inr False" "rd_get R k now s \<noteq> None" "rd_entry R s' = rd_entry R s"
  | e where "r = Inl e" "rd_entry R s' = rd_entry R s"
  | e where "r = Inl e" "rd_get R k now s = None" "rd_entry R s' = (rd_entry R s)(k \<mapsto> (v, expires_at now ttl))"
proof -
  from assms have "(case r of Inr True \<Rightarrow> rd_get R k now s = None \<and> rd_entry R s' = (rd_entry R s)(k \<mapsto> (v, expires_at now ttl))
      | Inr False \<Rightarrow> rd_get R k now s \<noteq> None \<and> rd_entry R s' = rd_entry R s
      | Inl _ \<Rightarrow> rd_entry R s' = rd_entry R s
          \<or> rd_get R k now s = None \<and> rd_entry R s' = (rd_entry R s)(k \<mapsto> (v, expires_at now ttl)))"
    unfolding redis_laws_def set_nx_law_def Let_def by blast
  then show thesis using that by (auto split: sum.splits bool.splits)
qed

lemma rd_get_Some: "rd_get R k now s = Some v \<longleftrightarrow> (\<exists>t. rd_entry R s k = Some (v, t) \<and> now < t)"
  by (auto simp: rd_get_def split: option.splits)

text \<open>A store that keeps its entries in a map has these laws.\<close>

definition map_redis :: "(string \<Rightarrow> (string \<times> instant) option) redis" where
  "map_redis = \<lparr>rd_client = Inr (), rd_connect = (\<lambda>_. Inr ()),
     rd_set_nx_ex = (\<lambda>k v ttl now s.
       (case s k of Some (_, t) \<Rightarrow> if now < t then (Inr False, s) else (Inr True, s(k \<mapsto> (v, expires_at now ttl)))
        | None \<Rightarrow> (Inr True, s(k \<mapsto> (v, expires_at now ttl))))),
     rd_expire = (\<lambda>k ttl now s.
       (case s k of Some (v, t) \<Rightarrow> if now < t then (True, s(k \<mapsto> (v, expires_at now ttl))) else (False, s)
        | None \<Rightarrow> (False, s))),
     rd_del = (\<lambda>k now s. ((case s k of Some (_, t) \<Rightarrow> now < t | None \<Rightarrow> False), s(k := None))),
     rd_entry = (\<lambda>s. s)\<rparr>"

lemma map_redis_laws: "redis_laws map_redis"
  unfolding redis_laws_def set_nx_law_def expire_law_def del_law_def map_redis_def
  by (auto simp: rd_get_def Let_def split: option.splits if_splits)

end
