(* ===== verification/Auth.thy ===== *)
theory Auth
  imports Redis Device_Repo
begin

text \<open>
  Authentication: the claims and tokens of \<open>backend-auth\<close>, the signatures of Keycloak requests
  (\<open>signature_principal.rs\<close>, \<open>middleware.rs\<close>), the device signatures with their canonical
  payloads and the replay guard (\<open>auth_signature\<close>), the BFF middleware that turns them into
  headers (\<open>bff_auth.rs\<close>) and the claims the handlers read back (\<open>api/mod.rs\<close>). Cryptography,
  the JSON parsers and the token decoder are parameters.
\<close>

section \<open>Headers\<close>

text \<open>
  A header map by lower-case names. \<open>to_str\<close> succeeds on visible ASCII and \<open>HeaderValue::from_str\<close>
  on the values a header may carry: parameters of the model.
\<close>

type_synonym headers = "(string \<times> string) list"

definition header_value :: "(string \<Rightarrow> bool) \<Rightarrow> headers \<Rightarrow> string \<Rightarrow> string option" where
  "header_value to_str_ok hs key =
     (case map_of hs key of None \<Rightarrow> None | Some v \<Rightarrow> if to_str_ok v then Some v else None)"

definition header_remove :: "string \<Rightarrow> headers \<Rightarrow> headers" where
  "header_remove key hs = filter (\<lambda>(k, _). k \<noteq> key) hs"

definition header_insert :: "string \<Rightarrow> string \<Rightarrow> headers \<Rightarrow> headers" where
  "header_insert key v hs = (key, v) # header_remove key hs"

lemma map_of_header [simp]:
  "map_of (header_remove k hs) = (map_of hs)(k := None)" "map_of (header_insert k v hs) = (map_of hs)(k \<mapsto> v)"
proof -
  show "map_of (header_remove k hs) = (map_of hs)(k := None)"
    by (induction hs) (auto simp: header_remove_def)
  then show "map_of (header_insert k v hs) = (map_of hs)(k \<mapsto> v)" by (simp add: header_insert_def)
qed

section \<open>Strings\<close>

text \<open>\<open>str::split_whitespace\<close>: the pieces between white space, without the empty ones.\<close>

function ws_pieces :: "string \<Rightarrow> string list" where
  "ws_pieces s =
     (case List.find (\<lambda>p. p \<noteq> [] \<and> prefix p s) whitespace of
        Some p \<Rightarrow> [] # ws_pieces (drop (length p) s)
      | None \<Rightarrow>
          (case s of
             [] \<Rightarrow> [[]]
           | c # t \<Rightarrow> (case ws_pieces t of [] \<Rightarrow> [[c]] | q # qs \<Rightarrow> (c # q) # qs)))"
  by pat_completeness auto
termination
proof (relation "measure length")
  fix s p
  assume "List.find (\<lambda>p. p \<noteq> [] \<and> prefix p s) whitespace = Some p"
  then have "p \<noteq> []" and "prefix p s" unfolding find_Some_iff by auto
  then have "0 < length p" and "length p \<le> length s" by (simp_all add: prefix_length_le)
  then have "length s - length p < length s" by arith
  then show "(drop (length p) s, s) \<in> measure length" by simp
qed auto

declare ws_pieces.simps [simp del]

definition split_whitespace :: "string \<Rightarrow> string list" where
  "split_whitespace s = filter (\<lambda>p. p \<noteq> []) (ws_pieces s)"

section \<open>Claims and tokens\<close>

datatype audience_claim = One string | Many "string list"

fun audience_contains :: "audience_claim \<Rightarrow> string \<Rightarrow> bool" where
  "audience_contains (One v) expected \<longleftrightarrow> v = expected"
| "audience_contains (Many vs) expected \<longleftrightarrow> expected \<in> set vs"

fun audience_values :: "audience_claim \<Rightarrow> string list" where
  "audience_values (One v) = [v]"
| "audience_values (Many vs) = vs"

record claims =
  cl_sub :: string
  cl_azp :: "string option"
  cl_aud :: "audience_claim option"
  cl_scope :: "string option"
  cl_name :: "string option"
  cl_iss :: string
  cl_exp :: nat
  cl_preferred_username :: "string option"

definition get_name :: "claims \<Rightarrow> string option" where
  "get_name c = (case cl_name c of None \<Rightarrow> cl_preferred_username c | Some n \<Rightarrow> Some n)"

definition normalize_user_id :: "string \<Rightarrow> string" where
  "normalize_user_id raw =
     (if starts_with ''usr_'' raw then raw
      else (case List.find (starts_with ''usr_'') (rev (split_on (CHR '':'') raw)) of
              Some segment \<Rightarrow> segment
            | None \<Rightarrow> hd (rev (split_on (CHR '':'') raw))))"

definition token_user_id :: "claims \<Rightarrow> string" where
  "token_user_id c = normalize_user_id (cl_sub c)"

definition token_audiences :: "claims \<Rightarrow> string list" where
  "token_audiences c = (case cl_aud c of None \<Rightarrow> [] | Some a \<Rightarrow> audience_values a)"

definition token_scopes :: "claims \<Rightarrow> string list" where
  "token_scopes c = split_whitespace (case cl_scope c of None \<Rightarrow> [] | Some s \<Rightarrow> s)"

text \<open>
  The library of tokens: decoding of the header (key id and algorithm), lookup of a key, its
  conversion and the validated decoding for the expected audiences (\<open>None\<close> when the audience is
  not validated). \<open>jx_decode\<close> decodes the claims of \<open>JwtToken\<close>, \<open>jx_decode_layer\<close> those of the token layer, of which only an
  optional subject is read.
\<close>

record jwt_ext =
  jx_decode_header :: "string \<Rightarrow> string + (string option \<times> string)"
  jx_find :: "json \<Rightarrow> string \<Rightarrow> json option"
  jx_decoding_key :: "json \<Rightarrow> string + string"
  jx_decode :: "string \<Rightarrow> string \<Rightarrow> string \<Rightarrow> string list option \<Rightarrow> string + claims"
  jx_decode_layer :: "string \<Rightarrow> string \<Rightarrow> string \<Rightarrow> string list option \<Rightarrow> string + string option"

definition jwt_verify :: "jwt_ext \<Rightarrow> string list option \<Rightarrow> app_error + json \<Rightarrow> string \<Rightarrow> app_error + claims" where
  "jwt_verify jx audiences jwks token =
     bindR jwks (\<lambda>keys.
     bindR (map_errR (\<lambda>e. unauthorized (''Invalid token header: '' @ e)) (jx_decode_header jx token)) (\<lambda>(kid, alg).
     bindR (ok_or (unauthorized ''Missing kid in token header'') kid) (\<lambda>kid.
     bindR (ok_or (unauthorized (''Key ID '' @ kid @ '' not found in JWKS'')) (jx_find jx keys kid)) (\<lambda>jwk.
     bindR (map_errR (\<lambda>e. unauthorized (''Invalid JWK: '' @ e)) (jx_decoding_key jx jwk)) (\<lambda>key.
     map_errR (\<lambda>e. unauthorized (''Token validation failed: '' @ e)) (jx_decode jx token key alg audiences))))))"

definition validate_token :: "jwt_ext \<Rightarrow> string list option \<Rightarrow> json \<Rightarrow> string \<Rightarrow> bool" where
  "validate_token jx audiences jwks token =
     (case jx_decode_header jx token of
        Inl _ \<Rightarrow> False
      | Inr (kid, alg) \<Rightarrow>
          (case kid of
             None \<Rightarrow> False
           | Some kid \<Rightarrow>
               (case jx_find jx jwks kid of
                  None \<Rightarrow> False
                | Some jwk \<Rightarrow>
                    (case jx_decoding_key jx jwk of
                       Inl _ \<Rightarrow> False
                     | Inr key \<Rightarrow> (case jx_decode_layer jx token key alg audiences of Inl _ \<Rightarrow> False | Inr _ \<Rightarrow> True)))))"

section \<open>Timestamps, keys and hints\<close>

text \<open>The difference and its absolute value are taken in \<open>i64\<close>, which wraps in the release build.\<close>

definition wrapping_abs :: "i64 \<Rightarrow> i64" where
  "wrapping_abs x = (if sint x < 0 then - x else x)"

definition validate_timestamp :: "i64 \<Rightarrow> i64 \<Rightarrow> instant \<Rightarrow> app_error + unit" where
  "validate_timestamp timestamp max_skew_seconds clock =
     (let now = word_of_int (seconds_of clock);
          skew = wrapping_abs (now - timestamp)
      in if sint max_skew_seconds < sint skew then Inl (unauthorized ''Timestamp out of skew'') else Inr ())"

text \<open>JSON text: the parser and the printer of objects are parameters.\<close>

record json_text =
  jt_parse :: "string \<Rightarrow> json option"
  jt_print :: "jmap \<Rightarrow> string + string"

definition canonicalize_public_key :: "json_text \<Rightarrow> string \<Rightarrow> app_error + string" where
  "canonicalize_public_key jt raw =
     bindR (ok_or (unauthorized ''x-auth-public-key must be valid JSON'') (jt_parse jt raw)) (\<lambda>v.
     bindR (ok_or (unauthorized ''x-auth-public-key must be a JSON object'') (as_object v)) (\<lambda>entries.
     map_errR (internal ''PUBLIC_KEY_SERIALIZATION_FAILED'') (jt_print jt entries)))"

definition validate_public_key_match :: "json_text \<Rightarrow> string \<Rightarrow> string \<Rightarrow> app_error + unit" where
  "validate_public_key_match jt provided_jwk bound_jwk =
     bindR (canonicalize_public_key jt provided_jwk) (\<lambda>provided.
     bindR (canonicalize_public_key jt bound_jwk) (\<lambda>bound.
     if provided \<noteq> bound then Inl (unauthorized ''x-auth-public-key does not match bound device key'') else Inr ()))"

definition validate_user_id_hint :: "string option \<Rightarrow> string \<Rightarrow> app_error + unit" where
  "validate_user_id_hint hint owner =
     (case hint of
        None \<Rightarrow> Inr ()
      | Some h \<Rightarrow> if h \<noteq> owner then Inl (unauthorized ''x-auth-user-id does not match device owner'') else Inr ())"

section \<open>Canonical payloads\<close>

definition newline :: string where
  "newline = [CHR 0x0A]"

text \<open>The method is ASCII, so that its Unicode upper case is the ASCII one.\<close>

definition canonicalize_payload ::
    "json_text \<Rightarrow> i64 \<Rightarrow> string \<Rightarrow> string \<Rightarrow> string \<Rightarrow> string \<Rightarrow> string \<Rightarrow> string \<Rightarrow> string option \<Rightarrow> app_error + string" where
  "canonicalize_payload jt timestamp nonce method_name path body public_key_json device_id user_id_hint =
     bindR (canonicalize_public_key jt public_key_json) (\<lambda>key.
     Inr (join newline [show_int (sint timestamp), nonce, to_ascii_uppercase method_name, path, body, key, device_id,
            (case user_id_hint of None \<Rightarrow> [] | Some h \<Rightarrow> h)]))"

definition quote :: char where
  "quote = CHR 0x22"

definition backslash :: char where
  "backslash = CHR 0x5C"

text \<open>\<open>replace\<close> of every backslash by two, and then of every quote by an escaped one.\<close>

definition replace_char :: "char \<Rightarrow> string \<Rightarrow> string \<Rightarrow> string" where
  "replace_char c r s = concat (map (\<lambda>x. if x = c then r else [x]) s)"

definition escape_quotes :: "string \<Rightarrow> string" where
  "escape_quotes s = replace_char quote [backslash, quote] (replace_char backslash [backslash, backslash] s)"

definition in_quotes :: "string \<Rightarrow> string" where
  "in_quotes s = quote # s @ [quote]"

definition canonicalize_device_auth_payload :: "string \<Rightarrow> string \<Rightarrow> string \<Rightarrow> i64 \<Rightarrow> string" where
  "canonicalize_device_auth_payload device_id nonce public_key_json timestamp =
     ''{'' @ in_quotes ''deviceId'' @ '':'' @ in_quotes device_id @ '','' @ in_quotes ''publicKey'' @ '':''
       @ in_quotes (escape_quotes public_key_json) @ '','' @ in_quotes ''ts'' @ '':'' @ in_quotes (show_int (sint timestamp))
       @ '','' @ in_quotes ''nonce'' @ '':'' @ in_quotes nonce @ ''}''"

section \<open>Signatures\<close>

record jwk =
  jk_kty :: string
  jk_n :: "string option"
  jk_e :: "string option"
  jk_crv :: "string option"
  jk_x :: "string option"
  jk_y :: "string option"

text \<open>
  The cryptographic libraries. Numbers, keys and signatures are given by their bytes; a
  constructor answers whether it succeeds, a verification its result or \<open>None\<close> when it fails.
\<close>

record crypto_ext =
  cx_parse_jwk :: "string \<Rightarrow> jwk option"
  cx_base64url :: "string \<Rightarrow> string option"
  cx_bignum_ok :: "string \<Rightarrow> bool"
  cx_rsa_key_ok :: "string \<Rightarrow> string \<Rightarrow> bool"
  cx_rsa_pkey_ok :: "string \<Rightarrow> string \<Rightarrow> bool"
  cx_rsa_verifier_ok :: "string \<Rightarrow> string \<Rightarrow> bool"
  cx_rsa_update_ok :: "string \<Rightarrow> string \<Rightarrow> string \<Rightarrow> bool"
  cx_rsa_verify :: "string \<Rightarrow> string \<Rightarrow> string \<Rightarrow> string \<Rightarrow> bool option"
  cx_p256_ok :: bool
  cx_ec_key_ok :: "string \<Rightarrow> string \<Rightarrow> bool"
  cx_ecdsa_sig_ok :: "string \<Rightarrow> string \<Rightarrow> bool"
  cx_sha256 :: "string \<Rightarrow> string"
  cx_ec_verify :: "string \<Rightarrow> string \<Rightarrow> string \<Rightarrow> string \<Rightarrow> string \<Rightarrow> bool option"
  cx_hmac_sha256_base64url :: "string \<Rightarrow> string \<Rightarrow> string + string"

definition ensure :: "bool \<Rightarrow> string \<Rightarrow> app_error + unit" where
  "ensure b msg = (if b then Inr () else Inl (unauthorized msg))"

definition decode_base64_url :: "crypto_ext \<Rightarrow> string \<Rightarrow> app_error + string" where
  "decode_base64_url cx encoded =
     ok_or (unauthorized ''Invalid base64url encoding'')
       (cx_base64url cx (rev (dropWhile (\<lambda>c. c = CHR ''='') (rev encoded))))"

definition verify_rsa :: "crypto_ext \<Rightarrow> jwk \<Rightarrow> string \<Rightarrow> string \<Rightarrow> app_error + unit" where
  "verify_rsa cx k payload signature =
     bindR (ok_or (unauthorized ''Missing n for RSA'') (jk_n k)) (\<lambda>n_str.
     bindR (ok_or (unauthorized ''Missing e for RSA'') (jk_e k)) (\<lambda>e_str.
     bindR (decode_base64_url cx n_str) (\<lambda>n.
     bindR (decode_base64_url cx e_str) (\<lambda>e.
     bindR (ensure (cx_bignum_ok cx n) ''Invalid RSA modulus'') (\<lambda>_.
     bindR (ensure (cx_bignum_ok cx e) ''Invalid RSA exponent'') (\<lambda>_.
     bindR (ensure (cx_rsa_key_ok cx n e) ''Failed to construct RSA key'') (\<lambda>_.
     bindR (ensure (cx_rsa_pkey_ok cx n e) ''Failed to construct PKey'') (\<lambda>_.
     bindR (ensure (cx_rsa_verifier_ok cx n e) ''Failed to init RSA verifier'') (\<lambda>_.
     bindR (ensure (cx_rsa_update_ok cx n e payload) ''Failed to hash RSA payload'') (\<lambda>_.
     bindR (ok_or (unauthorized ''RSA signature verification failed'') (cx_rsa_verify cx n e payload signature)) (\<lambda>is_valid.
     ensure is_valid ''Invalid signature'')))))))))))"

definition verify_ec :: "crypto_ext \<Rightarrow> jwk \<Rightarrow> string \<Rightarrow> string \<Rightarrow> app_error + unit" where
  "verify_ec cx k payload signature =
     (let crv = (case jk_crv k of None \<Rightarrow> [] | Some c \<Rightarrow> c) in
      if crv \<noteq> ''P-256'' then Inl (unauthorized (''Unsupported EC curve: '' @ crv))
      else
     bindR (ok_or (unauthorized ''Missing x for EC'') (jk_x k)) (\<lambda>x_str.
     bindR (ok_or (unauthorized ''Missing y for EC'') (jk_y k)) (\<lambda>y_str.
     bindR (decode_base64_url cx x_str) (\<lambda>x.
     bindR (decode_base64_url cx y_str) (\<lambda>y.
     bindR (ensure (cx_p256_ok cx) ''Failed to load P-256 curve'') (\<lambda>_.
     bindR (ensure (cx_bignum_ok cx x) ''Invalid EC x coordinate'') (\<lambda>_.
     bindR (ensure (cx_bignum_ok cx y) ''Invalid EC y coordinate'') (\<lambda>_.
     bindR (ensure (cx_ec_key_ok cx x y) ''Failed to construct EC key'') (\<lambda>_.
     bindR (ensure (length signature = 64) ''Invalid EC signature length'') (\<lambda>_.
     let r = take 32 signature; s = drop 32 signature in
     bindR (ensure (cx_bignum_ok cx r) ''Invalid EC r component'') (\<lambda>_.
     bindR (ensure (cx_bignum_ok cx s) ''Invalid EC s component'') (\<lambda>_.
     bindR (ensure (cx_ecdsa_sig_ok cx r s) ''Failed to parse ECDSA signature'') (\<lambda>_.
     bindR (ok_or (unauthorized ''EC signature verification failed'')
              (cx_ec_verify cx x y (cx_sha256 cx payload) r s)) (\<lambda>is_valid.
     ensure is_valid ''Invalid signature''))))))))))))))"

definition verify_signature :: "crypto_ext \<Rightarrow> string \<Rightarrow> string \<Rightarrow> string \<Rightarrow> app_error + unit" where
  "verify_signature cx public_key_json canonical_payload signature_base64url =
     bindR (ok_or (unauthorized ''Invalid JWK JSON format'') (cx_parse_jwk cx public_key_json)) (\<lambda>k.
     bindR (decode_base64_url cx signature_base64url) (\<lambda>signature.
       if jk_kty k = ''RSA'' then verify_rsa cx k canonical_payload signature
       else if jk_kty k = ''EC'' then verify_ec cx k canonical_payload signature
       else Inl (unauthorized (''Unsupported key type: '' @ jk_kty k))))"

section \<open>Signatures of Keycloak requests\<close>

record signature_state =
  ss_signature_secret :: string
  ss_max_clock_skew_seconds :: i64
  ss_max_body_bytes :: nat

record request =
  in_method :: string
  in_path :: string
  in_headers :: headers
  in_body :: string

definition kc_verify_signature ::
    "crypto_ext \<Rightarrow> (string \<Rightarrow> bool) \<Rightarrow> (string \<Rightarrow> bool) \<Rightarrow> signature_state \<Rightarrow> instant \<Rightarrow> request \<Rightarrow> app_error + unit" where
  "kc_verify_signature cx to_str_ok utf8_ok st clock rq =
     bindR (ok_or (unauthorized ''Missing x-kc-signature'') (header_value to_str_ok (in_headers rq) ''x-kc-signature'')) (\<lambda>signature.
     bindR (ok_or (unauthorized ''Missing x-kc-timestamp'') (header_value to_str_ok (in_headers rq) ''x-kc-timestamp'')) (\<lambda>timestamp_str.
     bindR (ok_or (unauthorized ''Invalid x-kc-timestamp'') (parse_i64 timestamp_str)) (\<lambda>timestamp.
     bindR (validate_timestamp (word_of_int timestamp) (ss_max_clock_skew_seconds st) clock) (\<lambda>_.
     if ss_max_body_bytes st < length (in_body rq) then Inl (unauthorized ''Body too large'')
     else if \<not> utf8_ok (in_body rq) then Inl (unauthorized ''Invalid UTF-8 body'')
     else
       (let payload = join newline [timestamp_str, to_ascii_uppercase (in_method rq), in_path rq, in_body rq] in
        bindR (map_errR Server (cx_hmac_sha256_base64url cx (ss_signature_secret st) payload)) (\<lambda>expected.
        ensure (signature = expected) ''Invalid signature''))))))"

text \<open>\<open>to_bytes\<close> fails on bodies beyond the limit. The error carries the text of the response.\<close>

definition require_kc_signature ::
    "crypto_ext \<Rightarrow> (string \<Rightarrow> bool) \<Rightarrow> (string \<Rightarrow> bool) \<Rightarrow> bool \<Rightarrow> signature_state \<Rightarrow> instant \<Rightarrow> request \<Rightarrow> string + request" where
  "require_kc_signature cx to_str_ok utf8_ok enabled st clock rq =
     (if \<not> enabled then Inr rq
      else if ss_max_body_bytes st < length (in_body rq) then Inl ''invalid request body''
      else (case kc_verify_signature cx to_str_ok utf8_ok st clock rq of
              Inl e \<Rightarrow> Inl (error_display e)
            | Inr _ \<Rightarrow> Inr rq))"

definition bearer_token :: "(string \<Rightarrow> bool) \<Rightarrow> headers \<Rightarrow> string option" where
  "bearer_token to_str_ok hs =
     (case header_value to_str_ok hs ''authorization'' of
        None \<Rightarrow> None
      | Some v \<Rightarrow>
          (case dropWhile (\<lambda>c. c \<noteq> CHR '' '') v of
             [] \<Rightarrow> None
           | _ # token \<Rightarrow>
               if eq_ignore_ascii_case (takeWhile (\<lambda>c. c \<noteq> CHR '' '') v) ''bearer'' \<and> token \<noteq> []
               then Some token else None))"

text \<open>The token layer in front of the protected paths: \<open>None\<close> lets the request pass.\<close>

definition jwks_auth ::
    "jwt_ext \<Rightarrow> (string \<Rightarrow> bool) \<Rightarrow> string list option \<Rightarrow> string list \<Rightarrow> app_error + json \<Rightarrow> request \<Rightarrow> string option" where
  "jwks_auth jx to_str_ok audiences base_paths jwks rq =
     (if \<not> list_ex (\<lambda>p. starts_with p (in_path rq)) base_paths then None
      else (case bearer_token to_str_ok (in_headers rq) of
              None \<Rightarrow> Some ''missing bearer token''
            | Some token \<Rightarrow>
                (case jwks of
                   Inl _ \<Rightarrow> Some ''failed to load JWKS''
                 | Inr keys \<Rightarrow> if validate_token jx audiences keys token then None else Some ''invalid bearer token'')))"

section \<open>The replay guard\<close>

text \<open>Device authentication works on the database and on Redis.\<close>

type_synonym 'r both = "world \<times> 'r"
type_synonym ('r, 'a) auth = "('r both, app_error, 'a) sem"

definition on_world :: "'a db \<Rightarrow> ('r, 'a) auth" where
  "on_world m s = (case m (fst s) of (x, w') \<Rightarrow> (x, (w', snd s)))"

definition replay_key :: "string \<Rightarrow> string \<Rightarrow> string" where
  "replay_key device_id nonce = ''replay:'' @ device_id @ '':'' @ nonce"

definition replay_ttl :: "i64 \<Rightarrow> int" where
  "replay_ttl skew_seconds = max (sint (skew_seconds * 2)) 1"

definition guard_record :: "'r redis \<Rightarrow> string \<Rightarrow> string \<Rightarrow> i64 \<Rightarrow> instant \<Rightarrow> 'r \<Rightarrow> (app_error + unit) \<times> 'r" where
  "guard_record R device_id nonce skew_seconds now r =
     (case rd_client R of
        Inl e \<Rightarrow> (Inl (internal ''REDIS_CLIENT_FAILED'' (''failed to open redis client: '' @ e)), r)
      | Inr _ \<Rightarrow>
          (case rd_connect R r of
             Inl e \<Rightarrow> (Inl (internal ''REDIS_CONNECT_FAILED'' (''failed to connect to redis: '' @ e)), r)
           | Inr _ \<Rightarrow>
               (case rd_set_nx_ex R (replay_key device_id nonce) [] (replay_ttl skew_seconds) now r of
                  (Inl e, r') \<Rightarrow> (Inl (internal ''REDIS_CMD_FAILED'' (''redis SET command failed: '' @ e)), r')
                | (Inr True, r') \<Rightarrow> (Inr (), r')
                | (Inr False, r') \<Rightarrow> (Inl (unauthorized ''Nonce already used''), r'))))"

definition check_and_record :: "'r redis \<Rightarrow> string \<Rightarrow> string \<Rightarrow> i64 \<Rightarrow> ('r, unit) auth" where
  "check_and_record R device_id nonce skew_seconds s =
     (case guard_record R device_id nonce skew_seconds (w_clock (fst s)) (snd s) of (x, r') \<Rightarrow> (x, (fst s, r')))"

section \<open>The BFF middleware\<close>

text \<open>The configuration and the services the middleware uses. \<open>as_jwks\<close> is what \<open>get_jwks\<close> answers.\<close>

record 'r auth_server =
  as_redis :: "'r redis"
  as_jwt :: jwt_ext
  as_crypto :: crypto_ext
  as_json :: json_text
  as_to_str_ok :: "string \<Rightarrow> bool"
  as_value_ok :: "string \<Rightarrow> bool"
  as_utf8_ok :: "string \<Rightarrow> bool"
  as_jwks :: "app_error + json"
  as_audiences :: "string list option"
  as_bff_enabled :: bool
  as_max_body_bytes :: nat
  as_max_skew :: i64
  as_recovery_client_id :: string
  as_recovery_audience :: string
  as_recovery_scope :: string
  as_recovery_realm :: string

record bff_claims =
  bc_user_id :: string
  bc_device_id :: string
  bc_service_client_id :: "string option"
  bc_audiences :: "string list"
  bc_scopes :: "string list"

abbreviation bff_auth_user_id_header :: string where
  "bff_auth_user_id_header \<equiv> ''x-bff-authenticated-user-id''"

abbreviation bff_auth_device_id_header :: string where
  "bff_auth_device_id_header \<equiv> ''x-bff-authenticated-device-id''"

abbreviation bff_auth_service_client_id_header :: string where
  "bff_auth_service_client_id_header \<equiv> ''x-bff-auth-service-client-id''"

abbreviation bff_auth_audiences_header :: string where
  "bff_auth_audiences_header \<equiv> ''x-bff-auth-audiences''"

abbreviation bff_auth_scopes_header :: string where
  "bff_auth_scopes_header \<equiv> ''x-bff-auth-scopes''"

definition extract_bearer_token :: "(string \<Rightarrow> bool) \<Rightarrow> headers \<Rightarrow> string option" where
  "extract_bearer_token to_str_ok hs =
     (case header_value to_str_ok hs ''authorization'' of
        None \<Rightarrow> None
      | Some v \<Rightarrow> if starts_with ''bearer '' (to_ascii_lowercase v) then Some (drop 7 v) else None)"

definition authenticate_bearer :: "'r auth_server \<Rightarrow> string \<Rightarrow> app_error + bff_claims" where
  "authenticate_bearer A token =
     bindR (jwt_verify (as_jwt A) (as_audiences A) (as_jwks A) token) (\<lambda>c.
     Inr \<lparr>bc_user_id = token_user_id c, bc_device_id = ''bff'', bc_service_client_id = cl_azp c,
          bc_audiences = token_audiences c, bc_scopes = token_scopes c\<rparr>)"

definition required :: "'r auth_server \<Rightarrow> headers \<Rightarrow> string \<Rightarrow> app_error + string" where
  "required A hs key = ok_or (unauthorized (''Missing '' @ key)) (header_value (as_to_str_ok A) hs key)"

definition authenticate_signature :: "'r auth_server \<Rightarrow> headers \<Rightarrow> ('r, bff_claims) auth" where
  "authenticate_signature A hs =
     bindE (lift_res (required A hs ''x-auth-device-id'')) (\<lambda>device_id.
     bindE (lift_res (required A hs ''x-auth-signature'')) (\<lambda>signature.
     bindE (lift_res (required A hs ''x-auth-signature-timestamp'')) (\<lambda>timestamp_str.
     bindE (lift_res (required A hs ''x-auth-public-key'')) (\<lambda>public_key.
     bindE (lift_res (required A hs ''x-auth-nonce'')) (\<lambda>nonce.
     let user_id_hint = header_value (as_to_str_ok A) hs ''x-auth-user-id'' in
     bindE (lift_res (ok_or (unauthorized ''Invalid x-auth-signature-timestamp'') (parse_i64 timestamp_str))) (\<lambda>ts.
     let timestamp = word_of_int ts in
     bindE (gets (\<lambda>s. w_clock (fst s))) (\<lambda>clock.
     bindE (lift_res (validate_timestamp timestamp (as_max_skew A) clock)) (\<lambda>_.
     bindE (check_and_record (as_redis A) device_id nonce (as_max_skew A)) (\<lambda>_.
     bindE (on_world (lookup_device (Some device_id) None)) (\<lambda>found.
     bindE (lift_res (ok_or (unauthorized ''Unknown auth device'') found)) (\<lambda>device.
       if \<not> eq_ignore_ascii_case (dv_status device) ''active'' then throw (unauthorized ''Device is not active'')
       else
     bindE (lift_res (validate_user_id_hint user_id_hint (dv_user_id device))) (\<lambda>_.
     bindE (lift_res (validate_public_key_match (as_json A) public_key (dv_public_jwk device))) (\<lambda>_.
     bindE (lift_res (verify_signature (as_crypto A) public_key
              (canonicalize_device_auth_payload device_id nonce public_key timestamp) signature)) (\<lambda>_.
     ret \<lparr>bc_user_id = dv_user_id device, bc_device_id = dv_device_id device, bc_service_client_id = None,
          bc_audiences = [], bc_scopes = []\<rparr>))))))))))))))"

definition authenticate_request :: "'r auth_server \<Rightarrow> headers \<Rightarrow> ('r, bff_claims) auth" where
  "authenticate_request A hs =
     (case extract_bearer_token (as_to_str_ok A) hs of
        Some token \<Rightarrow> lift_res (authenticate_bearer A token)
      | None \<Rightarrow> authenticate_signature A hs)"

definition header_of :: "'r auth_server \<Rightarrow> string \<Rightarrow> string \<Rightarrow> app_error + string" where
  "header_of A v msg = (if as_value_ok A v then Inr v else Inl (unauthorized msg))"

definition put_values :: "'r auth_server \<Rightarrow> string \<Rightarrow> string list \<Rightarrow> headers \<Rightarrow> app_error + headers" where
  "put_values A key vs hs =
     (if vs = [] then Inr hs
      else bindR (header_of A (join '' '' vs) ''Invalid authenticated token claims'') (\<lambda>v. Inr (header_insert key v hs)))"

definition put_claims :: "'r auth_server \<Rightarrow> bff_claims \<Rightarrow> headers \<Rightarrow> app_error + headers" where
  "put_claims A c hs =
     bindR (header_of A (bc_user_id c) ''Invalid authenticated user id'') (\<lambda>user_header.
     bindR (header_of A (bc_device_id c) ''Invalid authenticated device id'') (\<lambda>device_header.
     let hs1 = header_insert bff_auth_user_id_header user_header (header_remove bff_auth_user_id_header hs);
         hs2 = header_insert bff_auth_device_id_header device_header (header_remove bff_auth_device_id_header hs1);
         hs3 = fold header_remove [bff_auth_service_client_id_header, bff_auth_audiences_header, bff_auth_scopes_header] hs2
     in bindR (case bc_service_client_id c of
                 None \<Rightarrow> Inr hs3
               | Some client_id \<Rightarrow>
                   bindR (header_of A client_id ''Invalid authenticated client id'') (\<lambda>v.
                   Inr (header_insert bff_auth_service_client_id_header v hs3))) (\<lambda>hs4.
        bindR (put_values A bff_auth_audiences_header (bc_audiences c) hs4) (\<lambda>hs5.
        put_values A bff_auth_scopes_header (bc_scopes c) hs5))))"

text \<open>The middleware: the request the next handler sees, or the error.\<close>

definition require_bff_auth :: "'r auth_server \<Rightarrow> request \<Rightarrow> ('r, request) auth" where
  "require_bff_auth A rq =
     (if \<not> as_bff_enabled A then ret rq
      else if as_max_body_bytes A < length (in_body rq) then throw (unauthorized ''Invalid request body'')
      else
        bindE (authenticate_request A (in_headers rq)) (\<lambda>c.
        bindE (lift_res (put_claims A c (in_headers rq))) (\<lambda>hs.
        ret (rq\<lparr>in_headers := hs\<rparr>))))"

section \<open>The claims of a handler\<close>

definition header_values :: "(string \<Rightarrow> bool) \<Rightarrow> headers \<Rightarrow> string \<Rightarrow> string list" where
  "header_values to_str_ok hs key =
     (case header_value to_str_ok hs key of None \<Rightarrow> [] | Some v \<Rightarrow> split_whitespace v)"

definition extract_bff_claims :: "(string \<Rightarrow> bool) \<Rightarrow> headers \<Rightarrow> bff_claims option" where
  "extract_bff_claims to_str_ok hs =
     (case header_value to_str_ok hs bff_auth_user_id_header of
        None \<Rightarrow> None
      | Some uid \<Rightarrow>
          (case header_value to_str_ok hs bff_auth_device_id_header of
             None \<Rightarrow> None
           | Some did \<Rightarrow>
               Some \<lparr>bc_user_id = uid, bc_device_id = did,
                     bc_service_client_id = header_value to_str_ok hs bff_auth_service_client_id_header,
                     bc_audiences = header_values to_str_ok hs bff_auth_audiences_header,
                     bc_scopes = header_values to_str_ok hs bff_auth_scopes_header\<rparr>))"

definition require_bff_claims :: "'r auth_server \<Rightarrow> headers \<Rightarrow> app_error + bff_claims" where
  "require_bff_claims A hs =
     (if \<not> as_bff_enabled A
      then Inr \<lparr>bc_user_id = ''usr_auth_disabled'', bc_device_id = ''dvc_auth_disabled'', bc_service_client_id = None,
                bc_audiences = [], bc_scopes = []\<rparr>
      else ok_or (unauthorized ''Missing signature-authenticated BFF claims'')
             (extract_bff_claims (as_to_str_ok A) hs))"

definition require_service_caller :: "'r auth_server \<Rightarrow> headers \<Rightarrow> app_error + bff_claims" where
  "require_service_caller A hs =
     bindR (require_bff_claims A hs) (\<lambda>c.
       if as_recovery_client_id A = [] \<or> as_recovery_audience A = [] \<or> as_recovery_scope A = [] \<or> as_recovery_realm A = []
       then Inl (forbidden ''SERVICE_AUTH_DISABLED'' ''Recovery phone lookup authorization is not fully configured'')
       else if bc_service_client_id c \<noteq> Some (as_recovery_client_id A)
       then Inl (forbidden ''SERVICE_IDENTITY_REJECTED'' ''Caller service identity is not authorized for phone lookup'')
       else if as_recovery_audience A \<notin> set (bc_audiences c)
       then Inl (forbidden ''SERVICE_AUDIENCE_REJECTED'' ''Caller token audience is not authorized for phone lookup'')
       else if as_recovery_scope A \<notin> set (bc_scopes c)
       then Inl (forbidden ''SERVICE_SCOPE_REJECTED'' ''Caller token scope is not authorized for phone lookup'')
       else Inr c)"

text \<open>\<open>require_user_id\<close> of the BFF service.\<close>

definition require_user_id :: "'r auth_server \<Rightarrow> headers \<Rightarrow> app_error + string" where
  "require_user_id A hs =
     bindR (require_bff_claims A hs) (\<lambda>c.
       if trim (bc_user_id c) = [] then Inl (unauthorized ''Invalid signature-authenticated user id'')
       else if trim (bc_device_id c) = [] then Inl (unauthorized ''Invalid signature-authenticated device id'')
       else Inr (bc_user_id c))"

end
