(* ===== verification/Auth_Api.thy ===== *)
theory Auth_Api
  imports Auth Service
begin

text \<open>
  The authentication API (\<open>backend-server/src/api/auth.rs\<close>): enrolment of devices, their list and
  revocation, the exchange of a device signature for a token, the signing keys, the approval of
  steps and the user information of a token.
\<close>

section \<open>Parameters\<close>

text \<open>
  The decoders of the request bodies, the RSA key generator (PEM, modulus and exponent in
  base64url) and the encoder of tokens (key id, claims, PEM).
\<close>

record token_claims =
  tc_sub :: string
  tc_iss :: string
  tc_aud :: string
  tc_scope :: string
  tc_device_id :: string
  tc_iat :: i64
  tc_exp :: i64

record bind_enroll_request =
  be_user_id :: string
  be_realm :: string
  be_client_id :: string
  be_device_id :: string
  be_jkt :: string
  be_public_jwk :: json
  be_user_hint :: "string option"
  be_attributes :: "(string \<times> string) list option"

record api_ext =
  ax_parse_bind :: "string \<Rightarrow> string + bind_enroll_request"
  ax_parse_token_scope :: "string \<Rightarrow> string + string option"
  ax_rsa_generate :: "string + (string \<times> string \<times> string)"
  ax_encoding_key :: "string \<Rightarrow> string + string"
  ax_encode :: "string \<Rightarrow> token_claims \<Rightarrow> string \<Rightarrow> string + string"
  ax_device :: device_ext
  ax_token_ttl_seconds :: i64
  ax_token_issuer :: "string option"
  ax_oauth2_issuer :: string
  ax_token_audience :: "string option"

section \<open>Signed requests\<close>

definition verify_signature_with_jwk :: "'r auth_server \<Rightarrow> request \<Rightarrow> string \<Rightarrow> string \<Rightarrow> ('r, unit) auth" where
  "verify_signature_with_jwk A rq body public_jwk =
     bindE (lift_res (required A (in_headers rq) ''x-auth-signature'')) (\<lambda>signature.
     bindE (lift_res (required A (in_headers rq) ''x-auth-signature-timestamp'')) (\<lambda>timestamp_str.
     bindE (lift_res (required A (in_headers rq) ''x-auth-public-key'')) (\<lambda>public_key_header.
     bindE (lift_res (required A (in_headers rq) ''x-auth-nonce'')) (\<lambda>nonce.
     bindE (lift_res (required A (in_headers rq) ''x-auth-device-id'')) (\<lambda>device_id.
     let user_id_hint = header_value (as_to_str_ok A) (in_headers rq) ''x-auth-user-id'' in
     bindE (lift_res (ok_or (unauthorized ''Invalid x-auth-signature-timestamp'') (parse_i64 timestamp_str))) (\<lambda>ts.
     let timestamp = word_of_int ts in
     bindE (gets (\<lambda>s. w_clock (fst s))) (\<lambda>clock.
     bindE (lift_res (validate_timestamp timestamp (as_max_skew A) clock)) (\<lambda>_.
     bindE (check_and_record (as_redis A) device_id nonce (as_max_skew A)) (\<lambda>_.
     bindE (lift_res (validate_public_key_match (as_json A) public_key_header public_jwk)) (\<lambda>_.
     if \<not> as_utf8_ok A body then throw (bad_request ''INVALID_BODY'' ''Body must be utf-8'')
     else
     bindE (lift_res (canonicalize_payload (as_json A) timestamp nonce (in_method rq) (in_path rq) body
              public_key_header device_id user_id_hint)) (\<lambda>payload.
     lift_res (verify_signature (as_crypto A) public_key_header payload signature))))))))))))"

record authenticated_device =
  ad_device_id :: string
  ad_user_id :: string

definition authenticate_device :: "'r auth_server \<Rightarrow> request \<Rightarrow> string \<Rightarrow> ('r, authenticated_device) auth" where
  "authenticate_device A rq body =
     bindE (lift_res (required A (in_headers rq) ''x-auth-device-id'')) (\<lambda>device_id.
     bindE (on_world (lookup_device (Some device_id) None)) (\<lambda>found.
     bindE (lift_res (ok_or (unauthorized ''Unknown auth device'') found)) (\<lambda>device.
       if \<not> eq_ignore_ascii_case (dv_status device) ''active'' then throw (unauthorized ''Device is not active'')
       else
         bindE (verify_signature_with_jwk A rq body (dv_public_jwk device)) (\<lambda>_.
         ret \<lparr>ad_device_id = dv_device_id device, ad_user_id = dv_user_id device\<rparr>))))"

section \<open>Enrolment\<close>

record enroll_request =
  er_user_id :: string
  er_realm :: "string option"
  er_client_id :: "string option"
  er_device_id :: string
  er_jkt :: string
  er_public_jwk :: json
  er_user_hint :: "string option"
  er_attributes :: "(string \<times> string) list option"

record enroll_response =
  en_session_id :: string
  en_flow_id :: string
  en_step_id :: string
  en_status :: string

definition jwk_object :: "json \<Rightarrow> app_error + jmap" where
  "jwk_object v = ok_or (bad_request ''INVALID_JWK'' ''public_jwk must be an object'') (as_object v)"

definition canonicalize_jwk_value :: "json_text \<Rightarrow> json \<Rightarrow> app_error + string" where
  "canonicalize_jwk_value jt v = bindR (jwk_object v) (\<lambda>entries. map_errR (bad_request ''INVALID_JWK'') (jt_print jt entries))"

definition value_to_kc_any_map :: "json \<Rightarrow> app_error + kc_any_map" where
  "value_to_kc_any_map v = jwk_object v"

definition opt_string :: "string option \<Rightarrow> json" where
  "opt_string v = (case v of None \<Rightarrow> JNull | Some s \<Rightarrow> JString s)"

definition opt_attributes :: "(string \<times> string) list option \<Rightarrow> json" where
  "opt_attributes v =
     (case v of None \<Rightarrow> JNull | Some m \<Rightarrow> JObject (fold (\<lambda>(k, x). obj_insert k (JString x)) m []))"

definition enroll_context :: "enroll_request \<Rightarrow> string \<Rightarrow> string \<Rightarrow> string \<Rightarrow> json" where
  "enroll_context b jwk flow_id step_id =
     JObject [(''attributes'', opt_attributes (er_attributes b)), (''client_id'', opt_string (er_client_id b)),
       (''device_id'', JString (er_device_id b)), (''flow_id'', JString flow_id), (''jkt'', JString (er_jkt b)),
       (''public_jwk'', JString jwk), (''realm'', opt_string (er_realm b)), (''step_id'', JString step_id),
       (''user_hint'', opt_string (er_user_hint b)), (''user_id'', JString (er_user_id b))]"

definition enroll :: "server \<Rightarrow> json_text \<Rightarrow> enroll_request \<Rightarrow> enroll_response db" where
  "enroll sv jt b =
     bindE (flow_session_id (sv_cuid sv)) (\<lambda>session_id.
     bindE (flow_instance_id (sv_cuid sv)) (\<lambda>flow_id.
     bindE (flow_step_id (sv_cuid sv)) (\<lambda>step_id.
     bindE (get_user (er_user_id b)) (\<lambda>found.
       if found = None then throw (not_found ''USER_NOT_FOUND'' ''User not found'')
       else
     bindE (gets w_clock) (\<lambda>now.
     let session_human_id = ''auth.'' @ sv_format_date sv now @ ''.'' @ session_id;
         flow_human_id = session_human_id @ ''.auth_device_enroll'';
         step_human_id = flow_human_id @ ''.bind'' in
     bindE (lift_res (canonicalize_jwk_value jt (er_public_jwk b))) (\<lambda>jwk.
     let cx = enroll_context b jwk flow_id step_id in
     bindE (create_session \<lparr>sci_id = session_id, sci_human_id = session_human_id, sci_user_id = None,
              sci_session_type = ''auth_enrollment'', sci_status = ''OPEN'', sci_context = cx\<rparr>) (\<lambda>_.
     bindE (create_flow \<lparr>fci_id = flow_id, fci_human_id = flow_human_id, fci_session_id = session_id,
              fci_flow_type = ''auth_device_enroll'', fci_status = ''RUNNING'', fci_current_step = Some ''bind'',
              fci_step_ids = JArray [JString step_id], fci_context = cx\<rparr>) (\<lambda>_.
     bindE (create_step \<lparr>tci_id = step_id, tci_human_id = step_human_id, tci_flow_id = flow_id, tci_step_type = ''bind'',
              tci_actor = ''END_USER'', tci_status = ''WAITING'', tci_attempt_no = 0, tci_input = None,
              tci_output = None, tci_error = None, tci_next_retry_at = None, tci_finished_at = None\<rparr>) (\<lambda>_.
     ret \<lparr>en_session_id = session_id, en_flow_id = flow_id, en_step_id = step_id, en_status = ''OPEN''\<rparr>)))))))))"

text \<open>A result that is dropped: \<open>let _ = ...\<close>.\<close>

definition ignore :: "'a db \<Rightarrow> unit db" where
  "ignore m w = (case m w of (Inl (Panic p), w') \<Rightarrow> (Inl (Panic p), w') | (_, w') \<Rightarrow> (Inr (), w'))"

definition complete_bind_step :: "json \<Rightarrow> string \<Rightarrow> string \<Rightarrow> unit db" where
  "complete_bind_step cx device_id record_id =
     (case Option.bind (json_get ''step_id'' cx) as_str of
        None \<Rightarrow> ret ()
      | Some step_id \<Rightarrow>
          bindE (gets w_clock) (\<lambda>now.
          ignore (patch_step step_id (patch_finished_at now (patch_clear_error
            (patch_output (JObject [(''device_record_id'', JString record_id)])
            (patch_input (JString device_id) (patch_status ''COMPLETED'' patch_new))))))))"

definition complete_bind_flow :: "json \<Rightarrow> string \<Rightarrow> unit db" where
  "complete_bind_flow cx device_id =
     (case Option.bind (json_get ''flow_id'' cx) as_str of
        None \<Rightarrow> ret ()
      | Some flow_id \<Rightarrow>
          ignore (update_flow flow_id (no_flow_update\<lparr>fu_status := Some ''COMPLETED'', fu_current_step := Some None,
            fu_context := Some (JObject [(''bound_device_id'', JString device_id)])\<rparr>)))"

definition bind_enroll :: "api_ext \<Rightarrow> 'r auth_server \<Rightarrow> string \<Rightarrow> request \<Rightarrow> ('r, string) auth" where
  "bind_enroll ax A session_id rq =
     bindE (lift_res (map_errR (bad_request ''INVALID_BODY'') (ax_parse_bind ax (in_body rq)))) (\<lambda>body.
     bindE (on_world (get_session session_id)) (\<lambda>found.
     bindE (lift_res (ok_or (not_found ''ENROLLMENT_NOT_FOUND'' ''Enrollment not found'') found)) (\<lambda>session.
       if \<not> eq_ignore_ascii_case (se_session_type session) ''auth_enrollment''
       then throw (not_found ''ENROLLMENT_NOT_FOUND'' ''Enrollment not found'')
       else
     bindE (lift_res (ok_or (internal ''ENROLLMENT_INVALID'' ''Enrollment JWK missing'')
              (Option.bind (json_get ''public_jwk'' (se_context session)) as_str))) (\<lambda>expected_jwk.
     bindE (verify_signature_with_jwk A rq (in_body rq) expected_jwk) (\<lambda>_.
     bindE (lift_res (value_to_kc_any_map (be_public_jwk body))) (\<lambda>jwk_map.
     bindE (on_world (bind_device (ax_device ax) \<lparr>br_user_id = be_user_id body, br_device_id = be_device_id body,
              br_jkt = be_jkt body, br_public_jwk = jwk_map\<rparr>)) (\<lambda>record_id.
     bindE (on_world (complete_bind_step (se_context session) (be_device_id body) record_id)) (\<lambda>_.
     bindE (on_world (complete_bind_flow (se_context session) (be_device_id body))) (\<lambda>_.
     bindE (gets (\<lambda>s. w_clock (fst s))) (\<lambda>now.
     bindE (on_world (update_session_status session_id ''COMPLETED'' (Some now))) (\<lambda>_.
     ret record_id)))))))))))"

section \<open>Devices\<close>

record device_record_response =
  dr_device_id :: string
  dr_jkt :: string
  dr_status :: string
  dr_label :: "string option"
  dr_created_at :: instant
  dr_last_seen_at :: "instant option"

definition device_record_response_of :: "device_row \<Rightarrow> device_record_response" where
  "device_record_response_of r =
     \<lparr>dr_device_id = dv_device_id r, dr_jkt = dv_jkt r, dr_status = dv_status r, dr_label = dv_label r,
      dr_created_at = dv_created_at r, dr_last_seen_at = dv_last_seen_at r\<rparr>"

definition list_devices :: "'r auth_server \<Rightarrow> request \<Rightarrow> ('r, device_record_response list) auth" where
  "list_devices A rq =
     bindE (authenticate_device A rq []) (\<lambda>d.
     bindE (on_world (list_user_devices (ad_user_id d) True)) (\<lambda>rows.
     ret (map device_record_response_of rows)))"

definition revoke_device :: "'r auth_server \<Rightarrow> string \<Rightarrow> request \<Rightarrow> ('r, unit) auth" where
  "revoke_device A device_id rq =
     bindE (authenticate_device A rq []) (\<lambda>d.
     bindE (on_world (get_user_device (ad_user_id d) device_id)) (\<lambda>found.
     bindE (lift_res (ok_or (not_found ''DEVICE_NOT_FOUND'' ''Device not found'') found)) (\<lambda>device.
     bindE (on_world (update_device_status (dv_record_id device) ''REVOKED'')) (\<lambda>_. ret ()))))"

section \<open>Tokens\<close>

definition signing_key_id :: "cuid_gen \<Rightarrow> string db" where
  "signing_key_id cuid = prefixed cuid ''kid''"

definition generate_rsa_signing_key :: "api_ext \<Rightarrow> cuid_gen \<Rightarrow> (string \<times> string \<times> json) db" where
  "generate_rsa_signing_key ax cuid =
     bindE (lift_res (map_errR (internal ''AUTH_KEYGEN_FAILED'') (ax_rsa_generate ax))) (\<lambda>(pem, n, e).
     bindE (signing_key_id cuid) (\<lambda>kid.
     ret (kid, pem, JObject [(''alg'', JString ''RS256''), (''e'', JString e), (''kid'', JString kid),
            (''kty'', JString ''RSA''), (''n'', JString n), (''use'', JString ''sig'')])))"

definition ensure_active_signing_key :: "api_ext \<Rightarrow> cuid_gen \<Rightarrow> signing_key_row db" where
  "ensure_active_signing_key ax cuid =
     bindE get_active_signing_key (\<lambda>found.
       case found of
         Some active \<Rightarrow> ret active
       | None \<Rightarrow>
           bindE (generate_rsa_signing_key ax cuid) (\<lambda>(kid, pem, public_jwk).
           bindE deactivate_signing_keys (\<lambda>_.
           create_signing_key \<lparr>ski_kid = kid, ski_private_key_pem = pem, ski_public_key_jwk = public_jwk,
             ski_algorithm = ''RS256'', ski_expires_at = None, ski_is_active = True\<rparr>)))"

definition or_default :: "'a \<Rightarrow> 'a option \<Rightarrow> 'a" where
  "or_default d v = (case v of None \<Rightarrow> d | Some x \<Rightarrow> x)"

definition token_claims_of :: "api_ext \<Rightarrow> instant \<Rightarrow> i64 \<Rightarrow> string \<Rightarrow> authenticated_device \<Rightarrow> token_claims" where
  "token_claims_of ax clock expires_in scope d =
     (let now = word_of_int (seconds_of clock) in
      \<lparr>tc_sub = ad_user_id d, tc_iss = or_default (ax_oauth2_issuer ax) (ax_token_issuer ax),
       tc_aud = or_default ''user-storage-auth'' (ax_token_audience ax), tc_scope = scope, tc_device_id = ad_device_id d,
       tc_iat = now, tc_exp = now + expires_in\<rparr>)"

text \<open>The token, its lifetime and its scope.\<close>

definition exchange_token :: "api_ext \<Rightarrow> cuid_gen \<Rightarrow> 'r auth_server \<Rightarrow> request \<Rightarrow> ('r, string \<times> i64 \<times> string) auth" where
  "exchange_token ax cuid A rq =
     bindE (lift_res (map_errR (bad_request ''INVALID_BODY'') (ax_parse_token_scope ax (in_body rq)))) (\<lambda>scope_opt.
     bindE (authenticate_device A rq (in_body rq)) (\<lambda>d.
     let scope = or_default ''openid profile'' scope_opt in
     bindE (on_world (ensure_active_signing_key ax cuid)) (\<lambda>key.
     bindE (gets (\<lambda>s. w_clock (fst s))) (\<lambda>clock.
     let expires_in = (if sint (ax_token_ttl_seconds ax) < 60 then 60 else ax_token_ttl_seconds ax);
         c = token_claims_of ax clock expires_in scope d in
     bindE (lift_res (map_errR (internal ''AUTH_SIGNING_KEY_INVALID'') (ax_encoding_key ax (sk_private_key_pem key)))) (\<lambda>ek.
     bindE (lift_res (map_errR (internal ''AUTH_TOKEN_ISSUE_FAILED'') (ax_encode ax (sk_kid key) c ek))) (\<lambda>token.
     ret (token, expires_in, scope)))))))"

definition jwks_keys :: "json list db" where
  "jwks_keys = bindE list_active_signing_keys (\<lambda>rows. ret (map sk_public_key_jwk rows))"

section \<open>Bearer tokens\<close>

definition api_bearer_token :: "'r auth_server \<Rightarrow> headers \<Rightarrow> app_error + claims" where
  "api_bearer_token A hs =
     (let auth_header = or_default [] (header_value (as_to_str_ok A) hs ''authorization'') in
      if \<not> starts_with ''bearer '' (to_ascii_lowercase auth_header) then Inl (unauthorized ''Missing bearer token'')
      else jwt_verify (as_jwt A) (as_audiences A) (as_jwks A) (drop 7 auth_header))"

definition approve_step ::
    "'r auth_server \<Rightarrow> string \<Rightarrow> headers \<Rightarrow> string option \<Rightarrow> string option \<Rightarrow> (string \<times> string) db" where
  "approve_step A step_id hs decision_opt message_opt =
     bindE (lift_res (api_bearer_token A hs)) (\<lambda>_.
     bindE (gets w_clock) (\<lambda>now.
     let decision = to_ascii_uppercase (or_default ''APPROVED'' decision_opt);
         target_status = (if decision = ''APPROVED'' then ''COMPLETED'' else ''FAILED'');
         detail = JObject [(''decision'', JString decision), (''message'', opt_string message_opt)];
         patch = (if decision = ''APPROVED''
                  then patch_finished_at now (patch_clear_error (patch_output detail (patch_status target_status patch_new)))
                  else patch_finished_at now (patch_error detail (patch_status target_status patch_new))) in
     bindE (patch_step step_id patch) (\<lambda>_. ret (step_id, target_status))))"

definition userinfo :: "'r auth_server \<Rightarrow> headers \<Rightarrow> app_error + (string \<times> string option \<times> string option)" where
  "userinfo A hs = bindR (api_bearer_token A hs) (\<lambda>c. Inr (cl_sub c, cl_name c, cl_preferred_username c))"

end
