(* ===== verification/Replay_Guard.thy ===== *)
theory Replay_Guard
  imports Auth
begin

text \<open>
  The trait \<open>ReplayGuard\<close> of \<open>auth_signature/replay.rs\<close> as an interface with its two
  implementations: the guard on Redis (\<open>guard_record\<close> in \<open>Auth\<close>) and the in-memory guard the tests run with. The
  interface says when a guard refuses a nonce, that it goes on to refuse it, and for how long a
  nonce is refused after it was accepted; what follows for a whole course of requests is proved once.
\<close>

section \<open>The in-memory guard\<close>

text \<open>The cache maps a device and a nonce to the timestamp of the request. \<open>locked\<close> says whether the mutex could be taken.\<close>

type_synonym nonce_cache = "string \<Rightarrow> i64 option"

definition memory_key :: "string \<Rightarrow> string \<Rightarrow> string" where
  "memory_key device_id nonce = device_id @ '':'' @ nonce"

definition memory_cutoff :: "i64 \<Rightarrow> instant \<Rightarrow> i64" where
  "memory_cutoff skew_seconds now = word_of_int (seconds_of now) - (if sint skew_seconds < 1 then 1 else skew_seconds)"

definition retain :: "i64 \<Rightarrow> nonce_cache \<Rightarrow> nonce_cache" where
  "retain cutoff entries key =
     (case entries key of Some seen_at \<Rightarrow> if sint cutoff \<le> sint seen_at then Some seen_at else None | None \<Rightarrow> None)"

definition memory_check_and_record ::
    "bool \<Rightarrow> string \<Rightarrow> string \<Rightarrow> i64 \<Rightarrow> i64 \<Rightarrow> instant \<Rightarrow> nonce_cache \<Rightarrow> (app_error + unit) \<times> nonce_cache" where
  "memory_check_and_record locked device_id nonce timestamp skew_seconds now cache =
     (if \<not> locked then (Inl (internal ''NONCE_CACHE_LOCK_FAILED'' ''failed to lock nonce cache''), cache)
      else
        (let entries = retain (memory_cutoff skew_seconds now) cache; key = memory_key device_id nonce in
         if entries key \<noteq> None then (Inl (unauthorized ''Nonce already used''), entries)
         else (Inr (), entries(key \<mapsto> timestamp))))"

section \<open>The interface\<close>

text \<open>The answers to a course of requests: the instant, the device, the nonce and the timestamp of each.\<close>

type_synonym signed_at = "instant \<times> string \<times> string \<times> i64"

fun guard_trace ::
    "(string \<Rightarrow> string \<Rightarrow> i64 \<Rightarrow> instant \<Rightarrow> 's \<Rightarrow> (app_error + unit) \<times> 's) \<Rightarrow> signed_at list \<Rightarrow> 's \<Rightarrow> bool list" where
  "guard_trace check [] s = []"
| "guard_trace check ((now, d, n, ts) # es) s =
     (case check d n ts now s of (x, s') \<Rightarrow> (x = Inr ()) # guard_trace check es s')"

text \<open>
  \<open>blocks s d n t\<close>: in state \<open>s\<close> the nonce is refused at time \<open>t\<close>. \<open>window ts now t\<close>: the nonce of a request with
  timestamp \<open>ts\<close> that was accepted at \<open>now\<close> is still refused at \<open>t\<close>. \<open>sane\<close> bounds the instants at
  which the guard's arithmetic does not wrap.
\<close>

locale replay_guard =
  fixes check :: "string \<Rightarrow> string \<Rightarrow> i64 \<Rightarrow> instant \<Rightarrow> 's \<Rightarrow> (app_error + unit) \<times> 's"
    and blocks :: "'s \<Rightarrow> string \<Rightarrow> string \<Rightarrow> instant \<Rightarrow> bool"
    and window :: "i64 \<Rightarrow> instant \<Rightarrow> instant \<Rightarrow> bool"
    and sane :: "instant \<Rightarrow> bool"
  assumes refuses: "blocks s d n now \<Longrightarrow> fst (check d n ts now s) \<noteq> Inr ()"
    and keeps_blocked: "blocks s d n t \<Longrightarrow> sane now \<Longrightarrow> sane t \<Longrightarrow> now \<le> t \<Longrightarrow>
      check d' n' ts now s = (x, s') \<Longrightarrow> blocks s' d n t"
    and records: "check d n ts now s = (Inr (), s') \<Longrightarrow> window ts now t \<Longrightarrow> blocks s' d n t"
begin

lemma blocked_refused:
  assumes "sorted (map fst es)" "\<forall>e\<in>set es. sane (fst e)" "j < length es"
    and "es ! j = (t, d, n, ts)" "blocks s d n t"
  shows "\<not> guard_trace check es s ! j"
  using assms
proof (induction es arbitrary: s j)
  case (Cons e es)
  obtain now d' n' ts' where e: "e = (now, d', n', ts')" by (cases e) auto
  obtain x s' where c: "check d' n' ts' now s = (x, s')" by fastforce
  show ?case
  proof (cases j)
    case 0
    with Cons.prems e c refuses[of s d n t ts] show ?thesis by auto
  next
    case (Suc i)
    with Cons.prems e have "sane now" "sane t" "now \<le> t"
      by (auto simp: all_set_conv_all_nth)
    then have "blocks s' d n t" by (rule keeps_blocked[OF Cons.prems(5) _ _ _ c])
    with Cons Suc e c show ?thesis by auto
  qed
qed simp

text \<open>Two requests with the same device and nonce both pass only when the second is out of the window of the first.\<close>

lemma accepted_twice:
  assumes "sorted (map fst es)" "\<forall>e\<in>set es. sane (fst e)" "i < j" "j < length es"
    and "es ! i = (t, d, n, ts)" "es ! j = (t', d, n, ts')"
    and "guard_trace check es s ! i" "guard_trace check es s ! j"
  shows "\<not> window ts t t'"
  using assms
proof (induction es arbitrary: s i j)
  case (Cons e es)
  obtain now d' n' ts1 where e: "e = (now, d', n', ts1)" by (cases e) auto
  obtain x s' where c: "check d' n' ts1 now s = (x, s')" by fastforce
  from Cons.prems(3) obtain j' where j: "j = Suc j'" by (cases j) auto
  show ?case
  proof (cases i)
    case 0
    with Cons.prems e c have same: "now = t" "d' = d" "n' = n" "ts1 = ts" "x = Inr ()" by auto
    have "\<not> blocks s' d n t'"
      using blocked_refused[of es j' t' d n ts' s'] Cons.prems j e c by auto
    with records[of d n ts t s s' t'] c same show ?thesis by auto
  next
    case (Suc i')
    with Cons.IH[of i' j' s'] Cons.prems e c j show ?thesis by auto
  qed
qed simp

end

section \<open>The guards\<close>

lemma guard_record_cases:
  assumes "redis_laws R" "guard_record R d n skew t r = (x, r')"
  obtains "x = Inr ()" "rd_get R (replay_key d n) t r = None"
      "rd_entry R r' = (rd_entry R r)(replay_key d n \<mapsto> ([], expires_at t (replay_ttl skew)))"
  | "x \<noteq> Inr ()" "rd_entry R r' = rd_entry R r"
  | "x \<noteq> Inr ()" "rd_get R (replay_key d n) t r = None"
      "rd_entry R r' = (rd_entry R r)(replay_key d n \<mapsto> ([], expires_at t (replay_ttl skew)))"
proof (cases "\<exists>e. rd_client R = Inl e \<or> rd_connect R r = Inl e")
  case True
  with assms(2) show thesis by (intro that(2)) (auto simp: guard_record_def split: sum.splits)
next
  case False
  obtain res r1 where set: "rd_set_nx_ex R (replay_key d n) [] (replay_ttl skew) t r = (res, r1)" by fastforce
  from False have "\<exists>u v. rd_client R = Inr u \<and> rd_connect R r = Inr v" by (metis sum.exhaust)
  with assms(2) set have r1: "r' = r1" and x: "x = Inr () \<longleftrightarrow> res = Inr True"
    by (auto simp: guard_record_def split: sum.splits bool.splits)
  show thesis
    by (rule set_nx_cases[OF assms(1) set]) (use that x r1 in auto)
qed

text \<open>The guard on Redis, for every store with the laws of Redis: a nonce is refused until its key expires.\<close>

definition redis_check :: "'r redis \<Rightarrow> i64 \<Rightarrow> string \<Rightarrow> string \<Rightarrow> i64 \<Rightarrow> instant \<Rightarrow> 'r \<Rightarrow> (app_error + unit) \<times> 'r" where
  "redis_check R skew d n ts = guard_record R d n skew"

lemma redis_replay_guard:
  assumes "redis_laws R"
  shows "replay_guard (redis_check R skew) (\<lambda>r d n t. rd_get R (replay_key d n) t r \<noteq> None)
    (\<lambda>ts now t. t < expires_at now (replay_ttl skew)) (\<lambda>_. True)"
proof
  fix r d n now ts assume live: "rd_get R (replay_key d n) now r \<noteq> None"
  obtain x r' where g: "guard_record R d n skew now r = (x, r')" by fastforce
  show "fst (redis_check R skew d n ts now r) \<noteq> Inr ()"
    unfolding redis_check_def g by (rule guard_record_cases[OF assms g]) (use live in simp_all)
next
  fix r d n t now d' n' ts x r'
  assume live: "rd_get R (replay_key d n) t r \<noteq> None" and "now \<le> t" and c: "redis_check R skew d' n' ts now r = (x, r')"
  then have "rd_get R (replay_key d n) now r \<noteq> None" by (auto simp: rd_get_def split: option.splits if_splits)
  then have other: "replay_key d' n' \<noteq> replay_key d n" if "rd_get R (replay_key d' n') now r = None" using that by metis
  show "rd_get R (replay_key d n) t r' \<noteq> None"
    by (rule guard_record_cases[OF assms c[unfolded redis_check_def]]) (use live other in \<open>auto simp: rd_get_def\<close>)
next
  fix d n ts now r r' t
  assume c: "redis_check R skew d n ts now r = (Inr (), r')" and t: "t < expires_at now (replay_ttl skew)"
  show "rd_get R (replay_key d n) t r' \<noteq> None"
    by (rule guard_record_cases[OF assms c[unfolded redis_check_def]]) (use t in \<open>simp_all add: rd_get_def\<close>)
qed

text \<open>
  The in-memory guard: a nonce is refused while the timestamp of its request is not older than
  the skew. The instants for which the cutoff does not wrap are the sane ones.
\<close>

definition memory_sane :: "i64 \<Rightarrow> instant \<Rightarrow> bool" where
  "memory_sane skew now \<longleftrightarrow> 0 \<le> seconds_of now \<and> seconds_of now < 2 ^ 61 \<and> sint skew < 2 ^ 61"

lemma memory_cutoff_sint:
  assumes "memory_sane skew now"
  shows "sint (memory_cutoff skew now) = seconds_of now - max 1 (sint skew)"
proof -
  have "memory_cutoff skew now = word_of_int (seconds_of now - max 1 (sint skew))"
    by (simp add: memory_cutoff_def max_def)
  moreover have "sint (word_of_int (seconds_of now - max 1 (sint skew)) :: i64) = seconds_of now - max 1 (sint skew)"
    using assms by (intro sint64_word_of_int) (auto simp: memory_sane_def)
  ultimately show ?thesis by (simp only:)
qed

interpretation memory: replay_guard
    "\<lambda>d n ts now. memory_check_and_record locked d n ts skew now"
    "\<lambda>c d n t. \<exists>seen_at. c (memory_key d n) = Some seen_at \<and> sint (memory_cutoff skew t) \<le> sint seen_at"
    "\<lambda>ts now t. sint (memory_cutoff skew t) \<le> sint ts" "memory_sane skew" for locked skew
proof
  fix c d n t now d' n' ts x c'
  assume "\<exists>seen_at. c (memory_key d n) = Some seen_at \<and> sint (memory_cutoff skew t) \<le> sint seen_at"
    and sane: "memory_sane skew now" "memory_sane skew t" and "now \<le> t"
    and c: "memory_check_and_record locked d' n' ts skew now c = (x, c')"
  moreover have "seconds_of now \<le> seconds_of t" using \<open>now \<le> t\<close> by (simp add: seconds_of_def zdiv_mono1)
  ultimately show "\<exists>seen_at. c' (memory_key d n) = Some seen_at \<and> sint (memory_cutoff skew t) \<le> sint seen_at"
    by (auto simp: memory_check_and_record_def Let_def retain_def memory_cutoff_sint split: if_splits option.splits)
qed (auto simp: memory_check_and_record_def Let_def retain_def split: if_splits option.splits)

end
