(* ===== verification/Auth_Props.thy ===== *)
theory Auth_Props
  imports Auth_Api Replay_Guard
begin

text \<open>
  The properties of authentication: what an accepted signature means, when a nonce can be
  accepted twice, that the claims of a handler are those of the authenticated caller, and what
  enrolment checks.
\<close>

section \<open>Claims\<close>

text \<open>Words of visible ASCII, as client ids, audiences and scopes are.\<close>

definition word_char :: "char \<Rightarrow> bool" where
  "word_char c \<longleftrightarrow> 33 \<le> (of_char c :: nat) \<and> (of_char c :: nat) < 127"

definition is_word :: "string \<Rightarrow> bool" where
  "is_word s \<longleftrightarrow> s \<noteq> [] \<and> (\<forall>c\<in>set s. word_char c)"

lemma no_white_space:
  assumes "word_char c"
  shows "List.find (\<lambda>p. p \<noteq> [] \<and> prefix p (c # s)) whitespace = None"
proof -
  have "\<not> word_char (hd p)" if "p \<in> set whitespace" for p
    using that by (auto simp: whitespace_def word_char_def)
  from this[of "c # _"] assms have "c # zs \<notin> set whitespace" for zs by auto
  then show ?thesis by (auto simp: find_None_iff prefix_Cons)
qed

lemma ws_pieces_Nil: "ws_pieces [] = [[]]"
  by (subst ws_pieces.simps) (simp add: whitespace_def)

lemma ws_pieces_Cons:
  "word_char c \<Longrightarrow> ws_pieces (c # s) = (case ws_pieces s of [] \<Rightarrow> [[c]] | q # qs \<Rightarrow> (c # q) # qs)"
  by (subst ws_pieces.simps) (simp add: no_white_space)

lemma ws_pieces_word: "\<forall>c\<in>set w. word_char c \<Longrightarrow> ws_pieces w = [w]"
  by (induction w) (auto simp: ws_pieces_Cons ws_pieces_Nil)

lemma ws_pieces_space: "ws_pieces (CHR '' '' # s) = [] # ws_pieces s"
proof -
  have found: "List.find (\<lambda>p. p \<noteq> [] \<and> prefix p (CHR '' '' # s)) whitespace = Some '' ''"
    by (simp add: whitespace_def)
  show ?thesis using ws_pieces.simps[of "CHR '' '' # s"] unfolding found by simp
qed

lemma ws_pieces_word_space: "\<forall>c\<in>set w. word_char c \<Longrightarrow> ws_pieces (w @ CHR '' '' # s) = w # ws_pieces s"
  by (induction w) (auto simp: ws_pieces_space ws_pieces_Cons)

lemma split_whitespace_join:
  assumes "\<forall>w\<in>set ws. is_word w"
  shows "split_whitespace (join '' '' ws) = ws"
proof -
  have "ws \<noteq> [] \<Longrightarrow> ws_pieces (join '' '' ws) = ws"
    using assms
    by (induction ws rule: induct_list012)
       (auto simp: ws_pieces_word ws_pieces_Nil is_word_def ws_pieces_word_space)
  with assms show ?thesis
    by (cases "ws = []") (auto simp: split_whitespace_def ws_pieces_Nil is_word_def)
qed

section \<open>Timestamps\<close>

lemma sint_wrapping_abs:
  "sint (wrapping_abs x) = (if sint x = - (2 ^ 63) then - (2 ^ 63) else \<bar>sint x\<bar>)"
proof -
  have "sint (- x) = (if sint x = - (2 ^ 63) then - (2 ^ 63) else - sint x)"
  proof (cases "sint x = - (2 ^ 63)")
    case True
    have "x = word_of_int (sint x)" by simp
    then have "x = word_of_int (- (2 ^ 63))" by (simp only: True)
    then show ?thesis by simp
  next
    case False
    have "- x = word_of_int (- sint x)" by simp
    moreover have "sint (word_of_int (- sint x) :: i64) = - sint x"
      using False sint64_range[of x] by (intro sint64_word_of_int) auto
    ultimately show ?thesis using False by simp
  qed
  then show ?thesis by (auto simp: wrapping_abs_def)
qed

lemma now_minus_timestamp:
  assumes "0 \<le> now" "now < 2 ^ 62"
  shows "sint (word_of_int now - (t :: i64)) = (if now - sint t < 2 ^ 63 then now - sint t else now - sint t - 2 ^ 64)"
proof -
  have eq: "word_of_int now - t = word_of_int (now - sint t)" by simp
  show ?thesis
  proof (cases "now - sint t < 2 ^ 63")
    case True
    have "sint (word_of_int (now - sint t) :: i64) = now - sint t"
      using True assms sint64_range[of t] by (intro sint64_word_of_int) auto
    with True eq show ?thesis by simp
  next
    case False
    have zero: "(word_of_int (2 ^ 64) :: i64) = 0" by simp
    have "(word_of_int (now - sint t) :: i64) = word_of_int (now - sint t - 2 ^ 64)"
      by (simp only: of_int_diff[of "now - sint t"] zero diff_zero)
    moreover have "sint (word_of_int (now - sint t - 2 ^ 64) :: i64) = now - sint t - 2 ^ 64"
      using False assms sint64_range[of t] by (intro sint64_word_of_int) auto
    ultimately have "sint (word_of_int now - t) = now - sint t - 2 ^ 64" unfolding eq by (simp only:)
    with False show ?thesis by (simp only: if_False)
  qed
qed

lemma validate_timestamp_iff:
  assumes "0 \<le> seconds_of clock" "seconds_of clock < 2 ^ 62" "0 \<le> sint skew" "sint skew < 2 ^ 62"
  shows "validate_timestamp t skew clock = Inr () \<longleftrightarrow>
    \<bar>seconds_of clock - sint t\<bar> \<le> sint skew \<or> sint t = seconds_of clock - 2 ^ 63"
proof -
  let ?d = "seconds_of clock - sint t"
  have d: "sint (word_of_int (seconds_of clock) - t) = (if ?d < 2 ^ 63 then ?d else ?d - 2 ^ 64)"
    by (rule now_minus_timestamp[OF assms(1,2)])
  have range: "- (2 ^ 63) \<le> sint t" "sint t < 2 ^ 63" by (rule sint64_range)+
  have iff: "validate_timestamp t skew clock = Inr () \<longleftrightarrow>
      \<not> sint skew < sint (wrapping_abs (word_of_int (seconds_of clock) - t))"
    by (simp add: validate_timestamp_def Let_def)
  show ?thesis
    unfolding iff sint_wrapping_abs d using assms range by auto
qed

section \<open>The device payload\<close>

lemma escape_quotes_Nil [simp]: "escape_quotes [] = []"
  by (simp add: escape_quotes_def replace_char_def)

lemma escape_quotes_Cons [simp]:
  "escape_quotes (c # s) =
     (if c = quote then [backslash, quote] else if c = backslash then [backslash, backslash] else [c]) @ escape_quotes s"
  by (simp add: escape_quotes_def replace_char_def quote_def backslash_def)

text \<open>An escaped text ends at the first quote that no backslash escapes.\<close>

lemma escape_quotes_end:
  "escape_quotes s @ quote # u = escape_quotes t @ quote # v \<Longrightarrow> s = t \<and> u = v"
proof (induction s arbitrary: t)
  case Nil
  then show ?case by (cases t) (auto simp: quote_def backslash_def split: if_splits)
next
  case (Cons c s)
  then show ?case by (cases t) (auto simp: quote_def backslash_def split: if_splits)
qed

lemma quote_free_end: "quote \<notin> set s \<Longrightarrow> quote \<notin> set t \<Longrightarrow> s @ quote # u = t @ quote # v \<Longrightarrow> s = t \<and> u = v"
proof (induction s arbitrary: t)
  case Nil
  then show ?case by (cases t) auto
next
  case (Cons c s)
  then show ?case by (cases t) auto
qed

lemma show_int_no_quote: "quote \<notin> set (show_int i)"
proof -
  have "\<not> is_ascii_digit quote" "quote \<noteq> CHR ''-''" by (simp_all add: quote_def is_ascii_digit_def)
  then show ?thesis by (auto simp: show_int_def dest: show_nat_digits)
qed

lemma device_payload_inj:
  assumes "canonicalize_device_auth_payload d n k t = canonicalize_device_auth_payload d' n' k' t'"
    and "quote \<notin> set d" "quote \<notin> set d'"
  shows "d = d' \<and> n = n' \<and> k = k' \<and> show_int (sint t) = show_int (sint t')"
proof -
  let ?tail = "\<lambda>n. '','' @ in_quotes ''nonce'' @ '':'' @ in_quotes n @ ''}''"
  let ?mid = "\<lambda>t n. '','' @ in_quotes ''ts'' @ '':'' @ quote # show_int (sint t) @ quote # ?tail n"
  let ?key = "\<lambda>k t n. '','' @ in_quotes ''publicKey'' @ '':'' @ quote # escape_quotes k @ quote # ?mid t n"
  from assms(1) have "d @ quote # ?key k t n = d' @ quote # ?key k' t' n'"
    by (simp add: canonicalize_device_auth_payload_def in_quotes_def)
  from quote_free_end[OF assms(2,3) this] have d: "d = d'" and "?key k t n = ?key k' t' n'" by blast+
  then have "escape_quotes k @ quote # ?mid t n = escape_quotes k' @ quote # ?mid t' n'" by simp
  from escape_quotes_end[OF this] have k: "k = k'" and "?mid t n = ?mid t' n'" by blast+
  then have "show_int (sint t) @ quote # ?tail n = show_int (sint t') @ quote # ?tail n'" by simp
  from quote_free_end[OF show_int_no_quote show_int_no_quote this]
  have t: "show_int (sint t) = show_int (sint t')" and "?tail n = ?tail n'" by blast+
  with d k show ?thesis by (simp add: in_quotes_def)
qed

section \<open>Replays\<close>

lemma sint_double:
  assumes "0 \<le> sint skew" "sint skew < 2 ^ 61"
  shows "sint (skew * 2 :: i64) = sint skew * 2"
proof -
  have "(word_of_int (sint skew * 2) :: i64) = skew * 2" by (simp only: of_int_mult of_int_sint of_int_numeral scast_id)
  moreover have "sint (word_of_int (sint skew * 2) :: i64) = sint skew * 2"
    using assms by (intro sint64_word_of_int) simp_all
  ultimately show ?thesis by (simp only:)
qed

section \<open>Accepted signatures\<close>

lemma on_world_ok: "on_world m s = (Inr a, s') \<longleftrightarrow> (\<exists>w'. m (fst s) = (Inr a, w') \<and> s' = (w', snd s))"
  by (auto simp: on_world_def split: prod.splits)

lemma parse_i64_sint: "parse_i64 s = Some i \<Longrightarrow> sint (word_of_int i :: i64) = i"
  by (intro sint64_word_of_int) (auto simp: parse_i64_def Let_def split: list.splits option.splits if_splits)

lemma check_and_record_ok: "check_and_record R d n skew s = (Inr (), s') \<longleftrightarrow>
    (\<exists>r'. guard_record R d n skew (w_clock (fst s)) (snd s) = (Inr (), r') \<and> s' = (fst s, r'))"
  by (auto simp: check_and_record_def split: prod.splits)

lemma lookup_by_device:
  assumes "lookup_device (Some d) None w = (Inr (Some r), w')"
  obtains r0 where "select_first (\<lambda>r. dv_device_id r = d) (w_devices w) = Some r0" "r = r0\<lparr>dv_last_seen_at := Some (w_clock w)\<rparr>"
  using assms by (auto simp: lookup_device_def opt_eq_def split: option.splits)

lemma required_ok: "required A hs k = Inr v \<longleftrightarrow> header_value (as_to_str_ok A) hs k = Some v"
  by (simp add: required_def)

section \<open>Enrolment\<close>

lemma bind_device_new:
  assumes "devices_ok dx w" "sha256_hex_length dx" "user_of (br_user_id req) w \<noteq> None"
    and "dx_to_string dx (sorted_jwk (br_public_jwk req)) = Inr jwk"
    and "\<forall>r\<in>set (w_devices w). \<not> same_device_or_key (br_device_id req) (br_jkt req) r"
  shows "bind_device dx req w = (Inr (device_record_id dx (br_device_id req) jwk), w\<lparr>w_devices := w_devices w
    @ [new_device_row dx (w_clock w) (br_user_id req) (br_device_id req) (br_jkt req) jwk]\<rparr>)"
proof -
  have "select_first (same_device_or_key (br_device_id req) (br_jkt req)) (w_devices w) = None"
    using assms(5) by (simp add: select_first_None)
  with assms(3,4) show ?thesis by (simp add: bind_device_def Let_def insert_device[OF assms(1,2)])
qed

lemma ignore_ok: "\<forall>p. fst (m w) \<noteq> Inl (Panic p) \<Longrightarrow> ignore m w = (Inr (), snd (m w))"
  by (auto simp: ignore_def split: prod.splits sum.splits app_error.splits)

lemma bind_completions:
  "complete_bind_step cx d rid w = (Inr (), snd (complete_bind_step cx d rid w))"
  "w_devices (snd (complete_bind_step cx d rid w)) = w_devices w"
  "complete_bind_flow cx d w = (Inr (), snd (complete_bind_flow cx d w))"
  "w_devices (snd (complete_bind_flow cx d w)) = w_devices w"
proof -
  have patch: "fst (patch_step i p w) \<noteq> Inl (Panic x)" "w_devices (snd (patch_step i p w)) = w_devices w" for i p w x
    by (simp_all add: patch_step_def Let_def not_found_def modify_step_def split: option.split)
  have flow: "fst (update_flow i u w) \<noteq> Inl (Panic x)" "w_devices (snd (update_flow i u w)) = w_devices w" for i u w x
    by (simp_all add: update_flow_def Let_def not_found_def modify_flow_def split: option.split)
  show "complete_bind_step cx d rid w = (Inr (), snd (complete_bind_step cx d rid w))"
    "w_devices (snd (complete_bind_step cx d rid w)) = w_devices w"
    "complete_bind_flow cx d w = (Inr (), snd (complete_bind_flow cx d w))"
    "w_devices (snd (complete_bind_flow cx d w)) = w_devices w"
    by (simp_all add: complete_bind_step_def complete_bind_flow_def ignore_ok patch flow split: option.split)
qed

lemma signature_keeps_world: "keeps fst (verify_signature_with_jwk A rq body k)"
  unfolding verify_signature_with_jwk_def
  by (intro frame_rules keepsI) (simp add: check_and_record_def split: prod.split)

section \<open>Claims in headers\<close>

lemma require_bff_auth_ok:
  assumes "require_bff_auth A rq s = (Inr rq', s')" "as_bff_enabled A"
  obtains c hs where "authenticate_request A (in_headers rq) s = (Inr c, s')"
    "put_claims A c (in_headers rq) = Inr hs" "rq' = rq\<lparr>in_headers := hs\<rparr>"
  using assms by (auto simp: require_bff_auth_def bindE_Inr_iff split: if_splits)

lemma split_whitespace_Nil [simp]: "split_whitespace [] = []"
  by (simp add: split_whitespace_def ws_pieces_Nil)

lemma put_claims_read:
  assumes "put_claims A c hs = Inr hs'" "\<forall>v. as_value_ok A v \<longrightarrow> as_to_str_ok A v"
  shows "extract_bff_claims (as_to_str_ok A) hs' =
    Some (c\<lparr>bc_audiences := split_whitespace (join '' '' (bc_audiences c)),
            bc_scopes := split_whitespace (join '' '' (bc_scopes c))\<rparr>)"
  using assms
  by (cases "bc_service_client_id c"; cases "bc_audiences c = []"; cases "bc_scopes c = []")
     (auto simp: put_claims_def Let_def bindR_Inr_iff header_of_def put_values_def extract_bff_claims_def
        header_value_def header_values_def split: if_splits)

section \<open>What authentication changes\<close>

text \<open>The database, apart from the times at which devices were last seen.\<close>

definition tables :: "world \<Rightarrow> world" where
  "tables w = w\<lparr>w_devices := map (\<lambda>d. d\<lparr>dv_last_seen_at := None\<rparr>) (w_devices w)\<rparr>"

abbreviation db_tables :: "'r both \<Rightarrow> world" where
  "db_tables s \<equiv> tables (fst s)"

lemma keeps_on_world: "keeps tables m \<Longrightarrow> keeps db_tables (on_world m)"
  by (auto simp: keeps_def on_world_def split: prod.split) (metis snd_conv)

lemma lookup_device_tables: "keeps tables (lookup_device d j)"
proof (rule keepsI)
  fix w
  have "map (\<lambda>d. d\<lparr>dv_last_seen_at := None\<rparr>) (update_where P (\<lambda>r. r\<lparr>dv_last_seen_at := t\<rparr>) ds)
      = map (\<lambda>d. d\<lparr>dv_last_seen_at := None\<rparr>) ds" for P t and ds :: "device_row list"
    by (induction ds) (simp_all add: update_where_def)
  then show "tables (snd (lookup_device d j w)) = tables w"
    by (auto simp: lookup_device_def tables_def split: option.split)
qed

lemma check_and_record_tables: "keeps db_tables (check_and_record R d n k)"
  by (auto simp: keeps_def check_and_record_def split: prod.split)

lemmas auth_frame = frame_rules keeps_on_world lookup_device_tables check_and_record_tables

lemma authenticate_request_tables: "keeps db_tables (authenticate_request A hs)"
  unfolding authenticate_request_def authenticate_signature_def
  by (intro auth_frame)

section \<open>Properties\<close>

text \<open>
  C15: the claims a BFF handler reads are those of the authenticated caller, whatever headers the
  client sends. When the middleware is enabled and lets a request pass, the caller was
  authenticated by the request's headers, method, path and body are unchanged, and the five
  internal headers of the request that the handler sees carry exactly the authenticated claims,
  when audiences and scopes are words of visible ASCII.
\<close>

theorem bff_claims_not_spoofable:
  assumes "require_bff_auth A rq s = (Inr rq', s')" "as_bff_enabled A" "\<forall>v. as_value_ok A v \<longrightarrow> as_to_str_ok A v"
  shows "\<exists>c. authenticate_request A (in_headers rq) s = (Inr c, s')
    \<and> in_method rq' = in_method rq \<and> in_path rq' = in_path rq \<and> in_body rq' = in_body rq
    \<and> ((\<forall>w\<in>set (bc_audiences c @ bc_scopes c). is_word w) \<longrightarrow> require_bff_claims A (in_headers rq') = Inr c)"
proof -
  obtain c hs where auth: "authenticate_request A (in_headers rq) s = (Inr c, s')"
    and put: "put_claims A c (in_headers rq) = Inr hs" and rq': "rq' = rq\<lparr>in_headers := hs\<rparr>"
    using assms(1,2) by (rule require_bff_auth_ok)
  have "require_bff_claims A hs = Inr c" if words: "\<forall>w\<in>set (bc_audiences c @ bc_scopes c). is_word w"
    using put_claims_read[OF put assms(3)] words assms(2)
    by (simp add: require_bff_claims_def split_whitespace_join)
  with auth rq' show ?thesis by auto
qed

text \<open>
  C14: a signature is accepted only for a known device that is active, with the claims of its
  owner: the timestamp header is a number within the skew of the server's clock, except for the one that lies 2^63 seconds before
  it, which passes too because the absolute value wraps around; Redis had no live entry for the nonce of the device, and has
  one now that lasts for the lifetime the guard gives it; the presented key is the bound key up to the order of its members; and
  the signature verifies, under that key, the payload of device, key, timestamp and nonce. Redis is assumed to obey its laws, and
  clock and skew to be less than 2^62 seconds.
\<close>

theorem signature_auth_sound:
  assumes "authenticate_signature A hs (w, r) = (Inr c, s')" "redis_laws (as_redis A)"
    and "0 \<le> seconds_of (w_clock w)" "seconds_of (w_clock w) < 2 ^ 62" "0 \<le> sint (as_max_skew A)" "sint (as_max_skew A) < 2 ^ 62"
  shows "\<exists>d key nonce signature ts_str ts device.
    header_value (as_to_str_ok A) hs ''x-auth-device-id'' = Some d
    \<and> header_value (as_to_str_ok A) hs ''x-auth-public-key'' = Some key
    \<and> header_value (as_to_str_ok A) hs ''x-auth-nonce'' = Some nonce
    \<and> header_value (as_to_str_ok A) hs ''x-auth-signature'' = Some signature
    \<and> header_value (as_to_str_ok A) hs ''x-auth-signature-timestamp'' = Some ts_str \<and> parse_i64 ts_str = Some ts
    \<and> (\<bar>seconds_of (w_clock w) - ts\<bar> \<le> sint (as_max_skew A) \<or> ts = seconds_of (w_clock w) - 2 ^ 63)
    \<and> rd_get (as_redis A) (replay_key d nonce) (w_clock w) r = None
    \<and> rd_entry (as_redis A) (snd s') = (rd_entry (as_redis A) r)
        (replay_key d nonce \<mapsto> ([], expires_at (w_clock w) (replay_ttl (as_max_skew A))))
    \<and> select_first (\<lambda>x. dv_device_id x = d) (w_devices w) = Some device
    \<and> eq_ignore_ascii_case (dv_status device) ''active''
    \<and> (\<exists>k. canonicalize_public_key (as_json A) key = Inr k
          \<and> canonicalize_public_key (as_json A) (dv_public_jwk device) = Inr k)
    \<and> verify_signature (as_crypto A) key (canonicalize_device_auth_payload d nonce key (word_of_int ts)) signature = Inr ()
    \<and> c = \<lparr>bc_user_id = dv_user_id device, bc_device_id = d, bc_service_client_id = None, bc_audiences = [], bc_scopes = []\<rparr>"
proof -
  from assms(1) obtain d key nonce signature ts_str i r' found w' device where
    h: "header_value (as_to_str_ok A) hs ''x-auth-device-id'' = Some d"
      "header_value (as_to_str_ok A) hs ''x-auth-public-key'' = Some key"
      "header_value (as_to_str_ok A) hs ''x-auth-nonce'' = Some nonce"
      "header_value (as_to_str_ok A) hs ''x-auth-signature'' = Some signature"
      "header_value (as_to_str_ok A) hs ''x-auth-signature-timestamp'' = Some ts_str" "parse_i64 ts_str = Some i"
    and ts: "validate_timestamp (word_of_int i) (as_max_skew A) (w_clock w) = Inr ()"
    and guard: "guard_record (as_redis A) d nonce (as_max_skew A) (w_clock w) r = (Inr (), r')" "snd s' = r'"
    and found: "lookup_device (Some d) None w = (Inr (Some device), w')"
    and active: "eq_ignore_ascii_case (dv_status device) ''active''"
    and key: "validate_public_key_match (as_json A) key (dv_public_jwk device) = Inr ()"
    and sig: "verify_signature (as_crypto A) key
        (canonicalize_device_auth_payload d nonce key (word_of_int i)) signature = Inr ()"
    and c: "c = \<lparr>bc_user_id = dv_user_id device, bc_device_id = dv_device_id device, bc_service_client_id = None,
        bc_audiences = [], bc_scopes = []\<rparr>"
    unfolding authenticate_signature_def Let_def
    by (auto simp: bindE_Inr_iff required_ok check_and_record_ok on_world_ok split: if_splits)
  from found obtain r0 where r0: "select_first (\<lambda>x. dv_device_id x = d) (w_devices w) = Some r0"
    "device = r0\<lparr>dv_last_seen_at := Some (w_clock w)\<rparr>" by (rule lookup_by_device)
  then have "dv_device_id r0 = d" by (auto dest: select_first_Some)
  moreover have "sint (word_of_int i :: i64) = i" using h(6) by (rule parse_i64_sint)
  with ts validate_timestamp_iff[OF assms(3-6)]
  have "\<bar>seconds_of (w_clock w) - i\<bar> \<le> sint (as_max_skew A) \<or> i = seconds_of (w_clock w) - 2 ^ 63" by simp
  moreover have "rd_get (as_redis A) (replay_key d nonce) (w_clock w) r = None"
    "rd_entry (as_redis A) r' = (rd_entry (as_redis A) r)(replay_key d nonce \<mapsto> ([], expires_at (w_clock w) (replay_ttl (as_max_skew A))))"
    by (rule guard_record_cases[OF assms(2) guard(1)]; simp)+
  ultimately show ?thesis
    using r0 h guard(2) active key sig c
    by (auto simp: validate_public_key_match_def bindR_Inr_iff split: if_splits)
qed

text \<open>
  C16: the replay guard and the timestamp check together leave one gap. If two requests with the
  same device, nonce and timestamp both pass, then the first arrived exactly \<open>skew\<close> seconds
  before its timestamp and the second exactly \<open>skew\<close> seconds after it: in every other case a
  replay is refused.
\<close>

theorem nonce_replay_window:
  assumes "redis_laws R" "sorted (map fst es)" "i < j" "j < length es"
    and "es ! i = (a, d, n, ts)" "es ! j = (b, d, n, ts)"
    and "guard_trace (redis_check R skew) es r ! i" "guard_trace (redis_check R skew) es r ! j"
    and "validate_timestamp ts skew a = Inr ()" "validate_timestamp ts skew b = Inr ()"
    and "0 < sint skew" "sint skew < 2 ^ 61" "0 \<le> seconds_of a" "seconds_of b < 2 ^ 61"
  shows "seconds_of a = sint ts - sint skew \<and> seconds_of b = sint ts + sint skew"
proof -
  have "replay_ttl skew = sint skew * 2" using assms(11,12) by (simp add: replay_ttl_def sint_double)
  with replay_guard.accepted_twice[OF redis_replay_guard[OF assms(1)] assms(2) _ assms(3-8)]
  have "a + sint skew * 2 * 1000000 \<le> b" by (simp add: expires_at_def)
  then have later: "seconds_of a + sint skew * 2 \<le> seconds_of b"
    unfolding seconds_of_def
    using zdiv_mono1[of "a + sint skew * 2 * 1000000" b 1000000] by simp
  have "validate_timestamp ts skew a = Inr () \<longleftrightarrow> \<bar>seconds_of a - sint ts\<bar> \<le> sint skew \<or> sint ts = seconds_of a - 2 ^ 63"
    "validate_timestamp ts skew b = Inr () \<longleftrightarrow> \<bar>seconds_of b - sint ts\<bar> \<le> sint skew \<or> sint ts = seconds_of b - 2 ^ 63"
    using assms(11-14) later by (intro validate_timestamp_iff; simp)+
  with assms(9,10) have
    "\<bar>seconds_of a - sint ts\<bar> \<le> sint skew \<or> sint ts = seconds_of a - 2 ^ 63"
    "\<bar>seconds_of b - sint ts\<bar> \<le> sint skew \<or> sint ts = seconds_of b - 2 ^ 63" by simp_all
  then show ?thesis using later assms(11-14) by auto
qed

text \<open>
  The in-memory guard of the tests keeps the timestamps themselves and has no such gap: of two
  requests with the same device, nonce and (non-negative) timestamp at most one passes.
\<close>

lemma memory_guard_no_replay:
  assumes "sorted (map fst es)" "\<forall>e\<in>set es. memory_sane skew (fst e)" "i < j" "j < length es"
    and "es ! i = (a, d, n, ts)" "es ! j = (b, d, n, ts)"
    and "validate_timestamp ts skew b = Inr ()" "0 \<le> sint skew" "0 \<le> sint ts"
  shows "\<not> (guard_trace (\<lambda>d n ts. memory_check_and_record locked d n ts skew) es c ! i
    \<and> guard_trace (\<lambda>d n ts. memory_check_and_record locked d n ts skew) es c ! j)"
proof
  assume both: "guard_trace (\<lambda>d n ts. memory_check_and_record locked d n ts skew) es c ! i
    \<and> guard_trace (\<lambda>d n ts. memory_check_and_record locked d n ts skew) es c ! j"
  have sane: "memory_sane skew b" using assms(2,4,6) by (metis fst_conv nth_mem)
  then have "\<bar>seconds_of b - sint ts\<bar> \<le> sint skew"
    using assms(7-9) validate_timestamp_iff[of b skew ts] by (auto simp: memory_sane_def)
  moreover from both have "\<not> sint (memory_cutoff skew b) \<le> sint ts"
    by (intro memory.accepted_twice[OF assms(1-6)]) blast+
  ultimately show False using memory_cutoff_sint[OF sane] by simp
qed

text \<open>
  The timestamp check accepts the timestamps within the skew, and one more: the subtraction
  and the absolute value wrap in \<open>i64\<close>, so that the timestamp \<open>now - 2^63\<close> passes too.
\<close>

lemma validate_timestamp_exact:
  assumes "0 \<le> seconds_of clock" "seconds_of clock < 2 ^ 62" "0 \<le> sint skew" "sint skew < 2 ^ 62"
  shows "validate_timestamp t skew clock = Inr () \<longleftrightarrow>
    \<bar>seconds_of clock - sint t\<bar> \<le> sint skew \<or> sint t = seconds_of clock - 2 ^ 63"
  using assms by (rule validate_timestamp_iff)

text \<open>
  The signed payload of a device determines what was signed: two requests with the same
  payload have the same device, key, nonce and timestamp, for device ids without quotes.
\<close>

lemma device_payload_injective:
  assumes "canonicalize_device_auth_payload d n k t = canonicalize_device_auth_payload d' n' k' t'"
    and "quote \<notin> set d" "quote \<notin> set d'"
  shows "d = d' \<and> n = n' \<and> k = k' \<and> show_int (sint t) = show_int (sint t')"
  using assms by (rule device_payload_inj)

text \<open>
  Enrolment does not check whose account a device is bound to. Whoever has an open
  enrolment, which needs no authentication, and signs the request with the key of that enrolment
  can bind a device and a key of their choice to the account of any existing user named in the
  body: neither the user, nor the device, nor the key is compared with the enrolment.
\<close>

lemma enrolment_binds_any_user:
  assumes "session_of sid w = Some s" "eq_ignore_ascii_case (se_session_type s) ''auth_enrollment''"
    and "json_get ''public_jwk'' (se_context s) = Some (JString expected)"
    and "verify_signature_with_jwk A rq (in_body rq) expected (w, r) = (Inr (), (w, r'))"
    and "ax_parse_bind ax (in_body rq) = Inr body" "be_public_jwk body = JObject m"
    and "dx_to_string (ax_device ax) (sorted_jwk m) = Inr jwk"
    and "devices_ok (ax_device ax) w" "sha256_hex_length (ax_device ax)" "user_of (be_user_id body) w \<noteq> None"
    and "\<forall>r\<in>set (w_devices w). \<not> same_device_or_key (be_device_id body) (be_jkt body) r"
  shows "\<exists>w' row. bind_enroll ax A sid rq (w, r) = (Inr (dv_record_id row), (w', r'))
    \<and> w_devices w' = w_devices w @ [row] \<and> dv_user_id row = be_user_id body \<and> dv_device_id row = be_device_id body
    \<and> dv_jkt row = be_jkt body \<and> dv_public_jwk row = jwk \<and> dv_status row = ''ACTIVE''"
proof -
  let ?req = "\<lparr>br_user_id = be_user_id body, br_device_id = be_device_id body, br_jkt = be_jkt body, br_public_jwk = m\<rparr>"
  let ?row = "new_device_row (ax_device ax) (w_clock w) (be_user_id body) (be_device_id body) (be_jkt body) jwk"
  let ?w1 = "w\<lparr>w_devices := w_devices w @ [?row]\<rparr>"
  have bind: "bind_device (ax_device ax) ?req w
      = (Inr (device_record_id (ax_device ax) (be_device_id body) jwk), ?w1)"
    using bind_device_new[OF assms(8,9), of ?req jwk] assms(7,10,11) by simp
  let ?rid = "device_record_id (ax_device ax) (be_device_id body) jwk"
  obtain w2 where step: "complete_bind_step (se_context s) (be_device_id body) ?rid ?w1 = (Inr (), w2)"
    and w2: "w_devices w2 = w_devices w @ [?row]" using bind_completions(1,2)[of "se_context s" "be_device_id body" ?rid ?w1] by simp
  obtain w3 where flow: "complete_bind_flow (se_context s) (be_device_id body) w2 = (Inr (), w3)"
    and w3: "w_devices w3 = w_devices w2" using bind_completions(3,4)[of "se_context s" "be_device_id body" w2] by simp
  let ?w4 = "snd (update_session_status sid ''COMPLETED'' (Some (w_clock w3)) w3)"
  have "bind_enroll ax A sid rq (w, r) = (Inr ?rid, (?w4, r'))"
    using assms(1-6) bind step flow
    by (simp add: bind_enroll_def on_world_def get_session_def value_to_kc_any_map_def jwk_object_def bindE_def
        update_session_status_def)
  moreover have "dv_record_id ?row = ?rid" by (simp add: new_device_row_def)
  ultimately show ?thesis
    using w2 w3 by (intro exI[of _ ?row] exI[of _ ?w4])
       (simp add: update_session_status_def modify_session_def new_device_row_def)
qed

section \<open>Witnesses\<close>

text \<open>
  A server whose signatures are the signed payloads themselves and whose keys are JSON objects
  with one member, next to a Redis that keeps its entries in a map.
\<close>

definition example_crypto :: crypto_ext where
  "example_crypto = \<lparr>cx_parse_jwk = (\<lambda>_. Some \<lparr>jk_kty = ''RSA'', jk_n = Some ''n'', jk_e = Some ''e'', jk_crv = None,
       jk_x = None, jk_y = None\<rparr>),
     cx_base64url = Some, cx_bignum_ok = (\<lambda>_. True), cx_rsa_key_ok = (\<lambda>_ _. True), cx_rsa_pkey_ok = (\<lambda>_ _. True),
     cx_rsa_verifier_ok = (\<lambda>_ _. True), cx_rsa_update_ok = (\<lambda>_ _ _. True),
     cx_rsa_verify = (\<lambda>_ _ payload signature. Some (payload = signature)), cx_p256_ok = True,
     cx_ec_key_ok = (\<lambda>_ _. True), cx_ecdsa_sig_ok = (\<lambda>_ _. True), cx_sha256 = (\<lambda>s. s),
     cx_ec_verify = (\<lambda>_ _ _ _ _. Some False), cx_hmac_sha256_base64url = (\<lambda>k s. Inr (k @ s))\<rparr>"

definition example_json :: json_text where
  "example_json = \<lparr>jt_parse = (\<lambda>s. Some (JObject [(s, JNull)])), jt_print = (\<lambda>m. Inr (concat (map fst m)))\<rparr>"

definition example_jwt :: jwt_ext where
  "example_jwt = \<lparr>jx_decode_header = (\<lambda>_. Inl ''bad''), jx_find = (\<lambda>_ _. None), jx_decoding_key = (\<lambda>_. Inl ''bad''),
     jx_decode = (\<lambda>_ _ _ _. Inl ''bad''), jx_decode_layer = (\<lambda>_ _ _ _. Inl ''bad'')\<rparr>"

definition example_auth :: "(string \<Rightarrow> (string \<times> instant) option) auth_server" where
  "example_auth = \<lparr>as_redis = map_redis, as_jwt = example_jwt, as_crypto = example_crypto, as_json = example_json,
     as_to_str_ok = (\<lambda>_. True), as_value_ok = (\<lambda>_. True), as_utf8_ok = (\<lambda>_. True), as_jwks = Inr JNull,
     as_audiences = None, as_bff_enabled = True, as_max_body_bytes = 1000, as_max_skew = 300,
     as_recovery_client_id = ''bff'', as_recovery_audience = ''storage'', as_recovery_scope = ''lookup'',
     as_recovery_realm = ''r''\<rparr>"

definition device_headers :: headers where
  "device_headers = [(''x-auth-device-id'', ''d0''), (''x-auth-signature-timestamp'', ''0''), (''x-auth-public-key'', ''kty''),
     (''x-auth-nonce'', ''n1''), (''x-auth-signature'', canonicalize_device_auth_payload ''d0'' ''n1'' ''kty'' 0)]"

abbreviation no_keys :: "string \<Rightarrow> (string \<times> instant) option" where
  "no_keys \<equiv> (\<lambda>_. None)"

lemma example_signature:
  "case authenticate_signature example_auth device_headers (device_world, no_keys) of
     (Inr c, _) \<Rightarrow> bc_user_id c = ''usr_1'' | _ \<Rightarrow> False"
  by code_simp

theorem signature_auth_sound_witness:
  "\<exists>c s'. authenticate_signature example_auth device_headers (device_world, no_keys) = (Inr c, s') \<and> bc_device_id c = ''d0''"
proof -
  obtain c s' where run: "authenticate_signature example_auth device_headers (device_world, no_keys) = (Inr c, s')"
    using example_signature by (auto split: prod.splits sum.splits)
  have "redis_laws (as_redis example_auth)" using map_redis_laws by (simp add: example_auth_def)
  from signature_auth_sound[OF run this] obtain d where
    "header_value (as_to_str_ok example_auth) device_headers ''x-auth-device-id'' = Some d" "bc_device_id c = d"
    by (auto simp: example_auth_def device_world_def add_user_def empty_world_def seconds_of_def)
  with run show ?thesis by (auto simp: header_value_def device_headers_def example_auth_def)
qed

text \<open>A client that claims to be another user is served as the owner of its device.\<close>

definition spoofing_request :: request where
  "spoofing_request = \<lparr>in_method = ''GET'', in_path = ''/sessions'',
     in_headers = (bff_auth_user_id_header, ''usr_2'') # (bff_auth_scopes_header, ''lookup'') # device_headers, in_body = []\<rparr>"

lemma spoofing_request_passes:
  "case require_bff_auth example_auth spoofing_request (device_world, no_keys) of (Inr _, _) \<Rightarrow> True | _ \<Rightarrow> False"
  "case authenticate_request example_auth (in_headers spoofing_request) (device_world, no_keys) of
     (Inr c, _) \<Rightarrow> bc_user_id c = ''usr_1'' \<and> bc_audiences c = [] \<and> bc_scopes c = [] | _ \<Rightarrow> False"
  by code_simp+

theorem bff_claims_not_spoofable_witness:
  "\<exists>rq' s' c. require_bff_auth example_auth spoofing_request (device_world, no_keys) = (Inr rq', s')
     \<and> require_bff_claims example_auth (in_headers rq') = Inr c \<and> bc_user_id c = ''usr_1'' \<and> bc_scopes c = []"
proof -
  obtain rq' s' where run: "require_bff_auth example_auth spoofing_request (device_world, no_keys) = (Inr rq', s')"
    using spoofing_request_passes(1) by (auto split: prod.splits sum.splits)
  have "as_bff_enabled example_auth" "\<forall>v. as_value_ok example_auth v \<longrightarrow> as_to_str_ok example_auth v"
    by (simp_all add: example_auth_def)
  from bff_claims_not_spoofable[OF run this] obtain c where
    "authenticate_request example_auth (in_headers spoofing_request) (device_world, no_keys) = (Inr c, s')"
    and claims: "(\<forall>w\<in>set (bc_audiences c @ bc_scopes c). is_word w) \<longrightarrow>
      require_bff_claims example_auth (in_headers rq') = Inr c" by blast
  with spoofing_request_passes(2) have "bc_user_id c = ''usr_1''" "bc_audiences c = []" "bc_scopes c = []"
    by simp_all
  with run claims show ?thesis by auto
qed

theorem nonce_replay_window_witness:
  "guard_trace (redis_check map_redis 1) [(9000000, ''d'', ''n'', 10), (11000000, ''d'', ''n'', 10)] no_keys = [True, True]
   \<and> seconds_of 9000000 = 10 - 1 \<and> seconds_of 11000000 = 10 + 1"
proof -
  let ?es = "[(9000000, ''d'', ''n'', 10), (11000000, ''d'', ''n'', 10)]"
  have trace: "guard_trace (redis_check map_redis 1) ?es no_keys = [True, True]" by code_simp
  have "validate_timestamp 10 1 9000000 = Inr ()" "validate_timestamp 10 1 11000000 = Inr ()" by code_simp+
  then have "seconds_of 9000000 = sint (10 :: i64) - sint (1 :: i64) \<and> seconds_of 11000000 = sint (10 :: i64) + sint (1 :: i64)"
    by (intro nonce_replay_window[OF map_redis_laws, where i = 0 and j = 1 and d = "''d''" and n = "''n''"
          and skew = 1 and r = no_keys and es = ?es])
       (simp_all add: trace seconds_of_def del: guard_trace.simps)
  with trace show ?thesis by simp
qed

lemma validate_timestamp_exact_witness:
  "validate_timestamp 990 300 1000000000 = Inr () \<and> validate_timestamp (word_of_int (1000 - 2 ^ 63)) 300 1000000000 = Inr ()"
proof -
  have "validate_timestamp t 300 1000000000 = Inr () \<longleftrightarrow> \<bar>1000 - sint t\<bar> \<le> 300 \<or> sint t = 1000 - 2 ^ 63" for t
    using validate_timestamp_exact[of 1000000000 300 t] by (simp add: seconds_of_def)
  from this[of 990] this[of "word_of_int (1000 - 2 ^ 63)"] show ?thesis by simp
qed

lemma device_payload_injective_witness:
  "canonicalize_device_auth_payload ''d1'' ''n1'' ''k'' 5 \<noteq> canonicalize_device_auth_payload ''d1'' ''n2'' ''k'' 5"
  using device_payload_injective[of "''d1''" "''n1''" "''k''" 5 "''d1''" "''n2''" "''k''" 5] by (auto simp: quote_def)

text \<open>The attacker enrols for nobody in particular and binds the device \<open>d9\<close> to the account \<open>usr_1\<close>.\<close>

definition attack_body :: bind_enroll_request where
  "attack_body = \<lparr>be_user_id = ''usr_1'', be_realm = ''r'', be_client_id = ''c'', be_device_id = ''d9'', be_jkt = ''j9'',
     be_public_jwk = JObject [(''evil'', JNull)], be_user_hint = None, be_attributes = None\<rparr>"

definition example_ax :: api_ext where
  "example_ax = \<lparr>ax_parse_bind = (\<lambda>_. Inr attack_body), ax_parse_token_scope = (\<lambda>_. Inr None), ax_rsa_generate = Inl [],
     ax_encoding_key = (\<lambda>_. Inl []), ax_encode = (\<lambda>_ _ _. Inl []), ax_device = example_dx, ax_token_ttl_seconds = 60,
     ax_token_issuer = None, ax_oauth2_issuer = ''iss'', ax_token_audience = None\<rparr>"

definition enrol_session :: session_row where
  "enrol_session = new_session_row 0 \<lparr>sci_id = ''s9'', sci_human_id = ''auth.x'', sci_user_id = None,
     sci_session_type = ''auth_enrollment'', sci_status = ''OPEN'', sci_context = JObject [(''public_jwk'', JString ''kty'')]\<rparr>"

definition enrol_world :: world where
  "enrol_world = device_world\<lparr>w_sessions := [enrol_session]\<rparr>"

definition attack_request :: request where
  "attack_request = \<lparr>in_method = ''POST'', in_path = ''/enroll/s9/bind'',
     in_headers = [(''x-auth-device-id'', ''x''), (''x-auth-signature-timestamp'', ''0''), (''x-auth-public-key'', ''kty''),
       (''x-auth-nonce'', ''n1''), (''x-auth-signature'',
         join newline [''0'', ''n1'', ''POST'', ''/enroll/s9/bind'', ''{}'', ''kty'', ''x'', []])],
     in_body = ''{}''\<rparr>"

lemma attack_signature:
  "case verify_signature_with_jwk example_auth attack_request ''{}'' ''kty'' (enrol_world, no_keys) of
     (Inr (), _) \<Rightarrow> True | _ \<Rightarrow> False"
  by code_simp

lemma enrolment_binds_any_user_witness:
  "\<exists>w' r' row. bind_enroll example_ax example_auth ''s9'' attack_request (enrol_world, no_keys) = (Inr (dv_record_id row), (w', r'))
    \<and> dv_user_id row = ''usr_1'' \<and> dv_device_id row = ''d9'' \<and> row \<in> set (w_devices w')"
proof -
  obtain w' r' where "verify_signature_with_jwk example_auth attack_request ''{}'' ''kty'' (enrol_world, no_keys) = (Inr (), (w', r'))"
    using attack_signature by (auto split: prod.splits sum.splits)
  moreover from keepsD[OF signature_keeps_world this] have "w' = enrol_world" by simp
  ultimately have sig: "verify_signature_with_jwk example_auth attack_request (in_body attack_request) ''kty'' (enrol_world, no_keys)
      = (Inr (), (enrol_world, r'))" by (simp add: attack_request_def)
  have session: "session_of ''s9'' enrol_world = Some enrol_session"
      "eq_ignore_ascii_case (se_session_type enrol_session) ''auth_enrollment''"
      "json_get ''public_jwk'' (se_context enrol_session) = Some (JString ''kty'')"
    by (simp_all add: session_of_def enrol_world_def enrol_session_def new_session_row_def)
  have body: "ax_parse_bind example_ax (in_body attack_request) = Inr attack_body"
      "be_public_jwk attack_body = JObject [(''evil'', JNull)]"
      "dx_to_string (ax_device example_ax) (sorted_jwk [(''evil'', JNull)]) = Inr ''evil''"
    by (simp_all add: example_ax_def attack_body_def example_dx_def sorted_jwk_def)
  have world: "devices_ok (ax_device example_ax) enrol_world" "sha256_hex_length (ax_device example_ax)"
      "user_of (be_user_id attack_body) enrol_world \<noteq> None"
      "\<forall>r\<in>set (w_devices enrol_world). \<not> same_device_or_key (be_device_id attack_body) (be_jkt attack_body) r"
    using device_world_ok example_dx_hash device_world_user
    by (simp_all add: example_ax_def enrol_world_def attack_body_def devices_ok_def user_of_def device_world_def old_device_def
        new_device_row_def same_device_or_key_def)
  from enrolment_binds_any_user[OF session sig body world] show ?thesis
    by (auto simp: attack_body_def)
qed

end
