(* ===== verification/Bff_Api.thy ===== *)
theory Bff_Api
  imports Kc_Api Auth_Props Service
begin

text \<open>
  The rest of the BFF: user profile and completed KYC, the recovery endpoints of
  \<open>api/bff_flow/service.rs\<close> with their models, the handlers of \<open>api/bff_flow/handlers.rs\<close>,
  and the routers of \<open>backend-server/src/lib.rs\<close> that put the middleware in front of them. A
  handler is a function of the headers it sees; the decoding of paths and bodies is the
  framework's.
\<close>

section \<open>Users\<close>

record user_response =
  up_user_id :: string
  up_realm :: string
  up_username :: string
  up_full_name :: "string option"
  up_email :: "string option"
  up_email_verified :: bool
  up_phone_number :: "string option"
  up_disabled :: bool
  up_metadata :: json
  up_created_at :: instant
  up_updated_at :: instant

definition from_row_with_metadata :: "user_row \<Rightarrow> json \<Rightarrow> user_response" where
  "from_row_with_metadata row metadata =
     \<lparr>up_user_id = us_user_id row, up_realm = us_realm row, up_username = us_username row,
      up_full_name = us_full_name row, up_email = us_email row, up_email_verified = us_email_verified row,
      up_phone_number = us_phone_number row, up_disabled = us_disabled row, up_metadata = metadata,
      up_created_at = us_created_at row, up_updated_at = us_updated_at row\<rparr>"

definition bff_get_user :: "string \<Rightarrow> string \<Rightarrow> user_response db" where
  "bff_get_user uid caller_id =
     (if uid \<noteq> caller_id then throw (unauthorized ''Cannot access other users' data'')
      else
        bindE (get_user uid) (\<lambda>found.
        bindE (lift_res (ok_or (not_found ''USER_NOT_FOUND'' ''User not found'') found)) (\<lambda>user.
        bindE (get_user_metadata uid) (\<lambda>metadata.
        ret (from_row_with_metadata user metadata)))))"

record completed_kyc_response =
  ck_user_id :: string
  ck_completed_kyc :: json

definition get_completed_kyc :: "string \<Rightarrow> string \<Rightarrow> completed_kyc_response db" where
  "get_completed_kyc uid caller_id =
     (if uid \<noteq> caller_id then throw (unauthorized ''Cannot access other users' data'')
      else
        bindE (get_user uid) (\<lambda>found.
        bindE (lift_res (ok_or (not_found ''USER_NOT_FOUND'' ''User not found'') found)) (\<lambda>_.
        bindE (get_user_metadata uid) (\<lambda>metadata.
        ret \<lparr>ck_user_id = uid,
             ck_completed_kyc = (case json_get ''kyc'' metadata of
                                   Some (JObject m) \<Rightarrow> JObject m | _ \<Rightarrow> JObject [])\<rparr>))))"

section \<open>Lookup by phone\<close>

definition is_e164 :: "string \<Rightarrow> bool" where
  "is_e164 v =
     (case v of
        CHR ''+'' # digits \<Rightarrow>
          8 \<le> length digits \<and> length digits \<le> 15 \<and> \<not> starts_with ''0'' digits \<and> list_all is_ascii_digit digits
      | _ \<Rightarrow> False)"

definition metadata_scalar_to_string :: "serde_ext \<Rightarrow> json option \<Rightarrow> string option" where
  "metadata_scalar_to_string sx v =
     (case v of
        Some (JString s) \<Rightarrow> if s \<noteq> [] then Some s else None
      | Some (JNumber n) \<Rightarrow> Some (show_number sx n)
      | _ \<Rightarrow> None)"

datatype phone_match_field = MatchedPhone | MatchedUsername

record lookup_candidate =
  lc_user_id :: string
  lc_disabled :: bool
  lc_matched_by :: phone_match_field
  lc_fineract_client_id :: "string option"
  lc_fineract_customer_code :: "string option"

definition recovery_metadata_fields :: "string list" where
  "recovery_metadata_fields = [''fineractClientId'', ''fineractCustomerCode'']"

definition lookup_candidate_of :: "serde_ext \<Rightarrow> string \<Rightarrow> (string \<times> jmap) list \<Rightarrow> user_row \<Rightarrow> lookup_candidate" where
  "lookup_candidate_of sx phone metadata row =
     (let field = (\<lambda>name. metadata_scalar_to_string sx
            (Option.bind (map_of metadata (us_user_id row)) (\<lambda>m. map_of m name))) in
      \<lparr>lc_user_id = us_user_id row, lc_disabled = us_disabled row,
       lc_matched_by = (if us_phone_number row = Some phone then MatchedPhone else MatchedUsername),
       lc_fineract_client_id = field ''fineractClientId'',
       lc_fineract_customer_code = field ''fineractCustomerCode''\<rparr>)"

definition lookup_users_by_phone ::
    "serde_ext \<Rightarrow> 'r auth_server \<Rightarrow> string \<Rightarrow> string \<Rightarrow> lookup_candidate list db" where
  "lookup_users_by_phone sx A realm raw_phone =
     (if realm \<noteq> as_recovery_realm A
      then throw (forbidden ''RECOVERY_REALM_REJECTED'' ''Requested realm is not authorized for recovery lookup'')
      else
        (let phone = trim raw_phone in
         if \<not> is_e164 phone
         then throw (bad_request ''INVALID_PHONE'' ''phone must be an E.164 number (e.g. +237690000000)'')
         else
           bindE (find_users_by_phone (Some realm) phone) (\<lambda>rows.
             if rows = [] then ret []
             else
               bindE (get_metadata_fields_for_users (map us_user_id rows) recovery_metadata_fields) (\<lambda>metadata.
               ret (map (lookup_candidate_of sx phone metadata) rows)))))"

section \<open>Recovery\<close>

record bff_recovery_request =
  bq_realm :: string
  bq_target_user_id :: string
  bq_approval_revision :: int
  bq_device_id :: string
  bq_jkt :: string
  bq_public_jwk :: json
  bq_binding_operation_id :: string

definition jwk_members :: "json \<Rightarrow> kc_any_map" where
  "jwk_members v = (case v of JObject m \<Rightarrow> m | other \<Rightarrow> [(''value'', other)])"

definition bff_recovery_bind_hash :: "device_ext \<Rightarrow> string \<Rightarrow> bff_recovery_request \<Rightarrow> string" where
  "bff_recovery_bind_hash dx case_id b =
     dx_sha256_hex dx
       (case_id @ ''|'' @ bq_realm b @ ''|'' @ bq_target_user_id b @ ''|'' @ show_int (bq_approval_revision b)
        @ ''|'' @ bq_device_id b @ ''|'' @ bq_jkt b @ ''|'' @ bq_binding_operation_id b @ ''|''
        @ (case dx_to_string dx (sorted_jwk (jwk_members (bq_public_jwk b))) of Inl _ \<Rightarrow> [] | Inr s \<Rightarrow> s))"

definition bff_old_device_policy_hash :: "device_ext \<Rightarrow> string \<Rightarrow> policy_request \<Rightarrow> string" where
  "bff_old_device_policy_hash dx case_id b =
     dx_sha256_hex dx
       (case_id @ ''|'' @ pr_realm b @ ''|'' @ show_int (pr_approval_revision b) @ ''|'' @ pr_policy b @ ''|''
        @ concat (map (\<lambda>i. i @ '','') (sort (pr_except_device_ids b)))
        @ (case pr_reason b of None \<Rightarrow> [] | Some r \<Rightarrow> ''|'' @ r))"

definition domain_recovery_bind_req :: "bff_recovery_request \<Rightarrow> recovery_request" where
  "domain_recovery_bind_req b =
     \<lparr>rr_realm = bq_realm b, rr_target_user_id = bq_target_user_id b,
      rr_approval_revision = bq_approval_revision b, rr_device_id = bq_device_id b, rr_jkt = bq_jkt b,
      rr_public_jwk = jwk_members (bq_public_jwk b), rr_binding_operation_id = bq_binding_operation_id b\<rparr>"

datatype enrollment_bind_status = StatusBound | StatusAlreadyBound

record bff_bind_response =
  eb_status :: enrollment_bind_status
  eb_bound_user_id :: string
  eb_device_record_id :: "string option"

text \<open>An error with status 409 or 400 is built anew from its key and message.\<close>

definition rebuild_error :: "'a db \<Rightarrow> 'a db" where
  "rebuild_error m w =
     (case m w of
        (Inl (Http key status msg), w') \<Rightarrow>
          (Inl (if status = 409 then conflict key msg
                else if status = 400 then bad_request key msg
                else Http key status msg), w')
      | r \<Rightarrow> r)"

definition bff_recovery_bind ::
    "device_ext \<Rightarrow> (string \<Rightarrow> bool) \<Rightarrow> string \<Rightarrow> string \<Rightarrow> bff_recovery_request \<Rightarrow> bff_bind_response db" where
  "bff_recovery_bind dx uuid_ok case_id key body =
     (if \<not> uuid_ok key
      then throw (bad_request ''BAD_REQUEST'' ''Idempotency-Key header must be a valid UUID string'')
      else if trim (bq_target_user_id body) = []
      then throw (bad_request ''BAD_REQUEST'' ''target_user_id is required'')
      else
        (let hash = bff_recovery_bind_hash dx case_id body in
         bindE (find_recovery_idempotency key) (\<lambda>existing.
           case existing of
             Some r \<Rightarrow>
               if ri_request_hash r = hash \<and> ri_recovery_case_id r = case_id
               then ret \<lparr>eb_status = StatusAlreadyBound, eb_bound_user_id = ri_bound_user_id r,
                         eb_device_record_id = Some (ri_device_record_id r)\<rparr>
               else throw (conflict ''CONFLICT'' ''Idempotency-Key reused with modified payload or path case ID'')
           | None \<Rightarrow>
               rebuild_error
                 (bindE (bind_recovery_device dx key case_id hash (domain_recovery_bind_req body)) (\<lambda>rid.
                  ret \<lparr>eb_status = StatusBound, eb_bound_user_id = bq_target_user_id body,
                       eb_device_record_id = Some rid\<rparr>)))))"

datatype old_device_policy = RevokeAllPrevious | QuarantineAllPrevious | KeepApprovedAllowlistOnly

fun policy_as_str :: "old_device_policy \<Rightarrow> string" where
  "policy_as_str RevokeAllPrevious = ''REVOKE_ALL_PREVIOUS''"
| "policy_as_str QuarantineAllPrevious = ''QUARANTINE_ALL_PREVIOUS''"
| "policy_as_str KeepApprovedAllowlistOnly = ''KEEP_APPROVED_ALLOWLIST_ONLY''"

record bff_policy_request =
  bp_realm :: string
  bp_approval_revision :: int
  bp_policy :: old_device_policy
  bp_except_device_ids :: "string list"
  bp_reason :: "string option"

record bff_policy_response =
  pp_already_applied :: bool
  pp_policy :: old_device_policy
  pp_affected_device_ids :: "string list"

definition bff_old_devices_policy ::
    "device_ext \<Rightarrow> (string \<Rightarrow> bool) \<Rightarrow> string \<Rightarrow> string \<Rightarrow> bff_policy_request \<Rightarrow> bff_policy_response db" where
  "bff_old_devices_policy dx uuid_ok case_id key body =
     (if \<not> uuid_ok key
      then throw (bad_request ''BAD_REQUEST'' ''Idempotency-Key header must be a valid UUID string'')
      else
        bindE (find_recovery_bind_by_case case_id) (\<lambda>bind_record.
          case bind_record of
            None \<Rightarrow> throw (bad_request ''RECOVERY_CASE_NOT_BOUND'' ''Recovery case has no completed device binding'')
          | Some b \<Rightarrow>
              (let req = \<lparr>pr_realm = bp_realm body, pr_approval_revision = bp_approval_revision body,
                          pr_policy = policy_as_str (bp_policy body), pr_except_device_ids = [ri_device_id b],
                          pr_reason = bp_reason body\<rparr>;
                   hash = bff_old_device_policy_hash dx case_id req
               in rebuild_error
                    (bindE (apply_old_device_policy key case_id hash (ri_bound_user_id b) (pr_policy req)
                              (pr_except_device_ids req)) (\<lambda>out.
                     ret \<lparr>pp_already_applied = po_already_applied out, pp_policy = bp_policy body,
                          pp_affected_device_ids = po_affected out\<rparr>)))))"

section \<open>Handlers\<close>

text \<open>
  Every handler reads the caller from its headers first. A user's handler runs the service's
  function for the caller; a recovery handler runs it when the caller is the recovery service.
\<close>

definition as_caller :: "'r auth_server \<Rightarrow> (string \<Rightarrow> 'a db) \<Rightarrow> headers \<Rightarrow> 'a db" where
  "as_caller A f hs = bindE (lift_res (require_user_id A hs)) f"

definition as_caller_run :: "'r auth_server \<Rightarrow> (string \<Rightarrow> 'a run) \<Rightarrow> headers \<Rightarrow> 'a run" where
  "as_caller_run A f hs = bindO (returns (lift_res (require_user_id A hs))) f"

definition as_service :: "'r auth_server \<Rightarrow> (headers \<Rightarrow> 'a db) \<Rightarrow> headers \<Rightarrow> 'a db" where
  "as_service A f hs = bindE (lift_res (require_service_caller A hs)) (\<lambda>_. f hs)"

definition get_user_h :: "'r auth_server \<Rightarrow> string \<Rightarrow> headers \<Rightarrow> user_response db" where
  "get_user_h A uid = as_caller A (bff_get_user uid)"

definition get_completed_kyc_h :: "'r auth_server \<Rightarrow> string \<Rightarrow> headers \<Rightarrow> completed_kyc_response db" where
  "get_completed_kyc_h A uid = as_caller A (get_completed_kyc uid)"

definition list_sessions_h :: "'r auth_server \<Rightarrow> headers \<Rightarrow> session_response list db" where
  "list_sessions_h A = as_caller A bff_list_sessions"

definition create_session_h :: "server \<Rightarrow> 'r auth_server \<Rightarrow> create_session_request \<Rightarrow> headers \<Rightarrow> session_response db" where
  "create_session_h sv A body = as_caller A (\<lambda>uid. bff_create_session sv uid body)"

definition get_session_h :: "'r auth_server \<Rightarrow> string \<Rightarrow> headers \<Rightarrow> (session_response \<times> flow_row list) db" where
  "get_session_h A session_id = as_caller A (bff_get_session session_id)"

definition list_session_flows_h :: "'r auth_server \<Rightarrow> string \<Rightarrow> headers \<Rightarrow> flow_row list db" where
  "list_session_flows_h A session_id = as_caller A (bff_list_session_flows session_id)"

definition add_flow_to_session_h ::
    "server \<Rightarrow> 'r auth_server \<Rightarrow> string \<Rightarrow> add_flow_request \<Rightarrow> headers \<Rightarrow> flow_row run" where
  "add_flow_to_session_h sv A session_id body = as_caller_run A (\<lambda>uid. add_flow_to_session sv session_id uid body)"

definition get_flow_h :: "'r auth_server \<Rightarrow> string \<Rightarrow> headers \<Rightarrow> (flow_row \<times> step_row list) db" where
  "get_flow_h A flow_id = as_caller A (bff_get_flow flow_id)"

definition list_flow_steps_h :: "'r auth_server \<Rightarrow> string \<Rightarrow> headers \<Rightarrow> step_row list db" where
  "list_flow_steps_h A flow_id = as_caller A (bff_list_flow_steps flow_id)"

definition get_step_h :: "'r auth_server \<Rightarrow> string \<Rightarrow> headers \<Rightarrow> step_row db" where
  "get_step_h A step_id = as_caller A (bff_get_step step_id)"

definition submit_step_h :: "server \<Rightarrow> 'r auth_server \<Rightarrow> string \<Rightarrow> json \<Rightarrow> headers \<Rightarrow> step_row run" where
  "submit_step_h sv A step_id input = as_caller_run A (\<lambda>uid. submit_step sv step_id uid input)"

definition lookup_user_by_phone_h ::
    "serde_ext \<Rightarrow> 'r auth_server \<Rightarrow> string \<Rightarrow> string \<Rightarrow> headers \<Rightarrow> lookup_candidate list db" where
  "lookup_user_by_phone_h sx A realm phone = as_service A (\<lambda>_. lookup_users_by_phone sx A realm phone)"

definition idempotency_key :: "'r auth_server \<Rightarrow> headers \<Rightarrow> app_error + string" where
  "idempotency_key A hs =
     (case header_value (as_to_str_ok A) hs ''idempotency-key'' of
        Some v \<Rightarrow> if v \<noteq> [] then Inr v else Inl (bad_request ''BAD_REQUEST'' ''Idempotency-Key header is required'')
      | None \<Rightarrow> Inl (bad_request ''BAD_REQUEST'' ''Idempotency-Key header is required''))"

definition recovery_bind_h ::
    "device_ext \<Rightarrow> (string \<Rightarrow> bool) \<Rightarrow> 'r auth_server \<Rightarrow> string \<Rightarrow> bff_recovery_request \<Rightarrow> headers \<Rightarrow> bff_bind_response db" where
  "recovery_bind_h dx uuid_ok A case_id body =
     as_service A (\<lambda>hs. bindE (lift_res (idempotency_key A hs)) (\<lambda>key. bff_recovery_bind dx uuid_ok case_id key body))"

definition old_devices_policy_h ::
    "device_ext \<Rightarrow> (string \<Rightarrow> bool) \<Rightarrow> 'r auth_server \<Rightarrow> string \<Rightarrow> bff_policy_request \<Rightarrow> headers \<Rightarrow> bff_policy_response db" where
  "old_devices_policy_h dx uuid_ok A case_id body =
     as_service A (\<lambda>hs. bindE (lift_res (idempotency_key A hs)) (\<lambda>key. bff_old_devices_policy dx uuid_ok case_id key body))"

section \<open>Routers\<close>

text \<open>Every route of the BFF router is behind the middleware.\<close>

definition bff_route :: "'r auth_server \<Rightarrow> (headers \<Rightarrow> 'a db) \<Rightarrow> request \<Rightarrow> ('r, 'a) auth" where
  "bff_route A handler rq = bindE (require_bff_auth A rq) (\<lambda>rq'. on_world (handler (in_headers rq')))"

text \<open>The paths behind the bearer token layer.\<close>

definition usable_path :: "string \<Rightarrow> bool" where
  "usable_path p = (p \<noteq> [] \<and> p \<noteq> ''/'')"

definition jwks_base_paths :: "string list \<Rightarrow> bool \<Rightarrow> string \<Rightarrow> string \<Rightarrow> string list" where
  "jwks_base_paths oauth2_paths staff_enabled staff_base bff_base =
     (let configured = filter usable_path (map trim oauth2_paths);
          paths = (if configured = []
                   then filter usable_path (map trim (if staff_enabled then [staff_base] else []))
                   else configured)
      in filter (\<lambda>p. trim p \<noteq> trim bff_base) paths)"

end
