(* ===== verification/Staff.thy ===== *)
theory Staff
  imports Bff_Api
begin

text \<open>
  The staff API (\<open>backend-server/src/api/staff_flow/mod.rs\<close>): the staff token, the listings of
  sessions and admin steps with their filters, and the submission of an admin step. A flow or
  step response has the columns of its row.
\<close>

section \<open>The staff token\<close>

record staff_config =
  sg_enabled :: bool
  sg_issuer :: string

definition usize_max :: nat where
  "usize_max = 2 ^ 64 - 1"

definition require_staff_token :: "staff_config \<Rightarrow> 'r auth_server \<Rightarrow> headers \<Rightarrow> app_error + claims" where
  "require_staff_token sg A hs =
     (if \<not> sg_enabled sg
      then Inr \<lparr>cl_sub = ''usr_auth_disabled'', cl_azp = None, cl_aud = None, cl_scope = None,
                cl_name = Some ''auth-disabled'', cl_iss = sg_issuer sg, cl_exp = usize_max,
                cl_preferred_username = Some ''auth-disabled''\<rparr>
      else
        (let auth_header = unwrap_or [] (header_value (as_to_str_ok A) hs ''authorization'') in
         if \<not> starts_with ''bearer '' (to_ascii_lowercase auth_header)
         then Inl (unauthorized ''Missing bearer token'')
         else jwt_verify (as_jwt A) (as_audiences A) (as_jwks A) (drop 7 auth_header)))"

definition as_staff :: "staff_config \<Rightarrow> 'r auth_server \<Rightarrow> headers \<Rightarrow> 'a db \<Rightarrow> 'a db" where
  "as_staff sg A hs m = bindE (lift_res (require_staff_token sg A hs)) (\<lambda>_. m)"

section \<open>Filters and responses\<close>

definition resolve_user_ids_for_filters :: "string option \<Rightarrow> string option \<Rightarrow> string list db" where
  "resolve_user_ids_for_filters uid phone_number =
     (let requested_user_id = trim_field uid; requested_phone = trim_field phone_number in
      case requested_phone of
        None \<Rightarrow> ret (case requested_user_id of None \<Rightarrow> [] | Some u \<Rightarrow> [u])
      | Some phone \<Rightarrow>
          bindE (find_users_by_phone None phone) (\<lambda>users.
          let user_ids = remdups_adj (sort (map us_user_id users)) in
          ret (case requested_user_id of
                 None \<Rightarrow> user_ids | Some u \<Rightarrow> filter (\<lambda>candidate. candidate = u) user_ids)))"

fun load_users_for_sessions :: "session_row list \<Rightarrow> (string \<times> user_row) list \<Rightarrow> (string \<times> user_row) list db" where
  "load_users_for_sessions [] users = ret users"
| "load_users_for_sessions (session # sessions) users =
     (case se_user_id session of
        None \<Rightarrow> load_users_for_sessions sessions users
      | Some uid \<Rightarrow>
          if map_of users uid \<noteq> None then load_users_for_sessions sessions users
          else
            bindE (get_user uid) (\<lambda>found.
            load_users_for_sessions sessions (case found of None \<Rightarrow> users | Some u \<Rightarrow> (uid, u) # users)))"

record staff_session_response =
  sf_session :: session_response
  sf_phone_number :: "string option"
  sf_full_name :: "string option"

definition build_staff_session_response :: "session_row \<Rightarrow> (string \<times> user_row) list \<Rightarrow> staff_session_response" where
  "build_staff_session_response row users =
     (let user = Option.bind (se_user_id row) (map_of users) in
      \<lparr>sf_session = session_response_of row, sf_phone_number = Option.bind user us_phone_number,
       sf_full_name = Option.bind user us_full_name\<rparr>)"

section \<open>Listings\<close>

record staff_session_query =
  sq_user_id :: "string option"
  sq_phone_number :: "string option"
  sq_session_type :: "string option"
  sq_status :: "string option"
  sq_page :: i32
  sq_limit :: i32

record staff_session_list =
  sl_items :: "staff_session_response list"
  sl_page :: i32
  sl_limit :: i32
  sl_total :: int

definition list_staff_sessions ::
    "staff_config \<Rightarrow> 'r auth_server \<Rightarrow> staff_session_query \<Rightarrow> headers \<Rightarrow> staff_session_list db" where
  "list_staff_sessions sg A q hs =
     as_staff sg A hs
       (bindE (resolve_user_ids_for_filters (sq_user_id q) (sq_phone_number q)) (\<lambda>user_ids.
        if sq_phone_number q \<noteq> None \<and> user_ids = []
        then ret \<lparr>sl_items = [], sl_page = page_norm (sq_page q), sl_limit = limit_norm (sq_limit q), sl_total = 0\<rparr>
        else
          (let flt = session_filter_normalized
                 \<lparr>sf_user_id = sq_user_id q,
                  sf_user_ids = (if sq_phone_number q \<noteq> None then Some user_ids else None),
                  sf_session_type = sq_session_type q, sf_status = sq_status q, sf_page = sq_page q, sf_limit = sq_limit q\<rparr>
           in bindE (list_sessions flt) (\<lambda>(rows, total).
              bindE (load_users_for_sessions rows []) (\<lambda>users.
              ret \<lparr>sl_items = map (\<lambda>row. build_staff_session_response row users) rows, sl_page = sf_page flt,
                   sl_limit = sf_limit flt, sl_total = total\<rparr>)))))"

definition get_staff_session ::
    "staff_config \<Rightarrow> 'r auth_server \<Rightarrow> string \<Rightarrow> headers \<Rightarrow> (staff_session_response \<times> flow_row list) db" where
  "get_staff_session sg A session_id hs =
     as_staff sg A hs
       (bindE (get_session session_id) (\<lambda>found.
        bindE (lift_res (ok_or (not_found ''SESSION_NOT_FOUND'' ''Session not found'') found)) (\<lambda>session.
        bindE (list_flows_for_session (se_id session)) (\<lambda>flows.
        bindE (load_users_for_sessions [session] []) (\<lambda>users.
        ret (build_staff_session_response session users, flows))))))"

definition get_staff_flow :: "staff_config \<Rightarrow> 'r auth_server \<Rightarrow> string \<Rightarrow> headers \<Rightarrow> (flow_row \<times> step_row list) db" where
  "get_staff_flow sg A flow_id hs =
     as_staff sg A hs
       (bindE (get_flow_row flow_id) (\<lambda>found.
        bindE (lift_res (ok_or (not_found ''FLOW_NOT_FOUND'' ''Flow not found'') found)) (\<lambda>flow.
        bindE (list_steps_for_flow flow_id) (\<lambda>steps. ret (flow, steps)))))"

record admin_step_query =
  aq_status :: "string option"
  aq_user_id :: "string option"
  aq_phone_number :: "string option"
  aq_flow_type :: "string option"

definition excluded :: "string option \<Rightarrow> string \<Rightarrow> bool" where
  "excluded wanted v = (case wanted of None \<Rightarrow> False | Some x \<Rightarrow> \<not> eq_ignore_ascii_case v x)"

definition wanted_step :: "admin_step_query \<Rightarrow> step_row \<Rightarrow> bool" where
  "wanted_step q step \<longleftrightarrow> eq_ignore_ascii_case (st_actor step) ''ADMIN'' \<and> \<not> excluded (aq_status q) (st_status step)"

definition admin_steps_of_flow :: "admin_step_query \<Rightarrow> flow_row \<Rightarrow> step_row list db" where
  "admin_steps_of_flow q flow =
     (if excluded (aq_flow_type q) (fl_flow_type flow) then ret []
      else bindE (list_steps_for_flow (fl_id flow)) (\<lambda>steps. ret (filter (wanted_step q) steps)))"

definition admin_steps_of_session :: "admin_step_query \<Rightarrow> session_row \<Rightarrow> step_row list db" where
  "admin_steps_of_session q session =
     bindE (list_flows_for_session (se_id session)) (\<lambda>flows.
     bindE (mapE (admin_steps_of_flow q) flows) (\<lambda>found. ret (concat found)))"

text \<open>The comparison is by creation time and then by id; the sort is stable.\<close>

definition sort_steps :: "step_row list \<Rightarrow> step_row list" where
  "sort_steps steps = sort_key st_created_at (sort_key st_id steps)"

definition list_admin_steps :: "staff_config \<Rightarrow> 'r auth_server \<Rightarrow> admin_step_query \<Rightarrow> headers \<Rightarrow> step_row list db" where
  "list_admin_steps sg A q hs =
     as_staff sg A hs
       (bindE (resolve_user_ids_for_filters (aq_user_id q) (aq_phone_number q)) (\<lambda>user_ids.
        if aq_phone_number q \<noteq> None \<and> user_ids = [] then ret []
        else
          bindE (list_sessions \<lparr>sf_user_id = aq_user_id q,
                   sf_user_ids = (if aq_phone_number q \<noteq> None then Some user_ids else None),
                   sf_session_type = None, sf_status = None, sf_page = 1, sf_limit = 500\<rparr>) (\<lambda>(sessions, _).
          bindE (mapE (admin_steps_of_session q) sessions) (\<lambda>found.
          ret (sort_steps (concat found))))))"

section \<open>Admin steps\<close>

definition get_admin_step_row :: "string \<Rightarrow> step_row db" where
  "get_admin_step_row step_id =
     bindE (get_step step_id) (\<lambda>found.
     bindE (lift_res (ok_or (not_found ''STEP_NOT_FOUND'' ''Step not found'') found)) (\<lambda>step.
       if \<not> eq_ignore_ascii_case (st_actor step) ''ADMIN''
       then throw (bad_request ''STEP_NOT_ADMIN'' ''Step is not an admin-managed step'')
       else ret step))"

definition get_admin_step :: "staff_config \<Rightarrow> 'r auth_server \<Rightarrow> string \<Rightarrow> headers \<Rightarrow> step_row db" where
  "get_admin_step sg A step_id hs = as_staff sg A hs (get_admin_step_row step_id)"

text \<open>
  \<open>submit_admin_step\<close> up to the verdict of the step: the definition, the rows and the outcome.
\<close>

definition verify_admin_step ::
    "server \<Rightarrow> string \<Rightarrow> json \<Rightarrow> (builtin dynamic_flow \<times> step_row \<times> flow_row \<times> session_row \<times> step_outcome) db" where
  "verify_admin_step sv step_id input =
     bindE (get_admin_step_row step_id) (\<lambda>step.
     if \<not> eq_ignore_ascii_case (st_status step) ''WAITING''
     then throw (conflict ''STEP_NOT_WAITING'' ''Admin step is not waiting for input'')
     else
       bindE (get_flow_row (st_flow_id step)) (\<lambda>found.
       bindE (lift_res (ok_or (not_found ''FLOW_NOT_FOUND'' ''Flow not found'') found)) (\<lambda>flow.
       bindE (get_session (fl_session_id flow)) (\<lambda>found.
       bindE (lift_res (ok_or (not_found ''SESSION_NOT_FOUND'' ''Session not found'') found)) (\<lambda>session.
       bindE (lift_res (flow_definition_for sv (fl_flow_type flow))) (\<lambda>fd.
       bindE (lift_res (step_definition_for fd (st_step_type step))) (\<lambda>sd.
       bindE (lift_res (map_errR flow_error_to_http (proxy_validate_input (sv_steps sv) sd input))) (\<lambda>_.
       bindE (map_errE flow_error_to_http
         (proxy_verify_input (sv_steps sv) sd (verify_context session flow step input) input)) (\<lambda>outcome.
       ret (fd, step, flow, session, outcome))))))))))"

definition fail_admin_step ::
    "server \<Rightarrow> string \<Rightarrow> json \<Rightarrow> builtin dynamic_flow \<Rightarrow> step_row \<Rightarrow> flow_row \<Rightarrow> session_row \<Rightarrow> string \<Rightarrow> bool \<Rightarrow> step_row run" where
  "fail_admin_step sv step_id input fd step flow session error retryable =
     bindO (returns (bindE (gets w_clock) (\<lambda>now.
              patch_step step_id (patch_finished_at now (patch_error
                (JObject [(''error'', JString error), (''retryable'', JBool retryable)])
                (patch_input input (patch_status ''FAILED'' patch_new))))))) (\<lambda>updated.
     bindO (case resolve_transition fd (st_step_type step) None True of
              Some next_step \<Rightarrow>
                bindO (if has_flow_step fd next_step then create_step_chain sv session flow next_step None
                       else returns (finalize_flow sv flow (terminal_status next_step))) (\<lambda>_.
                returns (refresh_session_status (fl_session_id flow)))
            | None \<Rightarrow> bindO (returns (finalize_flow sv flow ''FAILED'')) (\<lambda>_. returns (ret ()))) (\<lambda>_.
     returns (ret updated)))"

definition complete_admin_step ::
    "server \<Rightarrow> string \<Rightarrow> json \<Rightarrow> step_row \<Rightarrow> flow_row \<Rightarrow> session_row \<Rightarrow> json \<Rightarrow> context_updates option
      \<Rightarrow> (step_row \<times> flow_row) db" where
  "complete_admin_step sv step_id input step flow session output updates =
     (let stored = store_step_output (fl_context flow) (st_step_type step) input;
          context = (case Option.bind updates cu_flow_context_patch of
                       None \<Rightarrow> stored | Some patch \<Rightarrow> merged_json stored patch) in
      bindE (case updates of None \<Rightarrow> ret () | Some u \<Rightarrow> apply_context_updates sv session u) (\<lambda>_.
      bindE (gets w_clock) (\<lambda>now.
      bindE (patch_step step_id (patch_finished_at now (patch_clear_error (patch_output output
               (patch_input input (patch_status ''COMPLETED'' patch_new)))))) (\<lambda>updated_step.
      bindE (update_flow (fl_id flow) (no_flow_update\<lparr>fu_context := Some context\<rparr>)) (\<lambda>flow'.
      ret (updated_step, flow'))))))"

definition pass_admin_step ::
    "server \<Rightarrow> string \<Rightarrow> json \<Rightarrow> builtin dynamic_flow \<Rightarrow> step_row \<Rightarrow> flow_row \<Rightarrow> session_row
      \<Rightarrow> json option \<Rightarrow> context_updates option \<Rightarrow> string option \<Rightarrow> step_row run" where
  "pass_admin_step sv step_id input fd step flow session output updates branch =
     bindO (returns (complete_admin_step sv step_id input step flow session (unwrap_or verified output) updates))
       (\<lambda>(updated_step, flow').
     bindO (case resolve_transition fd (st_step_type updated_step) branch False of
              Some next_step \<Rightarrow>
                if has_flow_step fd next_step then create_step_chain sv session flow' next_step None
                else returns (finalize_flow sv flow' (terminal_status next_step))
            | None \<Rightarrow> returns (finalize_flow sv flow' ''COMPLETED'')) (\<lambda>current_flow.
     bindO (returns (refresh_session_status (fl_session_id current_flow))) (\<lambda>_.
     returns (ret updated_step))))"

definition settle_admin_step ::
    "server \<Rightarrow> string \<Rightarrow> json \<Rightarrow> builtin dynamic_flow \<times> step_row \<times> flow_row \<times> session_row \<times> step_outcome \<Rightarrow> step_row run" where
  "settle_admin_step sv step_id input = (\<lambda>(fd, step, flow, session, outcome).
     case outcome of
       Done output updates \<Rightarrow> pass_admin_step sv step_id input fd step flow session output updates None
     | Branched branch output updates \<Rightarrow> pass_admin_step sv step_id input fd step flow session output updates (Some branch)
     | Failed error retryable \<Rightarrow> fail_admin_step sv step_id input fd step flow session error retryable
     | _ \<Rightarrow> returns (throw (conflict ''INVALID_ADMIN_STEP_OUTCOME''
              ''Admin submission must resolve to a terminal verification outcome'')))"

definition submit_admin_step :: "server \<Rightarrow> staff_config \<Rightarrow> 'r auth_server \<Rightarrow> string \<Rightarrow> json \<Rightarrow> headers \<Rightarrow> step_row run" where
  "submit_admin_step sv sg A step_id input hs =
     bindO (returns (as_staff sg A hs (verify_admin_step sv step_id input))) (settle_admin_step sv step_id input)"

end
