(* ===== verification/Bff_Props.thy ===== *)
theory Bff_Props
  imports Bff_Api
begin

text \<open>
  What the BFF promises at its routes: requests act as their authenticated caller, the recovery
  routes serve the recovery service only, the two recovery surfaces agree, and the phone lookup
  finds the accounts of its realm.
\<close>

section \<open>Callers\<close>

lemma bff_route_ok:
  assumes "bff_route A h rq s = (Inr x, s')" "as_bff_enabled A" "\<forall>v. as_value_ok A v \<longrightarrow> as_to_str_ok A v"
  obtains c w1 hs where "authenticate_request A (in_headers rq) s = (Inr c, (w1, snd s'))"
    "require_bff_claims A hs = Inr (c\<lparr>bc_audiences := split_whitespace (join '' '' (bc_audiences c)),
       bc_scopes := split_whitespace (join '' '' (bc_scopes c))\<rparr>)" "h hs w1 = (Inr x, fst s')"
proof -
  from assms(1) obtain rq' s1 where pass: "require_bff_auth A rq s = (Inr rq', s1)"
    and run: "on_world (h (in_headers rq')) s1 = (Inr x, s')"
    by (auto simp: bff_route_def bindE_Inr_iff)
  from pass assms(2) obtain c hs where c: "authenticate_request A (in_headers rq) s = (Inr c, s1)"
    "put_claims A c (in_headers rq) = Inr hs" "rq' = rq\<lparr>in_headers := hs\<rparr>" by (rule require_bff_auth_ok)
  from run obtain w' where "h hs (fst s1) = (Inr x, w')" "s' = (w', snd s1)"
    by (auto simp: on_world_ok c(3))
  with c put_claims_read[OF c(2) assms(3)] assms(2) show thesis
    by (intro that[of c "fst s1" hs]) (simp_all add: require_bff_claims_def)
qed

lemma as_caller_route:
  assumes "bff_route A (as_caller A f) rq s = (Inr x, s')" "as_bff_enabled A" "\<forall>v. as_value_ok A v \<longrightarrow> as_to_str_ok A v"
  obtains c w1 where "authenticate_request A (in_headers rq) s = (Inr c, (w1, snd s'))"
    "trim (bc_user_id c) \<noteq> []" "f (bc_user_id c) w1 = (Inr x, fst s')"
  using assms
  by (elim bff_route_ok)
     (auto simp: as_caller_def bindE_Inr_iff require_user_id_def bindR_Inr_iff split: if_splits)

lemma as_service_claims:
  assumes "as_service A f hs w = (Inr x, w')" "require_bff_claims A hs = Inr c"
  shows "bc_service_client_id c = Some (as_recovery_client_id A) \<and> as_recovery_audience A \<in> set (bc_audiences c)
    \<and> as_recovery_scope A \<in> set (bc_scopes c) \<and> as_recovery_client_id A \<noteq> [] \<and> f hs w = (Inr x, w')"
  using assms by (auto simp: as_service_def bindE_Inr_iff require_service_caller_def bindR_Inr_iff split: if_splits)

lemma signature_claims_client:
  "authenticate_signature A hs s = (Inr c, s') \<Longrightarrow> bc_service_client_id c = None"
  unfolding authenticate_signature_def Let_def by (auto simp: bindE_Inr_iff split: if_splits)

text \<open>The caller has the session, or the session of the flow.\<close>

definition owns_session :: "string \<Rightarrow> string \<Rightarrow> world \<Rightarrow> bool" where
  "owns_session uid sid w \<longleftrightarrow> (\<exists>session. session_of sid w = Some session \<and> se_user_id session = Some uid)"

definition owns_flow :: "string \<Rightarrow> string \<Rightarrow> world \<Rightarrow> bool" where
  "owns_flow uid fid w \<longleftrightarrow> (\<exists>flow. flow_of fid w = Some flow \<and> owns_session uid (fl_session_id flow) w)"

lemma owned_ok:
  "ensure_session_owner sid uid w = (Inr session, w') \<longleftrightarrow> session_of sid w = Some session \<and> se_user_id session = Some uid \<and> w' = w"
  "owned_flow fid uid w = (Inr flow, w') \<longleftrightarrow> flow_of fid w = Some flow \<and> owns_session uid (fl_session_id flow) w \<and> w' = w"
  "owned_step tid uid w = (Inr (step, flow), w') \<longleftrightarrow> step_of tid w = Some step \<and> flow_of (st_flow_id step) w = Some flow
     \<and> owns_session uid (fl_session_id flow) w \<and> w' = w"
  by (auto simp: ensure_session_owner_def owned_flow_def owned_step_def ensure_flow_owner_def get_session_def get_step_def
      bindE_Inr_iff get_flow_row_def owns_session_def split: if_splits)

lemma listed_rows:
  "list_flows_for_session sid w = (Inr flows, w') \<Longrightarrow> set flows = {f \<in> set (w_flows w). fl_session_id f = sid} \<and> w' = w"
  "list_steps_for_flow fid w = (Inr steps, w') \<Longrightarrow> set steps = {t \<in> set (w_steps w). st_flow_id t = fid} \<and> w' = w"
  by (auto simp: list_flows_for_session_def list_steps_for_flow_def flows_of_session_def)

lemma list_sessions_owner:
  assumes "bff_list_sessions uid w = (Inr srs, w')" "trim uid \<noteq> []" "sr \<in> set srs"
  shows "sr_user_id sr = Some (trim uid)"
proof -
  let ?f = "\<lparr>sf_user_id = Some uid, sf_user_ids = None, sf_session_type = None, sf_status = None, sf_page = 1, sf_limit = 100\<rparr>"
  from assms(1) obtain rows n where rows: "list_sessions ?f w = (Inr (rows, n), w')" and srs: "srs = map session_response_of rows"
    by (auto simp: bff_list_sessions_def bindE_Inr_iff split: prod.splits)
  from rows have "set rows \<subseteq> {r \<in> set (w_sessions w). session_matches (session_filter_normalized ?f) r}"
    by (auto simp: list_sessions_def Let_def bindE_Inr_iff limit_offset_def order_by_desc_def
        split: if_splits dest!: in_set_takeD in_set_dropD)
  moreover have "sf_user_id (session_filter_normalized ?f) = Some (trim uid)"
    using assms(2) by (simp add: session_filter_normalized_def trim_field_def filter_opt_def)
  ultimately have "se_user_id r = Some (trim uid)" if "r \<in> set rows" for r
    using that by (auto simp: session_matches_def)
  with srs assms(3) show ?thesis by (auto simp: session_response_of_def)
qed

lemma list_sessions_reads: "bff_list_sessions uid w = (Inr srs, w') \<Longrightarrow> w' = w"
  by (auto simp: bff_list_sessions_def list_sessions_def Let_def bindE_Inr_iff split: prod.splits)

text \<open>A reading route authenticates and reads, as the caller.\<close>

lemma as_caller_reads:
  assumes "bff_route A (as_caller A f) rq s = (Inr x, s')" "as_bff_enabled A" "\<forall>v. as_value_ok A v \<longrightarrow> as_to_str_ok A v"
    and reads: "\<And>c w w'. f (bc_user_id c) w = (Inr x, w') \<Longrightarrow> trim (bc_user_id c) \<noteq> [] \<Longrightarrow>
      authenticate_request A (in_headers rq) s = (Inr c, (w, snd s')) \<Longrightarrow> fst s' = w' \<Longrightarrow> w' = w \<and> (s' = (w, snd s') \<longrightarrow> P)"
  shows P
proof -
  from assms(1-3) obtain c w1 where "authenticate_request A (in_headers rq) s = (Inr c, (w1, snd s'))"
    "trim (bc_user_id c) \<noteq> []" "f (bc_user_id c) w1 = (Inr x, fst s')" by (rule as_caller_route)
  with reads[of c w1 "fst s'"] show ?thesis by (metis prod.collapse)
qed

lemma user_reads:
  "bff_get_user uid caller w = (Inr u, w') \<Longrightarrow> w' = w \<and> caller = uid
     \<and> (\<exists>row m. user_of uid w = Some row \<and> get_user_metadata uid w = (Inr m, w) \<and> u = from_row_with_metadata row m)"
  "get_completed_kyc uid caller w = (Inr k, w') \<Longrightarrow> w' = w \<and> caller = uid \<and> ck_user_id k = uid
     \<and> (\<exists>m. get_user_metadata uid w = (Inr m, w) \<and> ck_completed_kyc k = (case json_get ''kyc'' m of Some (JObject o') \<Rightarrow> JObject o' | _ \<Rightarrow> JObject []))"
  by (auto simp: bff_get_user_def get_completed_kyc_def bindE_Inr_iff get_user_def get_user_metadata_def unwrap_or_def
      split: if_splits option.splits json.splits)

lemma flow_reads:
  "bff_get_session sid uid w = (Inr (sr, flows), w') \<Longrightarrow> w' = w \<and> (\<exists>session. session_of sid w = Some session
     \<and> se_user_id session = Some uid \<and> sr = session_response_of session \<and> set flows = {f \<in> set (w_flows w). fl_session_id f = sid})"
  "bff_list_session_flows sid uid w = (Inr flows, w') \<Longrightarrow> w' = w \<and> owns_session uid sid w
     \<and> set flows = {f \<in> set (w_flows w). fl_session_id f = sid}"
  "bff_get_flow fid uid w = (Inr (flow, steps), w') \<Longrightarrow> w' = w \<and> owns_flow uid fid w \<and> flow_of fid w = Some flow
     \<and> set steps = {t \<in> set (w_steps w). st_flow_id t = fid}"
  "bff_list_flow_steps fid uid w = (Inr steps, w') \<Longrightarrow> w' = w \<and> owns_flow uid fid w
     \<and> set steps = {t \<in> set (w_steps w). st_flow_id t = fid}"
  "bff_get_step tid uid w = (Inr step, w') \<Longrightarrow> w' = w \<and> owns_flow uid (st_flow_id step) w \<and> step_of tid w = Some step"
  by (fastforce simp: bff_get_session_def bff_list_session_flows_def bff_get_flow_def bff_list_flow_steps_def bff_get_step_def
      bindE_Inr_iff owned_ok owns_session_def owns_flow_def session_of_def dest: listed_rows select_first_Some)+

section \<open>Phone lookup\<close>

definition metadata_field :: "(string \<times> jmap) list \<Rightarrow> string \<Rightarrow> string \<Rightarrow> json option" where
  "metadata_field m uid name = Option.bind (map_of m uid) (\<lambda>fs. map_of fs name)"

lemma metadata_field_fold:
  "metadata_field (foldl (\<lambda>out r. AList.update (ud_user_id r)
      (obj_insert (ud_name r) (ud_content r) (unwrap_or [] (map_of out (ud_user_id r)))) out) [] rows) uid name
   = map_option ud_content (List.find (\<lambda>r. ud_user_id r = uid \<and> ud_name r = name) (rev rows))"
  by (induction rows rule: rev_induct)
     (auto simp: metadata_field_def update_conv' unwrap_or_def split: option.splits Option.bind_splits)

lemma metadata_fields_value:
  assumes "user_data_ok w" "get_metadata_fields_for_users uids names w = (Inr m, w')" "uid \<in> set uids" "name \<in> set names"
  shows "metadata_field m uid name = metadata_value uid name w"
proof -
  let ?p = "\<lambda>r. ud_user_id r \<in> set uids \<and> ud_name r \<in> set names \<and> ud_data_type r = user_metadata_data_type"
  let ?rows = "filter ?p (w_user_data w)"
  have ne: "uids \<noteq> []" "names \<noteq> []" using assms(3,4) by auto
  have unique: "x = y" if "x \<in> set ?rows" "y \<in> set ?rows" "ud_user_id x = uid \<and> ud_name x = name"
    "ud_user_id y = uid \<and> ud_name y = name" for x y
    using that assms(1) by (auto simp: user_data_ok_def distinct_map data_key_def inj_on_def)
  have "List.find (\<lambda>r. ud_user_id r = uid \<and> ud_name r = name) (filter ?p t)
      = List.find (is_data_row uid name user_metadata_data_type) t" for t
    using assms(3,4) by (induction t) (auto simp: is_data_row_def)
  moreover have "List.find (\<lambda>r. ud_user_id r = uid \<and> ud_name r = name) (rev ?rows)
      = List.find (\<lambda>r. ud_user_id r = uid \<and> ud_name r = name) ?rows" by (rule find_unique_rev) (rule unique)
  ultimately have "List.find (\<lambda>r. ud_user_id r = uid \<and> ud_name r = name) (rev ?rows)
      = user_data_of uid name user_metadata_data_type w"
    by (simp only: user_data_of_def select_first_def)
  moreover have "m = foldl (\<lambda>out r. AList.update (ud_user_id r)
      (obj_insert (ud_name r) (ud_content r) (unwrap_or [] (map_of out (ud_user_id r)))) out) [] ?rows"
    using assms(2) ne by (auto simp: get_metadata_fields_for_users_def)
  ultimately show ?thesis by (simp only: metadata_field_fold metadata_value_def)
qed

lemma metadata_fields_total: "\<exists>m. get_metadata_fields_for_users uids names w = (Inr m, w)"
  by (simp add: get_metadata_fields_for_users_def)

section \<open>Recovery responses\<close>

text \<open>The Keycloak surface answers with a response variant where the BFF answers with an error.\<close>

fun bind_result :: "bind_response \<Rightarrow> app_error + bff_bind_response" where
  "bind_result (Bound rid uid) = Inr \<lparr>eb_status = StatusBound, eb_bound_user_id = uid, eb_device_record_id = Some rid\<rparr>"
| "bind_result (AlreadyBound rid uid) =
     Inr \<lparr>eb_status = StatusAlreadyBound, eb_bound_user_id = uid, eb_device_record_id = Some rid\<rparr>"
| "bind_result (BindBadRequest key msg) = Inl (bad_request key msg)"
| "bind_result (BindConflict key msg) = Inl (conflict key msg)"

fun policy_result :: "old_device_policy \<Rightarrow> policy_response \<Rightarrow> app_error + bff_policy_response" where
  "policy_result p (PolicyApplied already _ ids) =
     Inr \<lparr>pp_already_applied = already, pp_policy = p, pp_affected_device_ids = ids\<rparr>"
| "policy_result p (PolicyBadRequest key msg) = Inl (bad_request key msg)"
| "policy_result p (PolicyConflict key msg) = Inl (conflict key msg)"

definition domain_policy_req :: "bff_policy_request \<Rightarrow> policy_request" where
  "domain_policy_req b = \<lparr>pr_realm = bp_realm b, pr_approval_revision = bp_approval_revision b,
     pr_policy = policy_as_str (bp_policy b), pr_except_device_ids = bp_except_device_ids b, pr_reason = bp_reason b\<rparr>"

definition map_result :: "('a \<Rightarrow> app_error + 'b) \<Rightarrow> 'a db \<Rightarrow> 'b db" where
  "map_result f m w = (case m w of (r, w') \<Rightarrow> (bindR r f, w'))"

lemma map_result_simps [simp]:
  "map_result f (bindE m k) = bindE m (\<lambda>x. map_result f (k x))" "map_result f (ret a) = lift_res (f a)"
  by (auto simp: map_result_def bindE_def fun_eq_iff split: prod.splits sum.splits)

lemma map_result_cases:
  "map_result f (if b then m else n) = (if b then map_result f m else map_result f n)"
  "map_result f (case x of None \<Rightarrow> m | Some y \<Rightarrow> g y) = (case x of None \<Rightarrow> map_result f m | Some y \<Rightarrow> map_result f (g y))"
  by (simp_all split: option.splits)

lemma lift_res_sum: "lift_res (Inr a) = ret a" "lift_res (Inl e) = throw e"
  by (simp_all add: fun_eq_iff)

lemma rebuild_error_map:
  assumes "\<And>key msg. f (g key msg) = Inl (conflict key msg)" "\<And>key msg. f (h key msg) = Inl (bad_request key msg)"
  shows "map_result f (catch_http g h m) = rebuild_error (map_result f m) \<or> (\<exists>w a e w'. m w = (Inr a, w') \<and> f a = Inl e)"
proof (cases "\<exists>w a e w'. m w = (Inr a, w') \<and> f a = Inl e")
  case False
  have "map_result f (catch_http g h m) w = rebuild_error (map_result f m) w" for w
    using False assms
    by (auto simp: map_result_def catch_http_def rebuild_error_def conflict_def bad_request_def
        split: prod.splits sum.splits app_error.splits)
  then show ?thesis by auto
qed simp

lemma rebuild_after:
  assumes "\<And>key msg. f (g key msg) = Inl (conflict key msg)" "\<And>key msg. f (h key msg) = Inl (bad_request key msg)"
    and "\<And>x. f (k x) = Inr (k' x)"
  shows "map_result f (catch_http g h (bindE m (\<lambda>x. ret (k x)))) = rebuild_error (bindE m (\<lambda>x. ret (k' x)))"
proof -
  have "\<not> (\<exists>w a e w'. bindE m (\<lambda>x. ret (k x)) w = (Inr a, w') \<and> f a = Inl e)"
    using assms(3) by (auto simp: bindE_Inr_iff)
  with rebuild_error_map[of f g h "bindE m (\<lambda>x. ret (k x))", OF assms(1,2)]
  have "map_result f (catch_http g h (bindE m (\<lambda>x. ret (k x)))) = rebuild_error (map_result f (bindE m (\<lambda>x. ret (k x))))"
    by blast
  also have "map_result f (bindE m (\<lambda>x. ret (k x))) = bindE m (\<lambda>x. ret (k' x))"
    using assms(3) by (simp add: lift_res_sum)
  finally show ?thesis .
qed

lemma recovery_hash_eq:
  "compute_recovery_bind_hash dx c (domain_recovery_bind_req b) = bff_recovery_bind_hash dx c b"
  "compute_old_device_policy_hash dx c p = bff_old_device_policy_hash dx c p"
  by (simp_all add: compute_recovery_bind_hash_def bff_recovery_bind_hash_def domain_recovery_bind_req_def
      compute_old_device_policy_hash_def bff_old_device_policy_hash_def)

section \<open>Properties\<close>

text \<open>
  C19: the recovery endpoints of the BFF and of the Keycloak API are the same operation on the
  same records: for every world they make the same changes, and the BFF's answer is the Keycloak
  API's answer with its refusals as errors. In particular both surfaces compute the same request
  hash, so that an idempotency key used on one is honoured on the other.
\<close>

theorem bff_recovery_equivalent:
  "bff_recovery_bind dx uuid_ok c key body =
     map_result bind_result (recovery_bind dx uuid_ok key c (domain_recovery_bind_req body))
   \<and> bff_old_devices_policy dx uuid_ok c key preq =
     map_result (policy_result (bp_policy preq)) (old_devices_policy dx uuid_ok key c (domain_policy_req preq))"
proof
  have target: "rr_target_user_id (domain_recovery_bind_req body) = bq_target_user_id body"
    by (simp add: domain_recovery_bind_req_def)
  have bound: "map_result bind_result (catch_http BindConflict BindBadRequest
      (bindE m (\<lambda>rid. ret (Bound rid (bq_target_user_id body))))) =
    rebuild_error (bindE m (\<lambda>rid. ret \<lparr>eb_status = StatusBound, eb_bound_user_id = bq_target_user_id body,
        eb_device_record_id = Some rid\<rparr>))" for m by (rule rebuild_after) simp_all
  show "bff_recovery_bind dx uuid_ok c key body =
     map_result bind_result (recovery_bind dx uuid_ok key c (domain_recovery_bind_req body))"
    unfolding bff_recovery_bind_def recovery_bind_def Let_def target recovery_hash_eq
    by (simp add: bound map_result_cases lift_res_sum cong: option.case_cong if_cong)
  have applied: "map_result (policy_result (bp_policy preq)) (catch_http PolicyConflict PolicyBadRequest
      (bindE m (\<lambda>out. ret (PolicyApplied (po_already_applied out) (policy_as_str (bp_policy preq)) (po_affected out))))) =
    rebuild_error (bindE m (\<lambda>out. ret \<lparr>pp_already_applied = po_already_applied out, pp_policy = bp_policy preq,
        pp_affected_device_ids = po_affected out\<rparr>))" for m by (rule rebuild_after) simp_all
  show "bff_old_devices_policy dx uuid_ok c key preq =
     map_result (policy_result (bp_policy preq)) (old_devices_policy dx uuid_ok key c (domain_policy_req preq))"
    unfolding bff_old_devices_policy_def old_devices_policy_def Let_def recovery_hash_eq domain_policy_req_def
    by (simp add: applied map_result_cases lift_res_sum cong: option.case_cong if_cong)
qed


text \<open>
  C18: the phone lookup and the recovery routes serve the recovery service only. A handler behind
  \<open>require_service_caller\<close> answers when the request carries a verified bearer token that was issued
  to the configured client, for the configured audience and scope (when the token's audiences and
  scopes are words of visible ASCII). A device signature is never enough, nor are headers that the
  client sets itself.
\<close>

theorem bff_service_routes_confined:
  assumes "as_bff_enabled A" "\<forall>v. as_value_ok A v \<longrightarrow> as_to_str_ok A v"
    and "bff_route A (as_service A f) rq s = (Inr x, s')"
  shows "\<exists>token t. extract_bearer_token (as_to_str_ok A) (in_headers rq) = Some token
    \<and> jwt_verify (as_jwt A) (as_audiences A) (as_jwks A) token = Inr t
    \<and> cl_azp t = Some (as_recovery_client_id A) \<and> as_recovery_client_id A \<noteq> []
    \<and> ((\<forall>w\<in>set (token_audiences t @ token_scopes t). is_word w) \<longrightarrow>
          as_recovery_audience A \<in> set (token_audiences t) \<and> as_recovery_scope A \<in> set (token_scopes t))"
proof -
  obtain c w1 hs where auth: "authenticate_request A (in_headers rq) s = (Inr c, (w1, snd s'))"
    and claims: "require_bff_claims A hs = Inr (c\<lparr>bc_audiences := split_whitespace (join '' '' (bc_audiences c)),
       bc_scopes := split_whitespace (join '' '' (bc_scopes c))\<rparr>)" and run: "as_service A f hs w1 = (Inr x, fst s')"
    using assms(3,1,2) by (rule bff_route_ok)
  note service = as_service_claims[OF run claims]
  show ?thesis
  proof (cases "extract_bearer_token (as_to_str_ok A) (in_headers rq)")
    case None
    with auth have "bc_service_client_id c = None"
      by (auto simp: authenticate_request_def dest: signature_claims_client)
    with service show ?thesis by simp
  next
    case (Some token)
    with auth obtain t where t: "jwt_verify (as_jwt A) (as_audiences A) (as_jwks A) token = Inr t"
      and "c = \<lparr>bc_user_id = token_user_id t, bc_device_id = ''bff'', bc_service_client_id = cl_azp t,
          bc_audiences = token_audiences t, bc_scopes = token_scopes t\<rparr>"
      by (auto simp: authenticate_request_def authenticate_bearer_def bindR_Inr_iff)
    with service Some show ?thesis by (auto simp: split_whitespace_join)
  qed
qed

text \<open>
  The phone lookup. It answers exactly for the configured realm and an E.164 number, changes
  nothing, and its candidates are the accounts of that realm whose phone number or user name is
  the number, each with the matched column and with the two recovery fields of its own metadata.
\<close>

lemma lookup_by_phone_exact:
  assumes "user_data_ok w"
  shows "lookup_users_by_phone sx A realm phone w =
     (if realm \<noteq> as_recovery_realm A
      then (Inl (forbidden ''RECOVERY_REALM_REJECTED'' ''Requested realm is not authorized for recovery lookup''), w)
      else if \<not> is_e164 (trim phone)
      then (Inl (bad_request ''INVALID_PHONE'' ''phone must be an E.164 number (e.g. +237690000000)''), w)
      else (Inr (map (\<lambda>row. \<lparr>lc_user_id = us_user_id row, lc_disabled = us_disabled row,
         lc_matched_by = (if us_phone_number row = Some (trim phone) then MatchedPhone else MatchedUsername),
         lc_fineract_client_id = metadata_scalar_to_string sx (metadata_value (us_user_id row) ''fineractClientId'' w),
         lc_fineract_customer_code = metadata_scalar_to_string sx (metadata_value (us_user_id row) ''fineractCustomerCode'' w)\<rparr>)
        (order_by_desc us_created_at (filter (\<lambda>row. us_realm row = realm
           \<and> (us_phone_number row = Some (trim phone) \<or> us_username row = trim phone)) (w_users w)))), w))"
proof -
  let ?rows = "order_by_desc us_created_at (filter (\<lambda>row. us_realm row = realm
           \<and> (us_phone_number row = Some (trim phone) \<or> us_username row = trim phone)) (w_users w))"
  have find: "find_users_by_phone (Some realm) (trim phone) w = (Inr ?rows, w)"
    by (simp add: find_users_by_phone_def matches_def conj_commute)
  obtain m where m: "get_metadata_fields_for_users (map us_user_id ?rows) recovery_metadata_fields w = (Inr m, w)"
    using metadata_fields_total by blast
  have "lookup_candidate_of sx (trim phone) m row = \<lparr>lc_user_id = us_user_id row, lc_disabled = us_disabled row,
         lc_matched_by = (if us_phone_number row = Some (trim phone) then MatchedPhone else MatchedUsername),
         lc_fineract_client_id = metadata_scalar_to_string sx (metadata_value (us_user_id row) ''fineractClientId'' w),
         lc_fineract_customer_code = metadata_scalar_to_string sx (metadata_value (us_user_id row) ''fineractCustomerCode'' w)\<rparr>"
    if "row \<in> set ?rows" for row
    using metadata_fields_value[OF assms m, of "us_user_id row"] that
    by (simp add: lookup_candidate_of_def recovery_metadata_fields_def metadata_field_def)
  with find m show ?thesis
    by (auto simp: lookup_users_by_phone_def Let_def bindE_def)
qed

section \<open>Witnesses\<close>

text \<open>The owner of a device reads the own profile, whatever user the request names in its headers.\<close>

lemma spoofing_read:
  "case bff_route example_auth (get_user_h example_auth ''usr_1'') spoofing_request (device_world, no_keys) of
     (Inr _, _) \<Rightarrow> True | _ \<Rightarrow> False"
  by code_simp


definition service_claims :: claims where
  "service_claims = \<lparr>cl_sub = ''svc'', cl_azp = Some ''bff'', cl_aud = Some (One ''storage''), cl_scope = Some ''lookup'',
     cl_name = None, cl_iss = ''iss'', cl_exp = 0, cl_preferred_username = None\<rparr>"

definition service_auth :: "(string \<Rightarrow> (string \<times> instant) option) auth_server" where
  "service_auth = example_auth\<lparr>as_jwt := \<lparr>jx_decode_header = (\<lambda>_. Inr (Some ''k'', ''RS256'')), jx_find = (\<lambda>_ _. Some JNull),
     jx_decoding_key = (\<lambda>_. Inr ''key''), jx_decode = (\<lambda>token _ _ _. if token = ''tok'' then Inr service_claims else Inl ''bad''),
     jx_decode_layer = (\<lambda>token _ _ _. if token = ''tok'' then Inr (Some ''svc'') else Inl ''bad'')\<rparr>\<rparr>"

definition service_request :: request where
  "service_request = \<lparr>in_method = ''POST'', in_path = ''/users/lookup-by-phone'',
     in_headers = [(''authorization'', ''Bearer tok'')], in_body = []\<rparr>"

lemma service_lookup:
  "case bff_route service_auth (lookup_user_by_phone_h example_serde service_auth ''r'' ''+237690000000'')
     service_request (device_world, no_keys) of (Inr [_], _) \<Rightarrow> True | _ \<Rightarrow> False"
  by code_simp

theorem bff_service_routes_confined_witness:
  "\<exists>cs s'. bff_route service_auth (lookup_user_by_phone_h example_serde service_auth ''r'' ''+237690000000'')
       service_request (device_world, no_keys) = (Inr cs, s')
     \<and> extract_bearer_token (as_to_str_ok service_auth) (in_headers service_request) \<noteq> None"
proof -
  obtain cs s' where run: "bff_route service_auth (lookup_user_by_phone_h example_serde service_auth ''r'' ''+237690000000'')
       service_request (device_world, no_keys) = (Inr cs, s')"
    using service_lookup by (auto split: prod.splits sum.splits)
  have "as_bff_enabled service_auth" "\<forall>v. as_value_ok service_auth v \<longrightarrow> as_to_str_ok service_auth v"
    by (simp_all add: service_auth_def example_auth_def)
  from bff_service_routes_confined[OF this run[unfolded lookup_user_by_phone_h_def]] run show ?thesis by auto
qed

lemma lookup_by_phone_exact_witness:
  "map lc_user_id (case lookup_users_by_phone example_serde example_auth ''r'' '' +237690000000'' device_world of
     (Inr cs, _) \<Rightarrow> cs) = [''usr_1'']"
proof -
  have "user_data_ok device_world" by (simp add: user_data_ok_def device_world_def add_user_def empty_world_def)
  moreover have "is_e164 (trim '' +237690000000'')" "trim '' +237690000000'' = ''+237690000000''" by code_simp+
  moreover have "w_users device_world = [example_user]" by (simp add: device_world_def add_user_def empty_world_def)
  ultimately show ?thesis
    by (subst lookup_by_phone_exact) (simp_all add: example_auth_def example_user_def order_by_desc_def)
qed

end
