(* ===== verification/Staff_Props.thy ===== *)
theory Staff_Props
  imports Staff Service_Props Bff_Props
begin

text \<open>
  What the staff API promises: which submissions it accepts and what becomes of the step, what
  the list of admin steps contains, and what it asks of a token.
\<close>

section \<open>Tokens\<close>

lemma as_staff_ok: "as_staff sg A hs m w = (Inr x, w') \<longleftrightarrow>
    (\<exists>t. require_staff_token sg A hs = Inr t) \<and> m w = (Inr x, w')"
  by (auto simp: as_staff_def bindE_Inr_iff)

lemma as_staff_token: "require_staff_token sg A hs = Inr t \<Longrightarrow> as_staff sg A hs m = m"
  by (simp add: as_staff_def)

lemma as_staff_refused: "require_staff_token sg A hs = Inl e \<Longrightarrow> as_staff sg A hs m w = (Inl e, w)"
  by (simp add: as_staff_def bindE_def)

section \<open>Submissions\<close>

lemma patched_step:
  assumes "patch_step tid p w = (Inr r, w')" "pa_status p = Some status"
  shows "st_id r = tid \<and> st_status r = status"
  using assms by (auto simp: patch_step_def apply_step_patch_def step_of_def unwrap_or_def Let_def
      dest!: select_first_Some split: option.splits)

lemma patch_statuses [simp]:
  "pa_status (patch_finished_at t p) = pa_status p" "pa_status (patch_clear_error p) = pa_status p"
  "pa_status (patch_output v p) = pa_status p" "pa_status (patch_input v p) = pa_status p"
  "pa_status (patch_error v p) = pa_status p" "pa_status (patch_status status p) = Some status"
  by (simp_all add: patch_finished_at_def patch_clear_error_def patch_output_def patch_input_def patch_error_def patch_status_def)

lemma settled_step:
  assumes "settle_admin_step sv tid input (fd, step, flow, session, outcome) w = Some (Inr r, w')"
  shows "st_id r = tid \<and> (case outcome of
      Done _ _ \<Rightarrow> st_status r = ''COMPLETED'' | Branched _ _ _ \<Rightarrow> st_status r = ''COMPLETED''
    | Failed _ _ \<Rightarrow> st_status r = ''FAILED'' | _ \<Rightarrow> False)"
proof -
  have pass: "st_id r = tid \<and> st_status r = ''COMPLETED''"
    if "pass_admin_step sv tid input fd step flow session out updates branch w = Some (Inr r, w')" for out updates branch
    using that
    by (auto simp: pass_admin_step_def bindO_Some_Inr returns_def complete_admin_step_def Let_def bindE_Inr_iff
        dest!: patched_step)
  have fail: "st_id r = tid \<and> st_status r = ''FAILED''"
    if "fail_admin_step sv tid input fd step flow session error retryable w = Some (Inr r, w')" for error retryable
    using that by (auto simp: fail_admin_step_def bindO_Some_Inr returns_def bindE_Inr_iff dest!: patched_step)
  show ?thesis using assms pass fail by (auto simp: settle_admin_step_def returns_def split: step_outcome.splits)
qed

lemma verify_admin_step_ok:
  assumes "verify_admin_step sv tid input w = (Inr (fd, step, flow, session, outcome), w')"
  shows "step_of tid w = Some step \<and> eq_ignore_ascii_case (st_actor step) ''ADMIN''
    \<and> eq_ignore_ascii_case (st_status step) ''WAITING'' \<and> flow_of (st_flow_id step) w = Some flow
    \<and> session_of (fl_session_id flow) w = Some session"
  using assms
  by (auto simp: verify_admin_step_def get_admin_step_row_def get_step_def get_flow_row_def get_session_def bindE_Inr_iff
      split: if_splits)

lemma staff_preserves:
  "run_preserves tables_ok (submit_admin_step sv sg A tid input hs)"
proof -
  have verify: "preserves tables_ok (verify_admin_step sv tid input)"
    unfolding verify_admin_step_def get_admin_step_row_def by (intro inv_rules)
  have complete: "preserves tables_ok (complete_admin_step sv tid input step flow session out updates)"
    for step flow session out updates unfolding complete_admin_step_def by (intro inv_rules)
  have pass: "run_preserves tables_ok (pass_admin_step sv tid input fd step flow session out updates branch)"
    for fd step flow session out updates branch unfolding pass_admin_step_def by (intro inv_rules complete)
  have fail: "run_preserves tables_ok (fail_admin_step sv tid input fd step flow session error retryable)"
    for fd step flow session error retryable unfolding fail_admin_step_def by (intro inv_rules)
  have "run_preserves tables_ok (settle_admin_step sv tid input (fd, step, flow, session, outcome))"
    for fd step flow session outcome
    by (cases outcome) (auto simp: settle_admin_step_def intro!: pass fail inv_rules)
  then show ?thesis
    unfolding submit_admin_step_def as_staff_def by (intro inv_rules verify) (metis prod_cases5)
qed

text \<open>
  What follows the settling of a step leaves its row, as long as the chain of the next steps only opens them: the steps it runs at
  once are those of the system that are not asynchronous.
\<close>

definition chain_only_opens :: "server \<Rightarrow> string \<Rightarrow> bool" where
  "chain_only_opens sv ty \<longleftrightarrow> (\<forall>fd sd. flow_definition_for sv ty = Inr fd \<and> sd \<in> set (df_steps fd) \<longrightarrow>
     ps_actor sd = System \<longrightarrow> is_async_step (get_flow_definition (sv_registry sv) ty) (ps_step_type sd))"

abbreviation stored :: "string \<Rightarrow> step_row \<Rightarrow> world \<Rightarrow> bool" where
  "stored tid r \<equiv> \<lambda>w. step_of tid w = Some r"

lemma step_of_tables: "flow_tables w = flow_tables w' \<Longrightarrow> stored tid r w = stored tid r w'"
  by (simp add: flow_tables_def step_of_def)

lemma stored_side [inv_rules]:
  "preserves (stored tid r) (write_completed_kyc_metadata sv flow)" "preserves (stored tid r) (flow_step_id cuid)"
  by (rule keeps_preserves[OF _ step_of_tables], rule frame_rules, assumption)+

lemma stored_find_append: "step_of i w = Some r \<Longrightarrow> step_of i (w\<lparr>w_steps := w_steps w @ rs\<rparr>) = Some r"
proof -
  have "List.find P xs = Some x \<Longrightarrow> List.find P (xs @ ys) = Some x" for P and xs :: "step_row list" and x ys
    by (induction xs) (auto split: if_splits)
  then show "step_of i w = Some r \<Longrightarrow> ?thesis" by (simp add: step_of_def select_first_def)
qed

lemma stored_repo [inv_rules]:
  "preserves (stored tid r) (update_session_status a b d)" "preserves (stored tid r) (create_step i)"
  "preserves (stored tid r) (update_flow k u)"
  by (intro preservesI;
      auto simp: update_session_status_def modify_session_def step_of_def create_step_def insert_unique_def Let_def
        update_flow_def modify_flow_def stored_find_append[simplified step_of_def] split: option.splits)+

lemma stored_endings [inv_rules]:
  "preserves (stored tid r) (refresh_session_status sid)" "preserves (stored tid r) (finalize_flow sv flow status)"
  "preserves (stored tid r) (enter_step sv flow sd async ty pending)"
proof -
  show refresh: "preserves (stored tid r) (refresh_session_status sid)" for sid
    unfolding refresh_session_status_def by (intro inv_rules)
  show "preserves (stored tid r) (finalize_flow sv flow status)"
    unfolding finalize_flow_def by (intro inv_rules refresh)
  show "preserves (stored tid r) (enter_step sv flow sd async ty pending)"
    unfolding enter_step_def by (intro inv_rules)
qed

lemma stored_chain:
  assumes "chain_only_opens sv (fl_flow_type flow)"
  shows "run_preserves (stored tid r) (create_step_chain sv session flow t pending)"
proof -
  let ?enter = "\<lambda>sd async. bindE (enter_step sv flow sd async t pending) (\<lambda>(_, _, f'). ret (ChainReturn f'))"
  have "stored tid r (snd y)" if run: "create_step_chain sv session flow t pending w = Some y" and old: "stored tid r w" for w y
  proof (cases "\<exists>fd sd. flow_definition_for sv (fl_flow_type flow) = Inr fd \<and> step_definition_for fd t = Inr sd")
    case True
    then obtain fd sd where d: "flow_definition_for sv (fl_flow_type flow) = Inr fd" "step_definition_for fd t = Inr sd" by blast
    then have "sd \<in> set (df_steps fd)" "ps_step_type sd = t"
      by (auto simp: step_definition_for_def ok_or_def find_Some_iff split: option.splits)
    with assms d(1) have "ps_actor sd = System \<longrightarrow> runs_async sv (fl_flow_type flow) sd t"
      by (auto simp: chain_only_opens_def runs_async_def)
    with d have round: "chain_round sv session flow t pending w = ?enter sd (runs_async sv (fl_flow_type flow) sd t) w"
      by (auto simp: chain_round_def Let_def bindE_def split: prod.splits sum.splits)
    obtain x w' where e: "?enter sd (runs_async sv (fl_flow_type flow) sd t) w = (x, w')" by fastforce
    have "preserves (stored tid r) (?enter sd (runs_async sv (fl_flow_type flow) sd t))" by (intro inv_rules)
    then have "stored tid r w'" using e old by (rule preservesD)
    moreover have "\<nexists>f' t'. x = Inr (ChainContinue f' t')" using e by (auto simp: bindE_def split: prod.splits sum.splits)
    ultimately show ?thesis
      using run round e by (subst (asm) create_step_chain.simps) (auto split: sum.splits chain_result.splits)
  next
    case False
    then have "\<exists>e. chain_round sv session flow t pending w = (Inl e, w)"
      by (cases "flow_definition_for sv (fl_flow_type flow)")
         (auto simp: chain_round_def bindE_def split: sum.splits)
    then show ?thesis using run old by (subst (asm) create_step_chain.simps) auto
  qed
  then show ?thesis by (simp add: run_preserves_def)
qed

lemma fail_admin_stored:
  assumes "fail_admin_step sv tid input fd step flow session error retryable w = Some (Inr r, w')"
    and "chain_only_opens sv (fl_flow_type flow)"
  shows "step_of tid w' = Some r"
proof -
  let ?rest = "bindO (case resolve_transition fd (st_step_type step) None True of
              Some next_step \<Rightarrow>
                bindO (if has_flow_step fd next_step then create_step_chain sv session flow next_step None
                       else returns (finalize_flow sv flow (terminal_status next_step))) (\<lambda>_.
                returns (refresh_session_status (fl_session_id flow)))
            | None \<Rightarrow> bindO (returns (finalize_flow sv flow ''FAILED'')) (\<lambda>_. returns (ret ())))"
  obtain p u w1 where patched: "patch_step tid p w = (Inr u, w1)" and rest: "?rest (\<lambda>_. returns (ret u)) w1 = Some (Inr r, w')"
    using assms(1) by (auto simp: fail_admin_step_def bindO_Some_Inr[of "returns _"] returns_def bindE_Inr_iff)
  from rest have "u = r" by (auto simp: bindO_Some_Inr returns_def)
  have "run_preserves (stored tid u) (?rest (\<lambda>_. returns (ret u)))"
    by (intro inv_rules stored_chain[OF assms(2)])
  with rest patch_step_read_back(1)[OF patched] \<open>u = r\<close> show ?thesis by (fastforce simp: run_preserves_def)
qed

lemma flow_row_kept [inv_rules]:
  "preserves (\<lambda>w. flow_of k w = Some f) (apply_context_updates sv session u)"
  "preserves (\<lambda>w. flow_of k w = Some f) (patch_step tid p)"
proof -
  have tables: "flow_of k w = Some f \<longleftrightarrow> flow_of k w' = Some f" if "flow_tables w = flow_tables w'" for w w'
    using that by (simp add: flow_tables_def flow_of_def)
  have side: "preserves (\<lambda>w. flow_of k w = Some f) (update_user_metadata_of session u)"
    "preserves (\<lambda>w. flow_of k w = Some f) (notify sv n)" for n
    by (rule keeps_preserves[OF _ tables], rule frame_rules, assumption)+
  have "preserves (\<lambda>w. flow_of k w = Some f) (update_session_context a d)" for a d
    by (intro preservesI) (auto simp: update_session_context_def flow_of_def modify_session_def Let_def split: if_splits)
  then show "preserves (\<lambda>w. flow_of k w = Some f) (apply_context_updates sv session u)"
    unfolding apply_context_updates_def by (intro inv_rules side)
  show "preserves (\<lambda>w. flow_of k w = Some f) (patch_step tid p)"
    by (intro preservesI) (auto simp: patch_step_def flow_of_def modify_step_def Let_def split: option.splits)
qed

lemma complete_admin_rows:
  assumes "complete_admin_step sv tid input step flow session out updates w = (Inr (r, flow'), w')"
    and "flow_of (fl_id flow) w = Some flow"
  shows "step_of tid w' = Some r" "fl_flow_type flow' = fl_flow_type flow"
proof -
  let ?I = "\<lambda>w. flow_of (fl_id flow) w = Some flow"
  obtain p cx w1 w2 where run: "(case updates of None \<Rightarrow> ret () | Some u \<Rightarrow> apply_context_updates sv session u) w = (Inr (), w1)"
    and patched: "patch_step tid p w1 = (Inr r, w2)"
    and flow': "update_flow (fl_id flow) (no_flow_update\<lparr>fu_context := Some cx\<rparr>) w2 = (Inr flow', w')"
    using assms(1) by (auto simp: complete_admin_step_def Let_def bindE_Inr_iff)
  have "preserves ?I (case updates of None \<Rightarrow> ret () | Some u \<Rightarrow> apply_context_updates sv session u)"
    by (intro inv_rules)
  from preservesD[OF this run assms(2)] have "?I w1" .
  from preservesD[OF flow_row_kept(2) patched this] have "?I w2" .
  with flow' show "fl_flow_type flow' = fl_flow_type flow"
    by (auto simp: update_flow_def Let_def apply_flow_update_def split: option.splits)
  show "step_of tid w' = Some r"
    using preservesD[OF stored_repo(3) flow' patch_step_read_back(1)[OF patched]] .
qed

lemma pass_admin_stored:
  assumes "pass_admin_step sv tid input fd step flow session out updates branch w = Some (Inr r, w')"
    and "chain_only_opens sv (fl_flow_type flow)" "flow_of (fl_id flow) w = Some flow"
  shows "step_of tid w' = Some r"
proof -
  let ?rest = "\<lambda>u flow'. bindO (case resolve_transition fd (st_step_type u) branch False of
              Some next_step \<Rightarrow>
                if has_flow_step fd next_step then create_step_chain sv session flow' next_step None
                else returns (finalize_flow sv flow' (terminal_status next_step))
            | None \<Rightarrow> returns (finalize_flow sv flow' ''COMPLETED'')) (\<lambda>current_flow.
     bindO (returns (refresh_session_status (fl_session_id current_flow))) (\<lambda>_. returns (ret u)))"
  obtain u flow' w1 where done1: "complete_admin_step sv tid input step flow session (unwrap_or verified out) updates w
      = (Inr (u, flow'), w1)" and rest: "?rest u flow' w1 = Some (Inr r, w')"
    using assms(1) by (auto simp: pass_admin_step_def bindO_Some_Inr[of "returns _"] returns_def)
  note rows = complete_admin_rows[OF done1 assms(3)]
  from rest have "u = r" by (auto simp: bindO_Some_Inr returns_def)
  have "run_preserves (stored tid u) (?rest u flow')"
    by (intro inv_rules stored_chain) (simp add: rows(2) assms(2))
  with rest rows(1) \<open>u = r\<close> show ?thesis by (fastforce simp: run_preserves_def)
qed

lemma settled_stored:
  assumes "settle_admin_step sv tid input (fd, step, flow, session, outcome) w = Some (Inr r, w')"
    and "chain_only_opens sv (fl_flow_type flow)" "flow_of (fl_id flow) w = Some flow"
  shows "step_of tid w' = Some r"
  using assms(1)
  by (auto simp: settle_admin_step_def returns_def split: step_outcome.splits
      intro: pass_admin_stored[OF _ assms(2,3)] fail_admin_stored[OF _ assms(2)])

lemma verify_keeps_flow: "preserves (\<lambda>w. flow_of k w = Some f) (verify_admin_step sv tid input)"
proof -
  have tables: "flow_of k w = Some f \<longleftrightarrow> flow_of k w' = Some f" if "flow_tables w = flow_tables w'" for w w'
    using that by (simp add: flow_tables_def flow_of_def)
  have "preserves (\<lambda>w. flow_of k w = Some f) (proxy_verify_input sx ps cx inp)" for sx ps cx inp
    by (rule keeps_preserves[OF _ tables], rule frame_rules, assumption)
  then show ?thesis unfolding verify_admin_step_def get_admin_step_row_def by (intro inv_rules)
qed

text \<open>A token the staff API has verified.\<close>

definition staff_token_verified :: "'r auth_server \<Rightarrow> headers \<Rightarrow> bool" where
  "staff_token_verified A hs \<longleftrightarrow> (\<exists>header t. header_value (as_to_str_ok A) hs ''authorization'' = Some header
     \<and> starts_with ''bearer '' (to_ascii_lowercase header)
     \<and> jwt_verify (as_jwt A) (as_audiences A) (as_jwks A) (drop 7 header) = Inr t)"

lemma require_staff_token_iff:
  "(\<exists>t. require_staff_token sg A hs = Inr t) \<longleftrightarrow> (sg_enabled sg \<longrightarrow> staff_token_verified A hs)"
proof -
  have "\<not> starts_with ''bearer '' (to_ascii_lowercase [])" by (simp add: starts_with_def to_ascii_lowercase_def)
  then show ?thesis
    by (cases "header_value (as_to_str_ok A) hs ''authorization''")
       (auto simp: require_staff_token_def staff_token_verified_def unwrap_or_def Let_def)
qed

section \<open>Lists\<close>

lemma mapE_gets: "(\<And>x. f x w = (Inr (g x), w)) \<Longrightarrow> mapE f xs w = (Inr (map g xs), w)"
  by (induction xs) (simp_all add: bindE_def)

definition flow_admin_steps :: "admin_step_query \<Rightarrow> world \<Rightarrow> flow_row \<Rightarrow> step_row list" where
  "flow_admin_steps q w flow =
     (if excluded (aq_flow_type q) (fl_flow_type flow) then []
      else filter (wanted_step q) (sort_key st_created_at (filter (\<lambda>r. st_flow_id r = fl_id flow) (w_steps w))))"

lemma admin_steps_of_flow_run: "admin_steps_of_flow q flow w = (Inr (flow_admin_steps q w flow), w)"
  by (simp add: admin_steps_of_flow_def flow_admin_steps_def list_steps_for_flow_def)

lemma admin_steps_of_session_run:
  "admin_steps_of_session q session w =
    (Inr (concat (map (flow_admin_steps q w) (flows_of_session (se_id session) w))), w)"
proof -
  have "mapE (admin_steps_of_flow q) flows w = (Inr (map (flow_admin_steps q w) flows), w)" for flows
    by (rule mapE_gets) (rule admin_steps_of_flow_run)
  then show ?thesis by (simp add: admin_steps_of_session_def list_flows_for_session_def bindE_ok)
qed

definition step_before :: "step_row \<Rightarrow> step_row \<Rightarrow> bool" where
  "step_before a b \<longleftrightarrow> st_created_at a < st_created_at b \<or> st_created_at a = st_created_at b \<and> st_id a \<le> st_id b"

lemma sorted_sort_steps: "sorted_wrt step_before (sort_steps xs)"
proof -
  have insort: "sorted_wrt step_before (insort_key st_created_at y zs)"
    if "sorted_wrt step_before zs" "\<forall>z\<in>set zs. st_id y \<le> st_id z" for y zs
    using that by (induction zs) (auto simp: step_before_def set_insort_key)
  have "sorted_wrt step_before (sort_key st_created_at ys)" if "sorted (map st_id ys)" for ys
    using that by (induction ys) (auto intro!: insort)
  then show ?thesis by (simp add: sort_steps_def)
qed

lemma first_page:
  "list_sessions \<lparr>sf_user_id = u, sf_user_ids = us, sf_session_type = None, sf_status = None, sf_page = 1, sf_limit = 500\<rparr> w
   = (Inr (take 100 (order_by_desc se_updated_at (filter (session_matches (session_filter_normalized
       \<lparr>sf_user_id = u, sf_user_ids = us, sf_session_type = None, sf_status = None, sf_page = 1, sf_limit = 500\<rparr>)) (w_sessions w))),
      int (length (filter (session_matches (session_filter_normalized
       \<lparr>sf_user_id = u, sf_user_ids = us, sf_session_type = None, sf_status = None, sf_page = 1, sf_limit = 500\<rparr>)) (w_sessions w)))), w)"
  by (simp add: list_sessions_def Let_def bindE_def session_filter_offset_def limit_offset_def
      session_filter_normalized_def page_norm_def limit_norm_def clamp_def)

section \<open>Properties\<close>

text \<open>
  C20: where the staff surface is enabled, a staff submission is accepted only with a bearer token that was verified; with
  \<open>staff.enabled\<close> off it asks for none. It is accepted only for an admin step that waits for input, and answered with that step completed or
  failed; where the flow has no system step that runs at once, this is the row of the step in the database afterwards. Without
  the token, or for a step of another actor or in another state, it is refused and changes nothing. Whatever the outcome, the
  constraints of the schema hold afterwards.
\<close>

theorem staff_submission_guarded:
  "(\<forall>r w'. submit_admin_step sv sg A tid input hs w = Some (Inr r, w') \<longrightarrow>
      (sg_enabled sg \<longrightarrow> staff_token_verified A hs)
      \<and> (\<exists>step flow session. step_of tid w = Some step \<and> eq_ignore_ascii_case (st_actor step) ''ADMIN''
           \<and> eq_ignore_ascii_case (st_status step) ''WAITING'' \<and> flow_of (st_flow_id step) w = Some flow
           \<and> session_of (fl_session_id flow) w = Some session
           \<and> (chain_only_opens sv (fl_flow_type flow) \<longrightarrow> step_of tid w' = Some r))
      \<and> st_id r = tid \<and> st_status r \<in> {''COMPLETED'', ''FAILED''})
   \<and> (sg_enabled sg \<and> \<not> staff_token_verified A hs
        \<or> (\<exists>step. step_of tid w = Some step \<and> (\<not> eq_ignore_ascii_case (st_actor step) ''ADMIN''
              \<or> \<not> eq_ignore_ascii_case (st_status step) ''WAITING''))
      \<longrightarrow> (\<exists>e. submit_admin_step sv sg A tid input hs w = Some (Inl e, w)))
   \<and> (tables_ok w \<longrightarrow> (\<forall>r w'. submit_admin_step sv sg A tid input hs w = Some (r, w') \<longrightarrow> tables_ok w'))"
proof (intro conjI allI impI)
  fix r w' assume "submit_admin_step sv sg A tid input hs w = Some (Inr r, w')"
  then obtain v w1 where verify: "as_staff sg A hs (verify_admin_step sv tid input) w = (Inr v, w1)"
    and settle: "settle_admin_step sv tid input v w1 = Some (Inr r, w')"
    by (auto simp: submit_admin_step_def bindO_Some_Inr returns_def)
  obtain fd step flow session outcome where v: "v = (fd, step, flow, session, outcome)" by (metis prod_cases5)
  show "staff_token_verified A hs" if "sg_enabled sg"
    using verify that require_staff_token_iff[of sg A hs] by (simp add: as_staff_ok)
  note rows = verify_admin_step_ok[of sv tid input w fd step flow session outcome w1]
  have ran: "verify_admin_step sv tid input w = (Inr (fd, step, flow, session, outcome), w1)" using verify by (simp add: as_staff_ok v)
  have "fl_id flow = st_flow_id step" using rows[OF ran] by (auto simp: flow_of_def dest: select_first_Some)
  with rows[OF ran] have flow: "flow_of (fl_id flow) w = Some flow" by simp
  have "step_of tid w' = Some r" if "chain_only_opens sv (fl_flow_type flow)"
    using settled_stored[OF settle[unfolded v] that] preservesD[OF verify_keeps_flow ran flow] .
  with rows[OF ran] show "\<exists>step flow session. step_of tid w = Some step \<and> eq_ignore_ascii_case (st_actor step) ''ADMIN''
      \<and> eq_ignore_ascii_case (st_status step) ''WAITING'' \<and> flow_of (st_flow_id step) w = Some flow
      \<and> session_of (fl_session_id flow) w = Some session
      \<and> (chain_only_opens sv (fl_flow_type flow) \<longrightarrow> step_of tid w' = Some r)" by blast
  from settled_step[OF settle[unfolded v]] show "st_id r = tid" "st_status r \<in> {''COMPLETED'', ''FAILED''}"
    by (auto split: step_outcome.splits)
next
  assume refused: "sg_enabled sg \<and> \<not> staff_token_verified A hs
     \<or> (\<exists>step. step_of tid w = Some step \<and> (\<not> eq_ignore_ascii_case (st_actor step) ''ADMIN''
          \<or> \<not> eq_ignore_ascii_case (st_status step) ''WAITING''))"
  have "\<exists>e. verify_admin_step sv tid input w = (Inl e, w)"
    if "step_of tid w = Some step" "\<not> eq_ignore_ascii_case (st_actor step) ''ADMIN''
          \<or> \<not> eq_ignore_ascii_case (st_status step) ''WAITING''" for step
    using that by (auto simp: verify_admin_step_def get_admin_step_row_def get_step_def bindE_def)
  with refused have "\<exists>e. as_staff sg A hs (verify_admin_step sv tid input) w = (Inl e, w)"
    using require_staff_token_iff[of sg A hs]
    by (cases "require_staff_token sg A hs") (auto simp: as_staff_refused as_staff_token)
  then show "\<exists>e. submit_admin_step sv sg A tid input hs w = Some (Inl e, w)"
    by (auto simp: submit_admin_step_def returns_def intro!: bindO_error)
next
  fix r w' assume "tables_ok w" "submit_admin_step sv sg A tid input hs w = Some (r, w')"
  with staff_preserves[of sv sg A tid input hs] show "tables_ok w'" by (auto simp: run_preserves_def)
qed

text \<open>
  The list of admin steps. For a staff token and a query without a phone number, it is
  ordered by creation time and id, and contains exactly the admin steps in the wanted state of
  the flows of the wanted type, of the user's hundred most recently updated sessions: the limit of
  500 sessions the code asks for is cut to 100.
\<close>

lemma admin_step_list_exact:
  assumes "require_staff_token sg A hs = Inr t" "aq_phone_number q = None"
  shows "\<exists>steps. list_admin_steps sg A q hs w = (Inr steps, w) \<and> sorted_wrt step_before steps
    \<and> set steps = {step \<in> set (w_steps w). wanted_step q step
        \<and> (\<exists>flow\<in>set (w_flows w). st_flow_id step = fl_id flow \<and> \<not> excluded (aq_flow_type q) (fl_flow_type flow)
          \<and> (\<exists>session\<in>set (take 100 (order_by_desc se_updated_at
                (filter (\<lambda>r. case trim_field (aq_user_id q) of None \<Rightarrow> True | Some u \<Rightarrow> se_user_id r = Some u) (w_sessions w)))).
              fl_session_id flow = se_id session))}"
proof -
  let ?flt = "\<lparr>sf_user_id = aq_user_id q, sf_user_ids = None, sf_session_type = None, sf_status = None, sf_page = 1, sf_limit = 500\<rparr>"
  let ?sessions = "take 100 (order_by_desc se_updated_at
    (filter (\<lambda>r. case trim_field (aq_user_id q) of None \<Rightarrow> True | Some u \<Rightarrow> se_user_id r = Some u) (w_sessions w)))"
  let ?steps = "\<lambda>s. concat (map (flow_admin_steps q w) (flows_of_session (se_id s) w))"
  have "session_matches (session_filter_normalized ?flt)
      = (\<lambda>r. case trim_field (aq_user_id q) of None \<Rightarrow> True | Some u \<Rightarrow> se_user_id r = Some u)"
    by (auto simp: fun_eq_iff session_matches_def session_filter_normalized_def trim_field_def filter_opt_def matches_def
        split: option.splits)
  with first_page[of "aq_user_id q" None w]
  obtain n where page: "list_sessions ?flt w = (Inr (?sessions, n), w)" by simp
  have found: "mapE (admin_steps_of_session q) ?sessions w = (Inr (map ?steps ?sessions), w)"
    by (rule mapE_gets) (rule admin_steps_of_session_run)
  have ids: "\<exists>ids. resolve_user_ids_for_filters (aq_user_id q) None w = (Inr ids, w)"
    by (simp add: resolve_user_ids_for_filters_def trim_field_def filter_opt_def)
  have run: "list_admin_steps sg A q hs w = (Inr (sort_steps (concat (map ?steps ?sessions))), w)"
    using ids page found
    by (auto simp: list_admin_steps_def as_staff_token[OF assms(1)] assms(2) bindE_ok)
  have "set (sort_steps (concat (map ?steps ?sessions))) = (\<Union>s\<in>set ?sessions. set (?steps s))"
    by (simp add: sort_steps_def)
  also have "\<dots> = {step \<in> set (w_steps w). wanted_step q step
        \<and> (\<exists>flow\<in>set (w_flows w). st_flow_id step = fl_id flow \<and> \<not> excluded (aq_flow_type q) (fl_flow_type flow)
          \<and> (\<exists>session\<in>set ?sessions. fl_session_id flow = se_id session))}"
    by (auto simp: flow_admin_steps_def flows_of_session_def split: if_splits)
  finally show ?thesis using run sorted_sort_steps by blast
qed

text \<open>
  The staff API looks at no claim of the token. Any two requests with tokens that verify,
  whoever they were issued to and for whatever roles or scopes, get the same answers with the
  same effects.
\<close>

lemma staff_ignores_claims:
  assumes "require_staff_token sg A hs1 = Inr t1" "require_staff_token sg A hs2 = Inr t2"
  shows "list_staff_sessions sg A sq hs1 = list_staff_sessions sg A sq hs2
    \<and> get_staff_session sg A sid hs1 = get_staff_session sg A sid hs2
    \<and> get_staff_flow sg A fid hs1 = get_staff_flow sg A fid hs2
    \<and> list_admin_steps sg A aq hs1 = list_admin_steps sg A aq hs2
    \<and> submit_admin_step sv sg A tid input hs1 = submit_admin_step sv sg A tid input hs2"
  by (simp add: list_staff_sessions_def get_staff_session_def get_staff_flow_def list_admin_steps_def
      submit_admin_step_def assms[THEN as_staff_token])

section \<open>Witnesses\<close>

definition staff_auth :: "(string \<Rightarrow> (string \<times> instant) option) auth_server" where
  "staff_auth = example_auth\<lparr>as_jwt := \<lparr>jx_decode_header = (\<lambda>_. Inr (Some ''k'', ''RS256'')), jx_find = (\<lambda>_ _. Some JNull),
     jx_decoding_key = (\<lambda>_. Inr ''key''), jx_decode = (\<lambda>token _ _ _. Inr (service_claims\<lparr>cl_sub := token\<rparr>)),
     jx_decode_layer = (\<lambda>token _ _ _. Inr (Some token))\<rparr>\<rparr>"

abbreviation staff_on :: staff_config where
  "staff_on \<equiv> \<lparr>sg_enabled = True, sg_issuer = ''iss''\<rparr>"

definition bearer :: "string \<Rightarrow> headers" where
  "bearer token = [(''authorization'', ''Bearer '' @ token)]"

lemma staff_tokens:
  "\<exists>t. require_staff_token staff_on staff_auth (bearer ''usr_1'') = Inr t"
  "\<exists>t. require_staff_token staff_on staff_auth (bearer ''clerk'') = Inr t"
proof -
  have "case require_staff_token staff_on staff_auth (bearer ''usr_1'') of Inr _ \<Rightarrow> True | _ \<Rightarrow> False"
    "case require_staff_token staff_on staff_auth (bearer ''clerk'') of Inr _ \<Rightarrow> True | _ \<Rightarrow> False" by code_simp+
  then show "\<exists>t. require_staff_token staff_on staff_auth (bearer ''usr_1'') = Inr t"
    "\<exists>t. require_staff_token staff_on staff_auth (bearer ''clerk'') = Inr t" by (auto split: sum.splits)
qed

lemma staff_approval:
  "case submit_admin_step example_server staff_on staff_auth ''t1'' approval (bearer ''clerk'') service_world of
     Some (Inr _, _) \<Rightarrow> True | _ \<Rightarrow> False"
  by code_simp

theorem staff_submission_guarded_witness:
  "\<exists>r w'. submit_admin_step example_server staff_on staff_auth ''t1'' approval (bearer ''clerk'') service_world = Some (Inr r, w')
     \<and> st_id r = ''t1'' \<and> st_status r \<in> {''COMPLETED'', ''FAILED''} \<and> tables_ok w'"
proof -
  obtain r w' where run: "submit_admin_step example_server staff_on staff_auth ''t1'' approval (bearer ''clerk'') service_world = Some (Inr r, w')"
    using staff_approval by (auto split: option.splits prod.splits sum.splits)
  with staff_submission_guarded[of example_server staff_on staff_auth "''t1''" approval "bearer ''clerk''" service_world]
    service_world_ok show ?thesis by blast
qed

lemma admin_step_list_exact_witness:
  "\<exists>steps. list_admin_steps staff_on staff_auth \<lparr>aq_status = Some ''waiting'', aq_user_id = None, aq_phone_number = None,
       aq_flow_type = None\<rparr> (bearer ''clerk'') service_world = (Inr steps, service_world) \<and> victim_step \<in> set steps"
proof -
  let ?q = "\<lparr>aq_status = Some ''waiting'', aq_user_id = None, aq_phone_number = None, aq_flow_type = None\<rparr>"
  have wanted: "wanted_step ?q victim_step" by code_simp
  have rows: "victim_step \<in> set (w_steps service_world)" "victim_flow \<in> set (w_flows service_world)"
    "victim_session \<in> set (w_sessions service_world)" "length (w_sessions service_world) = 2"
    "st_flow_id victim_step = fl_id victim_flow" "fl_session_id victim_flow = se_id victim_session"
    by (simp_all add: example_rows new_step_row_def new_flow_row_def new_session_row_def)
  obtain t where t: "require_staff_token staff_on staff_auth (bearer ''clerk'') = Inr t" using staff_tokens(2) by blast
  have "victim_session \<in> set (take 100 (order_by_desc se_updated_at (w_sessions service_world)))"
    using rows(3,4) by (simp add: order_by_desc_def)
  with admin_step_list_exact[OF t, of ?q service_world] rows wanted show ?thesis
    by (auto simp: trim_field_def filter_opt_def excluded_def)
qed

lemma staff_ignores_claims_witness:
  "get_staff_session staff_on staff_auth ''s1'' (bearer ''usr_1'') = get_staff_session staff_on staff_auth ''s1'' (bearer ''clerk'')"
proof -
  obtain t1 t2 where "require_staff_token staff_on staff_auth (bearer ''usr_1'') = Inr t1"
    "require_staff_token staff_on staff_auth (bearer ''clerk'') = Inr t2" using staff_tokens by blast
  from staff_ignores_claims[OF this] show ?thesis by blast
qed

end
