(* ===== verification/Submissions.thy ===== *)
theory Submissions
  imports Service_Props
begin

text \<open>
  Submissions of one-time codes through the service, one after another and concurrently. A request to
  \<open>submit_step\<close> reads the step, the flow and the session, judges the input and only then writes; the
  server does not hold a transaction across this. The two phases are separate definitions here, shown to
  compose to \<open>accept_submission\<close>, and concurrent requests interleave them.
\<close>

section \<open>The phases of a submission\<close>

text \<open>What a request has in hand after it judged the input.\<close>

record judged =
  jd_definition :: "builtin dynamic_flow"
  jd_session :: session_row
  jd_flow :: flow_row
  jd_step_id :: string
  jd_input :: json
  jd_output :: json
  jd_updates :: "context_updates option"
  jd_branch :: "string option"

definition begin_submission :: "server \<Rightarrow> string \<Rightarrow> string \<Rightarrow> json \<Rightarrow> judged db" where
  "begin_submission sv step_id uid input =
     bindE (owned_step step_id uid) (\<lambda>(step, flow).
     bindE (lift_res (flow_definition_for sv (fl_flow_type flow))) (\<lambda>fd.
     bindE (lift_res (step_definition_for fd (st_step_type step))) (\<lambda>sd.
     if ps_actor sd = System
     then throw (conflict ''SYSTEM_STEP_NOT_SUBMITTABLE'' ''System steps are executed automatically'')
     else
       bindE (lift_res (map_errR flow_error_to_http (proxy_validate_input (sv_steps sv) sd input))) (\<lambda>_.
       bindE (get_session (fl_session_id flow)) (\<lambda>found.
       bindE (lift_res (ok_or (not_found ''SESSION_NOT_FOUND'' ''Session not found'') found)) (\<lambda>session.
       bindE (map_errE flow_error_to_http
         (proxy_verify_input (sv_steps sv) sd (verify_context session flow step input) input)) (\<lambda>outcome.
       bindE (lift_res (verify_result outcome)) (\<lambda>(output, updates, branch).
       ret \<lparr>jd_definition = fd, jd_session = session, jd_flow = flow, jd_step_id = step_id, jd_input = input,
            jd_output = output, jd_updates = updates, jd_branch = branch\<rparr>))))))))"

type_synonym accepted = "builtin dynamic_flow \<times> session_row \<times> step_row \<times> flow_row \<times> string option"

definition finish_submission :: "server \<Rightarrow> judged \<Rightarrow> accepted db" where
  "finish_submission sv j =
     bindE (complete_submission sv (jd_session j) (jd_flow j) (jd_step_id j) (jd_input j) (jd_output j) (jd_updates j))
       (\<lambda>(updated_step, flow'). ret (jd_definition j, jd_session j, updated_step, flow', jd_branch j))"

lemma bindE_assoc: "bindE (bindE m k) h = bindE m (\<lambda>a. bindE (k a) h)"
  by (auto simp: bindE_def fun_eq_iff split: prod.split sum.split)

lemma accept_submission_phases:
  "accept_submission sv step_id uid input = bindE (begin_submission sv step_id uid input) (finish_submission sv)"
proof -
  have split: "bindE (if b then m else n) h = (if b then bindE m h else bindE n h)" for b and m n :: "judged db" and h :: "judged \<Rightarrow> accepted db"
    by simp
  have prod: "bindE (case p of (x, y) \<Rightarrow> k x y) h = (case p of (x, y) \<Rightarrow> bindE (k x y) h)"
    for p :: "'x \<times> 'y" and k and h :: "judged \<Rightarrow> accepted db" by (cases p) simp
  have triple: "(\<lambda>x. bindE (case x of (o', u, b) \<Rightarrow> k o' u b) h) = (\<lambda>x. case x of (o', u, b) \<Rightarrow> bindE (k o' u b) h)"
    for k :: "json \<Rightarrow> context_updates option \<Rightarrow> string option \<Rightarrow> judged db" and h :: "judged \<Rightarrow> accepted db"
    by (auto simp: fun_eq_iff)
  show ?thesis
    by (simp add: accept_submission_def begin_submission_def finish_submission_def bindE_assoc split prod triple
        cong: if_cong)
qed

section \<open>Concurrent requests\<close>

datatype submission =
    Arrived string string json
  | Judged judged
  | Answered "app_error + accepted"

fun judged_or_refused :: "app_error + judged \<Rightarrow> submission" where
  "judged_or_refused (Inl e) = Answered (Inl e)"
| "judged_or_refused (Inr j) = Judged j"

inductive submissions_step :: "server \<Rightarrow> submission list \<times> world \<Rightarrow> submission list \<times> world \<Rightarrow> bool" for sv where
  begin_request: "i < length ps \<Longrightarrow> ps ! i = Arrived step_id uid input \<Longrightarrow> begin_submission sv step_id uid input w = (x, w') \<Longrightarrow>
    submissions_step sv (ps, w) (ps[i := judged_or_refused x], w')"
| finish_request: "i < length ps \<Longrightarrow> ps ! i = Judged j \<Longrightarrow> finish_submission sv j w = (x, w') \<Longrightarrow>
    submissions_step sv (ps, w) (ps[i := Answered x], w')"
| pass_time: "w_clock w \<le> t \<Longrightarrow> submissions_step sv (ps, w) (ps, w\<lparr>w_clock := t\<rparr>)"

inductive_cases submissions_stepE: "submissions_step sv s s'"

abbreviation submissions_run :: "server \<Rightarrow> submission list \<times> world \<Rightarrow> submission list \<times> world \<Rightarrow> bool" where
  "submissions_run sv \<equiv> (submissions_step sv)\<^sup>*\<^sup>*"

section \<open>A step that waits for a code\<close>

text \<open>
  The contexts a verification reads, the step definition that verifies codes with configuration \<open>c\<close>, the rows
  of the step with its flow and session, and an input that submits a code.
\<close>

definition contexts :: "json \<Rightarrow> json \<Rightarrow> step_context" where
  "contexts session_context flow_context =
     \<lparr>cx_session_id = [], cx_session_user_id = None, cx_flow_id = [], cx_step_id = [], cx_input = JNull,
      cx_session_context = session_context, cx_flow_context = flow_context, cx_services = runtime_services\<rparr>"

record awaiting =
  aw_step_id :: string
  aw_flow_id :: string
  aw_flow_type :: string
  aw_step_type :: string
  aw_session_id :: string
  aw_user_id :: string

text \<open>The definition of the step; what a wrong code leads to waits for a person or ends the flow.\<close>

definition verifies_codes :: "server \<Rightarrow> awaiting \<Rightarrow> verify_otp_config \<Rightarrow> bool" where
  "verifies_codes sv p c \<longleftrightarrow>
     (\<exists>fd sd. get_flow (sv_registry sv) (aw_flow_type p) = Some fd
        \<and> List.find (\<lambda>s. ps_step_type s = aw_step_type p) (df_steps fd) = Some sd
        \<and> ps_actor sd \<noteq> System \<and> ps_inner sd = VerifyOtpAction
        \<and> parse_step_config (de_verify_otp (sx_otp (sv_steps sv))) default_verify_otp
            (context_with_config sd (contexts JNull JNull)) = Inr c
        \<and> (\<forall>s\<in>set (df_steps fd). resolve_transition fd (aw_step_type p) (Some ''retry'') False = Some (ps_step_type s)
             \<longrightarrow> ps_actor s \<noteq> System))"

definition step_rows :: "awaiting \<Rightarrow> json \<Rightarrow> json \<Rightarrow> world \<Rightarrow> bool" where
  "step_rows p session_context flow_context w \<longleftrightarrow>
     (\<exists>step. step_of (aw_step_id p) w = Some step \<and> st_flow_id step = aw_flow_id p \<and> st_step_type step = aw_step_type p)
     \<and> (\<exists>flow. flow_of (aw_flow_id p) w = Some flow \<and> fl_flow_type flow = aw_flow_type p
         \<and> fl_session_id flow = aw_session_id p \<and> fl_context flow = flow_context)
     \<and> (\<exists>session. session_of (aw_session_id p) w = Some session \<and> se_user_id session = Some (aw_user_id p)
         \<and> se_context session = session_context)"

definition submits :: "verify_otp_config \<Rightarrow> json \<Rightarrow> string \<Rightarrow> bool" where
  "submits c input s \<longleftrightarrow>
     json_get (vo_input_field default_verify_otp) input \<noteq> None
     \<and> Option.bind (json_get (vo_input_field c) input) as_str = Some s"

definition plain_fields :: "verify_otp_config \<Rightarrow> bool" where
  "plain_fields c \<longleftrightarrow> vo_attempts_field c \<notin> {vo_stored_field c, ''otp_expires_at'', ''step_output''}
     \<and> vo_stored_field c \<noteq> ''step_output''"

text \<open>Codes are read from the two contexts only.\<close>

lemma contexts_read:
  assumes "cx_flow_context cx = f" "cx_session_context cx = s"
  shows "flow_config (contexts s f) = flow_config cx" "context_value (contexts s f) = context_value cx"
    "current_attempts (contexts s f) = current_attempts cx"
proof -
  show flow: "flow_config (contexts s f) = flow_config cx"
    using assms by (simp add: flow_config_def contexts_def fun_eq_iff)
  have "session_config (contexts s f) = session_config cx"
    using assms by (simp add: session_config_def contexts_def fun_eq_iff)
  then show val: "context_value (contexts s f) = context_value cx"
    using flow by (intro ext) (simp add: context_value_def split: option.split)
  show "current_attempts (contexts s f) = current_attempts cx"
    using val by (simp add: current_attempts_def fun_eq_iff)
qed

lemma otp_in_flow_contexts:
  "cx_flow_context cx = f \<Longrightarrow> cx_session_context cx = s \<Longrightarrow> otp_in_flow c code e n cx = otp_in_flow c code e n (contexts s f)"
  using contexts_read[of cx f s] by (simp add: otp_in_flow_def) (simp add: contexts_def)

lemma context_with_config_contexts [simp]:
  "cx_flow_context (context_with_config ps cx) = cx_flow_context cx"
  "cx_session_context (context_with_config ps cx) = cx_session_context cx"
  by (simp_all add: context_with_config_def Let_def split: option.split)

lemma parse_step_config_services:
  "cx_services cx = cx_services cx' \<Longrightarrow>
   parse_step_config de d (context_with_config ps cx) = parse_step_config de d (context_with_config ps cx')"
  by (simp add: parse_step_config_def context_with_config_def Let_def split: option.split)

text \<open>The verification the service runs is \<open>submit_code\<close> on the contexts of the rows.\<close>

lemma submit_code_contexts:
  "cx_flow_context cx = f \<Longrightarrow> cx_session_context cx = s \<Longrightarrow> submit_code c now cx code = submit_code c now (contexts s f) code"
  using contexts_read[of cx f s] by (simp add: submit_code_def verify_code_def)

lemma begin_code:
  assumes "verifies_codes sv p c" "step_rows p sctx ctx w" "submits c input s"
  shows "\<exists>fd session flow. get_flow (sv_registry sv) (aw_flow_type p) = Some fd
    \<and> flow_of (aw_flow_id p) w = Some flow \<and> fl_context flow = ctx
    \<and> begin_submission sv (aw_step_id p) (aw_user_id p) input w =
      (bindR (verify_result (submit_code c (seconds_of (w_clock w)) (contexts sctx ctx) s))
         (\<lambda>(output, updates, branch). Inr \<lparr>jd_definition = fd, jd_session = session, jd_flow = flow, jd_step_id = aw_step_id p,
            jd_input = input, jd_output = output, jd_updates = updates, jd_branch = branch\<rparr>), w)"
proof -
  obtain fd sd where fd: "get_flow (sv_registry sv) (aw_flow_type p) = Some fd"
    and sd: "List.find (\<lambda>s. ps_step_type s = aw_step_type p) (df_steps fd) = Some sd"
    and b: "ps_actor sd \<noteq> System" "ps_inner sd = VerifyOtpAction"
    and c: "parse_step_config (de_verify_otp (sx_otp (sv_steps sv))) default_verify_otp
      (context_with_config sd (contexts JNull JNull)) = Inr c"
    using assms(1) unfolding verifies_codes_def by blast
  obtain step flow session where
    step: "step_of (aw_step_id p) w = Some step" "st_flow_id step = aw_flow_id p" "st_step_type step = aw_step_type p"
    and flow: "flow_of (aw_flow_id p) w = Some flow" "fl_flow_type flow = aw_flow_type p"
      "fl_session_id flow = aw_session_id p" "fl_context flow = ctx"
    and session: "session_of (aw_session_id p) w = Some session" "se_user_id session = Some (aw_user_id p)"
      "se_context session = sctx"
    using assms(2) unfolding step_rows_def by blast
  let ?cx = "verify_context session flow step input"
  have parse: "parse_step_config (de_verify_otp (sx_otp (sv_steps sv))) default_verify_otp (context_with_config sd ?cx) = Inr c"
    using c by (subst parse_step_config_services[of ?cx "contexts JNull JNull"]) (simp_all add: verify_context_def contexts_def)
  have code: "submit_code c now (context_with_config sd ?cx) s = submit_code c now (contexts sctx ctx) s" for now
    using flow(4) session(3) by (intro submit_code_contexts) (simp_all add: verify_context_def)
  have "begin_submission sv (aw_step_id p) (aw_user_id p) input w =
      (bindR (verify_result (submit_code c (seconds_of (w_clock w)) (contexts sctx ctx) s))
         (\<lambda>(output, updates, branch). Inr \<lparr>jd_definition = fd, jd_session = session, jd_flow = flow, jd_step_id = aw_step_id p,
            jd_input = input, jd_output = output, jd_updates = updates, jd_branch = branch\<rparr>), w)"
    using assms(3) step flow(1-3) session fd sd b parse code
    by (auto simp: begin_submission_def owned_step_def owned_flow_def ensure_flow_owner_def get_step_def get_flow_row_def
        get_session_def flow_definition_for_def step_definition_for_def proxy_validate_input_def validate_builtin_def
        validate_verify_otp_def proxy_verify_input_def verify_builtin_def verify_otp_def submits_def bindE_def map_errE_def
        split: sum.split)
  with fd flow show ?thesis by blast
qed

lemma columns_keep_types [simp]:
  "fl_flow_type (set_flow_columns u r) = fl_flow_type r" "st_step_type (set_step_columns v x) = st_step_type x"
  "st_step_type (apply_step_patch now p x) = st_step_type x" "fl_context (set_flow_columns u r) = fl_context u"
  "fl_context (apply_flow_update now (no_flow_update\<lparr>fu_context := Some c\<rparr>) r) = c"
  by (simp_all add: set_flow_columns_def set_step_columns_def apply_step_patch_def apply_flow_update_def unwrap_or_def
      no_flow_update_def)

lemma finish_code:
  assumes "step_rows p sctx ctx' w"
    and "jd_step_id j = aw_step_id p" "fl_id (jd_flow j) = aw_flow_id p" "fl_context (jd_flow j) = ctx"
    and "jd_updates j = Some (no_updates\<lparr>cu_flow_context_patch := Some patch\<rparr>)"
  shows "\<exists>step flow w'. finish_submission sv j w = (Inr (jd_definition j, jd_session j, step, flow, jd_branch j), w')
    \<and> w_clock w' = w_clock w \<and> st_step_type step = aw_step_type p
    \<and> fl_id flow = aw_flow_id p \<and> fl_flow_type flow = aw_flow_type p
    \<and> step_rows p sctx (store_step_output (merged_json ctx patch) (aw_step_type p) (jd_input j)) w'"
proof -
  obtain step flow where
    step: "step_of (aw_step_id p) w = Some step" "st_flow_id step = aw_flow_id p" "st_step_type step = aw_step_type p"
    and flow: "flow_of (aw_flow_id p) w = Some flow" "fl_flow_type flow = aw_flow_type p" "fl_session_id flow = aw_session_id p"
    using assms(1) unfolding step_rows_def by blast
  have none: "apply_context_updates sv s (no_updates\<lparr>cu_flow_context_patch := Some patch\<rparr>) v = (Inr (), v)" for s v
    by (simp add: apply_context_updates_def no_updates_def update_user_metadata_of_def unwrap_or_def bindE_def)
  let ?p = "patch_finished_at (w_clock w) (patch_clear_error (patch_output (jd_output j) (patch_input (jd_input j)
      (patch_status ''COMPLETED'' patch_new))))"
  let ?t = "apply_step_patch (w_clock w) ?p step"
  let ?w1 = "modify_step (aw_step_id p) (set_step_columns ?t) w"
  let ?ctx = "store_step_output (merged_json ctx patch) (aw_step_type p) (jd_input j)"
  let ?u = "no_flow_update\<lparr>fu_context := Some ?ctx\<rparr>"
  let ?f = "apply_flow_update (w_clock w) ?u flow"
  let ?w2 = "modify_flow (aw_flow_id p) (set_flow_columns ?f) ?w1"
  have "flow_of (aw_flow_id p) ?w1 = Some flow" using flow by simp
  note writes = patch_step_reads[OF step(1), of ?p] update_flow_reads[OF this, of ?u]
  have "finish_submission sv j w = (Inr (jd_definition j, jd_session j, ?t, ?f, jd_branch j), ?w2)"
    using assms(2-5) step(3) none writes
    by (simp add: finish_submission_def complete_submission_def Let_def bindE_def)
  moreover have "step_rows p sctx ?ctx ?w2"
    using assms(1) step flow by (auto simp: step_rows_def flw.get_modify stp.get_modify)
  moreover have "fl_id ?f = aw_flow_id p" "fl_flow_type ?f = aw_flow_type p"
    using flow flw.get_key[OF flow(1)] by (simp_all add: apply_flow_update_def)
  ultimately show ?thesis using step(3) by auto
qed

section \<open>The counter of attempts\<close>

lemma flow_config_store:
  "is_object ctx \<Longrightarrow> k \<noteq> ''step_output'' \<Longrightarrow>
   flow_config (contexts s (store_step_output ctx ty input)) k = flow_config (contexts s ctx) k"
  by (auto simp: flow_config_def contexts_def store_step_output_def Let_def unwrap_or_def elim!: is_object.elims)

lemma otp_in_flow_stored:
  assumes "otp_in_flow c code e n (contexts s ctx)" "plain_fields c"
  shows "otp_in_flow c code e n (contexts s (store_step_output ctx ty input))"
proof -
  let ?new = "contexts s (store_step_output ctx ty input)"
  have obj: "is_object ctx" using assms(1) by (simp add: otp_in_flow_def contexts_def)
  have "session_config ?new = session_config (contexts s ctx)" by (simp add: session_config_def contexts_def fun_eq_iff)
  then have "current_attempts ?new (vo_attempts_field c) = current_attempts (contexts s ctx) (vo_attempts_field c)"
    using assms(2) flow_config_store[OF obj]
    by (simp add: current_attempts_def context_value_def plain_fields_def split: option.split)
  moreover have "is_object (cx_flow_context ?new)" by (simp add: contexts_def store_step_output_def Let_def)
  ultimately show ?thesis
    using assms flow_config_store[OF obj] by (simp add: otp_in_flow_def plain_fields_def)
qed

lemma otp_in_flow_counts:
  assumes "otp_in_flow c code e n (contexts s ctx)" "n < unat (vo_max_attempts c)" "plain_fields c"
  shows "otp_in_flow c code e (Suc n)
    (contexts s (store_step_output (merged_json ctx (JObject [(vo_attempts_field c, jnat (Suc n))])) ty input))"
proof -
  obtain wrong where wrong: "wrong \<noteq> code" by (metis list.distinct(1))
  let ?cx = "contexts s ctx" and ?out = "submit_code c e (contexts s ctx) wrong"
  have "otp_in_flow c code e (Suc n) (after_outcome ?cx ?out)"
    using after_wrong_code[OF assms(1) order_refl assms(2) wrong] assms(3) by (simp add: plain_fields_def)
  moreover have "cx_flow_context (after_outcome ?cx ?out) = merged_json ctx (JObject [(vo_attempts_field c, jnat (Suc n))])"
    by (simp add: wrong_code_outcome[OF assms(1) order_refl assms(2) wrong] after_outcome_def merged_json_def)
       (simp add: contexts_def)
  moreover have "cx_session_context (after_outcome ?cx ?out) = s" by (simp add: contexts_def)
  ultimately show ?thesis
    using otp_in_flow_contexts otp_in_flow_stored[OF _ assms(3)] by blast
qed

section \<open>What follows a wrong code keeps the rows\<close>

lemma step_rows_tables: "flow_tables w = flow_tables w' \<Longrightarrow> step_rows p s f w = step_rows p s f w'"
  by (simp add: flow_tables_def step_rows_def step_of_def flow_of_def session_of_def)

lemma side_keep_rows [inv_rules]:
  "preserves (step_rows p s f) (write_completed_kyc_metadata sv flow)" "preserves (step_rows p s f) (flow_step_id cuid)"
  by (rule keeps_preserves[OF _ step_rows_tables], rule frame_rules, assumption)+

lemma find_append_left: "List.find P xs = Some x \<Longrightarrow> List.find P (xs @ ys) = Some x"
  by (induction xs) (auto split: if_splits)

lemma step_of_append: "step_of i w = Some r \<Longrightarrow> step_of i (w\<lparr>w_steps := w_steps w @ rs\<rparr>) = Some r"
  by (simp add: step_of_def select_first_def find_append_left)

lemma repo_keeps_rows [inv_rules]:
  "preserves (step_rows p s f) (update_session_status a b d)" "preserves (step_rows p s f) (create_step i)"
  "fu_context u = None \<Longrightarrow> preserves (step_rows p s f) (update_flow k u)"
proof -
  show "preserves (step_rows p s f) (update_session_status a b d)"
    by (intro preservesI) (auto simp: step_rows_def update_session_status_def sess.get_modify)
  show "preserves (step_rows p s f) (create_step i)"
    by (intro preservesI) (auto simp: step_rows_def create_step_def insert_unique_def Let_def flow_of_def session_of_def
        step_of_append[simplified step_of_def] step_of_def split: option.splits)
  show "preserves (step_rows p s f) (update_flow k u)" if "fu_context u = None"
    by (intro preservesI)
       (use that in \<open>auto simp: step_rows_def update_flow_def Let_def flw.get_modify apply_flow_update_def unwrap_or_def
          split: option.splits\<close>)
qed

lemma flow_endings_keep_rows [inv_rules]:
  "preserves (step_rows p s f) (refresh_session_status sid)" "preserves (step_rows p s f) (finalize_flow sv flow status)"
proof -
  show refresh: "preserves (step_rows p s f) (refresh_session_status sid)" for sid
    unfolding refresh_session_status_def by (intro inv_rules)
  show "preserves (step_rows p s f) (finalize_flow sv flow status)"
    unfolding finalize_flow_def by (intro inv_rules refresh) (simp add: no_flow_update_def)
qed

lemma enter_step_keeps_rows [inv_rules]: "preserves (step_rows p s f) (enter_step sv flow sd async ty pending)"
  unfolding enter_step_def by (intro inv_rules) (simp add: no_flow_update_def)

text \<open>A step of a person ends the chain where it enters it.\<close>

lemma chain_to_person:
  assumes "get_flow (sv_registry sv) (fl_flow_type flow) = Some fd"
    and "\<And>sd. sd \<in> set (df_steps fd) \<Longrightarrow> ps_step_type sd = t \<Longrightarrow> ps_actor sd \<noteq> System"
    and "step_rows p s f w"
  shows "\<exists>x w'. create_step_chain sv session flow t pending w = Some (x, w') \<and> step_rows p s f w'"
proof -
  have person: "ps_actor sd \<noteq> System" if "step_definition_for fd t = Inr sd" for sd
    using that assms(2)[of sd]
    by (auto simp: step_definition_for_def ok_or_def find_Some_iff split: option.splits)
  obtain x w' where round: "chain_round sv session flow t pending w = (x, w')" by fastforce
  have fd: "flow_definition_for sv (fl_flow_type flow) = Inr fd"
    using assms(1) by (simp add: flow_definition_for_def)
  show ?thesis
  proof (cases "step_definition_for fd t")
    case (Inl e)
    then have "chain_round sv session flow t pending w = (Inl e, w)"
      using fd by (simp add: chain_round_def bindE_def)
    then show ?thesis using assms(3) by (subst create_step_chain.simps) simp
  next
    case (Inr sd)
    then have run: "chain_round sv session flow t pending w
        = bindE (enter_step sv flow sd False t pending) (\<lambda>(_, _, f'). ret (ChainReturn f')) w" (is "_ = ?m w")
      using fd person[OF Inr] by (simp add: chain_round_def bindE_def runs_async_def cong: prod.case_cong sum.case_cong)
    have "preserves (step_rows p s f) ?m" by (intro inv_rules)
    then have "step_rows p s f w'" using trans[OF run[symmetric] round] assms(3) by (rule preservesD)
    moreover have "\<nexists>f' t'. x = Inr (ChainContinue f' t')"
      using round run by (auto simp: bindE_def split: prod.splits sum.splits)
    ultimately show ?thesis using round
      by (subst create_step_chain.simps) (auto split: sum.splits chain_result.splits)
  qed
qed

section \<open>A guess\<close>

definition awaits_code :: "verify_otp_config \<Rightarrow> string \<Rightarrow> int \<Rightarrow> nat \<Rightarrow> awaiting \<Rightarrow> world \<Rightarrow> bool" where
  "awaits_code c code expires n p w \<longleftrightarrow>
     (\<exists>s f. step_rows p s f w \<and> otp_in_flow c code expires n (contexts s f))"

lemma awaits_code_clock [simp]: "awaits_code c code e n p (w\<lparr>w_clock := t\<rparr>) = awaits_code c code e n p w"
  by (simp add: awaits_code_def step_rows_def step_of_def flow_of_def session_of_def)

text \<open>A code refused for good, because it expired or the attempts are spent, changes nothing.\<close>

lemma spent_code:
  assumes "verifies_codes sv p c" "awaits_code c code e n p w" "submits c input s" "unat (vo_max_attempts c) \<le> n"
  shows "begin_submission sv (aw_step_id p) (aw_user_id p) input w
    = (Inl (bad_request ''VERIFICATION_FAILED''
        (if e < seconds_of (w_clock w) then ''OTP_EXPIRED'' else ''MAX_ATTEMPTS_EXCEEDED'')), w)"
proof -
  obtain sctx ctx where rows: "step_rows p sctx ctx w" and otp: "otp_in_flow c code e n (contexts sctx ctx)"
    using assms(2) unfolding awaits_code_def by blast
  have "submit_code c (seconds_of (w_clock w)) (contexts sctx ctx) s
      = Failed (if e < seconds_of (w_clock w) then ''OTP_EXPIRED'' else ''MAX_ATTEMPTS_EXCEEDED'') False"
  proof (cases "e < seconds_of (w_clock w)")
    case True
    then show ?thesis using otp_in_flow_context[OF otp] by (simp add: submit_code_def verify_code_def Let_def)
  qed (use blocked_stays(1)[OF otp _ assms(4)] in simp)
  then show ?thesis
    using begin_code[OF assms(1) rows assms(3)] by (auto simp: verify_result_def)
qed

text \<open>
  A code that was neither refused for good: the request judges it by the code alone, and has only a patch
  of the flow context to write.
\<close>

lemma live_code:
  assumes "verifies_codes sv p c" "step_rows p sctx ctx w" "otp_in_flow c code e n (contexts sctx ctx)"
    and "submits c input s" "n < unat (vo_max_attempts c)" "seconds_of (w_clock w) \<le> e"
  shows "\<exists>j patch. begin_submission sv (aw_step_id p) (aw_user_id p) input w = (Inr j, w)
    \<and> get_flow (sv_registry sv) (aw_flow_type p) = Some (jd_definition j)
    \<and> jd_step_id j = aw_step_id p \<and> jd_input j = input \<and> fl_id (jd_flow j) = aw_flow_id p \<and> fl_context (jd_flow j) = ctx
    \<and> jd_updates j = Some (no_updates\<lparr>cu_flow_context_patch := Some patch\<rparr>)
    \<and> jd_branch j = Some (if s = code then ''verified'' else ''retry'')
    \<and> (s \<noteq> code \<longrightarrow> patch = JObject [(vo_attempts_field c, jnat (Suc n))])"
proof -
  obtain fd session flow where bg: "get_flow (sv_registry sv) (aw_flow_type p) = Some fd"
    "flow_of (aw_flow_id p) w = Some flow" "fl_context flow = ctx"
    "begin_submission sv (aw_step_id p) (aw_user_id p) input w =
      (bindR (verify_result (submit_code c (seconds_of (w_clock w)) (contexts sctx ctx) s))
         (\<lambda>(output, updates, branch). Inr \<lparr>jd_definition = fd, jd_session = session, jd_flow = flow, jd_step_id = aw_step_id p,
            jd_input = input, jd_output = output, jd_updates = updates, jd_branch = branch\<rparr>), w)"
    using begin_code[OF assms(1,2,4)] by blast
  have id: "fl_id flow = aw_flow_id p" using flw.get_key[OF bg(2)] .
  show ?thesis
  proof (cases "s = code")
    case True
    have "current_attempts (contexts sctx ctx) (vo_attempts_field c) < vo_max_attempts c"
      using assms(3,5) by (simp add: otp_in_flow_def word_less_nat_alt)
    then have "\<exists>out. submit_code c (seconds_of (w_clock w)) (contexts sctx ctx) s = Branched ''verified'' out
        (Some (no_updates\<lparr>cu_flow_context_patch := Some (consumed_patch (vo_attempts_field c))\<rparr>))"
      using True assms(6) otp_in_flow_context[OF assms(3)] by (auto simp: submit_code_verified)
    then show ?thesis using bg id True by (auto simp: verify_result_def)
  next
    case False
    then show ?thesis
      using bg id wrong_code_outcome[OF assms(3,6,5) False] by (auto simp: verify_result_def)
  qed
qed

text \<open>What the branch of a wrong code leads to: a step that waits for a person, or the end of the flow.\<close>

lemma retry_transition:
  assumes "verifies_codes sv p c" "get_flow (sv_registry sv) (aw_flow_type p) = Some fd"
    and "fl_flow_type flow = aw_flow_type p" "step_rows p s f w"
  shows "\<exists>x w'. (case resolve_transition fd (aw_step_type p) (Some ''retry'') False of
        Some next_step \<Rightarrow>
          if has_flow_step fd next_step then create_step_chain sv session flow next_step None
          else returns (finalize_flow sv flow (terminal_status next_step))
      | None \<Rightarrow> returns (finalize_flow sv flow ''COMPLETED'')) w = Some (x, w') \<and> step_rows p s f w'"
proof -
  have person: "ps_actor sd \<noteq> System"
    if "sd \<in> set (df_steps fd)" "resolve_transition fd (aw_step_type p) (Some ''retry'') False = Some (ps_step_type sd)" for sd
    using assms(1,2) that unfolding verifies_codes_def by auto
  have ends: "\<exists>x w'. returns (finalize_flow sv flow status) w = Some (x, w') \<and> step_rows p s f w'" for status
    using flow_endings_keep_rows(2) assms(4) by (auto simp: returns_def preserves_def) (metis prod.collapse)
  show ?thesis
  proof (cases "resolve_transition fd (aw_step_type p) (Some ''retry'') False")
    case (Some t)
    have "\<exists>x w'. create_step_chain sv session flow t None w = Some (x, w') \<and> step_rows p s f w'"
      using assms(2,3) person Some by (intro chain_to_person[OF _ _ assms(4), of sv flow fd]) auto
    with ends Some show ?thesis by simp
  qed (use ends in simp)
qed

text \<open>A wrong code through \<open>submit_step\<close>, with the transition that follows it, spends one attempt.\<close>

lemma submit_wrong_code:
  assumes "verifies_codes sv p c" "awaits_code c code e n p w" "plain_fields c"
    and "submits c input s" "s \<noteq> code" "n < unat (vo_max_attempts c)" "seconds_of (w_clock w) \<le> e"
  shows "\<exists>x w'. submit_step sv (aw_step_id p) (aw_user_id p) input w = Some (x, w') \<and> awaits_code c code e (Suc n) p w'"
proof -
  obtain sctx ctx where rows: "step_rows p sctx ctx w" and otp: "otp_in_flow c code e n (contexts sctx ctx)"
    using assms(2) unfolding awaits_code_def by blast
  let ?patch = "JObject [(vo_attempts_field c, jnat (Suc n))]"
  let ?ctx = "store_step_output (merged_json ctx ?patch) (aw_step_type p) input"
  obtain j where j: "begin_submission sv (aw_step_id p) (aw_user_id p) input w = (Inr j, w)"
    "get_flow (sv_registry sv) (aw_flow_type p) = Some (jd_definition j)" "jd_step_id j = aw_step_id p"
    "fl_id (jd_flow j) = aw_flow_id p" "fl_context (jd_flow j) = ctx" "jd_branch j = Some ''retry''"
    "jd_updates j = Some (no_updates\<lparr>cu_flow_context_patch := Some ?patch\<rparr>)" "jd_input j = input"
    using live_code[OF assms(1) rows otp assms(4,6,7)] assms(5) by auto
  obtain step flow w' where f: "finish_submission sv j w = (Inr (jd_definition j, jd_session j, step, flow, jd_branch j), w')"
    "st_step_type step = aw_step_type p" "fl_flow_type flow = aw_flow_type p" "step_rows p sctx ?ctx w'"
    using finish_code[OF rows j(3,4,5,7), of sv] unfolding j(8) by blast
  obtain x w'' where x: "(case resolve_transition (jd_definition j) (aw_step_type p) (Some ''retry'') False of
        Some next_step \<Rightarrow>
          if has_flow_step (jd_definition j) next_step then create_step_chain sv (jd_session j) flow next_step None
          else returns (finalize_flow sv flow (terminal_status next_step))
      | None \<Rightarrow> returns (finalize_flow sv flow ''COMPLETED'')) w' = Some (x, w'')" "step_rows p sctx ?ctx w''"
    using retry_transition[OF assms(1) j(2) f(3,4)] by blast
  have accepted: "accept_submission sv (aw_step_id p) (aw_user_id p) input w
      = (Inr (jd_definition j, jd_session j, step, flow, Some ''retry''), w')"
    using j(1,6) f(1) by (simp add: accept_submission_phases bindE_def)
  have "\<exists>y v. submit_step sv (aw_step_id p) (aw_user_id p) input w = Some (y, v) \<and> step_rows p sctx ?ctx v"
  proof (cases x)
    case (Inl err)
    then show ?thesis
      using accepted f(2) x by (simp add: submit_step_def bindO_def returns_def)
  next
    case (Inr g)
    obtain y v where r: "refresh_session_status (fl_session_id g) w'' = (y, v)" by fastforce
    then have "step_rows p sctx ?ctx v" using preservesD[OF flow_endings_keep_rows(1) _ x(2)] by simp
    then show ?thesis
      using Inr accepted f(2) x(1) r by (cases y) (simp_all add: submit_step_def bindO_def returns_def)
  qed
  then show ?thesis
    using otp_in_flow_counts[OF otp assms(6,3)] unfolding awaits_code_def by blast
qed

text \<open>Submissions one after another, each at its own time.\<close>

fun submit_all :: "server \<Rightarrow> string \<Rightarrow> string \<Rightarrow> (instant \<times> json) list \<Rightarrow> world \<Rightarrow> world option" where
  "submit_all sv step_id uid [] w = Some w"
| "submit_all sv step_id uid ((t, input) # rest) w =
     (case submit_step sv step_id uid input (w\<lparr>w_clock := t\<rparr>) of
        None \<Rightarrow> None | Some (_, w') \<Rightarrow> submit_all sv step_id uid rest w')"

definition wrong_guess :: "verify_otp_config \<Rightarrow> string \<Rightarrow> json \<Rightarrow> bool" where
  "wrong_guess c code input \<longleftrightarrow> (\<exists>s. submits c input s \<and> s \<noteq> code)"

lemma submit_wrong_codes:
  assumes "verifies_codes sv p c" "plain_fields c"
    and "awaits_code c code e n p w" "n + length guesses \<le> unat (vo_max_attempts c)"
    and "list_all (\<lambda>(t, g). seconds_of t \<le> e \<and> wrong_guess c code g) guesses"
  shows "\<exists>w'. submit_all sv (aw_step_id p) (aw_user_id p) guesses w = Some w' \<and> awaits_code c code e (n + length guesses) p w'"
  using assms(3-5)
proof (induction guesses arbitrary: n w)
  case (Cons g guesses)
  obtain t input where g: "g = (t, input)" by fastforce
  with Cons.prems obtain s where s: "submits c input s" "s \<noteq> code" "seconds_of t \<le> e" by (auto simp: wrong_guess_def)
  obtain x w' where w': "submit_step sv (aw_step_id p) (aw_user_id p) input (w\<lparr>w_clock := t\<rparr>) = Some (x, w')"
    "awaits_code c code e (Suc n) p w'"
    using submit_wrong_code[OF assms(1) _ assms(2) s(1,2), of e n "w\<lparr>w_clock := t\<rparr>"] Cons.prems(1,2) s(3) by auto
  then show ?case using Cons.IH[OF w'(2)] Cons.prems(2,3) g by simp
qed simp

section \<open>Guesses that overlap\<close>

definition pending_write :: "awaiting \<Rightarrow> json \<Rightarrow> json \<Rightarrow> judged \<Rightarrow> bool" where
  "pending_write p ctx patch j \<longleftrightarrow> jd_step_id j = aw_step_id p \<and> fl_id (jd_flow j) = aw_flow_id p
     \<and> fl_context (jd_flow j) = ctx \<and> jd_updates j = Some (no_updates\<lparr>cu_flow_context_patch := Some patch\<rparr>)"

definition branch_taken :: "accepted \<Rightarrow> string option" where
  "branch_taken r = snd (snd (snd (snd r)))"

lemma run_at:
  "submissions_step sv (xs @ x # ys, w) ((xs @ x # ys)[length xs := y], w') \<Longrightarrow> submissions_run sv (xs @ y # ys, w') z \<Longrightarrow>
   submissions_run sv (xs @ x # ys, w) z"
  by (auto intro: converse_rtranclp_into_rtranclp)

lemma begin_all:
  assumes "list_all2 (\<lambda>g j. begin_submission sv step_id uid g w = (Inr j, w)) gs js"
  shows "submissions_run sv (ps @ map (Arrived step_id uid) gs, w) (ps @ map Judged js, w)"
  using assms
proof (induction gs js arbitrary: ps rule: list_all2_induct)
  case (Cons g gs j js)
  have "submissions_step sv (ps @ Arrived step_id uid g # map (Arrived step_id uid) gs, w)
      ((ps @ Arrived step_id uid g # map (Arrived step_id uid) gs)[length ps := judged_or_refused (Inr j)], w)"
    using Cons.hyps(1) by (intro begin_request[where uid = uid]) auto
  then show ?case using Cons.IH[of "ps @ [Judged j]"] by (auto intro: run_at)
qed simp

text \<open>The writes of judged requests, one after another: each starts from the context it read.\<close>

lemma finish_all:
  assumes "step_rows p s f w" "\<And>j. j \<in> set js \<Longrightarrow> \<exists>patch. pending_write p ctx patch j
      \<and> K (store_step_output (merged_json ctx patch) (aw_step_type p) (jd_input j))"
  shows "\<exists>rs w'. submissions_run sv (ps @ map Judged js, w) (ps @ map (\<lambda>r. Answered (Inr r)) rs, w')
    \<and> map branch_taken rs = map jd_branch js \<and> (\<exists>f'. step_rows p s f' w' \<and> (js = [] \<and> f' = f \<or> K f'))"
  using assms
proof (induction js arbitrary: ps w f)
  case Nil
  then show ?case by auto
next
  case (Cons j js)
  obtain patch where j: "pending_write p ctx patch j" "K (store_step_output (merged_json ctx patch) (aw_step_type p) (jd_input j))"
    using Cons.prems(2)[of j] by auto
  let ?f = "store_step_output (merged_json ctx patch) (aw_step_type p) (jd_input j)"
  obtain r w1 where r: "finish_submission sv j w = (Inr r, w1)" "branch_taken r = jd_branch j" "step_rows p s ?f w1"
    using finish_code[OF Cons.prems(1), of j ctx patch sv] j(1) by (auto simp: pending_write_def branch_taken_def)
  have step: "submissions_step sv (ps @ Judged j # map Judged js, w)
      ((ps @ Judged j # map Judged js)[length ps := Answered (Inr r)], w1)"
    using r(1) by (intro finish_request) auto
  obtain rs w' f' where "submissions_run sv ((ps @ [Answered (Inr r)]) @ map Judged js, w1)
      ((ps @ [Answered (Inr r)]) @ map (\<lambda>r. Answered (Inr r)) rs, w')"
    "map branch_taken rs = map jd_branch js" "step_rows p s f' w'" "js = [] \<and> f' = ?f \<or> K f'"
    using Cons.IH[OF r(3), of "ps @ [Answered (Inr r)]"] Cons.prems(2) by (metis list.set_intros(2))
  then show ?case
    using run_at[OF step] r(2) j(2) by (intro exI[of _ "r # rs"] exI[of _ w']) auto
qed

text \<open>Requests in flight, in any interleaving, keep the constraints of the schema.\<close>

lemma submissions_keep_tables:
  assumes "submissions_run sv s s'" "tables_ok (snd s)"
  shows "tables_ok (snd s')"
  using assms
proof (induction rule: rtranclp_induct)
  case (step s1 s2)
  have phases: "preserves tables_ok (begin_submission sv step_id uid input)" "preserves tables_ok (finish_submission sv j)"
    for step_id uid input j
    unfolding begin_submission_def finish_submission_def by (intro inv_rules)+
  have "tables_ok (w\<lparr>w_clock := t\<rparr>) = tables_ok w" for w t by (simp add: tables_ok_def)
  with step.hyps(2) step.IH[OF step.prems] show ?case
    by (cases rule: submissions_step.cases) (auto dest: preservesD[OF phases(1)] preservesD[OF phases(2)])
qed

section \<open>Properties\<close>

text \<open>
  C26: guessing a code is bounded when requests follow each other. After as many wrong codes as the
  configuration allows, each submitted before the code expires, every further submission of the step is refused,
  the right code included, whenever it comes, and changes nothing.
\<close>

theorem submitted_guesses_bounded:
  assumes "verifies_codes sv p c" "plain_fields c" "awaits_code c code e 0 p w"
    and "length guesses = unat (vo_max_attempts c)"
    and "list_all (\<lambda>(t, g). seconds_of t \<le> e \<and> wrong_guess c code g) guesses"
  shows "\<exists>w'. submit_all sv (aw_step_id p) (aw_user_id p) guesses w = Some w'
    \<and> (\<forall>t input s. submits c input s \<longrightarrow>
         submit_step sv (aw_step_id p) (aw_user_id p) input (w'\<lparr>w_clock := t\<rparr>)
           = Some (Inl (bad_request ''VERIFICATION_FAILED''
               (if e < seconds_of t then ''OTP_EXPIRED'' else ''MAX_ATTEMPTS_EXCEEDED'')), w'\<lparr>w_clock := t\<rparr>))"
proof -
  obtain w' where w': "submit_all sv (aw_step_id p) (aw_user_id p) guesses w = Some w'"
    "awaits_code c code e (unat (vo_max_attempts c)) p w'"
    using submit_wrong_codes[OF assms(1-3) _ assms(5)] assms(4) by auto
  then have "submit_step sv (aw_step_id p) (aw_user_id p) input (w'\<lparr>w_clock := t\<rparr>)
      = Some (Inl (bad_request ''VERIFICATION_FAILED''
          (if e < seconds_of t then ''OTP_EXPIRED'' else ''MAX_ATTEMPTS_EXCEEDED'')), w'\<lparr>w_clock := t\<rparr>)"
    if "submits c input s" for t input s
    using spent_code[OF assms(1) _ that order_refl, of code e "w'\<lparr>w_clock := t\<rparr>"]
    by (simp add: submit_step_def accept_submission_phases bindO_def returns_def bindE_def)
  with w' show ?thesis by blast
qed

text \<open>
  C27: guessing a code is not bounded when requests overlap. While one attempt is left, any number of
  guesses can be in flight so that none is refused: each wrong one is answered with the branch to retry and a right
  one is verified. When all are wrong, they have cost a single attempt together, since every request writes the
  counter it read plus one.
\<close>

theorem overlapping_guesses_cost_one:
  assumes "verifies_codes sv p c" "plain_fields c" "awaits_code c code e n p w"
    and "n < unat (vo_max_attempts c)" "seconds_of (w_clock w) \<le> e" "list_all2 (submits c) inputs codes"
  shows "\<exists>rs w'. submissions_run sv (map (Arrived (aw_step_id p) (aw_user_id p)) inputs, w) (map (\<lambda>r. Answered (Inr r)) rs, w')
    \<and> map branch_taken rs = map (\<lambda>s. Some (if s = code then ''verified'' else ''retry'')) codes
    \<and> (inputs \<noteq> [] \<and> code \<notin> set codes \<longrightarrow> awaits_code c code e (Suc n) p w')"
proof -
  obtain sctx ctx where rows: "step_rows p sctx ctx w" and otp: "otp_in_flow c code e n (contexts sctx ctx)"
    using assms(3) unfolding awaits_code_def by blast
  let ?K = "\<lambda>f. code \<notin> set codes \<longrightarrow> otp_in_flow c code e (Suc n) (contexts sctx f)"
  let ?live = "\<lambda>g s j. begin_submission sv (aw_step_id p) (aw_user_id p) g w = (Inr j, w)
    \<and> (\<exists>patch. pending_write p ctx patch j \<and> (s \<noteq> code \<longrightarrow> patch = JObject [(vo_attempts_field c, jnat (Suc n))]))
    \<and> jd_branch j = Some (if s = code then ''verified'' else ''retry'')"
  have "\<exists>j. ?live g s j" if "submits c g s" for g s
    using live_code[OF assms(1) rows otp that assms(4,5)] by (fastforce simp: pending_write_def)
  then have "\<exists>js. length js = length inputs \<and> (\<forall>i < length inputs. ?live (inputs ! i) (codes ! i) (js ! i))"
    using assms(6) by (intro Skolem_list_nth[THEN iffD1]) (auto simp: list_all2_conv_all_nth)
  then obtain js where js: "length js = length inputs" "\<And>i. i < length inputs \<Longrightarrow> ?live (inputs ! i) (codes ! i) (js ! i)"
    by blast
  have len: "length codes = length inputs" using assms(6) by (simp add: list_all2_lengthD)
  have begun: "submissions_run sv (map (Arrived (aw_step_id p) (aw_user_id p)) inputs, w) (map Judged js, w)"
    using begin_all[of sv "aw_step_id p" "aw_user_id p" w inputs js "[]"] js by (simp add: list_all2_conv_all_nth)
  have "\<exists>patch. pending_write p ctx patch j \<and> ?K (store_step_output (merged_json ctx patch) (aw_step_type p) (jd_input j))"
    if "j \<in> set js" for j
    using that js len otp_in_flow_counts[OF otp assms(4,2)] by (metis in_set_conv_nth)
  from finish_all[of p sctx ctx w js ctx ?K sv "[]", OF rows this]
  obtain rs w' f' where "submissions_run sv (map Judged js, w) (map (\<lambda>r. Answered (Inr r)) rs, w')"
    "map branch_taken rs = map jd_branch js" "step_rows p sctx f' w'" "js = [] \<and> f' = ctx \<or> ?K f'" by auto
  moreover have "map jd_branch js = map (\<lambda>s. Some (if s = code then ''verified'' else ''retry'')) codes"
    using js len by (auto intro: nth_equalityI)
  ultimately show ?thesis
    using begun js(1) unfolding awaits_code_def by (metis (lifting) rtranclp_trans length_0_conv)
qed

section \<open>Witnesses\<close>

definition guess_flow :: "builtin dynamic_flow" where
  "guess_flow = \<lparr>df_flow_type = ''PHONE'', df_human_id = ''phone'', df_feature = None,
     df_steps = [example_proxy ''verify'' EndUser VerifyOtpAction], df_initial_step = ''verify'',
     df_transitions = [(''verify'', \<lparr>tr_on_success = ''COMPLETED'', tr_on_failure = None,
       tr_branches = [(''retry'', ''verify''), (''verified'', ''COMPLETED'')]\<rparr>)]\<rparr>"

definition guess_server :: server where
  "guess_server = example_server\<lparr>sv_registry := \<lparr>fr_steps = [], fr_flows = [(''PHONE'', guess_flow)],
     fr_flow_definitions = [], fr_sessions = []\<rparr>\<rparr>"

definition guess_world :: world where
  "guess_world = (empty_world 0)\<lparr>w_sessions := [victim_session\<lparr>se_context := JObject []\<rparr>],
     w_flows := [victim_flow\<lparr>fl_flow_type := ''PHONE'', fl_context := example_otp\<rparr>],
     w_steps := [victim_step\<lparr>st_step_type := ''verify''\<rparr>]\<rparr>"

definition guess_step :: awaiting where
  "guess_step = \<lparr>aw_step_id = ''t1'', aw_flow_id = ''f1'', aw_flow_type = ''PHONE'', aw_step_type = ''verify'',
     aw_session_id = ''s1'', aw_user_id = ''usr_1''\<rparr>"

definition code_input :: "string \<Rightarrow> json" where
  "code_input s = JObject [(''code'', JString s)]"

lemma guess_verifies: "verifies_codes guess_server guess_step default_verify_otp"
  by (simp add: verifies_codes_def guess_server_def guess_step_def guess_flow_def get_flow_def example_proxy_def
      resolve_transition_def parse_step_config_def context_with_config_def contexts_def runtime_services_def)

lemma guess_awaits: "awaits_code default_verify_otp ''123456'' 1000 0 guess_step guess_world"
proof -
  have "otp_in_flow default_verify_otp ''123456'' 1000 0 (contexts (JObject []) example_otp)"
    using example_in_flow by (subst otp_in_flow_contexts[symmetric]) (simp_all add: example_context_def)
  moreover have "step_rows guess_step (JObject []) example_otp guess_world"
    by (simp add: step_rows_def guess_step_def guess_world_def step_of_def flow_of_def session_of_def example_rows)
  ultimately show ?thesis unfolding awaits_code_def by blast
qed

lemma guess_plain: "plain_fields default_verify_otp"
  by (simp add: plain_fields_def default_verify_otp_def)

lemma guess_submits: "submits default_verify_otp (code_input s) s"
  by (simp add: submits_def code_input_def default_verify_otp_def)

theorem submitted_guesses_bounded_witness:
  "\<exists>w'. submit_all guess_server ''t1'' ''usr_1'' [(1, code_input ''000000''), (2, code_input ''000001''), (3, code_input ''000002'')]
      guess_world = Some w'
    \<and> submit_step guess_server ''t1'' ''usr_1'' (code_input ''123456'') (w'\<lparr>w_clock := 4\<rparr>)
      = Some (Inl (bad_request ''VERIFICATION_FAILED'' ''MAX_ATTEMPTS_EXCEEDED''), w'\<lparr>w_clock := 4\<rparr>)"
proof -
  let ?guesses = "[(1, code_input ''000000''), (2, code_input ''000001''), (3, code_input ''000002'')]"
  have wrong: "list_all (\<lambda>(t, g). seconds_of t \<le> 1000 \<and> wrong_guess default_verify_otp ''123456'' g) ?guesses"
    using guess_submits by (auto simp: wrong_guess_def seconds_of_def)
  have len: "length ?guesses = unat (vo_max_attempts default_verify_otp)" by (simp add: default_verify_otp_def)
  have ids: "aw_step_id guess_step = ''t1''" "aw_user_id guess_step = ''usr_1''" by (simp_all add: guess_step_def)
  obtain w' where w': "submit_all guess_server ''t1'' ''usr_1'' ?guesses guess_world = Some w'"
    "\<And>t input s. submits default_verify_otp input s \<Longrightarrow>
       submit_step guess_server ''t1'' ''usr_1'' input (w'\<lparr>w_clock := t\<rparr>)
         = Some (Inl (bad_request ''VERIFICATION_FAILED''
             (if 1000 < seconds_of t then ''OTP_EXPIRED'' else ''MAX_ATTEMPTS_EXCEEDED'')), w'\<lparr>w_clock := t\<rparr>)"
    using submitted_guesses_bounded[OF guess_verifies guess_plain guess_awaits len wrong] unfolding ids by blast
  have "submit_step guess_server ''t1'' ''usr_1'' (code_input ''123456'') (w'\<lparr>w_clock := 4\<rparr>)
      = Some (Inl (bad_request ''VERIFICATION_FAILED'' ''MAX_ATTEMPTS_EXCEEDED''), w'\<lparr>w_clock := 4\<rparr>)"
    using w'(2)[OF guess_submits, of "''123456''" 4] by (simp add: seconds_of_def)
  with w'(1) show ?thesis by blast
qed

theorem overlapping_guesses_cost_one_witness:
  "\<exists>rs w'. submissions_run guess_server
      (map (Arrived ''t1'' ''usr_1'') (map code_input [''000000'', ''000001'', ''000002'', ''000003'', ''123456'']), guess_world)
      (map (\<lambda>r. Answered (Inr r)) rs, w')
    \<and> map branch_taken rs = [Some ''retry'', Some ''retry'', Some ''retry'', Some ''retry'', Some ''verified'']"
proof -
  have "list_all2 (submits default_verify_otp) (map code_input ss) ss" for ss
    using guess_submits by (simp add: list_all2_conv_all_nth)
  from overlapping_guesses_cost_one[OF guess_verifies guess_plain guess_awaits _ _
      this[of "[''000000'', ''000001'', ''000002'', ''000003'', ''123456'']"]]
  show ?thesis
    by (simp add: default_verify_otp_def guess_world_def empty_world_def seconds_of_def guess_step_def)
qed

end
