(* ===== verification/Worker_Lock.thy ===== *)
theory Worker_Lock
  imports Redis
begin

text \<open>
  The lock that keeps one worker running (\<open>backend-server/src/worker.rs\<close>): its acquisition with
  retries, its renewal and its release over Redis, and the system of several processes that use
  it. A call of a script may fail before or after the script has taken effect: the argument
  \<open>fault\<close> says which and with what message (\<open>None\<close> when the call succeeds). One clock serves the processes and
  Redis, and an acquisition reads it for the owner and sends its command as one step: a process that is held up between the two, or whose clock
  differs from that of another one, is not represented.
\<close>

section \<open>Acquisition\<close>

definition worker_consumer_lock_key :: string where
  "worker_consumer_lock_key = ''backend:worker:consumer-lock''"

definition normalized_ttl :: "i64 \<Rightarrow> i64" where
  "normalized_ttl ttl = (if sint ttl < 1 then 1 else ttl)"

definition saturating_sub :: "u64 \<Rightarrow> u64 \<Rightarrow> u64" where
  "saturating_sub a b = (if a < b then 0 else a - b)"

definition normalized_renew :: "i64 \<Rightarrow> u64 \<Rightarrow> u64" where
  "normalized_renew ttl renew =
     (if renew = 0 then 1 else min renew (max (saturating_sub (normalized_ttl ttl) 1) 1))"

definition lock_owner :: "nat \<Rightarrow> instant \<Rightarrow> string" where
  "lock_owner pid now = ''pid:'' @ show_nat pid @ '':ts:'' @ show_int (now div 1000)"

text \<open>
  \<open>replies\<close> are the texts of the two queries that describe the present lock, when they succeed.
  The result is the owner under which the lock is held.
\<close>

definition lock_held_error :: "string option \<times> string option \<Rightarrow> app_error" where
  "lock_held_error replies =
     Server (''worker consumer lock already held by another instance (key: '' @ worker_consumer_lock_key
       @ '', owner: '' @ (case fst replies of None \<Rightarrow> ''unknown'' | Some v \<Rightarrow> v)
       @ '', ttl_seconds: '' @ (case snd replies of None \<Rightarrow> ''unknown'' | Some v \<Rightarrow> v) @ '')'')"

definition connected :: "'r redis \<Rightarrow> ('r \<Rightarrow> (app_error + 'a) \<times> 'r) \<Rightarrow> 'r \<Rightarrow> (app_error + 'a) \<times> 'r" where
  "connected R k r =
     (case rd_client R of
        Inl e \<Rightarrow> (Inl (Server e), r)
      | Inr _ \<Rightarrow> (case rd_connect R r of Inl e \<Rightarrow> (Inl (Server e), r) | Inr _ \<Rightarrow> k r))"

definition acquire_worker_consumer_lock ::
    "'r redis \<Rightarrow> ('r \<Rightarrow> string option \<times> string option) \<Rightarrow> nat \<Rightarrow> i64 \<Rightarrow> instant \<Rightarrow> 'r \<Rightarrow> (app_error + string) \<times> 'r" where
  "acquire_worker_consumer_lock R replies pid ttl now =
     connected R (\<lambda>r.
       let owner = lock_owner pid now in
       case rd_set_nx_ex R worker_consumer_lock_key owner (sint (normalized_ttl ttl)) now r of
         (Inl e, r') \<Rightarrow> (Inl (Server e), r')
       | (Inr acquired, r') \<Rightarrow> (if acquired then Inr owner else Inl (lock_held_error (replies r')), r'))"

text \<open>
  Ten attempts. \<open>clock n\<close> is the time of attempt \<open>n\<close>, and \<open>env n\<close> what other processes do to Redis
  while the process sleeps before the next one; the result has the seconds slept.
\<close>

definition max_retries :: nat where
  "max_retries = 10"

definition backoff_secs :: "nat \<Rightarrow> nat" where
  "backoff_secs attempt = min (2 ^ (attempt + 1)) 30"

function acquire_from ::
    "'r redis \<Rightarrow> ('r \<Rightarrow> string option \<times> string option) \<Rightarrow> nat \<Rightarrow> i64 \<Rightarrow> (nat \<Rightarrow> instant) \<Rightarrow> (nat \<Rightarrow> 'r \<Rightarrow> 'r)
      \<Rightarrow> nat \<Rightarrow> 'r \<Rightarrow> (app_error + string) \<times> 'r \<times> nat list" where
  "acquire_from R replies pid ttl clock env attempt r =
     (case acquire_worker_consumer_lock R replies pid ttl (clock attempt) r of
        (Inr owner, r') \<Rightarrow> (Inr owner, r', [])
      | (Inl e, r') \<Rightarrow>
          if attempt < max_retries - 1
          then (case acquire_from R replies pid ttl clock env (attempt + 1) (env attempt r') of
                  (x, r'', sleeps) \<Rightarrow> (x, r'', backoff_secs attempt # sleeps))
          else (Inl e, r', []))"
  by pat_completeness auto
termination
  by (relation "measure (\<lambda>(R, replies, pid, ttl, clock, env, attempt, r). max_retries - attempt)") auto

declare acquire_from.simps [simp del]

definition acquire_worker_consumer_lock_with_retry ::
    "'r redis \<Rightarrow> ('r \<Rightarrow> string option \<times> string option) \<Rightarrow> nat \<Rightarrow> i64 \<Rightarrow> (nat \<Rightarrow> instant) \<Rightarrow> (nat \<Rightarrow> 'r \<Rightarrow> 'r)
      \<Rightarrow> 'r \<Rightarrow> (app_error + string) \<times> 'r \<times> nat list" where
  "acquire_worker_consumer_lock_with_retry R replies pid ttl clock env = acquire_from R replies pid ttl clock env 0"

section \<open>Renewal and release\<close>

definition renew_script :: "'r redis \<Rightarrow> string \<Rightarrow> i64 \<Rightarrow> instant \<Rightarrow> 'r \<Rightarrow> bool \<times> 'r" where
  "renew_script R owner ttl now r =
     (if rd_get R worker_consumer_lock_key now r = Some owner
      then rd_expire R worker_consumer_lock_key (sint (normalized_ttl ttl)) now r
      else (False, r))"

definition release_script :: "'r redis \<Rightarrow> string \<Rightarrow> instant \<Rightarrow> 'r \<Rightarrow> bool \<times> 'r" where
  "release_script R owner now r =
     (if rd_get R worker_consumer_lock_key now r = Some owner
      then rd_del R worker_consumer_lock_key now r
      else (False, r))"

type_synonym fault = "(bool \<times> string) option"

definition invoke :: "fault \<Rightarrow> ('r \<Rightarrow> bool \<times> 'r) \<Rightarrow> 'r \<Rightarrow> (string + bool) \<times> 'r" where
  "invoke fault script r =
     (case fault of
        None \<Rightarrow> (case script r of (b, r') \<Rightarrow> (Inr b, r'))
      | Some (taken, msg) \<Rightarrow> (Inl msg, if taken then snd (script r) else r))"

text \<open>One tick of the renewal task: whether it goes on.\<close>

definition renew_tick :: "'r redis \<Rightarrow> fault \<Rightarrow> string \<Rightarrow> i64 \<Rightarrow> instant \<Rightarrow> 'r \<Rightarrow> bool \<times> 'r" where
  "renew_tick R fault owner ttl now r =
     (case invoke fault (renew_script R owner ttl now) r of (renewed, r') \<Rightarrow> (renewed = Inr True, r'))"

definition release :: "'r redis \<Rightarrow> fault \<Rightarrow> string \<Rightarrow> instant \<Rightarrow> 'r \<Rightarrow> (app_error + unit) \<times> 'r" where
  "release R fault owner now =
     connected R (\<lambda>r.
       case invoke fault (release_script R owner now) r of
         (Inl e, r') \<Rightarrow> (Inl (Server e), r')
       | (Inr _, r') \<Rightarrow> (Inr (), r'))"

section \<open>The system of workers\<close>

text \<open>
  Processes are numbered; \<open>pid\<close> gives their process ids, which coincide in different containers.
  A running worker has the owner of its lock and a renewal task that goes on or has ended.
\<close>

record 'r lock_system =
  ls_redis :: 'r
  ls_now :: instant
  ls_running :: "nat \<Rightarrow> (string \<times> bool) option"

inductive lock_step ::
    "'r redis \<Rightarrow> ('r \<Rightarrow> string option \<times> string option) \<Rightarrow> (nat \<Rightarrow> nat) \<Rightarrow> i64 \<Rightarrow> 'r lock_system \<Rightarrow> 'r lock_system \<Rightarrow> bool"
  for R replies pid ttl where
  pass: "0 < d \<Longrightarrow> lock_step R replies pid ttl s (s\<lparr>ls_now := ls_now s + d\<rparr>)"
| acquire: "ls_running s i = None \<Longrightarrow>
    acquire_worker_consumer_lock R replies (pid i) ttl (ls_now s) (ls_redis s) = (Inr owner, r') \<Longrightarrow>
    lock_step R replies pid ttl s (s\<lparr>ls_redis := r', ls_running := (ls_running s)(i \<mapsto> (owner, True))\<rparr>)"
| refused: "ls_running s i = None \<Longrightarrow>
    acquire_worker_consumer_lock R replies (pid i) ttl (ls_now s) (ls_redis s) = (Inl e, r') \<Longrightarrow>
    lock_step R replies pid ttl s (s\<lparr>ls_redis := r'\<rparr>)"
| renew: "ls_running s i = Some (owner, True) \<Longrightarrow>
    renew_tick R fault owner ttl (ls_now s) (ls_redis s) = (goes_on, r') \<Longrightarrow>
    lock_step R replies pid ttl s (s\<lparr>ls_redis := r', ls_running := (ls_running s)(i \<mapsto> (owner, goes_on))\<rparr>)"
| stop: "ls_running s i = Some (owner, b) \<Longrightarrow>
    release R fault owner (ls_now s) (ls_redis s) = (x, r') \<Longrightarrow>
    lock_step R replies pid ttl s (s\<lparr>ls_redis := r', ls_running := (ls_running s)(i := None)\<rparr>)"
| crash: "ls_running s i = Some h \<Longrightarrow>
    lock_step R replies pid ttl s (s\<lparr>ls_running := (ls_running s)(i := None)\<rparr>)"

inductive lock_reach ::
    "'r redis \<Rightarrow> ('r \<Rightarrow> string option \<times> string option) \<Rightarrow> (nat \<Rightarrow> nat) \<Rightarrow> i64 \<Rightarrow> 'r lock_system \<Rightarrow> bool"
  for R replies pid ttl where
  start: "ls_running s = (\<lambda>_. None) \<Longrightarrow> lock_reach R replies pid ttl s"
| step: "lock_reach R replies pid ttl s \<Longrightarrow> lock_step R replies pid ttl s s' \<Longrightarrow> lock_reach R replies pid ttl s'"

inductive_cases lock_stepE: "lock_step R replies pid ttl s s'"

definition lock_holder :: "'r redis \<Rightarrow> 'r lock_system \<Rightarrow> nat \<Rightarrow> bool" where
  "lock_holder R s i \<longleftrightarrow>
     (\<exists>owner b. ls_running s i = Some (owner, b) \<and> rd_get R worker_consumer_lock_key (ls_now s) (ls_redis s) = Some owner)"

section \<open>Owners\<close>

abbreviation lock_entry :: "'r redis \<Rightarrow> 'r \<Rightarrow> (string \<times> instant) option" where
  "lock_entry R r \<equiv> rd_entry R r worker_consumer_lock_key"

lemma ttl_positive: "1 \<le> sint (normalized_ttl ttl)"
  by (simp add: normalized_ttl_def)

lemma colon_free: "CHR '':'' \<notin> set (show_nat n)"
  using show_nat_digits[of "CHR '':''" n] by (auto simp: is_ascii_digit_def)

lemma colon_split:
  "c \<notin> set s \<Longrightarrow> c \<notin> set t \<Longrightarrow> s @ c # u = t @ c # v \<longleftrightarrow> s = t \<and> u = v"
proof (induction s arbitrary: t)
  case Nil then show ?case by (cases t) auto
next
  case (Cons a s) then show ?case by (cases t) auto
qed

lemma lock_owner_inj: "lock_owner p t = lock_owner q u \<longleftrightarrow> p = q \<and> t div 1000 = u div 1000"
  using colon_split[OF colon_free colon_free, of p "''ts:'' @ show_int (t div 1000)" q "''ts:'' @ show_int (u div 1000)"]
  by (simp add: lock_owner_def)

section \<open>The scripts on the entry of the lock\<close>

text \<open>What an operation may do to the entry: nothing, take it when it is free, or change its own.\<close>

definition entry_change :: "'r redis \<Rightarrow> string \<Rightarrow> instant \<Rightarrow> 'r \<Rightarrow> 'r \<Rightarrow> bool" where
  "entry_change R owner now r r' \<longleftrightarrow> lock_entry R r' = lock_entry R r
     \<or> rd_get R worker_consumer_lock_key now r = Some owner
       \<and> (lock_entry R r' = None \<or> (\<exists>t. lock_entry R r' = Some (owner, t) \<and> now + 1000000 \<le> t))"

definition entry_renewed :: "'r redis \<Rightarrow> string \<Rightarrow> instant \<Rightarrow> 'r \<Rightarrow> 'r \<Rightarrow> bool" where
  "entry_renewed R owner now r r' \<longleftrightarrow> lock_entry R r' = lock_entry R r
     \<or> rd_get R worker_consumer_lock_key now r = Some owner
       \<and> (\<exists>t. lock_entry R r' = Some (owner, t) \<and> now + 1000000 \<le> t)"

lemma entry_renewed_change: "entry_renewed R owner now r r' \<Longrightarrow> entry_change R owner now r r'"
  by (auto simp: entry_renewed_def entry_change_def)

lemma expires_later: "now + 1000000 \<le> expires_at now (sint (normalized_ttl ttl))"
  using ttl_positive[of ttl] by (simp add: expires_at_def)

lemma acquire_cases:
  assumes "redis_laws R" "acquire_worker_consumer_lock R replies p ttl now r = (x, r')"
  obtains "x = Inr (lock_owner p now)" "rd_get R worker_consumer_lock_key now r = None"
      "lock_entry R r' = Some (lock_owner p now, expires_at now (sint (normalized_ttl ttl)))"
  | e where "x = Inl e" "lock_entry R r' = lock_entry R r"
  | e where "x = Inl e" "rd_get R worker_consumer_lock_key now r = None"
      "lock_entry R r' = Some (lock_owner p now, expires_at now (sint (normalized_ttl ttl)))"
proof -
  obtain y r1 where set: "rd_set_nx_ex R worker_consumer_lock_key (lock_owner p now) (sint (normalized_ttl ttl)) now r = (y, r1)"
    by fastforce
  from assms(1) set show thesis
    by (cases rule: set_nx_cases)
       (use assms(2) set that in \<open>auto simp: acquire_worker_consumer_lock_def connected_def Let_def split: sum.splits\<close>)
qed

lemma renew_change:
  assumes "redis_laws R" "renew_tick R fault owner ttl now r = (b, r')"
  shows "entry_renewed R owner now r r'"
proof -
  have "entry_renewed R owner now r (snd (renew_script R owner ttl now r))"
  proof (cases "rd_get R worker_consumer_lock_key now r = Some owner")
    case True
    obtain y r1 where e: "rd_expire R worker_consumer_lock_key (sint (normalized_ttl ttl)) now r = (y, r1)" by fastforce
    with assms(1) True have "rd_entry R r1 = (rd_entry R r)(worker_consumer_lock_key \<mapsto> (owner, expires_at now (sint (normalized_ttl ttl))))"
      by (fastforce simp: redis_laws_def expire_law_def)
    with e True show ?thesis using expires_later by (simp add: renew_script_def entry_renewed_def)
  qed (simp add: renew_script_def entry_renewed_def)
  then show ?thesis
    using assms(2) by (auto simp: renew_tick_def invoke_def entry_renewed_def split: option.splits prod.splits if_splits)
qed

lemma release_change:
  assumes "redis_laws R" "release R fault owner now r = (x, r')"
  shows "entry_change R owner now r r'"
proof -
  have "entry_change R owner now r (snd (release_script R owner now r))"
  proof (cases "rd_get R worker_consumer_lock_key now r = Some owner")
    case True
    obtain y r1 where d: "rd_del R worker_consumer_lock_key now r = (y, r1)" by fastforce
    with assms(1) have "rd_entry R r1 = (rd_entry R r)(worker_consumer_lock_key := None)"
      by (fastforce simp: redis_laws_def del_law_def)
    with d True show ?thesis by (simp add: release_script_def entry_change_def)
  qed (simp add: release_script_def entry_change_def)
  then show ?thesis
    using assms(2)
    by (auto simp: release_def connected_def invoke_def entry_change_def split: option.splits prod.splits if_splits sum.splits)
qed

section \<open>Distinct owners\<close>

text \<open>
  The workers that run have different owners, and for one second after its acquisition the entry
  of the lock is a worker's own.
\<close>

definition owner_ok :: "'r redis \<Rightarrow> (nat \<Rightarrow> nat) \<Rightarrow> 'r lock_system \<Rightarrow> nat \<Rightarrow> string \<Rightarrow> bool" where
  "owner_ok R pid s i owner \<longleftrightarrow> (\<exists>a. owner = lock_owner (pid i) a \<and> a \<le> ls_now s
     \<and> (ls_now s < a + 1000000 \<longrightarrow> (\<exists>t. lock_entry R (ls_redis s) = Some (owner, t) \<and> a + 1000000 \<le> t)))"

definition lock_inv :: "'r redis \<Rightarrow> (nat \<Rightarrow> nat) \<Rightarrow> 'r lock_system \<Rightarrow> bool" where
  "lock_inv R pid s \<longleftrightarrow>
     (\<forall>i owner b. ls_running s i = Some (owner, b) \<longrightarrow> owner_ok R pid s i owner)
     \<and> (\<forall>i j owner b c. ls_running s i = Some (owner, b) \<longrightarrow> ls_running s j = Some (owner, c) \<longrightarrow> i = j)"

lemma owner_ok_free:
  assumes "owner_ok R pid s i owner" "rd_get R worker_consumer_lock_key (ls_now s) (ls_redis s) = None"
  shows "\<exists>a. owner = lock_owner (pid i) a \<and> a + 1000000 \<le> ls_now s"
proof -
  from assms(1) obtain a where a: "owner = lock_owner (pid i) a"
    "ls_now s < a + 1000000 \<longrightarrow> (\<exists>t. lock_entry R (ls_redis s) = Some (owner, t) \<and> a + 1000000 \<le> t)"
    by (auto simp: owner_ok_def)
  moreover from this(2) assms(2) have "a + 1000000 \<le> ls_now s"
    by (auto simp: rd_get_def not_le split: option.splits if_splits)
  ultimately show ?thesis by blast
qed

lemma owner_ok_other:
  assumes "owner_ok R pid s i owner" "entry_change R other (ls_now s) (ls_redis s) r'" "other \<noteq> owner"
    "ls_now s' = ls_now s" "ls_redis s' = r'"
  shows "owner_ok R pid s' i owner"
  using assms by (fastforce simp: owner_ok_def entry_change_def rd_get_Some)

lemma owner_ok_renewed:
  assumes "owner_ok R pid s i owner" "entry_renewed R owner (ls_now s) (ls_redis s) r'"
    "ls_now s' = ls_now s" "ls_redis s' = r'"
  shows "owner_ok R pid s' i owner"
  using assms by (fastforce simp: owner_ok_def entry_renewed_def rd_get_Some)

lemma owner_ok_old:
  assumes "owner_ok R pid s i owner" "rd_get R worker_consumer_lock_key (ls_now s) (ls_redis s) = None"
    "ls_now s' = ls_now s"
  shows "owner_ok R pid s' i owner \<and> owner \<noteq> lock_owner p (ls_now s)"
proof -
  from owner_ok_free[OF assms(1,2)] obtain a where a: "owner = lock_owner (pid i) a" "a + 1000000 \<le> ls_now s" by blast
  have "a div 1000 < ls_now s div 1000" using zdiv_mono1[OF a(2), of 1000] by simp
  with a assms(3) show ?thesis by (fastforce simp: owner_ok_def lock_owner_inj)
qed

lemma lock_inv_sub:
  assumes "lock_inv R pid s" "\<And>j owner b. ls_running s' j = Some (owner, b) \<Longrightarrow> \<exists>c. ls_running s j = Some (owner, c)"
    "\<And>j owner b. ls_running s' j = Some (owner, b) \<Longrightarrow> owner_ok R pid s j owner \<Longrightarrow> owner_ok R pid s' j owner"
  shows "lock_inv R pid s'"
  using assms unfolding lock_inv_def by metis

lemma lock_inv_step:
  assumes "redis_laws R" "lock_step R replies pid ttl s s'" "lock_inv R pid s"
  shows "lock_inv R pid s'"
proof -
  have unique: "j = k" if "ls_running s j = Some (owner, b)" "ls_running s k = Some (owner, c)" for j k owner b c
    using assms(3) that unfolding lock_inv_def by blast
  from assms(2) show ?thesis
  proof (cases rule: lock_step.cases)
    case (pass d)
    show ?thesis by (rule lock_inv_sub[OF assms(3)]) (use pass in \<open>auto simp: owner_ok_def\<close>)
  next
    case (acquire i owner r')
    from acquire_cases[OF assms(1) acquire(3)]
    have free: "rd_get R worker_consumer_lock_key (ls_now s) (ls_redis s) = None" and owner: "owner = lock_owner (pid i) (ls_now s)"
      and entry: "lock_entry R r' = Some (owner, expires_at (ls_now s) (sint (normalized_ttl ttl)))" by auto
    have new: "owner_ok R pid s' i owner"
      using acquire(1) owner entry expires_later[of "ls_now s" ttl] by (auto simp: owner_ok_def)
    have old: "owner_ok R pid s' j other \<and> other \<noteq> owner" if "ls_running s j = Some (other, b)" for j other b
    proof -
      have "owner_ok R pid s j other" using assms(3) that unfolding lock_inv_def by blast
      with owner_ok_old[of R pid s j other s' "pid i"] free acquire(1) owner show ?thesis by simp
    qed
    have run: "ls_running s' = (ls_running s)(i \<mapsto> (owner, True))" using acquire(1) by simp
    show ?thesis unfolding lock_inv_def run
    proof (intro conjI allI impI)
      fix j other b assume "((ls_running s)(i \<mapsto> (owner, True))) j = Some (other, b)"
      then show "owner_ok R pid s' j other" using new old[of j other b] by (cases "j = i") simp_all
    next
      fix j k other b c
      assume "((ls_running s)(i \<mapsto> (owner, True))) j = Some (other, b)" "((ls_running s)(i \<mapsto> (owner, True))) k = Some (other, c)"
      then show "j = k" using old[of j other b] old[of k other c] unique[of j other b k c]
        by (cases "j = i"; cases "k = i") simp_all
    qed
  next
    case (refused i e r')
    from assms(1) refused(3) have change: "lock_entry R r' = lock_entry R (ls_redis s)
        \<or> rd_get R worker_consumer_lock_key (ls_now s) (ls_redis s) = None" by (rule acquire_cases) simp_all
    have "owner_ok R pid s' j other" if "owner_ok R pid s j other" for j other
      using change owner_ok_old[OF that, of s' 0] that refused(1) by (auto simp: owner_ok_def)
    then show ?thesis by (intro lock_inv_sub[OF assms(3)]) (use refused(1) in simp_all)
  next
    case (renew i owner fault goes_on r')
    note change = renew_change[OF assms(1) renew(3)]
    have "owner_ok R pid s' j other" if "owner_ok R pid s j other" for j other
    proof (cases "other = owner")
      case True
      with owner_ok_renewed[OF _ change, of pid j s'] that renew(1) show ?thesis by simp
    next
      case False
      with owner_ok_other[OF that entry_renewed_change[OF change], of s'] renew(1) show ?thesis by simp
    qed
    then show ?thesis
      by (intro lock_inv_sub[OF assms(3)]) (use renew(1,2) in \<open>auto split: if_splits\<close>)
  next
    case (stop i owner b fault x r')
    note change = release_change[OF assms(1) stop(3)]
    have other: "ls_running s j = Some (other, c) \<and> other \<noteq> owner" if "ls_running s' j = Some (other, c)" for j other c
      using that stop(1,2) unique[of j owner c i b] by (auto split: if_splits)
    show ?thesis
    proof (rule lock_inv_sub[OF assms(3)])
      fix j o' c assume j: "ls_running s' j = Some (o', c)"
      then show "\<exists>c. ls_running s j = Some (o', c)" using other by blast
      assume "owner_ok R pid s j o'"
      with owner_ok_other[OF _ change, of pid j o' s'] other[OF j] stop(1) show "owner_ok R pid s' j o'" by auto
    qed
  next
    case (crash i h)
    show ?thesis by (rule lock_inv_sub[OF assms(3)]) (use crash in \<open>auto simp: owner_ok_def split: if_splits\<close>)
  qed
qed

lemma lock_reach_inv:
  assumes "redis_laws R" "lock_reach R replies pid ttl s"
  shows "lock_inv R pid s"
  using assms(2)
proof (induction rule: lock_reach.induct)
  case (start s) then show ?case by (simp add: lock_inv_def)
next
  case (step s s') then show ?case using lock_inv_step[OF assms(1)] by blast
qed

section \<open>A lease\<close>

text \<open>
  What the lock is meant to be: a lease that one owner has until it expires, that only a free
  lease can be taken, and only its owner can prolong or give up.
\<close>

type_synonym lease = "(string \<times> instant) option"

definition take_lease :: "string \<Rightarrow> instant \<Rightarrow> lease \<Rightarrow> bool \<times> lease" where
  "take_lease owner until l = (case l of None \<Rightarrow> (True, Some (owner, until)) | Some x \<Rightarrow> (False, Some x))"

definition prolong_lease :: "string \<Rightarrow> instant \<Rightarrow> lease \<Rightarrow> bool \<times> lease" where
  "prolong_lease owner until l =
     (case l of Some (p, t) \<Rightarrow> if p = owner then (True, Some (owner, until)) else (False, l) | None \<Rightarrow> (False, l))"

definition give_up_lease :: "string \<Rightarrow> lease \<Rightarrow> bool \<times> lease" where
  "give_up_lease owner l =
     (case l of Some (p, t) \<Rightarrow> if p = owner then (True, None) else (False, l) | None \<Rightarrow> (False, l))"

definition lease_of :: "'r redis \<Rightarrow> instant \<Rightarrow> 'r \<Rightarrow> lease" where
  "lease_of R now r = (case lock_entry R r of Some (p, t) \<Rightarrow> if now < t then Some (p, t) else None | None \<Rightarrow> None)"

lemma lease_of_get: "rd_get R worker_consumer_lock_key now r = map_option fst (lease_of R now r)"
  by (simp add: rd_get_def lease_of_def split: option.splits)

section \<open>Bounds\<close>

lemma acquire_from_sleeps:
  assumes "attempt \<le> 9" "acquire_from R replies pid ttl clock env attempt r = (x, r', sleeps)"
  shows "\<exists>k\<ge>attempt. k \<le> 9 \<and> sleeps = map backoff_secs [attempt..<k]
    \<and> (\<exists>r9. acquire_worker_consumer_lock R replies pid ttl (clock k) r9 = (x, r')) \<and> (\<forall>e. x = Inl e \<longrightarrow> k = 9)"
  using assms
proof (induction "9 - attempt" arbitrary: attempt r x r' sleeps)
  case 0
  then have "attempt = 9" by simp
  with 0(3) show ?case
    by (subst (asm) acquire_from.simps) (force simp: max_retries_def split: prod.splits sum.splits)
next
  case (Suc n)
  obtain y r1 where first: "acquire_worker_consumer_lock R replies pid ttl (clock attempt) r = (y, r1)" by fastforce
  show ?case
  proof (cases y)
    case (Inr owner)
    with Suc.prems(2) first have "x = y" "r' = r1" "sleeps = []"
      by (subst (asm) acquire_from.simps, simp)+
    with first Inr Suc.prems(1) show ?thesis by (intro exI[of _ attempt]) auto
  next
    case (Inl e)
    have more: "attempt < 9" using Suc.hyps(2) by simp
    obtain x2 r2 rest where tail: "acquire_from R replies pid ttl clock env (attempt + 1) (env attempt r1) = (x2, r2, rest)"
      using prod_cases3 by blast
    with Suc.prems(2) first Inl more have res: "x = x2" "r' = r2" "sleeps = backoff_secs attempt # rest"
      by (subst (asm) acquire_from.simps, simp add: max_retries_def)+
    have "n = 9 - (attempt + 1)" "attempt + 1 \<le> 9" using Suc.hyps(2) by simp_all
    from Suc.hyps(1)[OF this tail] obtain k where k: "attempt + 1 \<le> k" "k \<le> 9" "rest = map backoff_secs [attempt + 1..<k]"
      "\<exists>r9. acquire_worker_consumer_lock R replies pid ttl (clock k) r9 = (x2, r2)" "\<forall>e. x2 = Inl e \<longrightarrow> k = 9" by blast
    with res show ?thesis by (intro exI[of _ k]) (simp add: upt_conv_Cons)
  qed
qed

lemma normalized_renew_uint:
  "uint (normalized_renew ttl renew)
   = (if renew = 0 then 1 else min (uint renew) (max (sint (normalized_ttl ttl) - 1) 1))"
proof -
  let ?T = "normalized_ttl ttl"
  have T: "uint ?T = sint ?T" using uint_sint[of ?T] sint_lt[of ?T] ttl_positive[of ttl] by (simp add: take_bit_int_eq_self)
  have "1 \<le> uint ?T" using T ttl_positive[of ttl] by simp
  then have "uint (saturating_sub ?T 1) = sint ?T - 1"
    using T uint_sub_lem[of 1 ?T] by (simp add: saturating_sub_def word_less_def)
  then show ?thesis
    by (simp add: normalized_renew_def min_def max_def word_le_def)
qed

definition empty_system :: "(string \<Rightarrow> (string \<times> instant) option) lock_system" where
  "empty_system = \<lparr>ls_redis = \<lambda>_. None, ls_now = 0, ls_running = \<lambda>_. None\<rparr>"

lemma empty_system_simps [simp]: "ls_redis empty_system = (\<lambda>_. None)" "ls_now empty_system = 0" "ls_running empty_system = (\<lambda>_. None)"
  by (simp_all add: empty_system_def)

section \<open>Properties\<close>

text \<open>
  C11: the operations of the lock implement a lease, read off the entry of the lock. An acquisition that succeeds has
  taken a free lease under its own owner until the configured lifetime is over. One that fails leaves the lease as it was, or has
  taken it although the reply of the command was lost. When Redis is reached and answers, an acquisition succeeds exactly when the
  lease is free. The renewal script prolongs the lease and the release script gives it up, for its owner only and with the same answers.
\<close>

theorem lock_refines_lease:
  assumes "redis_laws R"
  shows "(\<forall>x r'. acquire_worker_consumer_lock R replies pid ttl now r = (x, r') \<longrightarrow>
        (let owner = lock_owner pid now; taken = take_lease owner (expires_at now (sint (normalized_ttl ttl))) (lease_of R now r) in
         case x of
           Inr o' \<Rightarrow> o' = owner \<and> taken = (True, lease_of R now r')
         | Inl _ \<Rightarrow> lease_of R now r' = lease_of R now r \<or> taken = (True, lease_of R now r')))
    \<and> (rd_client R = Inr () \<and> rd_connect R r = Inr ()
         \<and> (\<exists>b. fst (rd_set_nx_ex R worker_consumer_lock_key (lock_owner pid now) (sint (normalized_ttl ttl)) now r) = Inr b) \<longrightarrow>
       (\<exists>owner. fst (acquire_worker_consumer_lock R replies pid ttl now r) = Inr owner) \<longleftrightarrow> lease_of R now r = None)
    \<and> prolong_lease owner (expires_at now (sint (normalized_ttl ttl))) (lease_of R now r)
        = apsnd (lease_of R now) (renew_script R owner ttl now r)
    \<and> give_up_lease owner (lease_of R now r) = apsnd (lease_of R now) (release_script R owner now r)"
proof (intro conjI allI impI)
  let ?until = "expires_at now (sint (normalized_ttl ttl))" and ?owner = "lock_owner pid now"
  have later: "now < ?until" using expires_later[of now ttl] by linarith
  obtain y r1 where set: "rd_set_nx_ex R worker_consumer_lock_key ?owner (sint (normalized_ttl ttl)) now r = (y, r1)" by fastforce
  fix x r' assume run: "acquire_worker_consumer_lock R replies pid ttl now r = (x, r')"
  from assms set show "let owner = ?owner; taken = take_lease owner ?until (lease_of R now r) in
       case x of Inr o' \<Rightarrow> o' = owner \<and> taken = (True, lease_of R now r')
       | Inl _ \<Rightarrow> lease_of R now r' = lease_of R now r \<or> taken = (True, lease_of R now r')"
    by (cases rule: set_nx_cases)
       (use run later set in \<open>auto simp: acquire_worker_consumer_lock_def connected_def Let_def lease_of_get take_lease_def lease_of_def
          split: option.splits if_splits sum.splits\<close>)
next
  let ?owner = "lock_owner pid now"
  assume reached: "rd_client R = Inr () \<and> rd_connect R r = Inr ()
    \<and> (\<exists>b. fst (rd_set_nx_ex R worker_consumer_lock_key ?owner (sint (normalized_ttl ttl)) now r) = Inr b)"
  then obtain b r1 where set: "rd_set_nx_ex R worker_consumer_lock_key ?owner (sint (normalized_ttl ttl)) now r = (Inr b, r1)"
    by (metis prod.collapse)
  from assms set show "(\<exists>owner. fst (acquire_worker_consumer_lock R replies pid ttl now r) = Inr owner) \<longleftrightarrow> lease_of R now r = None"
    by (cases rule: set_nx_cases)
       (use reached set in \<open>auto simp: acquire_worker_consumer_lock_def connected_def Let_def lease_of_get\<close>)
next
  let ?until = "expires_at now (sint (normalized_ttl ttl))"
  have later: "now < ?until" using expires_later[of now ttl] by linarith
  obtain y r1 where e: "rd_expire R worker_consumer_lock_key (sint (normalized_ttl ttl)) now r = (y, r1)" by fastforce
  with assms have "case rd_get R worker_consumer_lock_key now r of None \<Rightarrow> \<not> y \<and> rd_entry R r1 = rd_entry R r
      | Some v \<Rightarrow> y \<and> rd_entry R r1 = (rd_entry R r)(worker_consumer_lock_key \<mapsto> (v, ?until))"
    unfolding redis_laws_def expire_law_def by blast
  with e later show "prolong_lease owner ?until (lease_of R now r) = apsnd (lease_of R now) (renew_script R owner ttl now r)"
    by (auto simp: renew_script_def prolong_lease_def lease_of_get lease_of_def split: option.splits if_splits)
next
  obtain y r1 where d: "rd_del R worker_consumer_lock_key now r = (y, r1)" by fastforce
  with assms have "y = (rd_get R worker_consumer_lock_key now r \<noteq> None) \<and> rd_entry R r1 = (rd_entry R r)(worker_consumer_lock_key := None)"
    unfolding redis_laws_def del_law_def by blast
  with d show "give_up_lease owner (lease_of R now r) = apsnd (lease_of R now) (release_script R owner now r)"
    by (auto simp: release_script_def give_up_lease_def lease_of_get lease_of_def split: option.splits if_splits)
qed

text \<open>
  C10: in every run of any number of workers, with whatever faults of Redis calls, crashes and
  coinciding process ids, at most one worker holds the lock, and no other process can take it from
  its holder before it expires: after any step that leaves the holder running and the expiry in
  the future, the holder still holds it.
\<close>

theorem lock_exclusive:
  assumes "redis_laws R" "lock_reach R replies pid ttl s" "lock_holder R s i"
  shows "(\<forall>j. lock_holder R s j \<longrightarrow> j = i)
    \<and> (\<forall>s' owner t. lock_step R replies pid ttl s s' \<longrightarrow> lock_entry R (ls_redis s) = Some (owner, t) \<longrightarrow>
         ls_running s' i \<noteq> None \<longrightarrow> ls_now s' < t \<longrightarrow> lock_holder R s' i)"
proof (intro conjI allI impI)
  note inv = lock_reach_inv[OF assms(1,2)]
  have unique: "j = k" if "ls_running s j = Some (owner, b)" "ls_running s k = Some (owner, c)" for j k owner b c
    using inv that unfolding lock_inv_def by blast
  from assms(3) obtain owner b where i: "ls_running s i = Some (owner, b)"
    and holds: "rd_get R worker_consumer_lock_key (ls_now s) (ls_redis s) = Some owner" by (auto simp: lock_holder_def)
  show "j = i" if "lock_holder R s j" for j
    using that holds i unique[of j owner _ i b] by (auto simp: lock_holder_def)
  fix s' owner' t
  assume step: "lock_step R replies pid ttl s s'" and entry: "lock_entry R (ls_redis s) = Some (owner', t)"
    and running: "ls_running s' i \<noteq> None" and time: "ls_now s' < t"
  have owner: "owner' = owner" using holds entry by (auto simp: rd_get_def split: if_splits)
  from step show "lock_holder R s' i"
  proof (cases rule: lock_step.cases)
    case (acquire k own r')
    from acquire_cases[OF assms(1) acquire(3)] holds show ?thesis by auto
  next
    case (refused k e r')
    from assms(1) refused(3) holds have "lock_entry R r' = lock_entry R (ls_redis s)" by (auto elim: acquire_cases)
    with refused(1) i entry time owner show ?thesis by (auto simp: lock_holder_def rd_get_def)
  next
    case (renew k own fault goes_on r')
    with renew_change[OF assms(1) renew(3)] i entry time owner holds show ?thesis
      by (auto simp: lock_holder_def rd_get_def entry_renewed_def split: if_splits)
  next
    case (stop k own c fault x r')
    then have "k \<noteq> i" using running by auto
    with release_change[OF assms(1) stop(3)] stop(1,2) i entry time owner holds unique[of k owner c i b] show ?thesis
      by (auto simp: lock_holder_def rd_get_def entry_change_def split: if_splits)
  qed (use i entry time owner running in \<open>auto simp: lock_holder_def rd_get_def\<close>)
qed

text \<open>
  The acquisition with retries ends after at most ten attempts and has slept at most 180
  seconds; it returns an error only after the tenth attempt has failed, having slept exactly the
  nine times. The renewal interval it normalises is at least one second, and less than the
  lock's time to live except when that is one second.
\<close>

lemma lock_retry_bounds:
  "(case acquire_worker_consumer_lock_with_retry R replies pid ttl clock env r of (x, r', sleeps) \<Rightarrow>
      length sleeps \<le> 9 \<and> sum_list sleeps \<le> 180
      \<and> (case x of Inr _ \<Rightarrow> True
         | Inl e \<Rightarrow> sleeps = [2, 4, 8, 16, 30, 30, 30, 30, 30]
             \<and> (\<exists>r9. acquire_worker_consumer_lock R replies pid ttl (clock 9) r9 = (Inl e, r'))))
   \<and> 1 \<le> uint (normalized_renew ttl renew)
   \<and> (uint (normalized_renew ttl renew) < sint (normalized_ttl ttl) \<longleftrightarrow> sint (normalized_ttl ttl) \<noteq> 1)"
proof (intro conjI)
  obtain x r' sleeps where run: "acquire_worker_consumer_lock_with_retry R replies pid ttl clock env r = (x, r', sleeps)"
    using prod_cases3 by blast
  from acquire_from_sleeps[OF _ run[unfolded acquire_worker_consumer_lock_with_retry_def]] obtain k where
    k: "k \<le> 9" "sleeps = map backoff_secs [0..<k]" "\<exists>r9. acquire_worker_consumer_lock R replies pid ttl (clock k) r9 = (x, r')"
    "\<forall>e. x = Inl e \<longrightarrow> k = 9" by auto
  have "[0..<9] = [0..<k] @ [k..<9]" using upt_add_eq_append[of 0 k "9 - k"] k(1) by simp
  then have "sum_list sleeps \<le> sum_list (map backoff_secs [0..<9])" using k(2) by simp
  also have "\<dots> = 180" by code_simp
  finally have total: "sum_list sleeps \<le> 180" .
  have nine: "map backoff_secs [0..<9] = [2, 4, 8, 16, 30, 30, 30, 30, 30]" by code_simp
  show "case acquire_worker_consumer_lock_with_retry R replies pid ttl clock env r of (x, r', sleeps) \<Rightarrow>
      length sleeps \<le> 9 \<and> sum_list sleeps \<le> 180
      \<and> (case x of Inr _ \<Rightarrow> True
         | Inl e \<Rightarrow> sleeps = [2, 4, 8, 16, 30, 30, 30, 30, 30]
             \<and> (\<exists>r9. acquire_worker_consumer_lock R replies pid ttl (clock 9) r9 = (Inl e, r')))"
    using k total nine run by (auto split: sum.splits)
next
  let ?t = "sint (normalized_ttl ttl)"
  have renewal: "uint (normalized_renew ttl renew) = (if renew = 0 then 1 else min (uint renew) (max (?t - 1) 1))"
    by (rule normalized_renew_uint)
  have "1 \<le> uint renew" if "renew \<noteq> 0"
    using that uint_ge_0[of renew] by (metis add.commute add_0 int_one_le_iff_zero_less order_le_less uint_0_iff)
  then show "1 \<le> uint (normalized_renew ttl renew)" "uint (normalized_renew ttl renew) < ?t \<longleftrightarrow> ?t \<noteq> 1"
    using renewal ttl_positive[of ttl] by auto
qed

text \<open>
  The worker does not stop when it loses the lock. For every configuration there is a run in
  which a renewal fails, the lock expires, another worker takes it, and the first one is still
  running: the system then has two running workers, of which one holds the lock.
\<close>

lemma worker_outlives_lock:
  "\<exists>s. lock_reach map_redis replies pid ttl s \<and> lock_holder map_redis s 1
     \<and> ls_running s 0 \<noteq> None \<and> \<not> lock_holder map_redis s 0"
proof -
  let ?k = worker_consumer_lock_key and ?t = "sint (normalized_ttl ttl)"
  let ?late = "expires_at 0 ?t"
  let ?o0 = "lock_owner (pid 0) 0" and ?o1 = "lock_owner (pid 1) ?late"
  let ?r1 = "(\<lambda>_. None)(?k \<mapsto> (?o0, ?late))" and ?r2 = "(\<lambda>_. None)(?k \<mapsto> (?o1, expires_at ?late ?t))"
  let ?s0 = empty_system
  let ?s1 = "?s0\<lparr>ls_redis := ?r1, ls_running := (ls_running ?s0)(0 \<mapsto> (?o0, True))\<rparr>"
  let ?s2 = "?s1\<lparr>ls_redis := ?r1, ls_running := (ls_running ?s1)(0 \<mapsto> (?o0, False))\<rparr>"
  let ?s3 = "?s2\<lparr>ls_now := ls_now ?s2 + ?late\<rparr>"
  let ?s4 = "?s3\<lparr>ls_redis := ?r2, ls_running := (ls_running ?s3)(1 \<mapsto> (?o1, True))\<rparr>"
  have late: "1000000 \<le> ?late" "?late < expires_at ?late ?t" using ttl_positive[of ttl] by (simp_all add: expires_at_def)
  have "lock_reach map_redis replies pid ttl ?s0" by (rule lock_reach.start) simp
  moreover have "lock_step map_redis replies pid ttl ?s0 ?s1"
    by (rule lock_step.acquire) (simp_all add: acquire_worker_consumer_lock_def connected_def map_redis_def Let_def)
  moreover have "lock_step map_redis replies pid ttl ?s1 ?s2"
    by (rule lock_step.renew[where fault = "Some (False, ''timeout'')"]) (simp_all add: renew_tick_def invoke_def)
  moreover have "lock_step map_redis replies pid ttl ?s2 ?s3" by (rule lock_step.pass) (use late in simp)
  moreover have "lock_step map_redis replies pid ttl ?s3 ?s4"
    by (rule lock_step.acquire) (simp_all add: acquire_worker_consumer_lock_def connected_def map_redis_def Let_def fun_eq_iff)
  ultimately have "lock_reach map_redis replies pid ttl ?s4" by (blast intro: lock_reach.step)
  moreover have "lock_holder map_redis ?s4 1" using late by (auto simp: lock_holder_def rd_get_def map_redis_def)
  moreover have "?o0 \<noteq> ?o1" using zdiv_mono1[OF late(1), of 1000] by (simp add: lock_owner_inj)
  then have "\<not> lock_holder map_redis ?s4 0" using late by (simp add: lock_holder_def rd_get_def map_redis_def)
  ultimately show ?thesis by force
qed

section \<open>Witnesses\<close>

theorem lock_refines_lease_witness:
  "give_up_lease ''a'' (lease_of map_redis 0 (\<lambda>_. Some (''a'', 1)))
     = apsnd (lease_of map_redis 0) (release_script map_redis ''a'' 0 (\<lambda>_. Some (''a'', 1)))"
  using lock_refines_lease[OF map_redis_laws] by blast

theorem lock_exclusive_witness:
  "\<exists>s. lock_holder map_redis s 0 \<and> (\<forall>j. lock_holder map_redis s j \<longrightarrow> j = 0)"
proof -
  let ?o = "lock_owner 1 0"
  let ?s0 = empty_system
  let ?s1 = "?s0\<lparr>ls_redis := (\<lambda>_. None)(worker_consumer_lock_key \<mapsto> (?o, expires_at 0 (sint (normalized_ttl 30)))),
      ls_running := (ls_running ?s0)(0 \<mapsto> (?o, True))\<rparr>"
  have "lock_step map_redis (\<lambda>_. (None, None)) (\<lambda>_. 1) 30 ?s0 ?s1"
    by (rule lock_step.acquire) (simp_all add: acquire_worker_consumer_lock_def connected_def map_redis_def Let_def)
  then have "lock_reach map_redis (\<lambda>_. (None, None)) (\<lambda>_. 1) 30 ?s1"
    by (rule lock_reach.step[OF lock_reach.start, rotated]) simp
  moreover have "lock_holder map_redis ?s1 0"
    using expires_later[of 0 30] by (auto simp: lock_holder_def rd_get_def map_redis_def)
  ultimately show ?thesis using lock_exclusive[OF map_redis_laws, of "\<lambda>_. (None, None)" "\<lambda>_. 1" 30 ?s1 0] by blast
qed

end
