(* ===== verification/Uploads.thy ===== *)
theory Uploads
  imports Bff_Props Service_Props
begin

text \<open>
  Uploads: \<open>api/bff_uploads/mod.rs\<close>, the object storage it signs requests for
  (\<open>object_storage.rs\<close>), the storage the server starts with (\<open>state.rs\<close>) and the storage service
  of flow steps (\<open>flows/upload_storage.rs\<close>). The S3 SDK is a parameter: it signs requests and
  answers whether an object exists.
\<close>

section \<open>Object storage\<close>

record presigned_upload =
  pu_url :: string
  pu_headers :: "(string \<times> string) list"

datatype encryption_mode = EncNone | EncS3 | EncKms

datatype sse = Aes256 | AwsKms

record put_object =
  po_bucket :: string
  po_key :: string
  po_sse :: "sse option"
  po_content_type :: string

record s3_client =
  sdk_head_object :: "string \<Rightarrow> string \<Rightarrow> string + unit"
  sdk_expires_in :: "u64 \<Rightarrow> string + unit"
  sdk_presign_put :: "put_object \<Rightarrow> u64 \<Rightarrow> string + string"
  sdk_presign_get :: "string \<Rightarrow> string \<Rightarrow> string option \<Rightarrow> u64 \<Rightarrow> string + string"

definition head_object :: "s3_client \<Rightarrow> string \<Rightarrow> string \<Rightarrow> app_error + unit" where
  "head_object c bucket key = map_errR S3 (sdk_head_object c bucket key)"

definition upload_object :: "s3_client \<Rightarrow> string \<Rightarrow> string \<Rightarrow> string \<Rightarrow> encryption_mode \<Rightarrow> string \<Rightarrow> app_error + unit" where
  "upload_object c bucket key mime enc body =
     Inl (bad_request ''STORAGE_UNSUPPORTED'' ''direct upload is not supported by this object storage backend'')"

fun sse_of :: "encryption_mode \<Rightarrow> sse option" where
  "sse_of EncS3 = Some Aes256"
| "sse_of EncKms = Some AwsKms"
| "sse_of EncNone = None"

fun sse_header :: "sse \<Rightarrow> string" where
  "sse_header Aes256 = ''AES256''"
| "sse_header AwsKms = ''aws:kms''"

definition upload_headers :: "string \<Rightarrow> encryption_mode \<Rightarrow> (string \<times> string) list" where
  "upload_headers mime enc =
     (let hs = obj_insert ''Content-Type'' mime []
      in case sse_of enc of
           None \<Rightarrow> hs
         | Some e \<Rightarrow> obj_insert ''x-amz-server-side-encryption'' (sse_header e) hs)"

definition upload_presigned ::
    "s3_client \<Rightarrow> string \<Rightarrow> string \<Rightarrow> string \<Rightarrow> encryption_mode \<Rightarrow> u64 \<Rightarrow> app_error + presigned_upload" where
  "upload_presigned c bucket key mime enc expires_in =
     bindR (map_errR S3 (sdk_expires_in c expires_in)) (\<lambda>_.
     bindR (map_errR S3 (sdk_presign_put c \<lparr>po_bucket = bucket, po_key = key, po_sse = sse_of enc,
              po_content_type = mime\<rparr> expires_in)) (\<lambda>uri.
     Inr \<lparr>pu_url = uri, pu_headers = upload_headers mime enc\<rparr>))"

definition download_object :: "s3_client \<Rightarrow> string \<Rightarrow> string \<Rightarrow> app_error + string" where
  "download_object c bucket key =
     Inl (bad_request ''STORAGE_UNSUPPORTED'' ''direct download is not supported by this object storage backend'')"

definition download_presigned ::
    "s3_client \<Rightarrow> string \<Rightarrow> string \<Rightarrow> u64 \<Rightarrow> string option \<Rightarrow> app_error + string" where
  "download_presigned c bucket key expires_in content_disposition =
     bindR (map_errR S3 (sdk_expires_in c expires_in)) (\<lambda>_.
     map_errR S3 (sdk_presign_get c bucket key content_disposition expires_in))"

section \<open>Configuration of the storage\<close>

record aws_s3 =
  s3_region :: "string option"
  s3_force_path_style :: "bool option"
  s3_bucket :: string
  s3_endpoint :: "string option"
  s3_presign_ttl_seconds :: u64

datatype storage_type = StorageS3 | StorageMinio

record minio_storage =
  mi_endpoint :: string
  mi_region :: string
  mi_access_key :: string
  mi_secret_key :: string
  mi_bucket :: string
  mi_force_path_style :: "bool option"
  mi_presign_ttl_seconds :: u64

record storage_config =
  sto_type :: storage_type
  sto_minio :: "minio_storage option"

record upload_config =
  uc_storage :: "storage_config option"
  uc_s3 :: "aws_s3 option"

text \<open>The settings the SDK client is built from; the first says whether the SDK's own defaults are loaded.\<close>

record client_settings =
  cs_shared_defaults :: bool
  cs_region :: "string option"
  cs_endpoint :: "string option"
  cs_credentials :: "(string \<times> string) option"
  cs_force_path_style :: bool

definition object_storage_settings :: "upload_config \<Rightarrow> app_error + client_settings" where
  "object_storage_settings cfg =
     (case map_option sto_type (uc_storage cfg) of
        Some StorageMinio \<Rightarrow>
          bindR (ok_or (Server ''storage.type=minio requires storage.minio config'')
                  (Option.bind (uc_storage cfg) sto_minio)) (\<lambda>m.
          Inr \<lparr>cs_shared_defaults = False, cs_region = Some (mi_region m), cs_endpoint = Some (mi_endpoint m),
               cs_credentials = Some (mi_access_key m, mi_secret_key m),
               cs_force_path_style = unwrap_or True (mi_force_path_style m)\<rparr>)
      | _ \<Rightarrow>
          Inr (case uc_s3 cfg of
                 None \<Rightarrow> \<lparr>cs_shared_defaults = False, cs_region = None, cs_endpoint = None,
                           cs_credentials = None, cs_force_path_style = False\<rparr>
               | Some s \<Rightarrow> \<lparr>cs_shared_defaults = True, cs_region = s3_region s, cs_endpoint = s3_endpoint s,
                           cs_credentials = None, cs_force_path_style = unwrap_or False (s3_force_path_style s)\<rparr>))"

definition upload_bucket_and_ttl :: "upload_config \<Rightarrow> string \<times> u64" where
  "upload_bucket_and_ttl cfg =
     (case Option.bind (uc_storage cfg) sto_minio of
        Some m \<Rightarrow> (mi_bucket m, mi_presign_ttl_seconds m)
      | None \<Rightarrow>
          (case uc_s3 cfg of
             Some s \<Rightarrow> (s3_bucket s, s3_presign_ttl_seconds s)
           | None \<Rightarrow> (''user-storage-dev'', 3600)))"

section \<open>Keys\<close>

text \<open>
  \<open>str::replace\<close> with a predicate on characters: a character outside the safe ones becomes an
  underscore. A character beyond ASCII is a lead byte and continuation bytes, replaced as one.
\<close>

definition is_ascii_alphanumeric :: "char \<Rightarrow> bool" where
  "is_ascii_alphanumeric c \<longleftrightarrow>
     (CHR ''0'' \<le> c \<and> c \<le> CHR ''9'') \<or> (CHR ''A'' \<le> c \<and> c \<le> CHR ''Z'') \<or> (CHR ''a'' \<le> c \<and> c \<le> CHR ''z'')"

definition safe_char :: "char \<Rightarrow> bool" where
  "safe_char c \<longleftrightarrow> is_ascii_alphanumeric c \<or> c = CHR ''-'' \<or> c = CHR ''_''"

definition utf8_continuation :: "char \<Rightarrow> bool" where
  "utf8_continuation c \<longleftrightarrow> CHR 0x80 \<le> c \<and> c \<le> CHR 0xBF"

definition sanitize_path_segment :: "string \<Rightarrow> string" where
  "sanitize_path_segment v =
     map (\<lambda>c. if safe_char c then c else CHR ''_'') (filter (\<lambda>c. \<not> utf8_continuation c) v)"

definition extension_for_mime :: "string \<Rightarrow> string" where
  "extension_for_mime mime =
     (if mime = ''image/png'' then ''png'' else if mime = ''application/pdf'' then ''pdf'' else ''jpg'')"

definition asset_type_from_key :: "string \<Rightarrow> string" where
  "asset_type_from_key object_key = hd (split_on CHR ''.'' (last (split_on CHR ''/'' object_key)))"

definition upload_key :: "string \<Rightarrow> string \<Rightarrow> string \<Rightarrow> string \<Rightarrow> string \<Rightarrow> string \<Rightarrow> string" where
  "upload_key session_id step_id upload_id purpose asset_type extension =
     session_id @ ''/'' @ step_id @ ''/'' @ upload_id @ ''/'' @ sanitize_path_segment purpose @ ''/''
     @ sanitize_path_segment asset_type @ ''.'' @ extension"

section \<open>Requests\<close>

datatype upload_method = Put

datatype upload_encryption = SseS3 | SseKms | SseC

record presign_upload_request =
  pr_session_id :: string
  pr_step_id :: string
  pr_user_id :: string
  pr_purpose :: string
  pr_asset_type :: string
  pr_mime :: string
  pr_size_bytes :: u64
  pr_encryption :: "upload_encryption option"

record complete_upload_part =
  cp_part_number :: "32 word"
  cp_etag :: string

record complete_upload_request =
  cr_session_id :: string
  cr_step_id :: string
  cr_upload_id :: string
  cr_bucket :: string
  cr_object_key :: string
  cr_etag :: "string option"
  cr_parts :: "complete_upload_part list option"
  cr_computed_sha256 :: "string option"

record presign_upload_response =
  ps_upload_id :: string
  ps_bucket :: string
  ps_object_key :: string
  ps_method :: upload_method
  ps_url :: string
  ps_headers :: "(string \<times> string) list"
  ps_expires_at :: instant

record evidence_ref =
  er_evidence_id :: string
  er_session_id :: string
  er_step_id :: string
  er_asset_type :: string
  er_sha256 :: "string option"
  er_created_at :: instant

record upload_server =
  us_cuid :: cuid_gen
  us_client :: s3_client
  us_config :: upload_config

definition kyc_upload_id :: "cuid_gen \<Rightarrow> string db" where
  "kyc_upload_id cuid = prefixed cuid ''upl''"

definition kyc_evidence_id :: "cuid_gen \<Rightarrow> string db" where
  "kyc_evidence_id cuid = prefixed cuid ''evi''"

section \<open>Handlers\<close>

definition validate_upload_access :: "string \<Rightarrow> string \<Rightarrow> string \<Rightarrow> unit db" where
  "validate_upload_access caller_id session_id step_id =
     bindE (get_session session_id) (\<lambda>found.
     bindE (lift_res (ok_or (not_found ''SESSION_NOT_FOUND'' ''Session not found'') found)) (\<lambda>session.
     if se_user_id session \<noteq> Some caller_id then throw (unauthorized ''Cannot access other users' uploads'')
     else
       bindE (get_step step_id) (\<lambda>found.
       bindE (lift_res (ok_or (not_found ''STEP_NOT_FOUND'' ''Step not found'') found)) (\<lambda>step.
       bindE (get_flow_row (st_flow_id step)) (\<lambda>found.
       bindE (lift_res (ok_or (not_found ''FLOW_NOT_FOUND'' ''Flow not found'') found)) (\<lambda>flow.
       if fl_session_id flow \<noteq> session_id
       then throw (bad_request ''STEP_SESSION_MISMATCH'' ''Step does not belong to the provided session'')
       else ret ()))))))"

fun upload_encryption_mode :: "upload_encryption option \<Rightarrow> app_error + encryption_mode" where
  "upload_encryption_mode (Some SseKms) = Inr EncKms"
| "upload_encryption_mode (Some SseC) = Inl (bad_request ''UPLOAD_ENCRYPTION_UNSUPPORTED'' ''SSE_C uploads are not supported'')"
| "upload_encryption_mode _ = Inr EncS3"

definition presign_for :: "upload_server \<Rightarrow> presign_upload_request \<Rightarrow> string \<Rightarrow> presign_upload_response db" where
  "presign_for U body caller_id =
     (if caller_id \<noteq> pr_user_id body then throw (unauthorized ''Cannot create uploads for another user'')
      else
        bindE (validate_upload_access caller_id (pr_session_id body) (pr_step_id body)) (\<lambda>_.
        bindE (lift_res (upload_encryption_mode (pr_encryption body))) (\<lambda>encryption.
        bindE (kyc_upload_id (us_cuid U)) (\<lambda>upload_id.
        let object_key = upload_key (pr_session_id body) (pr_step_id body) upload_id (pr_purpose body)
              (pr_asset_type body) (extension_for_mime (pr_mime body));
            (bucket, ttl) = upload_bucket_and_ttl (us_config U) in
        bindE (lift_res (upload_presigned (us_client U) bucket object_key (pr_mime body) encryption ttl)) (\<lambda>presigned.
        bindE (gets w_clock) (\<lambda>now.
        bindE (lift_res (after_delay 3600 (unat ttl * 1000) now)) (\<lambda>expires_at.
        ret \<lparr>ps_upload_id = upload_id, ps_bucket = bucket, ps_object_key = object_key, ps_method = Put,
             ps_url = pu_url presigned, ps_headers = pu_headers presigned, ps_expires_at = expires_at\<rparr>)))))))"

definition presign_upload :: "upload_server \<Rightarrow> 'r auth_server \<Rightarrow> presign_upload_request \<Rightarrow> headers \<Rightarrow> presign_upload_response db" where
  "presign_upload U A body = as_caller A (presign_for U body)"

fun validate_parts :: "32 word list \<Rightarrow> complete_upload_part list \<Rightarrow> app_error + unit" where
  "validate_parts seen [] = Inr ()"
| "validate_parts seen (p # ps) =
     (if cp_part_number p = 0
      then Inl (bad_request ''UPLOAD_PART_NUMBER_INVALID'' ''Part numbers must be greater than zero'')
      else if trim (cp_etag p) = [] then Inl (bad_request ''UPLOAD_PART_ETAG_INVALID'' ''Part ETag cannot be empty'')
      else if cp_part_number p \<in> set seen
      then Inl (bad_request ''UPLOAD_PART_DUPLICATE'' ''Duplicate part numbers are not allowed'')
      else validate_parts (cp_part_number p # seen) ps)"

definition validate_complete_upload_parts :: "string option \<Rightarrow> complete_upload_part list option \<Rightarrow> app_error + unit" where
  "validate_complete_upload_parts etag parts =
     (if map_option trim etag = Some [] then Inl (bad_request ''UPLOAD_ETAG_INVALID'' ''ETag cannot be empty'')
      else case parts of None \<Rightarrow> Inr () | Some ps \<Rightarrow> validate_parts [] ps)"

definition complete_for :: "upload_server \<Rightarrow> complete_upload_request \<Rightarrow> string \<Rightarrow> evidence_ref db" where
  "complete_for U body caller_id =
     bindE (validate_upload_access caller_id (cr_session_id body) (cr_step_id body)) (\<lambda>_.
     if \<not> sublist (cr_upload_id body) (cr_object_key body)
     then throw (bad_request ''UPLOAD_KEY_MISMATCH'' ''Object key does not match the upload id'')
     else
       bindE (lift_res (validate_complete_upload_parts (cr_etag body) (cr_parts body))) (\<lambda>_.
       bindE (lift_res (map_errR (\<lambda>_. not_found ''UPLOAD_NOT_FOUND'' ''Uploaded object not found'')
                (head_object (us_client U) (cr_bucket body) (cr_object_key body)))) (\<lambda>_.
       bindE (kyc_evidence_id (us_cuid U)) (\<lambda>evidence_id.
       bindE (gets w_clock) (\<lambda>now.
       ret \<lparr>er_evidence_id = evidence_id, er_session_id = cr_session_id body, er_step_id = cr_step_id body,
            er_asset_type = asset_type_from_key (cr_object_key body), er_sha256 = cr_computed_sha256 body,
            er_created_at = now\<rparr>)))))"

definition complete_upload :: "upload_server \<Rightarrow> 'r auth_server \<Rightarrow> complete_upload_request \<Rightarrow> headers \<Rightarrow> evidence_ref db" where
  "complete_upload U A body = as_caller A (complete_for U body)"

section \<open>The storage service of flow steps\<close>

record flow_upload_storage =
  fu_storage :: s3_client
  fu_bucket :: string
  fu_url_expiry :: u64

definition flow_upload_storage_new :: "s3_client \<Rightarrow> string \<Rightarrow> flow_upload_storage" where
  "flow_upload_storage_new c bucket = \<lparr>fu_storage = c, fu_bucket = bucket, fu_url_expiry = 3600\<rparr>"

definition with_url_expiry :: "u64 \<Rightarrow> flow_upload_storage \<Rightarrow> flow_upload_storage" where
  "with_url_expiry expiry s = s\<lparr>fu_url_expiry := expiry\<rparr>"

definition generate_upload_url :: "flow_upload_storage \<Rightarrow> string \<Rightarrow> string \<Rightarrow> string + upload_url_result" where
  "generate_upload_url s document_type session_id =
     (let key = session_id @ ''/'' @ document_type @ ''.jpg''
      in bindR (map_errR error_display
           (upload_presigned (fu_storage s) (fu_bucket s) key ''image/jpeg'' EncS3 (fu_url_expiry s))) (\<lambda>presigned.
         Inr \<lparr>up_url = pu_url presigned, up_key = key, up_headers = pu_headers presigned\<rparr>))"

section \<open>Lemmas\<close>

lemma sanitize_safe: "list_all safe_char (sanitize_path_segment v)"
  by (auto simp: sanitize_path_segment_def list_all_iff safe_char_def)

lemma safe_char_no_separator: "safe_char c \<Longrightarrow> c \<noteq> CHR ''/'' \<and> c \<noteq> CHR ''.''"
  by (auto simp: safe_char_def is_ascii_alphanumeric_def less_eq_char_def)

lemma safe_char_ascii: "safe_char c \<Longrightarrow> \<not> utf8_continuation c"
  by (auto simp: safe_char_def is_ascii_alphanumeric_def utf8_continuation_def less_eq_char_def)

lemma sanitize_id: "list_all safe_char v \<Longrightarrow> sanitize_path_segment v = v"
  by (induction v) (auto simp: sanitize_path_segment_def safe_char_ascii)

lemma sanitize_idem: "sanitize_path_segment (sanitize_path_segment v) = sanitize_path_segment v"
  by (intro sanitize_id sanitize_safe)

lemma sanitize_no_separator [simp]:
  "CHR ''/'' \<notin> set (sanitize_path_segment v)" "CHR ''.'' \<notin> set (sanitize_path_segment v)"
  using sanitize_safe[of v] by (auto simp: list_all_iff dest: safe_char_no_separator)

lemma extension_for_mime_cases: "extension_for_mime mime \<in> {''png'', ''pdf'', ''jpg''}"
  by (simp add: extension_for_mime_def)

lemma extension_no_separator [simp]: "CHR ''/'' \<notin> set (extension_for_mime mime)"
  by (simp add: extension_for_mime_def)

lemma last_split_on_append_sep: "last (split_on d (p @ d # s)) = last (split_on d s)"
proof (induction p)
  case (Cons a p)
  have "length (split_on d (p @ d # s)) \<ge> 2" by (induction p) (auto split: list.splits simp: Suc_le_eq)
  with Cons show ?case by (auto split: list.splits)
qed simp

text \<open>The segments of a presigned key can be read back, so keys of different uploads differ.\<close>

lemma split_upload_key:
  assumes "CHR ''/'' \<notin> set sid" "CHR ''/'' \<notin> set stp" "CHR ''/'' \<notin> set uid" "CHR ''/'' \<notin> set ext"
  shows "split_on CHR ''/'' (upload_key sid stp uid purpose asset ext)
    = [sid, stp, uid, sanitize_path_segment purpose, sanitize_path_segment asset @ ''.'' @ ext]"
  using assms by (simp add: upload_key_def split_on_append_sep split_on_no_sep)

lemma asset_type_of_upload_key:
  assumes "CHR ''/'' \<notin> set ext"
  shows "asset_type_from_key (upload_key sid stp uid purpose asset ext) = sanitize_path_segment asset"
  using assms
  by (simp add: upload_key_def asset_type_from_key_def last_split_on_append_sep split_on_append_sep split_on_no_sep)

lemma upload_id_in_key: "sublist uid (upload_key sid stp uid purpose asset ext)"
  unfolding upload_key_def sublist_def by (metis append_assoc)

lemma prefixed_ok:
  "prefixed cuid pre w = (Inr i, w') \<longleftrightarrow>
   (\<exists>c. cuid (w_next_id w) = Inr c \<and> i = pre @ ''_'' @ c) \<and> w' = w\<lparr>w_next_id := Suc (w_next_id w)\<rparr>"
  by (cases "cuid (w_next_id w)") (auto simp: prefixed_def map_errR_def)

lemma validate_upload_access_ok:
  "validate_upload_access uid sid stp w = (Inr (), w') \<longleftrightarrow>
   w' = w \<and> (\<exists>session step flow. session_of sid w = Some session \<and> se_user_id session = Some uid
     \<and> step_of stp w = Some step \<and> flow_of (st_flow_id step) w = Some flow \<and> fl_session_id flow = sid)"
  by (auto simp: validate_upload_access_def get_session_def get_step_def get_flow_row_def bindE_Inr_iff split: if_splits)

lemma presign_for_ok:
  assumes "presign_for U body uid w = (Inr resp, w')"
  shows "pr_user_id body = uid \<and> validate_upload_access uid (pr_session_id body) (pr_step_id body) w = (Inr (), w)
    \<and> ps_bucket resp = fst (upload_bucket_and_ttl (us_config U))
    \<and> ps_object_key resp = upload_key (pr_session_id body) (pr_step_id body) (ps_upload_id resp) (pr_purpose body)
        (pr_asset_type body) (extension_for_mime (pr_mime body))
    \<and> prefixed (us_cuid U) ''upl'' w = (Inr (ps_upload_id resp), w')"
  using assms validate_upload_access_ok[of uid "pr_session_id body" "pr_step_id body" w]
  by (cases "upload_bucket_and_ttl (us_config U)")
     (auto simp: presign_for_def bindE_Inr_iff Let_def kyc_upload_id_def split: if_splits)

lemma validate_parts_iff:
  "validate_parts seen ps = Inr () \<longleftrightarrow>
   (\<forall>p\<in>set ps. cp_part_number p \<noteq> 0 \<and> trim (cp_etag p) \<noteq> []) \<and> distinct (map cp_part_number ps)
   \<and> set (map cp_part_number ps) \<inter> set seen = {}"
  by (induction ps arbitrary: seen) auto

lemma validate_complete_upload_parts_iff:
  "validate_complete_upload_parts etag parts = Inr () \<longleftrightarrow>
   map_option trim etag \<noteq> Some [] \<and>
   (case parts of None \<Rightarrow> True
    | Some ps \<Rightarrow> distinct (map cp_part_number ps) \<and> (\<forall>p\<in>set ps. cp_part_number p \<noteq> 0 \<and> trim (cp_etag p) \<noteq> []))"
  by (auto simp: validate_complete_upload_parts_def validate_parts_iff split: option.splits)

lemma complete_for_ok:
  assumes "validate_upload_access uid (cr_session_id body) (cr_step_id body) w = (Inr (), w)"
    "sublist (cr_upload_id body) (cr_object_key body)"
    "validate_complete_upload_parts (cr_etag body) (cr_parts body) = Inr ()"
    "sdk_head_object (us_client U) (cr_bucket body) (cr_object_key body) = Inr ()"
    "us_cuid U (w_next_id w) = Inr i"
  shows "complete_for U body uid w =
    (Inr \<lparr>er_evidence_id = ''evi_'' @ i, er_session_id = cr_session_id body, er_step_id = cr_step_id body,
       er_asset_type = asset_type_from_key (cr_object_key body), er_sha256 = cr_computed_sha256 body,
       er_created_at = w_clock w\<rparr>, w\<lparr>w_next_id := Suc (w_next_id w)\<rparr>)"
  using assms
  by (simp add: complete_for_def bindE_def head_object_def map_errR_def lift_res_def kyc_evidence_id_def prefixed_def
      gets_def ret_def)

lemma complete_for_needs_access:
  assumes "complete_for U body uid w = (Inr e, w')"
  shows "validate_upload_access uid (cr_session_id body) (cr_step_id body) w = (Inr (), w)
    \<and> sdk_head_object (us_client U) (cr_bucket body) (cr_object_key body) = Inr ()"
  using assms validate_upload_access_ok[of uid "cr_session_id body" "cr_step_id body" w]
  by (auto simp: complete_for_def bindE_Inr_iff head_object_def map_errR_def split: if_splits sum.splits)

text \<open>The bucket comes from the MinIO settings even when the client is built from the S3 ones.\<close>

lemma bucket_of_unused_backend:
  "sto_type st = StorageS3 \<Longrightarrow> sto_minio st = Some m \<Longrightarrow>
   fst (upload_bucket_and_ttl \<lparr>uc_storage = Some st, uc_s3 = Some s\<rparr>) = mi_bucket m
   \<and> map_sum id cs_endpoint (object_storage_settings \<lparr>uc_storage = Some st, uc_s3 = Some s\<rparr>) = Inr (s3_endpoint s)"
  by (simp add: upload_bucket_and_ttl_def object_storage_settings_def)

section \<open>Properties\<close>


text \<open>
  C22: an upload that was presigned can be completed by the same caller once the object is in the
  storage: the reference names the session, the step and the sanitised asset type of the
  request, whatever valid etag, parts and digest the client reports.
\<close>

theorem presign_complete_roundtrip:
  assumes "presign_for U body uid w = (Inr resp, w')"
    "sdk_head_object (us_client U) (ps_bucket resp) (ps_object_key resp) = Inr ()"
    "us_cuid U (w_next_id w') = Inr i" "validate_complete_upload_parts etag parts = Inr ()"
  shows "\<exists>e. complete_for U \<lparr>cr_session_id = pr_session_id body, cr_step_id = pr_step_id body,
      cr_upload_id = ps_upload_id resp, cr_bucket = ps_bucket resp, cr_object_key = ps_object_key resp,
      cr_etag = etag, cr_parts = parts, cr_computed_sha256 = sha\<rparr> uid w' = (Inr e, w'\<lparr>w_next_id := Suc (w_next_id w')\<rparr>)
    \<and> er_session_id e = pr_session_id body \<and> er_step_id e = pr_step_id body
    \<and> er_asset_type e = sanitize_path_segment (pr_asset_type body) \<and> er_sha256 e = sha"
proof -
  note ok = presign_for_ok[OF assms(1)]
  then have "w' = w\<lparr>w_next_id := Suc (w_next_id w)\<rparr>" by (simp add: prefixed_ok)
  with ok have "validate_upload_access uid (pr_session_id body) (pr_step_id body) w' = (Inr (), w')"
    by (simp add: validate_upload_access_ok session_of_def step_of_def flow_of_def)
  with ok assms(2-) show ?thesis
    by (simp add: complete_for_ok upload_id_in_key asset_type_of_upload_key)
qed

text \<open>
  Completing an upload does not tie the object to the upload. A caller who owns a session with
  a step obtains a reference for it to any object of any bucket the server can read, by sending an
  empty upload id.
\<close>

lemma complete_upload_trusts_client_key:
  assumes "validate_upload_access uid sid stp w = (Inr (), w)" "sdk_head_object (us_client U) bucket key = Inr ()"
    "us_cuid U (w_next_id w) = Inr i"
  shows "\<exists>e w'. complete_for U \<lparr>cr_session_id = sid, cr_step_id = stp, cr_upload_id = [], cr_bucket = bucket,
      cr_object_key = key, cr_etag = None, cr_parts = None, cr_computed_sha256 = sha\<rparr> uid w = (Inr e, w')
    \<and> er_session_id e = sid \<and> er_step_id e = stp \<and> er_asset_type e = asset_type_from_key key \<and> er_sha256 e = sha"
  using assms by (simp add: complete_for_ok validate_complete_upload_parts_iff)

section \<open>Witnesses\<close>

definition upload_world :: world where
  "upload_world = device_world\<lparr>w_sessions := [victim_session], w_flows := [victim_flow], w_steps := [victim_step]\<rparr>"

definition example_uploads :: upload_server where
  "example_uploads = \<lparr>us_cuid = (\<lambda>n. Inr (show_nat n)),
     us_client = \<lparr>sdk_head_object = (\<lambda>_ _. Inr ()), sdk_expires_in = (\<lambda>_. Inr ()),
       sdk_presign_put = (\<lambda>p _. Inr (po_key p)), sdk_presign_get = (\<lambda>_ k _ _. Inr k)\<rparr>,
     us_config = \<lparr>uc_storage = None, uc_s3 = None\<rparr>\<rparr>"

definition example_presign :: presign_upload_request where
  "example_presign = \<lparr>pr_session_id = ''s1'', pr_step_id = ''t1'', pr_user_id = ''usr_1'', pr_purpose = ''../id'',
     pr_asset_type = ''front'', pr_mime = ''image/png'', pr_size_bytes = 0, pr_encryption = None\<rparr>"

lemma example_presign_for:
  assumes "w_sessions w = [victim_session]" "w_flows w = [victim_flow]" "w_steps w = [victim_step]" "w_clock w = 0"
  shows "\<exists>resp w'. presign_for example_uploads example_presign ''usr_1'' w = (Inr resp, w')
    \<and> ps_object_key resp = ''s1/t1/upl_'' @ show_nat (w_next_id w) @ ''/___id/front.png''"
proof -
  have "validate_upload_access ''usr_1'' ''s1'' ''t1'' w = (Inr (), w)"
    using assms by (simp add: validate_upload_access_ok session_of_def step_of_def flow_of_def select_first_def example_rows)
  moreover have "sanitize_path_segment ''../id'' = ''___id''" "sanitize_path_segment ''front'' = ''front''" by code_simp+
  ultimately show ?thesis
    by (simp add: presign_for_def example_presign_def example_uploads_def bindE_def upload_bucket_and_ttl_def
        kyc_upload_id_def prefixed_def map_errR_def upload_presigned_def bindR_def gets_def after_delay_def
        max_utc_def millis_def assms lift_res_def upload_key_def extension_for_mime_def ret_def Let_def)
qed

lemma example_caller:
  "case require_bff_auth example_auth spoofing_request (upload_world, no_keys) of
     (Inr rq, s1) \<Rightarrow> require_user_id example_auth (in_headers rq) = Inr ''usr_1''
       \<and> w_sessions (fst s1) = [victim_session] \<and> w_flows (fst s1) = [victim_flow] \<and> w_steps (fst s1) = [victim_step]
       \<and> w_clock (fst s1) = 0
   | _ \<Rightarrow> False"
  by code_simp

lemma example_presign_route:
  "\<exists>resp s'. bff_route example_auth (presign_upload example_uploads example_auth example_presign) spoofing_request
     (upload_world, no_keys) = (Inr resp, s')"
proof -
  obtain rq s1 where caller: "require_bff_auth example_auth spoofing_request (upload_world, no_keys) = (Inr rq, s1)"
    "require_user_id example_auth (in_headers rq) = Inr ''usr_1''"
    "w_sessions (fst s1) = [victim_session]" "w_flows (fst s1) = [victim_flow]" "w_steps (fst s1) = [victim_step]"
    "w_clock (fst s1) = 0"
    using example_caller by (auto split: prod.splits sum.splits)
  then show ?thesis
    using example_presign_for[of "fst s1"]
    by (auto simp: bff_route_def bindE_Inr_iff on_world_ok presign_upload_def as_caller_def)
qed


theorem presign_complete_roundtrip_witness:
  "\<exists>resp w' e w''. presign_for example_uploads example_presign ''usr_1'' upload_world = (Inr resp, w')
     \<and> complete_for example_uploads \<lparr>cr_session_id = ''s1'', cr_step_id = ''t1'', cr_upload_id = ps_upload_id resp,
         cr_bucket = ps_bucket resp, cr_object_key = ps_object_key resp, cr_etag = None, cr_parts = None,
         cr_computed_sha256 = None\<rparr> ''usr_1'' w' = (Inr e, w'')
     \<and> er_asset_type e = sanitize_path_segment ''front''"
proof -
  obtain resp w' where run: "presign_for example_uploads example_presign ''usr_1'' upload_world = (Inr resp, w')"
    using example_presign_for[of upload_world] by (auto simp: upload_world_def device_world_def add_user_def empty_world_def)
  have "sdk_head_object (us_client example_uploads) (ps_bucket resp) (ps_object_key resp) = Inr ()"
    "us_cuid example_uploads (w_next_id w') = Inr (show_nat (w_next_id w'))" "validate_complete_upload_parts None None = Inr ()"
    by (simp_all add: example_uploads_def validate_complete_upload_parts_iff)
  from presign_complete_roundtrip[OF run this, of None] run show ?thesis by (auto simp: example_presign_def)
qed

lemma complete_upload_trusts_client_key_witness:
  "\<exists>e w'. complete_for example_uploads \<lparr>cr_session_id = ''s1'', cr_step_id = ''t1'', cr_upload_id = [], cr_bucket = ''other'',
      cr_object_key = ''s9/t9/upl_x/doc/passport.png'', cr_etag = None, cr_parts = None, cr_computed_sha256 = None\<rparr>
      ''usr_1'' upload_world = (Inr e, w') \<and> er_session_id e = ''s1''"
proof -
  have "validate_upload_access ''usr_1'' ''s1'' ''t1'' upload_world = (Inr (), upload_world)"
    by (simp add: validate_upload_access_ok upload_world_def session_of_def step_of_def flow_of_def select_first_def
        device_world_def example_rows)
  from complete_upload_trusts_client_key[OF this, of example_uploads "''other''" "''s9/t9/upl_x/doc/passport.png''" _ None]
  show ?thesis by (auto simp: example_uploads_def)
qed

end
