(* ===== verification/Env_Config.thy ===== *)
theory Env_Config
  imports Db_Model
begin

text \<open>
  Configuration: the expansion of environment variables in \<open>backend-env/src/lib.rs\<close>, with its index
  arithmetic, and the loading of a configuration file in \<open>backend-core/src/config.rs\<close>. The
  environment, the file system and the YAML parser are parameters. Variable names, the dollar sign
  and the braces are ASCII, so the scan over characters and the scan over bytes agree.
\<close>

section \<open>Expansion of environment variables\<close>

definition is_ascii_alphabetic :: "char \<Rightarrow> bool" where
  "is_ascii_alphabetic c \<longleftrightarrow> (CHR ''A'' \<le> c \<and> c \<le> CHR ''Z'') \<or> (CHR ''a'' \<le> c \<and> c \<le> CHR ''z'')"

definition is_var_start :: "char \<Rightarrow> bool" where
  "is_var_start c \<longleftrightarrow> c = CHR ''_'' \<or> is_ascii_alphabetic c"

definition is_var_continue :: "char \<Rightarrow> bool" where
  "is_var_continue c \<longleftrightarrow> c = CHR ''_'' \<or> is_ascii_alphabetic c \<or> is_ascii_digit c"

definition chars_get :: "string \<Rightarrow> nat \<Rightarrow> char option" where
  "chars_get s i = (if i < length s then Some (s ! i) else None)"

text \<open>The end of the name: the first index from \<open>i\<close> on that does not continue it.\<close>

function scan_name :: "string \<Rightarrow> nat \<Rightarrow> nat" where
  "scan_name s i =
     (case chars_get s i of
        Some c \<Rightarrow> if is_var_continue c then scan_name s (i + 1) else i
      | None \<Rightarrow> i)"
  by pat_completeness auto
termination by (relation "measure (\<lambda>(s, i). length s - i)") (auto simp: chars_get_def split: if_splits)

declare scan_name.simps [simp del]

definition parse_braced_var :: "string \<Rightarrow> nat \<Rightarrow> (nat \<times> nat \<times> nat) option" where
  "parse_braced_var s start =
     (if chars_get s start \<noteq> Some CHR ''$'' \<or> chars_get s (start + 1) \<noteq> Some CHR ''{'' then None
      else case chars_get s (start + 2) of
        None \<Rightarrow> None
      | Some first \<Rightarrow>
          if \<not> is_var_start first then None
          else let end_ix = scan_name s (start + 3)
            in if chars_get s end_ix \<noteq> Some CHR ''}'' then None
               else Some (start + 2, end_ix, end_ix + 1))"

definition parse_plain_var :: "string \<Rightarrow> nat \<Rightarrow> (nat \<times> nat \<times> nat) option" where
  "parse_plain_var s start =
     (if chars_get s start \<noteq> Some CHR ''$'' then None
      else case chars_get s (start + 1) of
        None \<Rightarrow> None
      | Some first \<Rightarrow>
          if \<not> is_var_start first then None
          else let end_ix = scan_name s (start + 2) in Some (start + 1, end_ix, end_ix))"

type_synonym environment = "string \<Rightarrow> string option"

definition env_var :: "environment \<Rightarrow> string \<Rightarrow> string" where
  "env_var env name = (case env name of None \<Rightarrow> [] | Some v \<Rightarrow> v)"

definition slice :: "string \<Rightarrow> nat \<Rightarrow> nat \<Rightarrow> string" where
  "slice s i j = take (j - i) (drop i s)"

lemma scan_name_ge: "i \<le> scan_name s i"
proof (induction s i rule: scan_name.induct)
  case (1 s i)
  show ?case using 1 by (subst scan_name.simps) (fastforce split: option.split)
qed

lemma parse_braced_var_next: "parse_braced_var s i = Some (a, b, n) \<Longrightarrow> i < n \<and> i < length s"
  using scan_name_ge[of "i + 3" s]
  by (auto simp: parse_braced_var_def chars_get_def Let_def split: if_splits option.splits)

lemma parse_plain_var_next: "parse_plain_var s i = Some (a, b, n) \<Longrightarrow> i < n \<and> i < length s"
  using scan_name_ge[of "i + 2" s]
  by (auto simp: parse_plain_var_def chars_get_def Let_def split: if_splits option.splits)

function envsubst_from :: "environment \<Rightarrow> string \<Rightarrow> nat \<Rightarrow> string" where
  "envsubst_from env s index =
     (if length s \<le> index then []
      else if s ! index \<noteq> CHR ''$'' then s ! index # envsubst_from env s (index + 1)
      else case parse_braced_var s index of
        Some (name_start, name_end, next_index) \<Rightarrow>
          env_var env (slice s name_start name_end) @ envsubst_from env s next_index
      | None \<Rightarrow>
          (case parse_plain_var s index of
             Some (name_start, name_end, next_index) \<Rightarrow>
               env_var env (slice s name_start name_end) @ envsubst_from env s next_index
           | None \<Rightarrow> CHR ''$'' # envsubst_from env s (index + 1)))"
  by pat_completeness auto
termination
  by (relation "measure (\<lambda>(env, s, index). length s - index)")
     (auto dest!: parse_braced_var_next parse_plain_var_next)

declare envsubst_from.simps [simp del]

definition envsubst :: "environment \<Rightarrow> string \<Rightarrow> string" where
  "envsubst env input = envsubst_from env input 0"

section \<open>Loading\<close>

definition load_from_path ::
    "(string \<Rightarrow> app_error + string) \<Rightarrow> environment \<Rightarrow> (string \<Rightarrow> app_error + 'c) \<Rightarrow> string \<Rightarrow> app_error + 'c" where
  "load_from_path read_to_string env from_yaml path =
     bindR (read_to_string path) (\<lambda>content. from_yaml (envsubst env content))"

definition api_tls_files :: "(string \<Rightarrow> bool) \<Rightarrow> string \<Rightarrow> string \<Rightarrow> (string \<times> string) option" where
  "api_tls_files exists_file cert_path key_path =
     (if exists_file cert_path \<and> exists_file key_path then Some (cert_path, key_path) else None)"

definition database_pool_size :: "32 word option \<Rightarrow> 32 word" where
  "database_pool_size pool_size = (case pool_size of None \<Rightarrow> 10 | Some n \<Rightarrow> n)"

definition api_listen_addr :: "(string \<Rightarrow> app_error + 'a) \<Rightarrow> string \<Rightarrow> 16 word \<Rightarrow> app_error + 'a" where
  "api_listen_addr parse_addr address port = parse_addr (address @ '':'' @ show_nat (unat port))"

section \<open>Reference\<close>

text \<open>
  What the scan computes, by recursion on the text that is left: a name in braces or a name after the
  dollar sign is replaced by its value, any other dollar sign stays.
\<close>

lemma length_dropWhile_drop: "length (dropWhile P (drop n s)) \<le> length s"
  using length_dropWhile_le[of P "drop n s"] by simp

function expand :: "environment \<Rightarrow> string \<Rightarrow> string" where
  "expand env [] = []"
| "expand env (c # s) =
     (if c \<noteq> CHR ''$'' then c # expand env s
      else if (case s of b # d # t \<Rightarrow> b = CHR ''{'' \<and> is_var_start d \<and> prefix [CHR ''}''] (dropWhile is_var_continue t) | _ \<Rightarrow> False)
      then env_var env (s ! 1 # takeWhile is_var_continue (drop 2 s)) @ expand env (drop 1 (dropWhile is_var_continue (drop 2 s)))
      else if (case s of d # t \<Rightarrow> is_var_start d | _ \<Rightarrow> False)
      then env_var env (s ! 0 # takeWhile is_var_continue (drop 1 s)) @ expand env (dropWhile is_var_continue (drop 1 s))
      else CHR ''$'' # expand env s)"
  by pat_completeness auto
termination
  by (relation "measure (\<lambda>(env, s). length s)")
     (auto simp: less_Suc_eq_le intro: le_trans[OF diff_le_self] length_dropWhile_drop length_dropWhile_drop[of _ 1, simplified])

declare expand.simps(2) [simp del]

section \<open>Lemmas\<close>

lemma scan_name_takeWhile:
  "scan_name s i = i + length (takeWhile is_var_continue (drop i s))"
proof (induction s i rule: scan_name.induct)
  case (1 s i)
  show ?case
  proof (cases "i < length s")
    case True
    then have "drop i s = s ! i # drop (Suc i) s" by (rule Cons_nth_drop_Suc[symmetric])
    with True 1 show ?thesis by (subst scan_name.simps) (simp add: chars_get_def)
  qed (subst scan_name.simps, simp add: chars_get_def)
qed

lemma chars_get_drop: "chars_get s (i + n) = (case drop n (drop i s) of [] \<Rightarrow> None | c # _ \<Rightarrow> Some c)"
proof (cases "i + n < length s")
  case True
  then have "drop (i + n) s = s ! (i + n) # drop (Suc (i + n)) s" by (rule Cons_nth_drop_Suc[symmetric])
  with True show ?thesis by (simp add: chars_get_def add.commute)
qed (simp add: chars_get_def)

lemma drop_scan: "drop (scan_name s i) s = dropWhile is_var_continue (drop i s)"
  by (metis add.commute drop_drop dropWhile_eq_drop scan_name_takeWhile)

lemma slice_scan: "slice s i (scan_name s (Suc i)) = take 1 (drop i s) @ takeWhile is_var_continue (drop (Suc i) s)"
  if "i < length s"
proof -
  have "drop i s = s ! i # drop (Suc i) s" using that by (rule Cons_nth_drop_Suc[symmetric])
  then show ?thesis by (simp add: slice_def scan_name_takeWhile takeWhile_eq_take[symmetric] Suc_diff_le)
qed

definition braced_name :: "string \<Rightarrow> bool" where
  "braced_name r = (case r of b # d # t \<Rightarrow> b = CHR ''{'' \<and> is_var_start d \<and> prefix [CHR ''}''] (dropWhile is_var_continue t) | _ \<Rightarrow> False)"

definition plain_name :: "string \<Rightarrow> bool" where
  "plain_name r = (case r of d # t \<Rightarrow> is_var_start d | _ \<Rightarrow> False)"

lemma parse_braced_drop:
  assumes "drop i s = CHR ''$'' # r"
  shows "parse_braced_var s i = (if braced_name r then Some (i + 2, scan_name s (i + 3), scan_name s (i + 3) + 1) else None)"
proof -
  have get: "chars_get s i = Some CHR ''$''" "chars_get s (i + 1) = (case r of [] \<Rightarrow> None | c # _ \<Rightarrow> Some c)"
    "chars_get s (i + 2) = (case drop 1 r of [] \<Rightarrow> None | c # _ \<Rightarrow> Some c)"
    using assms chars_get_drop[of s i 0] chars_get_drop[of s i 1] chars_get_drop[of s i 2] by simp_all
  have "drop (i + 3) s = drop 3 (drop i s)" by (simp add: add.commute)
  then have "drop (i + 3) s = drop 2 r" using assms by simp
  then have "chars_get s (scan_name s (i + 3)) = (case dropWhile is_var_continue (drop 2 r) of [] \<Rightarrow> None | c # _ \<Rightarrow> Some c)"
    using chars_get_drop[of s "scan_name s (i + 3)" 0] by (simp add: drop_scan)
  with get show ?thesis
    by (auto simp: parse_braced_var_def braced_name_def Let_def prefix_def simp del: dropWhile_eq_Nil_conv split: list.splits)
qed

lemma parse_plain_drop:
  assumes "drop i s = CHR ''$'' # r"
  shows "parse_plain_var s i = (if plain_name r then Some (i + 1, scan_name s (i + 2), scan_name s (i + 2)) else None)"
  using assms chars_get_drop[of s i 0] chars_get_drop[of s i 1]
  by (auto simp: parse_plain_var_def plain_name_def Let_def split: list.splits)

lemma expand_dollar:
  "expand env (CHR ''$'' # r) =
   (if braced_name r then env_var env (take 1 (drop 1 r) @ takeWhile is_var_continue (drop 2 r))
        @ expand env (drop 1 (dropWhile is_var_continue (drop 2 r)))
    else if plain_name r then env_var env (take 1 r @ takeWhile is_var_continue (drop 1 r))
        @ expand env (dropWhile is_var_continue (drop 1 r))
    else CHR ''$'' # expand env r)"
  by (auto simp: expand.simps(2) braced_name_def plain_name_def split: list.splits)

lemma braced_name_length: "braced_name r \<Longrightarrow> 1 < length r"
  by (auto simp: braced_name_def split: list.splits)

lemma plain_name_length: "plain_name r \<Longrightarrow> 0 < length r"
  by (auto simp: plain_name_def split: list.splits)

lemma envsubst_from_expand: "envsubst_from env s i = expand env (drop i s)"
proof (induction env s i rule: envsubst_from.induct)
  case (1 env s i)
  show ?case
  proof (cases "i < length s \<and> s ! i = CHR ''$''")
    case False
    show ?thesis
    proof (cases "i < length s")
      case True
      then have "drop i s = s ! i # drop (Suc i) s" by (rule Cons_nth_drop_Suc[symmetric])
      moreover have "envsubst_from env s (i + 1) = expand env (drop (i + 1) s)" using 1(1) True False by simp
      ultimately show ?thesis using True False by (subst envsubst_from.simps) (simp add: expand.simps(2))
    qed (subst envsubst_from.simps, simp)
  next
    case True
    define r where "r = drop (Suc i) s"
    have r: "drop i s = CHR ''$'' # r" unfolding r_def using True Cons_nth_drop_Suc[of i s] by simp
    have tails: "drop (i + 2) s = drop 1 r" "drop (i + 3) s = drop 2 r" by (simp_all add: r_def numeral_3_eq_3)
    consider (braced) "braced_name r" | (plain) "\<not> braced_name r" "plain_name r" | (none) "\<not> braced_name r" "\<not> plain_name r" by blast
    then show ?thesis
    proof cases
      case braced
      have "i + 2 < length s" using braced_name_length[OF braced] by (simp add: r_def)
      then have "slice s (i + 2) (scan_name s (i + 3)) = take 1 (drop 1 r) @ takeWhile is_var_continue (drop 2 r)"
        using slice_scan[of "i + 2" s] tails by (simp add: numeral_3_eq_3)
      moreover have "envsubst_from env s (scan_name s (i + 3) + 1) = expand env (drop (scan_name s (i + 3) + 1) s)"
        using 1(4)[OF _ _ _ refl refl] True parse_braced_drop[OF r] braced by auto
      moreover have "drop (scan_name s (i + 3) + 1) s = drop 1 (dropWhile is_var_continue (drop 2 r))"
        using drop_scan[of s "i + 3"] tails by (metis drop_drop add.commute)
      ultimately show ?thesis
        using True braced parse_braced_drop[OF r] by (subst envsubst_from.simps) (simp add: r expand_dollar)
    next
      case plain
      have "i + 1 < length s" using plain_name_length[OF plain(2)] by (simp add: r_def)
      then have "slice s (i + 1) (scan_name s (i + 2)) = take 1 r @ takeWhile is_var_continue (drop 1 r)"
        using slice_scan[of "i + 1" s] tails by (simp add: r_def)
      moreover have "envsubst_from env s (scan_name s (i + 2)) = expand env (drop (scan_name s (i + 2)) s)"
        using 1(3)[OF _ _ _ _ refl refl] True parse_braced_drop[OF r] parse_plain_drop[OF r] plain by auto
      ultimately show ?thesis
        using True plain parse_braced_drop[OF r] parse_plain_drop[OF r] drop_scan[of s "i + 2"] tails
        by (subst envsubst_from.simps) (simp add: r expand_dollar)
    next
      case none
      have "envsubst_from env s (i + 1) = expand env (drop (i + 1) s)"
        using 1(2) True parse_braced_drop[OF r] parse_plain_drop[OF r] none by simp
      then show ?thesis
        using True none parse_braced_drop[OF r] parse_plain_drop[OF r]
        by (subst envsubst_from.simps) (simp add: r expand_dollar r_def)
    qed
  qed
qed

lemma expand_literal: "CHR ''$'' \<notin> set lit \<Longrightarrow> expand env (lit @ s) = lit @ expand env s"
  by (induction lit) (auto simp: expand.simps(2))

definition var_name :: "string \<Rightarrow> bool" where
  "var_name name = (name \<noteq> [] \<and> is_var_start (hd name) \<and> list_all is_var_continue (tl name))"

lemma takeWhile_all: "list_all P t \<Longrightarrow> takeWhile P (t @ s) = t @ takeWhile P s" "list_all P t \<Longrightarrow> dropWhile P (t @ s) = dropWhile P s"
  by (induction t) auto

lemma brace_ends_name: "\<not> is_var_continue CHR ''}''"
  by (simp add: is_var_continue_def is_ascii_alphabetic_def is_ascii_digit_def less_eq_char_def)

lemma expand_braced: "var_name name \<Longrightarrow> expand env (''${'' @ name @ ''}'' @ s) = env_var env name @ expand env s"
  by (cases name) (auto simp: expand_dollar braced_name_def var_name_def takeWhile_all brace_ends_name)

lemma expand_plain:
  "var_name name \<Longrightarrow> s = [] \<or> \<not> is_var_continue (hd s) \<Longrightarrow> expand env (''$'' @ name @ s) = env_var env name @ expand env s"
proof -
  assume name: "var_name name" and s: "s = [] \<or> \<not> is_var_continue (hd s)"
  from name obtain d t where nm: "name = d # t" "is_var_start d" "list_all is_var_continue t"
    by (cases name) (auto simp: var_name_def)
  moreover have "d \<noteq> CHR ''{''" using nm(2) by (auto simp: is_var_start_def is_ascii_alphabetic_def less_eq_char_def)
  moreover have "takeWhile is_var_continue s = []" "dropWhile is_var_continue s = s" using s by (cases s; simp)+
  ultimately show ?thesis by (simp add: expand_dollar braced_name_def plain_name_def takeWhile_all split: list.split)
qed

section \<open>Properties\<close>

text \<open>
  C36: expansion, done with indices into the text, always ends and computes the recursive reference: it makes one
  pass, replaces each \<open>$NAME\<close> and \<open>${NAME}\<close> by the value of the variable or nothing, and keeps every
  other dollar sign. In particular \<open>${NAME:-default}\<close> is kept as it stands, whether the variable is set or not, although
  the configuration files use it.
\<close>

theorem envsubst_is_expand:
  "envsubst env input = expand env input
   \<and> (var_name name \<and> CHR ''$'' \<notin> set fallback \<longrightarrow>
        envsubst env (''${'' @ name @ '':-'' @ fallback @ ''}'' @ rest) = ''${'' @ name @ '':-'' @ fallback @ ''}'' @ envsubst env rest)"
proof (intro conjI impI)
  show expand: "envsubst env input = expand env input" for input by (simp add: envsubst_def envsubst_from_expand)
  assume default: "var_name name \<and> CHR ''$'' \<notin> set fallback"
  let ?r = "''{'' @ name @ '':-'' @ fallback @ ''}'' @ rest"
  have "\<not> is_var_continue CHR '':''" "\<not> is_var_start CHR ''{''" "\<not> is_var_continue CHR ''$''"
    by (simp_all add: is_var_continue_def is_var_start_def is_ascii_alphabetic_def is_ascii_digit_def less_eq_char_def)
  moreover from default obtain d t where nm: "name = d # t" "is_var_start d" "list_all is_var_continue t"
    by (cases name) (auto simp: var_name_def)
  ultimately have "\<not> braced_name ?r" "\<not> plain_name ?r" "CHR ''$'' \<notin> set name"
    by (auto simp: braced_name_def plain_name_def takeWhile_all list_all_iff is_var_start_def is_var_continue_def
        split: list.splits)
  with default expand_literal[of "''{'' @ name @ '':-'' @ fallback @ ''}''" env rest]
  show "envsubst env (''${'' @ name @ '':-'' @ fallback @ ''}'' @ rest) = ''${'' @ name @ '':-'' @ fallback @ ''}'' @ envsubst env rest"
    by (simp add: expand expand_dollar)
qed

text \<open>
  Literal text is kept, a braced variable is replaced by its value, which is not expanded again, and
  the rest is expanded as on its own; the same holds of a plain variable that a character outside
  names or the end of the text follows.
\<close>

lemma envsubst_variable:
  assumes "CHR ''$'' \<notin> set lit" "var_name name"
  shows "envsubst env (lit @ ''${'' @ name @ ''}'' @ rest) = lit @ env_var env name @ envsubst env rest
    \<and> (rest = [] \<or> \<not> is_var_continue (hd rest) \<longrightarrow>
         envsubst env (lit @ ''$'' @ name @ rest) = lit @ env_var env name @ envsubst env rest)"
  using expand_literal[OF assms(1)] expand_braced[OF assms(2)] expand_plain[OF assms(2)]
  by (simp add: envsubst_def envsubst_from_expand)

section \<open>Witness\<close>

theorem envsubst_is_expand_witness:
  "envsubst (\<lambda>_. Some ''8080'') (''${'' @ ''PORT'' @ '':-'' @ ''80'' @ ''}'' @ '' # ${PORT}'') = ''${PORT:-80} # 8080''"
proof -
  have "var_name ''PORT''" by code_simp
  moreover have "envsubst (\<lambda>_. Some ''8080'') '' # ${PORT}'' = '' # 8080''" by code_simp
  ultimately show ?thesis
    using envsubst_is_expand[of "\<lambda>_. Some ''8080''" "[]" "''PORT''" "''80''" "'' # ${PORT}''"] by simp
qed

lemma envsubst_variable_witness:
  "envsubst (\<lambda>n. if n = ''DB'' then Some ''$x'' else None) (''url: '' @ ''${'' @ ''DB'' @ ''}'' @ ''/${A:-b}'')
   = ''url: '' @ ''$x'' @ ''/${A:-b}''"
proof -
  have "CHR ''$'' \<notin> set ''url: ''" "var_name ''DB''" by (simp, code_simp)
  from envsubst_variable[OF this, of "\<lambda>n. if n = ''DB'' then Some ''$x'' else None" "''/${A:-b}''"]
  have "envsubst (\<lambda>n. if n = ''DB'' then Some ''$x'' else None) (''url: '' @ ''${'' @ ''DB'' @ ''}'' @ ''/${A:-b}'')
    = ''url: '' @ ''$x'' @ envsubst (\<lambda>n. if n = ''DB'' then Some ''$x'' else None) ''/${A:-b}''"
    by (simp add: env_var_def)
  moreover have "envsubst (\<lambda>n. if n = ''DB'' then Some ''$x'' else None) ''/${A:-b}'' = ''/${A:-b}''" by code_simp
  ultimately show ?thesis by (simp only:)
qed

end
