(* ===== verification/Import_Export.thy ===== *)
theory Import_Export
  imports Flow_Registry Env_Config
begin

text \<open>
  Start-up and the import and export commands: \<open>load_from_fs\<close> and \<open>load_embedded\<close> of the loader,
  \<open>load_yaml_configs\<close> and \<open>build_registry\<close> of the server with its imports, and \<open>load_imports\<close>,
  \<open>parse_import_file\<close> and \<open>run_export\<close> of \<open>bins/backend/src/main.rs\<close>. The file system, the
  parsers and the printer are parameters.
\<close>

section \<open>Files and parsers\<close>

text \<open>
  Reading a directory gives its entries, each of which may be an error; a glob pattern may be
  malformed. The errors are those the code converts them to.
\<close>

record file_system =
  fs_exists :: "string \<Rightarrow> bool"
  fs_is_dir :: "string \<Rightarrow> bool"
  fs_is_file :: "string \<Rightarrow> bool"
  fs_read_dir :: "string \<Rightarrow> app_error + (app_error + string) list"
  fs_read :: "string \<Rightarrow> string + string"
  fs_io_error :: "string \<Rightarrow> app_error"
  fs_glob_error :: "string \<Rightarrow> string \<Rightarrow> string option"
  fs_glob :: "string \<Rightarrow> string \<Rightarrow> string list"

record parsers =
  px_value :: "import_format \<Rightarrow> string \<Rightarrow> string + json"
  px_flow :: "import_format \<Rightarrow> string \<Rightarrow> string + flow_definition"
  px_session :: "import_format \<Rightarrow> string \<Rightarrow> string + session_definition"

section \<open>Loading configurations\<close>

record registry_imports =
  ri_flows :: "flow_definition list"
  ri_sessions :: "session_definition list"
  ri_flows_dir :: "string option"
  ri_sessions_dir :: "string option"

definition no_imports :: registry_imports where
  "no_imports = \<lparr>ri_flows = [], ri_sessions = [], ri_flows_dir = None, ri_sessions_dir = None\<rparr>"

definition no_configs :: loaded_configs where
  "no_configs = \<lparr>lc_flows = [], lc_sessions = []\<rparr>"

definition check_globs :: "file_system \<Rightarrow> string \<Rightarrow> flow_error + unit" where
  "check_globs F dir =
     check_each (\<lambda>pat. map_option (\<lambda>e. InvalidDefinition (''Invalid glob pattern '' @ quoted (dir @ ''/'' @ pat) @ '': '' @ e))
         (fs_glob_error F dir pat)) [''*.yaml'', ''*.yml'', ''*.json'']"

definition load_from_fs :: "file_system \<Rightarrow> environment \<Rightarrow> parsers \<Rightarrow> string \<Rightarrow> string \<Rightarrow> flow_error + loaded_configs" where
  "load_from_fs F env px flows_dir sessions_dir =
     bindR (if fs_exists F flows_dir
            then bindR (check_globs F flows_dir) (\<lambda>_.
              Inr (load_flows_from_dir (fs_glob F flows_dir) (fs_read F) (envsubst env) (px_flow px)))
            else Inr []) (\<lambda>flows.
     bindR (if fs_exists F sessions_dir
            then bindR (check_globs F sessions_dir) (\<lambda>_.
              Inr (load_sessions_from_dir (fs_glob F sessions_dir) (fs_read F) (envsubst env) (px_session px)))
            else Inr []) (\<lambda>sessions.
     Inr \<lparr>lc_flows = flows, lc_sessions = sessions\<rparr>))"

text \<open>The embedded directories: paths with their contents when these are UTF-8.\<close>

definition load_embedded ::
    "parsers \<Rightarrow> (string \<times> string option) list \<Rightarrow> (string \<times> string option) list \<Rightarrow> loaded_configs" where
  "load_embedded px flows sessions =
     \<lparr>lc_flows = keep_ok (\<lambda>(path, content). import_flow_definition (px_flow px) content (import_format_from_path path))
        (concat (map (\<lambda>(path, c). case c of None \<Rightarrow> [] | Some t \<Rightarrow> [(path, t)]) flows)),
      lc_sessions = keep_ok (\<lambda>(path, content). import_session_definition (px_session px) content (import_format_from_path path))
        (concat (map (\<lambda>(path, c). case c of None \<Rightarrow> [] | Some t \<Rightarrow> [(path, t)]) sessions))\<rparr>"

definition load_yaml_configs :: "file_system \<Rightarrow> environment \<Rightarrow> parsers \<Rightarrow> registry_imports \<Rightarrow> loaded_configs" where
  "load_yaml_configs F env px imports =
     (case load_from_fs F env px
             (case ri_flows_dir imports of None \<Rightarrow> ''flows'' | Some d \<Rightarrow> d)
             (case ri_sessions_dir imports of None \<Rightarrow> ''sessions'' | Some d \<Rightarrow> d) of
        Inr configs \<Rightarrow> configs
      | Inl _ \<Rightarrow> no_configs)"

definition server_registry ::
    "file_system \<Rightarrow> environment \<Rightarrow> parsers \<Rightarrow> (string \<times> 'st) list \<Rightarrow> registry_imports \<Rightarrow> flow_error + 'st flow_registry" where
  "server_registry F env px builtins imports =
     build_registry builtins (load_yaml_configs F env px imports)
       \<lparr>lc_flows = ri_flows imports, lc_sessions = ri_sessions imports\<rparr>"

section \<open>Import\<close>

definition server_error :: "flow_error \<Rightarrow> app_error" where
  "server_error e = Server (flow_error_display e)"

definition has_key :: "string \<Rightarrow> json \<Rightarrow> bool" where
  "has_key k v = (case v of JObject m \<Rightarrow> map_of m k \<noteq> None | _ \<Rightarrow> False)"

definition parse_import_file :: "file_system \<Rightarrow> parsers \<Rightarrow> registry_imports \<Rightarrow> string \<Rightarrow> app_error + registry_imports" where
  "parse_import_file F px imports path =
     bindR (map_errR (fs_io_error F) (fs_read F path)) (\<lambda>content.
     let format = import_format_from_path path in
     bindR (map_errR Server (px_value px format content)) (\<lambda>parsed.
       if has_key ''flow_type'' parsed
       then bindR (map_errR server_error (import_flow_definition (px_flow px) content format)) (\<lambda>fd.
              Inr (imports\<lparr>ri_flows := ri_flows imports @ [fd]\<rparr>))
       else if has_key ''session_type'' parsed
       then bindR (map_errR server_error (import_session_definition (px_session px) content format)) (\<lambda>sd.
              Inr (imports\<lparr>ri_sessions := ri_sessions imports @ [sd]\<rparr>))
       else Inl (bad_request ''UNSUPPORTED_IMPORT_FORMAT'' ''Expected flow_type or session_type field'')))"

definition importable :: "file_system \<Rightarrow> string \<Rightarrow> bool" where
  "importable F path \<longleftrightarrow> fs_is_file F path
     \<and> (case path_extension path of
          None \<Rightarrow> False
        | Some ext \<Rightarrow> eq_ignore_ascii_case ext ''json'' \<or> eq_ignore_ascii_case ext ''yaml'' \<or> eq_ignore_ascii_case ext ''yml'')"

definition import_entry :: "file_system \<Rightarrow> parsers \<Rightarrow> registry_imports \<Rightarrow> app_error + string \<Rightarrow> app_error + registry_imports" where
  "import_entry F px imports entry =
     bindR entry (\<lambda>path. if importable F path then parse_import_file F px imports path else Inr imports)"

definition load_imports :: "file_system \<Rightarrow> parsers \<Rightarrow> string \<Rightarrow> app_error + registry_imports" where
  "load_imports F px path =
     (if fs_is_dir F path
      then bindR (fs_read_dir F path) (\<lambda>entries. fold_res (import_entry F px) no_imports entries)
      else parse_import_file F px no_imports path)"

section \<open>Export\<close>

datatype export_format = ExportJson | ExportYaml

definition export_step :: "'st dynamic_flow \<Rightarrow> 'st proxy_step \<Rightarrow> flow_step_definition" where
  "export_step f s =
     \<lparr>fsd_action = ps_step_type s, fsd_actor = ps_actor s, fsd_config = None, fsd_retry = None, fsd_next = None,
      fsd_ok = map_option tr_on_success (map_of (df_transitions f) (ps_step_type s)),
      fsd_fail = Option.bind (map_of (df_transitions f) (ps_step_type s)) tr_on_failure,
      fsd_branches = []\<rparr>"

definition export_flow :: "'st dynamic_flow \<Rightarrow> flow_definition" where
  "export_flow f =
     \<lparr>fd_flow_type = df_flow_type f, fd_human_id_prefix = df_human_id f, fd_feature = df_feature f,
      fd_initial_step = df_initial_step f,
      fd_steps = foldl (\<lambda>m s. hm_insert (ps_step_type s) (export_step f s) m) [] (df_steps f)\<rparr>"

definition flow_types :: "'st flow_registry \<Rightarrow> string list" where
  "flow_types r = sort (map fst (fr_flows r))"

definition registry_sessions :: "'st flow_registry \<Rightarrow> session_definition list" where
  "registry_sessions r = sort_key sd_session_type (map snd (fr_sessions r))"

definition export_flows :: "'st flow_registry \<Rightarrow> flow_definition list" where
  "export_flows r = concat (map (\<lambda>t. case get_flow r t of None \<Rightarrow> [] | Some f \<Rightarrow> [export_flow f]) (flow_types r))"

datatype export_payload = OneFlow flow_definition | OneSession session_definition | Bundle "flow_definition list" "session_definition list"

definition export_format_of :: "string option \<Rightarrow> export_format" where
  "export_format_of out =
     (case Option.bind out path_extension of
        Some ext \<Rightarrow> if eq_ignore_ascii_case ext ''json'' then ExportJson else ExportYaml
      | None \<Rightarrow> ExportYaml)"

definition select_export ::
    "'st flow_registry \<Rightarrow> string option \<Rightarrow> bool \<Rightarrow> app_error + flow_definition list \<times> session_definition list" where
  "select_export r target everything =
     (let flows = export_flows r; sessions = registry_sessions r;
          (fs, ss) = (case target of
             Some t \<Rightarrow>
               if everything then (flows, sessions)
               else (filter (\<lambda>d. eq_ignore_ascii_case (fd_flow_type d) t) flows,
                     filter (\<lambda>s. eq_ignore_ascii_case (sd_session_type s) t) sessions)
           | None \<Rightarrow> (flows, sessions))
      in if fs = [] \<and> ss = [] then Inl (not_found ''DEFINITION_NOT_FOUND'' ''No matching flow or session definitions found'')
         else Inr (fs, ss))"

text \<open>
  \<open>run_export\<close>: the format and the text that is written to the output file or printed. The
  registry is that of the default directories.
\<close>

definition run_export ::
    "file_system \<Rightarrow> environment \<Rightarrow> parsers \<Rightarrow> (string \<times> 'st) list \<Rightarrow> (export_format \<Rightarrow> export_payload \<Rightarrow> flow_error + string)
     \<Rightarrow> string option \<Rightarrow> bool \<Rightarrow> string option \<Rightarrow> app_error + string" where
  "run_export F env px builtins print target everything out =
     bindR (map_errR server_error (server_registry F env px builtins no_imports)) (\<lambda>r.
     bindR (select_export r target everything) (\<lambda>(fs, ss).
     map_errR server_error (print (export_format_of out)
       (if length fs = 1 \<and> ss = [] then OneFlow (fs ! 0)
        else if length ss = 1 \<and> fs = [] then OneSession (ss ! 0)
        else Bundle fs ss))))"

section \<open>Lemmas\<close>

lemma import_flow_closed:
  "import_flow_definition parse content format = Inr fd \<Longrightarrow> validate_flow_definition fd = Inr ()"
  by (auto simp: import_flow_definition_def bindR_Inr_iff)

lemma import_session_named:
  "import_session_definition parse content format = Inr sd \<Longrightarrow> trim (sd_session_type sd) \<noteq> []"
  by (auto simp: import_session_definition_def bindR_Inr_iff split: if_splits)

definition valid_imports :: "registry_imports \<Rightarrow> bool" where
  "valid_imports i \<longleftrightarrow> list_all (\<lambda>fd. validate_flow_definition fd = Inr ()) (ri_flows i)
     \<and> list_all (\<lambda>sd. trim (sd_session_type sd) \<noteq> []) (ri_sessions i)"

lemma parse_import_file_valid:
  "parse_import_file F px i path = Inr i' \<Longrightarrow> valid_imports i \<Longrightarrow> valid_imports i'"
  by (auto simp: parse_import_file_def bindR_Inr_iff Let_def valid_imports_def
      dest: import_flow_closed import_session_named split: if_splits)

lemma fold_import_valid:
  "fold_res (import_entry F px) i es = Inr i' \<Longrightarrow> valid_imports i \<Longrightarrow> valid_imports i'"
proof (induction es arbitrary: i)
  case (Cons e es)
  then obtain i1 where "import_entry F px i e = Inr i1" "fold_res (import_entry F px) i1 es = Inr i'"
    by (auto simp: bindR_Inr_iff)
  moreover from this(1) Cons.prems(2) have "valid_imports i1"
    by (auto simp: import_entry_def bindR_Inr_iff intro: parse_import_file_valid split: if_splits)
  ultimately show ?case using Cons.IH by blast
qed simp

lemma load_imports_valid: "load_imports F px path = Inr i \<Longrightarrow> valid_imports i"
proof -
  have "valid_imports no_imports" by (simp add: valid_imports_def no_imports_def)
  then show "load_imports F px path = Inr i \<Longrightarrow> ?thesis"
    by (auto simp: load_imports_def bindR_Inr_iff intro: fold_import_valid parse_import_file_valid split: if_splits)
qed

lemma map_of_foldl_hm_insert:
  "map_of (foldl (\<lambda>m s. hm_insert (key s) (g s) m) m xs) k
   = (case List.find (\<lambda>s. key s = k) (rev xs) of Some s \<Rightarrow> Some (g s) | None \<Rightarrow> map_of m k)"
  by (induction xs rule: rev_induct) auto

lemma foldl_hm_insert_entries:
  "e \<in> set (foldl (\<lambda>m s. hm_insert (key s) (g s) m) m xs) \<Longrightarrow> e \<in> set m \<or> (\<exists>s\<in>set xs. e = (key s, g s))"
  by (induction xs arbitrary: m) (fastforce simp: hm_insert_def)+

lemma foldl_hm_insert_keys:
  "fst ` set (foldl (\<lambda>m s. hm_insert (key s) (g s) m) m xs) = fst ` set m \<union> key ` set xs"
  by (induction xs arbitrary: m) (auto simp: hm_insert_def image_iff)

lemma proxy_steps_of_iff:
  "(\<exists>ps. proxy_steps_of r ft steps = Inr ps) \<longleftrightarrow> list_all (\<lambda>(name, s). get_step_arc r (fsd_action s) \<noteq> None) steps"
  by (induction steps) (auto simp: bindR_Inr_iff split: option.splits)

lemma keep_ok_in: "y \<in> set (keep_ok f xs) \<longleftrightarrow> (\<exists>x\<in>set xs. f x = Inr y)"
  by (auto simp: keep_ok_def split: sum.splits) force

lemma yaml_flows_valid:
  "fd \<in> set (lc_flows (load_yaml_configs F env px imports)) \<Longrightarrow> validate_flow_definition fd = Inr ()"
  by (auto simp: load_yaml_configs_def load_from_fs_def no_configs_def bindR_Inr_iff load_flows_from_dir_def keep_ok_in
      load_flow_file_def dest: import_flow_closed split: sum.splits if_splits)

lemma yaml_sessions_named:
  "sd \<in> set (lc_sessions (load_yaml_configs F env px imports)) \<Longrightarrow> trim (sd_session_type sd) \<noteq> []"
  by (auto simp: load_yaml_configs_def load_from_fs_def no_configs_def bindR_Inr_iff load_sessions_from_dir_def keep_ok_in
      load_session_file_def dest: import_session_named split: sum.splits if_splits)

text \<open>The sessions of a registry: those of the files, the last of each type, and the imported ones.\<close>

lemma foldl_register_session_lookup:
  "get_session_definition (foldl register_session r sds) t
   = (case List.find (\<lambda>sd. sd_session_type sd = t) (rev sds) of Some sd \<Rightarrow> Some sd | None \<Rightarrow> get_session_definition r t)"
  by (induction sds rule: rev_induct) (auto simp: get_session_definition_def register_session_def)

lemma apply_sessions_lookup:
  assumes "fold_res apply_session_import r sds = Inr r'"
  shows "distinct (map sd_session_type sds) \<and> (\<forall>sd\<in>set sds. get_session_definition r (sd_session_type sd) = None)
    \<and> (\<forall>t. get_session_definition r' t
        = (case List.find (\<lambda>sd. sd_session_type sd = t) (rev sds) of Some sd \<Rightarrow> Some sd | None \<Rightarrow> get_session_definition r t))"
  using assms
proof (induction sds arbitrary: r)
  case (Cons sd sds)
  then have new: "get_session_definition r (sd_session_type sd) = None"
    and rest: "fold_res apply_session_import (register_session r sd) sds = Inr r'"
    by (auto simp: bindR_Inr_iff apply_session_import_def[of r sd] split: if_splits)
  have one: "get_session_definition (register_session r sd) t = (if t = sd_session_type sd then Some sd else get_session_definition r t)" for t
    by (simp add: get_session_definition_def register_session_def)
  from Cons.IH[OF rest] have ih: "distinct (map sd_session_type sds)"
    "\<forall>x\<in>set sds. sd_session_type x \<noteq> sd_session_type sd \<and> get_session_definition r (sd_session_type x) = None"
    "\<forall>t. get_session_definition r' t = (case List.find (\<lambda>sd. sd_session_type sd = t) (rev sds) of
        Some x \<Rightarrow> Some x | None \<Rightarrow> if t = sd_session_type sd then Some sd else get_session_definition r t)"
    by (auto simp: one split: if_splits option.split)
  have app: "List.find P (xs @ [x]) = (case List.find P xs of Some y \<Rightarrow> Some y | None \<Rightarrow> if P x then Some x else None)"
    for P and xs :: "session_definition list" and x by (induction xs) auto
  from ih(1,2) have "distinct (map sd_session_type (sd # sds))" by auto
  with new ih(2,3) show ?case by (auto simp: app split: option.splits)
qed simp

lemma register_flows_sessions:
  "fold_res register_flow_definition r fds = Inr r' \<Longrightarrow> get_session_definition r' t = get_session_definition r t"
  by (induction fds arbitrary: r) (auto simp: bindR_Inr_iff register_flow_definition_def split: if_splits)

lemma build_registry_sessions:
  assumes "build_registry builtins yaml imports = Inr r"
  shows "distinct (map sd_session_type (lc_sessions imports))
    \<and> sd_session_type ` set (lc_sessions yaml) \<inter> sd_session_type ` set (lc_sessions imports) = {}
    \<and> (\<forall>t. get_session_definition r t = List.find (\<lambda>sd. sd_session_type sd = t) (rev (lc_sessions yaml @ lc_sessions imports)))"
proof -
  let ?r0 = "foldl (\<lambda>r (name, st). register_step r name st) empty_registry builtins"
  from assms obtain r1 r3 where
    a: "fold_res register_flow_definition ?r0 (lc_flows yaml) = Inr r1"
    and b: "fold_res register_flow_definition (foldl register_session r1 (lc_sessions yaml)) (lc_flows imports) = Inr r3"
    and c: "fold_res apply_session_import r3 (lc_sessions imports) = Inr r"
    by (auto simp: build_registry_def Let_def bindR_Inr_iff)
  have "get_session_definition ?r0 t = None" for t
    by (induction builtins rule: rev_induct) (auto simp: get_session_definition_def register_step_def empty_registry_def)
  then have r3: "get_session_definition r3 t = List.find (\<lambda>sd. sd_session_type sd = t) (rev (lc_sessions yaml))" for t
    using register_flows_sessions[OF a] register_flows_sessions[OF b] by (simp add: foldl_register_session_lookup split: option.split)
  have app: "List.find P (xs @ ys) = (case List.find P xs of Some y \<Rightarrow> Some y | None \<Rightarrow> List.find P ys)"
    for P and xs ys :: "session_definition list" by (induction xs) auto
  from apply_sessions_lookup[OF c] r3 show ?thesis
    by (auto simp: app find_None_iff split: option.splits)
qed

text \<open>The proxies of a flow have the names and actors of its steps, in their order.\<close>

lemma registered_flow_shape:
  assumes "register_flow_definition r fd = Inr r'" "get_flow r' (fd_flow_type fd) = Some f"
  shows "df_flow_type f = fd_flow_type fd \<and> df_human_id f = fd_human_id_prefix fd \<and> df_feature f = fd_feature fd
    \<and> df_initial_step f = fd_initial_step fd
    \<and> df_transitions f = map (\<lambda>(name, s). (name, transition_of s)) (fd_steps fd)
    \<and> map (\<lambda>p. (ps_step_type p, ps_actor p)) (df_steps f) = map (\<lambda>(name, s). (name, fsd_actor s)) (fd_steps fd)"
proof -
  have "proxy_steps_of r ft steps = Inr ps \<Longrightarrow>
      map (\<lambda>p. (ps_step_type p, ps_actor p)) ps = map (\<lambda>(name, s). (name, fsd_actor s)) steps" for ft steps ps
    by (induction r ft steps arbitrary: ps rule: proxy_steps_of.induct)
       (auto simp: bindR_Inr_iff proxy_of_def split: option.splits)
  with assms show ?thesis
    by (auto simp: register_flow_definition_def bindR_Inr_iff split: if_splits)
qed

definition exported_step :: "string \<Rightarrow> flow_step_definition \<Rightarrow> flow_step_definition" where
  "exported_step name s = \<lparr>fsd_action = name, fsd_actor = fsd_actor s, fsd_config = None, fsd_retry = None, fsd_next = None,
     fsd_ok = Some (tr_on_success (transition_of s)), fsd_fail = fsd_fail s, fsd_branches = []\<rparr>"

lemma export_step_of_definition:
  assumes "distinct (map fst (fd_steps fd))" "register_flow_definition r fd = Inr r'" "get_flow r' (fd_flow_type fd) = Some f"
    "p \<in> set (df_steps f)"
  shows "\<exists>s. map_of (fd_steps fd) (ps_step_type p) = Some s \<and> export_step f p = exported_step (ps_step_type p) s"
proof -
  note shape = registered_flow_shape[OF assms(2,3)]
  from assms(4) have "(ps_step_type p, ps_actor p) \<in> set (map (\<lambda>p. (ps_step_type p, ps_actor p)) (df_steps f))" by auto
  then obtain s where s: "(ps_step_type p, s) \<in> set (fd_steps fd)" "ps_actor p = fsd_actor s"
    unfolding shape[THEN conjunct2, THEN conjunct2, THEN conjunct2, THEN conjunct2, THEN conjunct2] by auto
  then have found: "map_of (fd_steps fd) (ps_step_type p) = Some s" using assms(1) by simp
  with shape have "map_of (df_transitions f) (ps_step_type p) = Some (transition_of s)" by (simp add: map_of_transitions)
  moreover have "tr_on_failure (transition_of s) = fsd_fail s" by (simp add: transition_of_def)
  ultimately show ?thesis using found s(2) by (simp add: export_step_def exported_step_def)
qed

lemma export_lookup:
  assumes "distinct (map fst (fd_steps fd))" "register_flow_definition r fd = Inr r'" "get_flow r' (fd_flow_type fd) = Some f"
  shows "map_of (fd_steps (export_flow f)) name = map_option (exported_step name) (map_of (fd_steps fd) name)"
proof (cases "List.find (\<lambda>p. ps_step_type p = name) (rev (df_steps f))")
  case (Some p)
  then have "p \<in> set (df_steps f)" "ps_step_type p = name" by (auto simp: find_Some_iff) (metis length_rev nth_mem set_rev)
  moreover obtain s where "map_of (fd_steps fd) (ps_step_type p) = Some s" "export_step f p = exported_step (ps_step_type p) s"
    using export_step_of_definition[OF assms \<open>p \<in> set (df_steps f)\<close>] by blast
  ultimately show ?thesis using Some by (simp add: export_flow_def map_of_foldl_hm_insert)
next
  case None
  then have "name \<notin> ps_step_type ` set (df_steps f)" by (auto simp: find_None_iff)
  moreover have "ps_step_type ` set (df_steps f) = fst ` set (fd_steps fd)"
  proof -
    have "map fst (map (\<lambda>p. (ps_step_type p, ps_actor p)) (df_steps f)) = map fst (map (\<lambda>(name, s). (name, fsd_actor s)) (fd_steps fd))"
      using registered_flow_shape[OF assms(2,3)] by simp
    then have "map ps_step_type (df_steps f) = map fst (fd_steps fd)" by (simp add: comp_def case_prod_beta)
    then show ?thesis by (metis set_map)
  qed
  ultimately have "map_of (fd_steps fd) name = None" by (simp add: map_of_eq_None_iff)
  with None show ?thesis by (simp add: export_flow_def map_of_foldl_hm_insert)
qed

lemma export_entries:
  assumes "distinct (map fst (fd_steps fd))" "register_flow_definition r fd = Inr r'" "get_flow r' (fd_flow_type fd) = Some f"
    "(name, s) \<in> set (fd_steps (export_flow f))"
  shows "fsd_action s = name"
  using assms(4) foldl_hm_insert_entries[of "(name, s)" ps_step_type "export_step f" "[]" "df_steps f"]
  by (auto simp: export_flow_def export_step_def)

section \<open>Properties\<close>


text \<open>
  Exporting a registered flow keeps its type, its prefix, its initial step, the names and actors of its steps
  and where each step leads on success and on failure, and drops configuration, retries and
  branches. It writes the name of a step as its action, so the exported definition registers again
  only where every step is named after a registered action.
\<close>

lemma export_reimport:
  assumes "distinct (map fst (fd_steps fd))" "register_flow_definition r fd = Inr r'" "get_flow r' (fd_flow_type fd) = Some f"
  shows "fd_flow_type (export_flow f) = fd_flow_type fd \<and> fd_human_id_prefix (export_flow f) = fd_human_id_prefix fd
    \<and> fd_initial_step (export_flow f) = fd_initial_step fd
    \<and> (\<forall>name. map_of (fd_steps (export_flow f)) name = map_option (exported_step name) (map_of (fd_steps fd) name))
    \<and> ((\<exists>r''. register_flow_definition r (export_flow f) = Inr r'')
        = list_all (\<lambda>(name, s). get_step_arc r name \<noteq> None) (fd_steps fd))"
proof -
  have names: "fst ` set (fd_steps (export_flow f)) = fst ` set (fd_steps fd)"
    unfolding dom_map_of_conv_image_fst[symmetric] using export_lookup[OF assms] by (auto simp: dom_def)
  have "get_flow r (fd_flow_type fd) = None" using assms(2) by (auto simp: register_flow_definition_def split: if_splits)
  then have "(\<exists>r''. register_flow_definition r (export_flow f) = Inr r'')
      \<longleftrightarrow> (\<exists>ps. proxy_steps_of r (fd_flow_type fd) (fd_steps (export_flow f)) = Inr ps)"
    using registered_flow_shape[OF assms(2,3)]
    by (auto simp: register_flow_definition_def bindR_Inr_iff export_flow_def)
  also have "\<dots> \<longleftrightarrow> (\<forall>name\<in>fst ` set (fd_steps (export_flow f)). get_step_arc r name \<noteq> None)"
    unfolding proxy_steps_of_iff using export_entries[OF assms] by (force simp: list_all_iff)
  also have "\<dots> \<longleftrightarrow> list_all (\<lambda>(name, s). get_step_arc r name \<noteq> None) (fd_steps fd)"
    unfolding names by (auto simp: list_all_iff)
  finally have again: "(\<exists>r''. register_flow_definition r (export_flow f) = Inr r'')
    \<longleftrightarrow> list_all (\<lambda>(name, s). get_step_arc r name \<noteq> None) (fd_steps fd)" .
  have "fd_flow_type (export_flow f) = fd_flow_type fd \<and> fd_human_id_prefix (export_flow f) = fd_human_id_prefix fd
      \<and> fd_initial_step (export_flow f) = fd_initial_step fd"
    using registered_flow_shape[OF assms(2,3)] by (simp add: export_flow_def)
  with again export_lookup[OF assms] show ?thesis by blast
qed

section \<open>Witnesses\<close>

definition example_files :: file_system where
  "example_files = \<lparr>fs_exists = (\<lambda>_. False), fs_is_dir = (\<lambda>_. False), fs_is_file = (\<lambda>_. True), fs_read_dir = (\<lambda>_. Inr []),
     fs_read = (\<lambda>_. Inr ''flow''), fs_io_error = Server, fs_glob_error = (\<lambda>_ _. None), fs_glob = (\<lambda>_ _. [])\<rparr>"

definition example_parsers :: parsers where
  "example_parsers = \<lparr>px_value = (\<lambda>_ _. Inr (JObject [(''flow_type'', JString ''PHONE'')])),
     px_flow = (\<lambda>_ _. Inr example_definition), px_session = (\<lambda>_ _. Inl ''no session'')\<rparr>"

definition example_import :: registry_imports where
  "example_import = no_imports\<lparr>ri_flows := [example_definition]\<rparr>"

lemma example_load: "load_imports example_files example_parsers ''flow.yaml'' = Inr example_import"
  by code_simp

lemma example_start:
  "case server_registry example_files (\<lambda>_. None) example_parsers [(''NOOP'', 0::nat)]
     (example_import\<lparr>ri_flows_dir := Some ''flows'', ri_sessions_dir := Some ''sessions''\<rparr>) of Inr _ \<Rightarrow> True | _ \<Rightarrow> False"
  by code_simp


lemma export_reimport_witness:
  "\<exists>r' f. register_flow_definition example_registry example_definition = Inr r' \<and> get_flow r' ''TEST_FLOW'' = Some f
     \<and> fd_initial_step (export_flow f) = ''start'' \<and> (\<nexists>r''. register_flow_definition example_registry (export_flow f) = Inr r'')"
proof -
  have ft: "fd_flow_type example_definition = ''TEST_FLOW''" by (simp add: example_definition_def)
  obtain r' f where r: "register_flow_definition example_registry example_definition = Inr r'" "get_flow r' ''TEST_FLOW'' = Some f"
    by (simp add: register_flow_definition_def example_registry_def example_definition_def get_flow_def register_step_def
        empty_registry_def example_step_def get_step_arc_def register_flow_def register_definition_def)
  have "distinct (map fst (fd_steps example_definition))" by (simp add: example_definition_def)
  moreover have "\<not> list_all (\<lambda>(name, s). get_step_arc example_registry name \<noteq> None) (fd_steps example_definition)" by code_simp
  moreover have "fd_initial_step example_definition = ''start''" by (simp add: example_definition_def)
  ultimately show ?thesis using export_reimport[of example_definition example_registry r' f] r by (auto simp: ft)
qed

end
