(* ===== verification/Runtime.thy ===== *)
theory Runtime
  imports Worker_Lock Executor_Props Uploads Import_Export
begin

text \<open>
  The start of the processes: \<open>run_runtime\<close> of \<open>bins/backend/src/main.rs\<close>, \<open>serve\<close> and
  \<open>run_worker\<close> of \<open>lib.rs\<close>, \<open>AppState::from_config\<close> of \<open>state.rs\<close> and \<open>ensure_redis_ready\<close> of
  \<open>worker.rs\<close>, each with its early returns in order. Connecting to the database with its
  migrations (\<open>Migrate\<close>), the HTTP client and the listening socket are parameters. So is what happens while the worker takes its
  turns: the renewal of its lock, the passing of its lifetime and the other processes change Redis, and other processes and the requests
  of this one change the database. A server that listens goes on until it is stopped, a worker is observed for the turns given.
\<close>

section \<open>Settings\<close>

datatype runtime_mode = ServerMode | WorkerMode | SharedMode

record app_config =
  ac_uploads :: upload_config
  ac_signature :: signature_state
  ac_address :: string
  ac_port :: "16 word"
  ac_lock_ttl_seconds :: i64
  ac_flows_dir :: string
  ac_sessions_dir :: string

record 'r start_env =
  en_pool :: "unit db"
  en_conn :: "string + unit"
  en_http_client :: "app_error + unit"
  en_parse_addr :: "string \<Rightarrow> app_error + string"
  en_redis :: "'r redis"
  en_ping :: "'r \<Rightarrow> string + string"
  en_replies :: "'r \<Rightarrow> string option \<times> string option"
  en_pid :: nat
  en_clock :: "nat \<Rightarrow> instant"
  en_others :: "nat \<Rightarrow> 'r \<Rightarrow> 'r"
  en_meanwhile :: "nat \<Rightarrow> 'r \<times> world \<Rightarrow> 'r \<times> world"
  en_files :: file_system
  en_vars :: environment
  en_parsers :: parsers
  en_server :: server

section \<open>Application state\<close>

record app_state =
  ap_storage :: client_settings
  ap_registry :: "builtin flow_registry"
  ap_signature :: signature_state

definition from_config :: "'r start_env \<Rightarrow> app_config \<Rightarrow> registry_imports \<Rightarrow> app_error + app_state" where
  "from_config S cfg imports =
     bindR (object_storage_settings (ac_uploads cfg)) (\<lambda>storage.
     bindR (map_errR server_error (server_registry (en_files S) (en_vars S) (en_parsers S) builtin_actions imports)) (\<lambda>registry.
     bindR (en_http_client S) (\<lambda>_.
     Inr \<lparr>ap_storage = storage, ap_registry = registry, ap_signature = ac_signature cfg\<rparr>)))"

definition listen_addr :: "'r start_env \<Rightarrow> app_config \<Rightarrow> app_error + string" where
  "listen_addr S cfg = api_listen_addr (en_parse_addr S) (ac_address cfg) (ac_port cfg)"

section \<open>The server\<close>

definition serve :: "'r start_env \<Rightarrow> app_config \<Rightarrow> registry_imports \<Rightarrow> (string \<times> app_state) db" where
  "serve S cfg imports =
     bindE (lift_res (listen_addr S cfg)) (\<lambda>addr.
     bindE (en_pool S) (\<lambda>_.
     bindE (lift_res (from_config S cfg imports)) (\<lambda>state. ret (addr, state))))"

section \<open>The worker\<close>

definition ensure_redis_ready :: "'r redis \<Rightarrow> ('r \<Rightarrow> string + string) \<Rightarrow> 'r \<Rightarrow> app_error + unit" where
  "ensure_redis_ready R ping r =
     bindR (map_errR (\<lambda>e. Server (''invalid redis url: '' @ e)) (rd_client R)) (\<lambda>_.
     bindR (map_errR (\<lambda>e. Server (''failed to connect to redis at startup: '' @ e)) (rd_connect R r)) (\<lambda>_.
     bindR (map_errR (\<lambda>e. Server (''failed to ping redis at startup: '' @ e)) (ping r)) (\<lambda>response.
     if response \<noteq> ''PONG'' then Inl (Server (''unexpected redis PING response at startup: '' @ response)) else Inr ())))"

text \<open>What \<open>run_worker\<close> does once it holds the lock, up to the loop.\<close>

definition worker_state :: "'r start_env \<Rightarrow> app_config \<Rightarrow> runtime_mode \<Rightarrow> registry_imports \<Rightarrow> app_error + app_state" where
  "worker_state S cfg mode imports =
     bindR (from_config S cfg imports) (\<lambda>state.
       if mode = WorkerMode then bindR (listen_addr S cfg) (\<lambda>_. Inr state) else Inr state)"

definition worker_ready :: "'r start_env \<Rightarrow> 'r \<Rightarrow> unit db" where
  "worker_ready S r =
     bindE (en_pool S) (\<lambda>_.
     bindE (lift_res (map_errR DieselPool (en_conn S))) (\<lambda>_.
     lift_res (ensure_redis_ready (en_redis S) (en_ping S) r)))"

text \<open>
  The turns \<open>ns\<close> of the worker from turn \<open>k\<close> on: the steps claimed, with Redis and the database after them. The loop never
  looks at Redis again, and never ends; a panic ends it.
\<close>

fun worker_turns :: "'r start_env \<Rightarrow> server \<Rightarrow> nat \<Rightarrow> nat list \<Rightarrow> 'r \<Rightarrow> world \<Rightarrow> string list \<times> 'r \<times> world" where
  "worker_turns S sv k [] r w = ([], r, w)"
| "worker_turns S sv k (n # ns) r w =
     (case worker_turn sv w of
        (Inl _, w') \<Rightarrow> ([], r, w')
      | (Inr maybe_step, w') \<Rightarrow>
          (case en_meanwhile S k (r, time_passes n w') of
             (r2, w2) \<Rightarrow> (case worker_turns S sv (k + 1) ns r2 w2 of
                (claimed, s) \<Rightarrow> ((case maybe_step of None \<Rightarrow> [] | Some t \<Rightarrow> [st_id t]) @ claimed, s))))"

definition run_worker ::
    "'r start_env \<Rightarrow> app_config \<Rightarrow> runtime_mode \<Rightarrow> registry_imports \<Rightarrow> nat list \<Rightarrow> 'r \<Rightarrow> world
      \<Rightarrow> (app_error + string list) \<times> 'r \<times> world" where
  "run_worker S cfg mode imports ns r w =
     (case worker_ready S r w of
        (Inl e, w1) \<Rightarrow> (Inl e, r, w1)
      | (Inr _, w1) \<Rightarrow>
          (case acquire_worker_consumer_lock_with_retry (en_redis S) (en_replies S) (en_pid S) (ac_lock_ttl_seconds cfg)
                  (en_clock S) (en_others S) r of
             (Inl e, r', _) \<Rightarrow> (Inl e, r', w1)
           | (Inr owner, r', _) \<Rightarrow>
               (case worker_state S cfg mode imports of
                  Inl e \<Rightarrow> (Inl e, r', w1)
                | Inr state \<Rightarrow> apfst Inr (worker_turns S (en_server S\<lparr>sv_registry := ap_registry state\<rparr>) 0 ns r' w1))))"

section \<open>The command\<close>

definition runtime_imports :: "'r start_env \<Rightarrow> app_config \<Rightarrow> string option \<Rightarrow> app_error + registry_imports" where
  "runtime_imports S cfg path =
     bindR (case path of None \<Rightarrow> Inr no_imports | Some p \<Rightarrow> load_imports (en_files S) (en_parsers S) p) (\<lambda>imports.
     Inr (imports\<lparr>ri_flows_dir := Some (ac_flows_dir cfg), ri_sessions_dir := Some (ac_sessions_dir cfg)\<rparr>))"

text \<open>
  In shared mode server and worker start concurrently and an error of either ends the process;
  \<open>worker_first\<close> says whether the worker came first, with the turns given, or the server. Where the start of the server falls between
  two turns, \<open>en_meanwhile\<close> stands for it. \<open>Inl\<close> is the error the process ends with.
\<close>

definition run_runtime ::
    "'r start_env \<Rightarrow> app_config \<Rightarrow> runtime_mode \<Rightarrow> string option \<Rightarrow> bool \<Rightarrow> nat list \<Rightarrow> 'r \<Rightarrow> world
      \<Rightarrow> (app_error + string list) \<times> 'r \<times> world" where
  "run_runtime S cfg mode path worker_first ns r w =
     (case runtime_imports S cfg path of
        Inl e \<Rightarrow> (Inl e, r, w)
      | Inr imports \<Rightarrow>
          (case mode of
             ServerMode \<Rightarrow> (case serve S cfg imports w of (x, w') \<Rightarrow> (bindR x (\<lambda>_. Inr []), r, w'))
           | WorkerMode \<Rightarrow> run_worker S cfg mode imports ns r w
           | SharedMode \<Rightarrow>
               if worker_first
               then (case run_worker S cfg mode imports ns r w of
                       (Inl e, s) \<Rightarrow> (Inl e, s)
                     | (Inr claimed, r', w1) \<Rightarrow>
                         (case serve S cfg imports w1 of (x, w') \<Rightarrow> (bindR x (\<lambda>_. Inr claimed), r', w')))
               else (case serve S cfg imports w of
                       (Inl e, w1) \<Rightarrow> (Inl e, r, w1)
                     | (Inr _, w1) \<Rightarrow> run_worker S cfg mode imports ns r w1)))"

section \<open>The worker runs under the lock\<close>

text \<open>At attempt \<open>n\<close> the process found the lock free and took it.\<close>

definition lock_taken :: "'r start_env \<Rightarrow> app_config \<Rightarrow> nat \<Rightarrow> 'r \<Rightarrow> 'r \<Rightarrow> bool" where
  "lock_taken S cfg n r0 r1 \<longleftrightarrow>
     acquire_worker_consumer_lock (en_redis S) (en_replies S) (en_pid S) (ac_lock_ttl_seconds cfg) (en_clock S n) r0
       = (Inr (lock_owner (en_pid S) (en_clock S n)), r1)
     \<and> rd_get (en_redis S) worker_consumer_lock_key (en_clock S n) r0 = None
     \<and> lock_entry (en_redis S) r1 = Some (lock_owner (en_pid S) (en_clock S n),
          expires_at (en_clock S n) (sint (normalized_ttl (ac_lock_ttl_seconds cfg))))"

lemma acquire_from_taken:
  assumes "redis_laws (en_redis S)"
  shows "acquire_from (en_redis S) (en_replies S) (en_pid S) (ac_lock_ttl_seconds cfg) (en_clock S) (en_others S) a r
      = (Inr owner, r', sleeps) \<Longrightarrow> a < max_retries \<Longrightarrow> \<exists>n<max_retries. \<exists>r0. lock_taken S cfg n r0 r'"
proof (induction "max_retries - a" arbitrary: a r sleeps)
  case (Suc k)
  let ?from = "acquire_from (en_redis S) (en_replies S) (en_pid S) (ac_lock_ttl_seconds cfg) (en_clock S) (en_others S)"
  obtain x r1 where try1: "acquire_worker_consumer_lock (en_redis S) (en_replies S) (en_pid S) (ac_lock_ttl_seconds cfg)
      (en_clock S a) r = (x, r1)" by fastforce
  show ?case
  proof (cases x)
    case (Inr o1)
    with Suc.prems try1 have "r' = r1" by (simp add: acquire_from.simps)
    moreover have "lock_taken S cfg a r r1"
      by (rule acquire_cases[OF assms try1]) (use Inr try1 in \<open>simp_all add: lock_taken_def\<close>)
    ultimately show ?thesis using Suc.prems(2) by blast
  next
    case (Inl e)
    with Suc.prems(1) try1 have a: "a < max_retries - 1"
      by (auto simp: acquire_from.simps[of "en_redis S" _ _ _ _ _ a] split: if_splits)
    then obtain sl where "?from (a + 1) (en_others S a r1) = (Inr owner, r', sl)"
      using Suc.prems(1) try1 Inl by (auto simp: acquire_from.simps[of "en_redis S" _ _ _ _ _ a] split: prod.splits)
    with Suc.hyps(1)[of "a + 1"] Suc.hyps(2) a show ?thesis by simp
  qed
qed simp

text \<open>Starting changes the database by the migrations or not at all.\<close>

lemma serve_world: "snd (serve S cfg imports w) \<in> {w, snd (en_pool S w)}"
  by (auto simp: serve_def bindE_def split: sum.splits prod.splits)

lemma worker_ready_world: "snd (worker_ready S r w) = snd (en_pool S w)"
  by (auto simp: worker_ready_def bindE_def split: sum.splits prod.splits)

lemma run_worker_cases:
  assumes "redis_laws (en_redis S)" "run_worker S cfg mode imports ns r w = (x, r', w')"
  obtains "w' = snd (en_pool S w)"
  | n r0 r1 registry claimed where "n < max_retries" "lock_taken S cfg n r0 r1"
      "server_registry (en_files S) (en_vars S) (en_parsers S) builtin_actions imports = Inr registry"
      "worker_turns S (en_server S\<lparr>sv_registry := registry\<rparr>) 0 ns r1 (snd (en_pool S w)) = (claimed, r', w')"
proof -
  obtain y w1 where ready: "worker_ready S r w = (y, w1)" by fastforce
  then have w1: "w1 = snd (en_pool S w)" using worker_ready_world[of S r w] by simp
  obtain z r2 sl where lock: "acquire_from (en_redis S) (en_replies S) (en_pid S) (ac_lock_ttl_seconds cfg) (en_clock S) (en_others S) 0 r
      = (z, r2, sl)" using prod_cases3 by blast
  show thesis
  proof (cases "\<exists>u owner state. y = Inr u \<and> z = Inr owner \<and> worker_state S cfg mode imports = Inr state")
    case True
    then obtain u owner state where ok: "y = Inr u" "z = Inr owner" "worker_state S cfg mode imports = Inr state" by blast
    then have reg: "server_registry (en_files S) (en_vars S) (en_parsers S) builtin_actions imports = Inr (ap_registry state)"
      by (auto simp: worker_state_def from_config_def bindR_Inr_iff split: if_splits)
    obtain n r0 where taken: "n < max_retries" "lock_taken S cfg n r0 r2"
      using acquire_from_taken[OF assms(1), of cfg 0 r owner r2 sl] lock ok(2) by (auto simp: max_retries_def)
    obtain claimed where "worker_turns S (en_server S\<lparr>sv_registry := ap_registry state\<rparr>) 0 ns r2 (snd (en_pool S w)) = (claimed, r', w')"
      using assms(2) ready lock ok w1
      by (auto simp: run_worker_def acquire_worker_consumer_lock_with_retry_def apfst_def map_prod_def split: prod.splits)
    with taken reg show ?thesis by (rule that(2))
  next
    case False
    then have "w' = w1"
      using assms(2) ready lock
      by (auto simp: run_worker_def acquire_worker_consumer_lock_with_retry_def split: sum.splits)
    with w1 show ?thesis by (simp add: that(1))
  qed
qed


section \<open>Witnesses\<close>

text \<open>The lock is lost while the worker takes its turns.\<close>

definition example_start_env :: "(string \<Rightarrow> (string \<times> instant) option) start_env" where
  "example_start_env = \<lparr>en_pool = ret (), en_conn = Inr (), en_http_client = Inr (), en_parse_addr = Inr,
     en_redis = map_redis, en_ping = (\<lambda>_. Inr ''PONG''), en_replies = (\<lambda>_. (None, None)), en_pid = 7,
     en_clock = (\<lambda>n. 0), en_others = (\<lambda>_ r. r), en_meanwhile = (\<lambda>_ (r, w). (no_keys, w)), en_files = example_files,
     en_vars = (\<lambda>_. None), en_parsers = example_parsers, en_server = exec_server\<rparr>"

definition example_config :: app_config where
  "example_config = \<lparr>ac_uploads = \<lparr>uc_storage = None, uc_s3 = None\<rparr>,
     ac_signature = \<lparr>ss_signature_secret = ''secret'', ss_max_clock_skew_seconds = 60, ss_max_body_bytes = 1000\<rparr>,
     ac_address = ''0.0.0.0'', ac_port = 80, ac_lock_ttl_seconds = 30, ac_flows_dir = ''flows'', ac_sessions_dir = ''sessions''\<rparr>"

lemma example_worker_starts:
  "case run_runtime example_start_env example_config WorkerMode (Some ''flow.yaml'') False [0] no_keys exec_world of
     (_, _, w') \<Rightarrow> w_steps w' \<noteq> w_steps exec_world"
  by code_simp


end
