(* ===== verification/Router.thy ===== *)
theory Router
  imports Uploads Staff_Props
begin

text \<open>
  The server as a whole: the routers of the API surfaces (\<open>router\<close> of \<open>api/auth.rs\<close>,
  \<open>api/bff_flow/mod.rs\<close>, \<open>api/bff_uploads/mod.rs\<close> and \<open>api/staff_flow/mod.rs\<close>), their mounting and the
  layers around them (\<open>build_router\<close> of \<open>lib.rs\<close>, the services of \<open>backend-auth/src/middleware.rs\<close>).
  What the web framework does is a parameter: the matching of a path against route patterns and
  mounted prefixes, and the decoding of queries and bodies. So is the generated router of the
  Keycloak API, which turns a request into one of its calls. A response is \<open>None\<close> when the handler does not return.
\<close>

section \<open>Responses\<close>

datatype kc_reply =
    KcDevice device_lookup_response
  | KcUser user_record
  | KcUsers "user_record list"
  | KcDeleted
  | KcNotFound
  | KcBind bind_response
  | KcPolicy policy_response

datatype reply =
    RText string
  | RUser user_response
  | RKyc completed_kyc_response
  | RCandidates "lookup_candidate list"
  | RRecovery bff_bind_response
  | RPolicy bff_policy_response
  | RSessions "session_response list"
  | RSession session_response
  | RSessionDetail "session_response \<times> flow_row list"
  | RFlows "flow_row list"
  | RFlow flow_row
  | RFlowDetail "flow_row \<times> step_row list"
  | RSteps "step_row list"
  | RStep step_row
  | RPresign presign_upload_response
  | REvidence evidence_ref
  | RStaffSessions staff_session_list
  | RStaffSession "staff_session_response \<times> flow_row list"
  | REnroll enroll_response
  | RBound string
  | RDevices "device_record_response list"
  | RNoContent
  | RToken "string \<times> i64 \<times> string"
  | RKeys "json list"
  | RApproved "string \<times> string"
  | RUserInfo "string \<times> string option \<times> string option"
  | RKc kc_reply

text \<open>An answer of a handler, an error of a handler, or a refusal of the framework or of a layer.\<close>

datatype response = Answer reply | AppError app_error | Status nat string

fun is_answer :: "response \<Rightarrow> bool" where
  "is_answer (Answer _) = True"
| "is_answer _ = False"

type_synonym 'r served = "'r both \<Rightarrow> (response \<times> 'r both) option"

definition refuse :: "nat \<Rightarrow> string \<Rightarrow> 'r served" where
  "refuse status msg s = Some (Status status msg, s)"

fun respond :: "('a \<Rightarrow> reply) \<Rightarrow> app_error + 'a \<Rightarrow> response" where
  "respond f (Inl e) = AppError e"
| "respond f (Inr a) = Answer (f a)"

definition serve_auth :: "('a \<Rightarrow> reply) \<Rightarrow> ('r, 'a) auth \<Rightarrow> 'r served" where
  "serve_auth f m s = Some (case m s of (x, s') \<Rightarrow> (respond f x, s'))"

definition serve_db :: "('a \<Rightarrow> reply) \<Rightarrow> 'a db \<Rightarrow> 'r served" where
  "serve_db f m = serve_auth f (on_world m)"

definition serve_run :: "('a \<Rightarrow> reply) \<Rightarrow> 'a run \<Rightarrow> 'r served" where
  "serve_run f m s = (case m (fst s) of None \<Rightarrow> None | Some (x, w') \<Rightarrow> Some (respond f x, (w', snd s)))"

section \<open>Calls of the Keycloak API\<close>

datatype kc_call =
    LookupDevice "string option" "string option"
  | CreateUser user_upsert
  | DeleteUser string
  | GetUser string
  | SearchUsers user_search
  | UpdateUser string user_upsert
  | EnrollmentBind bind_request
  | GetRecoveryCase string
  | RecoveryBind string string recovery_request
  | OldDevicesPolicy string string policy_request

section \<open>The server\<close>

type_synonym 'b decode = "request \<Rightarrow> string \<Rightarrow> nat + 'b"

text \<open>The decoders of bodies and queries: the status of the rejection, or the value. The string is the query.\<close>

record decoders =
  de_create_session :: "create_session_request decode"
  de_add_flow :: "add_flow_request decode"
  de_submit :: "json decode"
  de_lookup :: "(string \<times> string) decode"
  de_recovery :: "bff_recovery_request decode"
  de_policy :: "bff_policy_request decode"
  de_presign :: "presign_upload_request decode"
  de_complete :: "complete_upload_request decode"
  de_enroll :: "enroll_request decode"
  de_approve :: "(string option \<times> string option) decode"
  de_staff_sessions :: "staff_session_query decode"
  de_admin_steps :: "admin_step_query decode"

text \<open>
  \<open>fr_mount\<close> finds the mounted prefix of a path, with the rest of the path; \<open>fr_find\<close> the pattern that matches, with
  the captured segments; \<open>fr_kc_path\<close> says whether the generated router knows a path and \<open>fr_kc_call\<close> decodes
  the request; \<open>fr_page\<close> gives the pages of the OpenAPI user interface and the metrics.
\<close>

record framework =
  fr_mount :: "string list \<Rightarrow> string \<Rightarrow> (string \<times> string) option"
  fr_find :: "string list \<Rightarrow> string \<Rightarrow> (string \<times> string list) option"
  fr_kc_path :: "string \<Rightarrow> bool"
  fr_kc_call :: "string \<Rightarrow> kc_call decode"
  fr_page :: "string \<Rightarrow> string \<Rightarrow> string option"
  fr_decode :: decoders

record base_paths =
  ba_kc :: string
  ba_kc_enabled :: bool
  ba_bff :: string
  ba_staff :: string
  ba_auth :: string
  ba_auth_enabled :: bool
  ba_oauth2 :: "string list"

record 'r backend =
  bk_server :: server
  bk_auth :: "'r auth_server"
  bk_staff :: staff_config
  bk_uploads :: upload_server
  bk_api :: api_ext
  bk_serde :: serde_ext
  bk_uuid_ok :: "string \<Rightarrow> bool"
  bk_print :: "json \<Rightarrow> string"
  bk_ilike :: "string \<Rightarrow> string \<Rightarrow> bool"
  bk_device_status :: "string \<Rightarrow> string option"
  bk_parse_jwk :: "string \<Rightarrow> jmap option"
  bk_signature :: signature_state
  bk_paths :: base_paths
  bk_framework :: framework

abbreviation bk_device :: "'r backend \<Rightarrow> device_ext" where
  "bk_device B \<equiv> ax_device (bk_api B)"

abbreviation bk_cuid :: "'r backend \<Rightarrow> cuid_gen" where
  "bk_cuid B \<equiv> sv_cuid (bk_server B)"

abbreviation bk_decode :: "'r backend \<Rightarrow> decoders" where
  "bk_decode B \<equiv> fr_decode (bk_framework B)"

section \<open>Routers\<close>

text \<open>A handler gets the captured segments, the request and its query.\<close>

type_synonym 'r handler = "string list \<Rightarrow> request \<Rightarrow> string \<Rightarrow> 'r served"
type_synonym 'r routes = "(string \<times> (string \<times> 'r handler) list) list"

definition with_path :: "string list \<Rightarrow> (string \<Rightarrow> 'r served) \<Rightarrow> 'r served" where
  "with_path captures k = (case captures of [c] \<Rightarrow> k c | _ \<Rightarrow> refuse 500 ''Wrong number of path arguments'')"

definition with_body :: "nat + 'b \<Rightarrow> ('b \<Rightarrow> 'r served) \<Rightarrow> 'r served" where
  "with_body b k = (case b of Inl status \<Rightarrow> refuse status ''Failed to deserialize'' | Inr v \<Rightarrow> k v)"

definition bff_flow_router :: "'r backend \<Rightarrow> 'r routes" where
  "bff_flow_router B = (let A = bk_auth B; sv = bk_server B; de = bk_decode B in
     [(''/users/lookup-by-phone'',
        [(''POST'', \<lambda>cs rq q. with_body (de_lookup de rq q) (\<lambda>(realm, phone).
            serve_db RCandidates (lookup_user_by_phone_h (bk_serde B) A realm phone (in_headers rq))))]),
      (''/users/{user_id}'',
        [(''GET'', \<lambda>cs rq q. with_path cs (\<lambda>uid. serve_db RUser (get_user_h A uid (in_headers rq))))]),
      (''/v1/recoveries/{recovery_case_id}/device-bindings'',
        [(''POST'', \<lambda>cs rq q. with_path cs (\<lambda>case_id. with_body (de_recovery de rq q) (\<lambda>body.
            serve_db RRecovery (recovery_bind_h (bk_device B) (bk_uuid_ok B) A case_id body (in_headers rq)))))]),
      (''/v1/recoveries/{recovery_case_id}/old-devices/policy'',
        [(''POST'', \<lambda>cs rq q. with_path cs (\<lambda>case_id. with_body (de_policy de rq q) (\<lambda>body.
            serve_db RPolicy (old_devices_policy_h (bk_device B) (bk_uuid_ok B) A case_id body (in_headers rq)))))]),
      (''/users/{user_id}/completed-kyc'',
        [(''GET'', \<lambda>cs rq q. with_path cs (\<lambda>uid. serve_db RKyc (get_completed_kyc_h A uid (in_headers rq))))]),
      (''/sessions'',
        [(''GET'', \<lambda>cs rq q. serve_db RSessions (list_sessions_h A (in_headers rq))),
         (''POST'', \<lambda>cs rq q. with_body (de_create_session de rq q) (\<lambda>body.
            serve_db RSession (create_session_h sv A body (in_headers rq))))]),
      (''/sessions/{session_id}'',
        [(''GET'', \<lambda>cs rq q. with_path cs (\<lambda>sid. serve_db RSessionDetail (get_session_h A sid (in_headers rq))))]),
      (''/sessions/{session_id}/flows'',
        [(''GET'', \<lambda>cs rq q. with_path cs (\<lambda>sid. serve_db RFlows (list_session_flows_h A sid (in_headers rq)))),
         (''POST'', \<lambda>cs rq q. with_path cs (\<lambda>sid. with_body (de_add_flow de rq q) (\<lambda>body.
            serve_run RFlow (add_flow_to_session_h sv A sid body (in_headers rq)))))]),
      (''/flows/{flow_id}'',
        [(''GET'', \<lambda>cs rq q. with_path cs (\<lambda>fid. serve_db RFlowDetail (get_flow_h A fid (in_headers rq))))]),
      (''/flows/{flow_id}/steps'',
        [(''GET'', \<lambda>cs rq q. with_path cs (\<lambda>fid. serve_db RSteps (list_flow_steps_h A fid (in_headers rq))))]),
      (''/steps/{step_id}'',
        [(''GET'', \<lambda>cs rq q. with_path cs (\<lambda>tid. serve_db RStep (get_step_h A tid (in_headers rq)))),
         (''POST'', \<lambda>cs rq q. with_path cs (\<lambda>tid. with_body (de_submit de rq q) (\<lambda>input.
            serve_run RStep (submit_step_h sv A tid input (in_headers rq)))))])])"

definition bff_uploads_router :: "'r backend \<Rightarrow> 'r routes" where
  "bff_uploads_router B = (let A = bk_auth B; U = bk_uploads B; de = bk_decode B in
     [(''/uploads/presign'',
        [(''POST'', \<lambda>cs rq q. with_body (de_presign de rq q) (\<lambda>body.
            serve_db RPresign (presign_upload U A body (in_headers rq))))]),
      (''/uploads/complete'',
        [(''POST'', \<lambda>cs rq q. with_body (de_complete de rq q) (\<lambda>body.
            serve_db REvidence (complete_upload U A body (in_headers rq))))])])"

definition staff_flow_router :: "'r backend \<Rightarrow> 'r routes" where
  "staff_flow_router B = (let A = bk_auth B; sg = bk_staff B; de = bk_decode B in
     [(''/flow/sessions'',
        [(''GET'', \<lambda>cs rq q. with_body (de_staff_sessions de rq q) (\<lambda>query.
            serve_db RStaffSessions (list_staff_sessions sg A query (in_headers rq))))]),
      (''/flow/sessions/{session_id}'',
        [(''GET'', \<lambda>cs rq q. with_path cs (\<lambda>sid. serve_db RStaffSession (get_staff_session sg A sid (in_headers rq))))]),
      (''/flow/flows/{flow_id}'',
        [(''GET'', \<lambda>cs rq q. with_path cs (\<lambda>fid. serve_db RFlowDetail (get_staff_flow sg A fid (in_headers rq))))]),
      (''/flow/steps'',
        [(''GET'', \<lambda>cs rq q. with_body (de_admin_steps de rq q) (\<lambda>query.
            serve_db RSteps (list_admin_steps sg A query (in_headers rq))))]),
      (''/flow/steps/{step_id}'',
        [(''GET'', \<lambda>cs rq q. with_path cs (\<lambda>tid. serve_db RStep (get_admin_step sg A tid (in_headers rq)))),
         (''POST'', \<lambda>cs rq q. with_path cs (\<lambda>tid. with_body (de_submit de rq q) (\<lambda>input.
            serve_run RStep (submit_admin_step (bk_server B) sg A tid input (in_headers rq)))))])])"

definition auth_router :: "'r backend \<Rightarrow> 'r routes" where
  "auth_router B = (let A = bk_auth B; ax = bk_api B; de = bk_decode B in
     [(''/enroll'',
        [(''POST'', \<lambda>cs rq q. with_body (de_enroll de rq q) (\<lambda>body.
            serve_db REnroll (enroll (bk_server B) (as_json A) body)))]),
      (''/enroll/{id}/bind'',
        [(''POST'', \<lambda>cs rq q. with_path cs (\<lambda>sid. serve_auth RBound (bind_enroll ax A sid rq)))]),
      (''/devices'', [(''GET'', \<lambda>cs rq q. serve_auth RDevices (list_devices A rq))]),
      (''/devices/{id}'',
        [(''DELETE'', \<lambda>cs rq q. with_path cs (\<lambda>did. serve_auth (\<lambda>_. RNoContent) (revoke_device A did rq)))]),
      (''/token'', [(''POST'', \<lambda>cs rq q. serve_auth RToken (exchange_token ax (bk_cuid B) A rq))]),
      (''/jwks'', [(''GET'', \<lambda>cs rq q. serve_db RKeys jwks_keys)]),
      (''/approve/{step_id}'',
        [(''POST'', \<lambda>cs rq q. with_path cs (\<lambda>tid. with_body (de_approve de rq q) (\<lambda>(decision, message).
            serve_db RApproved (approve_step A tid (in_headers rq) decision message))))]),
      (''/userinfo'', [(''GET'', \<lambda>cs rq q. serve_db RUserInfo (lift_res (userinfo A (in_headers rq))))])])"

text \<open>The operations behind the generated router of the Keycloak API.\<close>

definition or_not_found :: "('a \<Rightarrow> kc_reply) \<Rightarrow> 'a option \<Rightarrow> reply" where
  "or_not_found f x = RKc (case x of None \<Rightarrow> KcNotFound | Some a \<Rightarrow> f a)"

fun kc_operation :: "'r backend \<Rightarrow> kc_call \<Rightarrow> 'r served" where
  "kc_operation B (LookupDevice device_id jkt) =
     serve_db (or_not_found KcDevice) (lookup_device_handler (bk_device_status B) (bk_parse_jwk B) device_id jkt)"
| "kc_operation B (CreateUser body) = serve_db (RKc \<circ> KcUser) (create_user_handler (bk_cuid B) (bk_print B) body)"
| "kc_operation B (DeleteUser uid) = serve_db (\<lambda>d. RKc (if d then KcDeleted else KcNotFound)) (delete_user_handler uid)"
| "kc_operation B (GetUser uid) = serve_db (or_not_found KcUser) (get_user_handler (bk_print B) uid)"
| "kc_operation B (SearchUsers body) = serve_db (RKc \<circ> KcUsers) (search_users_handler (bk_ilike B) (bk_print B) body)"
| "kc_operation B (UpdateUser uid body) = serve_db (or_not_found KcUser) (update_user_handler (bk_print B) uid body)"
| "kc_operation B (EnrollmentBind body) = serve_db (RKc \<circ> KcBind) (enrollment_bind (bk_device B) body)"
| "kc_operation B (GetRecoveryCase case_id) = serve_db (or_not_found (\<lambda>_. KcNotFound)) (get_recovery_case case_id)"
| "kc_operation B (RecoveryBind key case_id body) =
     serve_db (RKc \<circ> KcBind) (recovery_bind (bk_device B) (bk_uuid_ok B) key case_id body)"
| "kc_operation B (OldDevicesPolicy key case_id body) =
     serve_db (RKc \<circ> KcPolicy) (old_devices_policy (bk_device B) (bk_uuid_ok B) key case_id body)"

section \<open>Layers\<close>

text \<open>A layer lets a request through, perhaps changed, or answers in its place.\<close>

type_synonym 'r layer = "request \<Rightarrow> 'r both \<Rightarrow> (response + request) \<times> 'r both"

definition no_layer :: "'r layer" where
  "no_layer rq s = (Inr rq, s)"

definition kc_signature_layer :: "'r backend \<Rightarrow> 'r layer" where
  "kc_signature_layer B rq s =
     (let A = bk_auth B in
      (map_errR (Status 401)
        (require_kc_signature (as_crypto A) (as_to_str_ok A) (as_utf8_ok A) (ba_kc_enabled (bk_paths B)) (bk_signature B)
           (w_clock (fst s)) rq), s))"

definition bff_auth_layer :: "'r backend \<Rightarrow> 'r layer" where
  "bff_auth_layer B rq = map_errE AppError (require_bff_auth (bk_auth B) rq)"

definition through :: "'r layer \<Rightarrow> (request \<Rightarrow> 'r served) \<Rightarrow> request \<Rightarrow> 'r served" where
  "through layer inner rq s =
     (case layer rq s of (Inl resp, s') \<Rightarrow> Some (resp, s') | (Inr rq', s') \<Rightarrow> inner rq' s')"

text \<open>A matched path without a handler for the method is refused behind the layer; \<open>get\<close> handles \<open>HEAD\<close> too.\<close>

definition pick_method :: "string \<Rightarrow> (string \<times> 'h) list \<Rightarrow> 'h option" where
  "pick_method m hs =
     (case map_of hs m of Some h \<Rightarrow> Some h | None \<Rightarrow> if m = ''HEAD'' then map_of hs ''GET'' else None)"

definition matched :: "'r backend \<Rightarrow> 'r routes \<Rightarrow> string \<Rightarrow> (string \<times> string list \<times> (string \<times> 'r handler) list) option" where
  "matched B tbl rest =
     (case fr_find (bk_framework B) (map fst tbl) rest of
        None \<Rightarrow> None
      | Some (pattern, captures) \<Rightarrow> map_option (\<lambda>hs. (pattern, captures, hs)) (map_of tbl pattern))"

definition serve_routes :: "'r backend \<Rightarrow> 'r layer \<Rightarrow> 'r routes \<Rightarrow> string \<Rightarrow> string \<Rightarrow> request \<Rightarrow> 'r served" where
  "serve_routes B layer tbl rest q rq =
     (case matched B tbl rest of
        None \<Rightarrow> refuse 404 ''Not Found''
      | Some (pattern, captures, hs) \<Rightarrow>
          through layer (\<lambda>rq'. case pick_method (in_method rq') hs of
             None \<Rightarrow> refuse 405 [] | Some h \<Rightarrow> h captures rq' q) rq)"

definition serve_kc :: "'r backend \<Rightarrow> string \<Rightarrow> string \<Rightarrow> request \<Rightarrow> 'r served" where
  "serve_kc B rest q rq =
     (if \<not> fr_kc_path (bk_framework B) rest then refuse 404 ''Not Found''
      else through (kc_signature_layer B)
             (\<lambda>rq'. with_body (fr_kc_call (bk_framework B) rest rq' q) (kc_operation B)) rq)"

section \<open>The main router\<close>

datatype surface = KcSurface | BffSurface | StaffSurface | AuthSurface

definition mounts :: "'r backend \<Rightarrow> (string \<times> surface) list" where
  "mounts B = (let p = bk_paths B in
     filter (\<lambda>(base, _). usable_path base)
       ([(trim (ba_kc p), KcSurface), (trim (ba_bff p), BffSurface), (trim (ba_staff p), StaffSurface)]
        @ (if ba_auth_enabled p then [(trim (ba_auth p), AuthSurface)] else [])))"

definition surface_at :: "'r backend \<Rightarrow> string \<Rightarrow> (surface \<times> string) option" where
  "surface_at B path =
     (case fr_mount (bk_framework B) (map fst (mounts B)) path of
        None \<Rightarrow> None
      | Some (base, rest) \<Rightarrow> map_option (\<lambda>x. (x, rest)) (map_of (mounts B) base))"

fun serve_surface :: "'r backend \<Rightarrow> surface \<Rightarrow> string \<Rightarrow> string \<Rightarrow> request \<Rightarrow> 'r served" where
  "serve_surface B KcSurface rest q rq = serve_kc B rest q rq"
| "serve_surface B BffSurface rest q rq =
     serve_routes B (bff_auth_layer B) (bff_flow_router B @ bff_uploads_router B) rest q rq"
| "serve_surface B StaffSurface rest q rq = serve_routes B no_layer (staff_flow_router B) rest q rq"
| "serve_surface B AuthSurface rest q rq = serve_routes B no_layer (auth_router B) rest q rq"

definition token_layer :: "'r backend \<Rightarrow> 'r layer" where
  "token_layer B rq s =
     (let A = bk_auth B; p = bk_paths B in
      case jwks_auth (as_jwt A) (as_to_str_ok A) (as_audiences A)
             (jwks_base_paths (ba_oauth2 p) (sg_enabled (bk_staff B)) (ba_staff p) (ba_bff p)) (as_jwks A) rq of
        Some msg \<Rightarrow> (Inl (Status 401 msg), s)
      | None \<Rightarrow> (Inr rq, s))"

definition build_router :: "'r backend \<Rightarrow> string \<Rightarrow> request \<Rightarrow> 'r served" where
  "build_router B q =
     through (token_layer B) (\<lambda>rq.
       if in_path rq = ''/health'' \<and> in_method rq \<in> {''GET'', ''HEAD''} then serve_db RText (ret [])
       else case surface_at B (in_path rq) of
              Some (surface, rest) \<Rightarrow> serve_surface B surface rest q rq
            | None \<Rightarrow>
                (case fr_page (bk_framework B) (in_method rq) (in_path rq) of
                   Some page \<Rightarrow> serve_db RText (ret page)
                 | None \<Rightarrow> refuse 404 ''Not Found''))"

section \<open>What a request must show\<close>

text \<open>
  The credentials of a request at a surface. Where authentication is configured off, nothing is asked.
\<close>

definition is_ok :: "'e + 'a \<Rightarrow> bool" where
  "is_ok r = (case r of Inl _ \<Rightarrow> False | Inr _ \<Rightarrow> True)"

definition succeeds :: "('e + 'a) \<times> 's \<Rightarrow> bool" where
  "succeeds r = is_ok (fst r)"

fun authenticated :: "'r backend \<Rightarrow> surface \<Rightarrow> request \<Rightarrow> 'r both \<Rightarrow> bool" where
  "authenticated B KcSurface rq s =
     (\<not> ba_kc_enabled (bk_paths B)
      \<or> kc_verify_signature (as_crypto (bk_auth B)) (as_to_str_ok (bk_auth B)) (as_utf8_ok (bk_auth B)) (bk_signature B)
          (w_clock (fst s)) rq = Inr ())"
| "authenticated B BffSurface rq s =
     (\<not> as_bff_enabled (bk_auth B) \<or> succeeds (authenticate_request (bk_auth B) (in_headers rq) s))"
| "authenticated B StaffSurface rq s =
     is_ok (require_staff_token (bk_staff B) (bk_auth B) (in_headers rq))"
| "authenticated B AuthSurface rq s =
     (succeeds (authenticate_device (bk_auth B) rq [] s) \<or> succeeds (authenticate_device (bk_auth B) rq (in_body rq) s)
      \<or> is_ok (api_bearer_token (bk_auth B) (in_headers rq)))"

lemma is_ok_iff: "is_ok r \<longleftrightarrow> (\<exists>a. r = Inr a)"
  by (cases r) (simp_all add: is_ok_def)

text \<open>The routes of the authentication API that are open to everyone.\<close>

definition public_routes :: "string list" where
  "public_routes = [''/enroll'', ''/enroll/{id}/bind'', ''/jwks'']"

text \<open>Code is guarded when it answers or changes the tables only if the condition holds at its start.\<close>

definition guarded :: "('r both \<Rightarrow> bool) \<Rightarrow> 'r served \<Rightarrow> bool" where
  "guarded ok f \<longleftrightarrow>
     (\<forall>s resp s'. f s = Some (resp, s') \<longrightarrow> is_answer resp \<or> db_tables s' \<noteq> db_tables s \<longrightarrow> ok s)"

lemma guardedI:
  "(\<And>s resp s'. \<not> ok s \<Longrightarrow> f s = Some (resp, s') \<Longrightarrow> \<not> is_answer resp \<and> db_tables s' = db_tables s) \<Longrightarrow> guarded ok f"
  unfolding guarded_def by blast

lemma guardedD:
  "guarded ok f \<Longrightarrow> f s = Some (resp, s') \<Longrightarrow> is_answer resp \<or> db_tables s' \<noteq> db_tables s \<Longrightarrow> ok s"
  unfolding guarded_def by blast

lemma guarded_mono: "guarded ok f \<Longrightarrow> (\<And>s. ok s \<Longrightarrow> ok' s) \<Longrightarrow> guarded ok' f"
  unfolding guarded_def by blast

lemma guarded_refuse: "guarded ok (refuse n msg)"
  by (rule guardedI) (auto simp: refuse_def)

lemma guarded_with_path: "(\<And>c. guarded ok (k c)) \<Longrightarrow> guarded ok (with_path cs k)"
  by (auto simp: with_path_def guarded_refuse split: list.split)

lemma guarded_with_body: "(\<And>v. guarded ok (k v)) \<Longrightarrow> guarded ok (with_body b k)"
  by (auto simp: with_body_def guarded_refuse split: sum.split)

lemma guarded_case_prod: "(\<And>x y. guarded ok (k x y)) \<Longrightarrow> guarded ok (case p of (x, y) \<Rightarrow> k x y)"
  by (cases p) simp

lemma guarded_bind:
  assumes "keeps db_tables m" "\<And>s. succeeds (m s) \<Longrightarrow> ok s"
  shows "guarded ok (serve_auth f (bindE m k))"
proof (rule guardedI)
  fix s resp s' assume no: "\<not> ok s" and run: "serve_auth f (bindE m k) s = Some (resp, s')"
  with assms(2)[of s] obtain e s1 where m: "m s = (Inl e, s1)"
    by (cases "m s"; cases "fst (m s)") (auto simp: succeeds_def is_ok_def)
  with run keepsD[OF assms(1) m] show "\<not> is_answer resp \<and> db_tables s' = db_tables s"
    by (auto simp: serve_auth_def bindE_def)
qed

lemma guarded_lift: "(\<And>a. guarded ok (serve_auth f (k a))) \<Longrightarrow> guarded ok (serve_auth f (bindE (lift_res r) k))"
  by (cases r) (auto simp: guarded_def serve_auth_def)

lemma on_world_bind: "on_world (bindE m k) = bindE (on_world m) (\<lambda>a. on_world (k a))"
  by (auto simp: fun_eq_iff on_world_def bindE_def split: prod.split sum.split)

lemma on_world_lift: "on_world (lift_res r) = lift_res r"
  by (auto simp: fun_eq_iff on_world_def)

lemma guarded_db_lift:
  assumes "\<And>a. r = Inr a \<Longrightarrow> C"
  shows "guarded (\<lambda>_. C) (serve_db f (bindE (lift_res r) k))"
proof (cases r)
  case (Inl e)
  then show ?thesis by (auto simp: guarded_def serve_db_def serve_auth_def on_world_def)
qed (use assms in \<open>auto simp: guarded_def\<close>)

lemma guarded_run_lift:
  assumes "\<And>a. r = Inr a \<Longrightarrow> C"
  shows "guarded (\<lambda>_. C) (serve_run f (bindO (returns (bindE (lift_res r) k)) h))"
proof (cases r)
  case (Inl e)
  then show ?thesis by (auto simp: guarded_def serve_run_def bindO_def returns_def)
qed (use assms in \<open>auto simp: guarded_def\<close>)

text \<open>The routes of the staff API ask for the staff token, those of the authentication API for a device or a token.\<close>

lemma guarded_staff:
  "guarded (\<lambda>_. \<exists>c. require_staff_token sg A hs = Inr c) (serve_db f (as_staff sg A hs m))"
  unfolding as_staff_def by (rule guarded_db_lift) blast

lemma guarded_staff_run:
  "guarded (\<lambda>_. \<exists>c. require_staff_token sg A hs = Inr c) (serve_run f (bindO (returns (as_staff sg A hs m)) h))"
  unfolding as_staff_def by (rule guarded_run_lift) blast

lemmas guard_rules = guarded_refuse guarded_with_path guarded_with_body guarded_case_prod

lemma verify_signature_with_jwk_tables: "keeps db_tables (verify_signature_with_jwk A rq body jwk)"
  unfolding verify_signature_with_jwk_def by (intro auth_frame)

lemma authenticate_device_tables: "keeps db_tables (authenticate_device A rq body)"
  unfolding authenticate_device_def by (intro auth_frame verify_signature_with_jwk_tables)

lemma require_bff_auth_tables: "keeps db_tables (require_bff_auth A rq)"
  unfolding require_bff_auth_def by (intro auth_frame authenticate_request_tables)

section \<open>Layers as guards\<close>

text \<open>
  What the routers rely on in a layer: it lets a request through only with its credentials, and
  when it stops a request it gives no answer of a handler and leaves the tables alone.
\<close>

locale checking_layer =
  fixes layer :: "'r layer" and ok :: "request \<Rightarrow> 'r both \<Rightarrow> bool"
  assumes passes: "layer rq s = (Inr rq', s') \<Longrightarrow> ok rq s"
    and stops: "layer rq s = (Inl resp, s') \<Longrightarrow> \<not> is_answer resp \<and> db_tables s' = db_tables s"
begin

lemma through_guarded: "guarded (ok rq) (through layer inner rq)"
proof (rule guardedI)
  fix s resp s' assume no: "\<not> ok rq s" and run: "through layer inner rq s = Some (resp, s')"
  with passes obtain r s1 where "layer rq s = (Inl r, s1)" by (metis surj_pair sum.exhaust)
  with run stops show "\<not> is_answer resp \<and> db_tables s' = db_tables s" by (auto simp: through_def)
qed

lemma routes_guarded: "guarded (ok rq) (serve_routes B layer tbl rest q rq)"
  by (auto simp: serve_routes_def guarded_refuse through_guarded split: option.split)

end

lemma map_errE_cases:
  "map_errE f m s = (Inl x, s') \<longleftrightarrow> (\<exists>e. m s = (Inl e, s') \<and> x = f e)"
  by (cases "m s"; cases "fst (m s)") (auto simp: map_errE_def)

lemma bff_auth_passes:
  assumes "require_bff_auth A rq s = (Inr rq', s')"
  shows "\<not> as_bff_enabled A \<or> succeeds (authenticate_request A (in_headers rq) s)"
  using assms by (auto simp: require_bff_auth_def bindE_Inr_iff succeeds_def is_ok_iff split: if_splits)

interpretation kc_layer: checking_layer "kc_signature_layer B" "authenticated B KcSurface" for B
proof
  fix rq rq' :: request and s s' assume "kc_signature_layer B rq s = (Inr rq', s')"
  then show "authenticated B KcSurface rq s"
    by (auto simp: kc_signature_layer_def Let_def require_kc_signature_def map_errR_Inr_iff split: if_splits sum.splits)
next
  fix rq :: request and s resp s' assume "kc_signature_layer B rq s = (Inl resp, s')"
  then show "\<not> is_answer resp \<and> db_tables s' = db_tables s"
    by (auto simp: kc_signature_layer_def Let_def map_errR_def split: sum.splits)
qed

interpretation bff_layer: checking_layer "bff_auth_layer B" "authenticated B BffSurface" for B
proof
  fix rq rq' :: request and s s' assume "bff_auth_layer B rq s = (Inr rq', s')"
  then show "authenticated B BffSurface rq s"
    using bff_auth_passes[of "bk_auth B" rq s rq' s'] by (simp add: bff_auth_layer_def)
next
  fix rq :: request and s resp s' assume "bff_auth_layer B rq s = (Inl resp, s')"
  then show "\<not> is_answer resp \<and> db_tables s' = db_tables s"
    using keepsD[OF require_bff_auth_tables, of "bk_auth B" rq s _ s'] by (auto simp: bff_auth_layer_def map_errE_cases)
qed

interpretation token: checking_layer "token_layer B" "\<lambda>rq s. token_layer B rq s = (Inr rq, s)" for B
  by unfold_locales (auto simp: token_layer_def Let_def split: option.splits)

lemma through_no_layer: "through no_layer inner rq = inner rq"
  by (simp add: through_def no_layer_def fun_eq_iff)

text \<open>A table of routes without a layer is guarded when each of its handlers is.\<close>

lemma pick_method_in: "pick_method m hs = Some h \<Longrightarrow> \<exists>m'. (m', h) \<in> set hs"
  by (auto simp: pick_method_def split: option.splits if_splits dest!: map_of_SomeD)

lemma matched_in: "matched B tbl rest = Some (p, cs, hs) \<Longrightarrow> (p, hs) \<in> set tbl"
  by (auto simp: matched_def split: option.splits dest!: map_of_SomeD)

lemma unlayered_guarded:
  assumes "\<And>p cs hs m h. matched B tbl rest = Some (p, cs, hs) \<Longrightarrow> (m, h) \<in> set hs \<Longrightarrow> guarded ok (h cs rq q)"
  shows "guarded ok (serve_routes B no_layer tbl rest q rq)"
  using assms
  by (auto simp: serve_routes_def through_no_layer guarded_refuse split: option.split dest: pick_method_in)

lemma staff_authenticated:
  "authenticated B StaffSurface rq = (\<lambda>_. \<exists>c. require_staff_token (bk_staff B) (bk_auth B) (in_headers rq) = Inr c)"
  by (simp add: fun_eq_iff is_ok_iff)

lemma staff_handlers:
  fixes B :: "'r backend" and rq :: request
  defines "ok \<equiv> authenticated B StaffSurface rq" and "sg \<equiv> bk_staff B" and "A \<equiv> bk_auth B" and "hs \<equiv> in_headers rq"
  shows "guarded ok (serve_db f1 (list_staff_sessions sg A query hs))"
    "guarded ok (serve_db f2 (get_staff_session sg A sid hs))"
    "guarded ok (serve_db f3 (get_staff_flow sg A fid hs))"
    "guarded ok (serve_db f4 (list_admin_steps sg A squery hs))"
    "guarded ok (serve_db f5 (get_admin_step sg A tid hs))"
    "guarded ok (serve_run f6 (submit_admin_step sv sg A tid input hs))"
  unfolding ok_def staff_authenticated sg_def[symmetric] A_def[symmetric] hs_def[symmetric] list_staff_sessions_def
    get_staff_session_def get_staff_flow_def list_admin_steps_def get_admin_step_def submit_admin_step_def
  by (rule guarded_staff guarded_staff_run)+

lemma staff_guarded: "guarded (authenticated B StaffSurface rq) (serve_surface B StaffSurface rest q rq)"
  unfolding serve_surface.simps
proof (rule unlayered_guarded)
  fix p cs hs m h
  assume "matched B (staff_flow_router B) rest = Some (p, cs, hs)" "(m, h) \<in> set hs"
  then show "guarded (authenticated B StaffSurface rq) (h cs rq q)"
    by (auto simp: staff_flow_router_def Let_def simp del: authenticated.simps dest!: matched_in
        intro!: guard_rules staff_handlers)
qed

lemma device_guarded:
  fixes f :: "'c \<Rightarrow> reply"
  assumes "body = [] \<or> body = in_body rq"
  shows "guarded (authenticated B AuthSurface rq) (serve_auth f (bindE (authenticate_device (bk_auth B) rq body) k))"
  using assms by (intro guarded_bind authenticate_device_tables) auto

lemma bearer_guarded:
  fixes f :: "'c \<Rightarrow> reply"
  shows "guarded (authenticated B AuthSurface rq)
    (serve_db f (bindE (lift_res (api_bearer_token (bk_auth B) (in_headers rq))) k))"
  by (rule guarded_mono[OF guarded_db_lift[of _ "\<exists>c. api_bearer_token (bk_auth B) (in_headers rq) = Inr c"]]) (auto simp: is_ok_iff)

lemma userinfo_guarded:
  "guarded (authenticated B AuthSurface rq) (serve_db RUserInfo (lift_res (userinfo (bk_auth B) (in_headers rq))))"
  by (rule guardedI) (auto simp: is_ok_def userinfo_def bindR_def serve_db_def serve_auth_def on_world_def split: sum.splits)

lemma auth_handlers:
  fixes B :: "'r backend" and rq :: request
  defines "ok \<equiv> authenticated B AuthSurface rq" and "A \<equiv> bk_auth B"
  shows "guarded ok (serve_auth f1 (list_devices A rq))"
    "guarded ok (serve_auth f2 (revoke_device A did rq))"
    "guarded ok (serve_auth f3 (exchange_token ax cuid A rq))"
    "guarded ok (serve_db f4 (approve_step A tid (in_headers rq) decision message))"
  unfolding ok_def A_def list_devices_def revoke_device_def exchange_token_def approve_step_def Let_def
  by (intro guarded_lift device_guarded bearer_guarded; simp)+

lemma auth_routes_guarded:
  "list_all (\<lambda>(p, hs). p \<in> set public_routes \<or> list_all (\<lambda>(m, h). \<forall>cs. guarded (authenticated B AuthSurface rq) (h cs rq q)) hs)
     (auth_router B)"
  by (simp add: auth_router_def Let_def public_routes_def del: authenticated.simps;
      intro conjI allI guard_rules auth_handlers userinfo_guarded)

lemma auth_guarded:
  assumes "\<And>p cs hs. matched B (auth_router B) rest = Some (p, cs, hs) \<Longrightarrow> p \<notin> set public_routes"
  shows "guarded (authenticated B AuthSurface rq) (serve_surface B AuthSurface rest q rq)"
  unfolding serve_surface.simps
proof (rule unlayered_guarded)
  fix p cs hs m h
  assume found: "matched B (auth_router B) rest = Some (p, cs, hs)" and h: "(m, h) \<in> set hs"
  with assms[OF found] matched_in[OF found] auth_routes_guarded[of B rq q]
  show "guarded (authenticated B AuthSurface rq) (h cs rq q)"
    unfolding list_all_iff by fast
qed

text \<open>Every surface is guarded by its credentials, the public routes of the authentication API apart.\<close>

lemma serve_surface_guarded:
  assumes "surface = AuthSurface \<Longrightarrow> \<forall>p cs hs. matched B (auth_router B) rest = Some (p, cs, hs) \<longrightarrow> p \<notin> set public_routes"
  shows "guarded (authenticated B surface rq) (serve_surface B surface rest q rq)"
proof (cases surface)
  case KcSurface
  then show ?thesis by (simp add: serve_kc_def guarded_refuse kc_layer.through_guarded del: authenticated.simps)
next
  case BffSurface
  then show ?thesis by (simp add: bff_layer.routes_guarded del: authenticated.simps)
next
  case StaffSurface
  then show ?thesis by (simp add: staff_guarded del: authenticated.simps serve_surface.simps)
next
  case AuthSurface
  with assms show ?thesis by (auto simp del: authenticated.simps serve_surface.simps intro!: auth_guarded)
qed

end
