(* ===== verification/Http_Edge.thy ===== *)
theory Http_Edge
  imports Router
begin

text \<open>
  What surrounds the routes: the responses of errors (\<open>backend-core/src/error.rs\<close>), the correlation id of a request
  (\<open>correlation_id.rs\<close>), the documents of the OpenAPI page (\<open>swagger.rs\<close>) and the health probe
  (\<open>bins/backend/src/health/main.rs\<close>). The documents that the annotations of the handlers generate are
  parameters, as are the source of new ids and the network of the probe.
\<close>

section \<open>Responses of errors\<close>

text \<open>No code of the server attaches a context to an error, so that the field is absent from the payload.\<close>

definition payload :: "string \<times> nat \<times> string \<Rightarrow> json" where
  "payload = (\<lambda>(key, _, message). JObject [(''error_key'', JString key), (''message'', JString message)])"

text \<open>\<open>StatusCode::from_u16\<close> accepts three digits.\<close>

definition status_code_of :: "nat \<Rightarrow> nat option" where
  "status_code_of n = (if 100 \<le> n \<and> n < 1000 then Some n else None)"

definition into_response :: "app_error \<Rightarrow> nat \<times> json" where
  "into_response e =
     (let meta = error_meta e
      in (unwrap_or 500 (status_code_of (fst (snd meta))), payload meta))"

section \<open>Correlation ids\<close>

definition hex_digit :: "nat \<Rightarrow> char" where
  "hex_digit n = ''0123456789abcdef'' ! (n mod 16)"

definition hex_byte :: "nat \<Rightarrow> string" where
  "hex_byte b = [hex_digit (b div 16), hex_digit b]"

record fresh_ids =
  fi_cuid :: "string + string"
  fi_bytes :: "nat list"

definition correlation_id_header :: string where
  "correlation_id_header = ''x-correlation-id''"

definition correlation_id :: "(string \<Rightarrow> bool) \<Rightarrow> fresh_ids \<Rightarrow> request \<Rightarrow> string" where
  "correlation_id to_str_ok fresh rq =
     (case header_value to_str_ok (in_headers rq) correlation_id_header of
        Some v \<Rightarrow> v
      | None \<Rightarrow>
          (case fi_cuid fresh of
             Inr c \<Rightarrow> c
           | Inl _ \<Rightarrow> concat (map hex_byte (take 16 (fi_bytes fresh)))))"

text \<open>A response with its headers; the handlers behind the layer set none that matter here.\<close>

definition correlation_id_middleware ::
    "(string \<Rightarrow> bool) \<Rightarrow> (string \<Rightarrow> bool) \<Rightarrow> fresh_ids \<Rightarrow> (request \<Rightarrow> 's \<Rightarrow> ((headers \<times> 'b) \<times> 's) option)
      \<Rightarrow> request \<Rightarrow> 's \<Rightarrow> ((headers \<times> 'b) \<times> 's) option" where
  "correlation_id_middleware to_str_ok from_str_ok fresh next_service rq s =
     (let correlation_id = correlation_id to_str_ok fresh rq in
      case next_service rq s of
        None \<Rightarrow> None
      | Some ((hs, body), s') \<Rightarrow>
          Some ((if from_str_ok correlation_id then header_insert correlation_id_header correlation_id hs else hs, body), s'))"

text \<open>The server with its outermost layer.\<close>

definition app_service ::
    "(string \<Rightarrow> bool) \<Rightarrow> (string \<Rightarrow> bool) \<Rightarrow> fresh_ids \<Rightarrow> 'r backend \<Rightarrow> string \<Rightarrow> request
      \<Rightarrow> 'r both \<Rightarrow> ((headers \<times> response) \<times> 'r both) option" where
  "app_service to_str_ok from_str_ok fresh B q =
     correlation_id_middleware to_str_ok from_str_ok fresh
       (\<lambda>rq s. map_option (\<lambda>(resp, s'). (([], resp), s')) (build_router B q rq s))"

section \<open>The OpenAPI page\<close>

definition build_token_url_from_issuer :: "string \<Rightarrow> string" where
  "build_token_url_from_issuer issuer =
     (let issuer = trim issuer in
      if issuer \<noteq> [] \<and> last issuer = CHR ''/'' then issuer @ ''protocol/openid-connect/token''
      else issuer @ ''/protocol/openid-connect/token'')"

datatype security_scheme = HttpBearer | ClientCredentials string

record api_spec =
  sp_security_schemes :: "(string \<times> security_scheme) list option"
  sp_security :: "string list option"
  sp_servers :: "string list option"
  sp_paths :: "string list"

record swagger_config =
  swg_http_host :: "string option"
  swg_oauth2_client :: "string option option"
  swg_issuer :: string
  swg_address :: string
  swg_port :: nat

record generated_specs =
  gs_bff :: api_spec
  gs_uploads :: api_spec
  gs_staff :: api_spec
  gs_auth :: api_spec
  gs_core :: api_spec
  gs_kc :: api_spec

definition http_host :: "swagger_config \<Rightarrow> string" where
  "http_host c =
     (case swg_http_host c of
        Some h \<Rightarrow> h | None \<Rightarrow> ''http://'' @ swg_address c @ '':'' @ show_nat (swg_port c))"

definition token_url :: "swagger_config \<Rightarrow> string" where
  "token_url c =
     (case swg_oauth2_client c of
        Some (Some url) \<Rightarrow> url | _ \<Rightarrow> build_token_url_from_issuer (swg_issuer c))"

definition secured_spec :: "swagger_config \<Rightarrow> string \<Rightarrow> api_spec \<Rightarrow> api_spec" where
  "secured_spec c server spec =
     spec\<lparr>sp_security_schemes := map_option (\<lambda>ss. hm_insert ''keycloak'' (ClientCredentials (token_url c))
            (hm_insert ''bearerAuth'' HttpBearer ss)) (sp_security_schemes spec),
          sp_security := Some [''bearerAuth'', ''keycloak''],
          sp_servers := Some [server]\<rparr>"

definition swagger_ui :: "swagger_config \<Rightarrow> base_paths \<Rightarrow> generated_specs \<Rightarrow> (string \<times> api_spec) list" where
  "swagger_ui c bases g =
     [(''/api-docs/bff/openapi.json'', secured_spec c (http_host c @ trim (ba_bff bases)) (gs_bff g)),
      (''/api-docs/uploads/openapi.json'', secured_spec c (http_host c) (gs_uploads g)),
      (''/api-docs/staff/openapi.json'', secured_spec c (http_host c @ trim (ba_staff bases)) (gs_staff g)),
      (''/api-docs/auth/openapi.json'', secured_spec c (http_host c @ trim (ba_auth bases)) (gs_auth g)),
      (''/api-docs/core/openapi.json'', gs_core g),
      (''/api-docs/kc/openapi.json'', gs_kc g)]"

section \<open>The health probe\<close>

record health_cli =
  hc_server_host :: string
  hc_api_port :: nat
  hc_opa_port :: "nat option"
  hc_timeout :: nat

text \<open>\<open>None\<close> is the panic on an address that does not parse.\<close>

definition check_endpoint :: "(string \<Rightarrow> bool) \<Rightarrow> (string \<Rightarrow> nat \<Rightarrow> bool) \<Rightarrow> string \<Rightarrow> nat \<Rightarrow> nat \<Rightarrow> bool option" where
  "check_endpoint parses connects host port timeout_secs =
     (let address = host @ '':'' @ show_nat port
      in if parses address then Some (connects address timeout_secs) else None)"

definition health_main :: "(string \<Rightarrow> bool) \<Rightarrow> (string \<Rightarrow> nat \<Rightarrow> bool) \<Rightarrow> health_cli \<Rightarrow> nat option" where
  "health_main parses connects cli =
     Option.bind (check_endpoint parses connects (hc_server_host cli) (hc_api_port cli) (hc_timeout cli)) (\<lambda>api_ok.
     Option.bind (case hc_opa_port cli of
                    Some port \<Rightarrow> check_endpoint parses connects (hc_server_host cli) port (hc_timeout cli)
                  | None \<Rightarrow> Some True) (\<lambda>opa_ok.
     Some (if api_ok \<and> opa_ok then 0 else 1)))"

section \<open>Lemmas\<close>

lemma into_response_http:
  "100 \<le> status \<Longrightarrow> status < 1000 \<Longrightarrow>
   into_response (Http key status msg) = (status, JObject [(''error_key'', JString key), (''message'', JString msg)])"
  by (simp add: into_response_def payload_def status_code_of_def unwrap_or_def)

text \<open>Every error that is no \<open>Http\<close> one is a failure of the server, but for a missing row.\<close>

lemma into_response_status:
  "(\<nexists>key status msg. e = Http key status msg) \<Longrightarrow> (\<nexists>m. e = Panic m) \<Longrightarrow>
   fst (into_response e) = (if e = ErrNotFound then 404 else 500)"
  by (cases e) (simp_all add: into_response_def status_code_of_def unwrap_or_def)

text \<open>The message of an internal \<open>Server\<close> error stays inside; the text of a database error goes to the client.\<close>

lemma server_error_hidden: "into_response (Server m) = into_response (Server m')"
  by (simp add: into_response_def)

lemma database_error_shown:
  "into_response (Diesel e) = (500, JObject [(''error_key'', JString ''DATABASE_ERROR''),
     (''message'', JString (''Database operation failed: '' @ e))])"
  by (simp add: into_response_def payload_def status_code_of_def unwrap_or_def)

text \<open>The layer changes neither the response nor the state, and answers under the id the client sent.\<close>

lemma app_service_transparent:
  "map_option (\<lambda>((hs, resp), s'). (resp, s')) (app_service to_str_ok from_str_ok fresh B q rq s) = build_router B q rq s"
  by (simp add: app_service_def correlation_id_middleware_def Let_def option.map_comp comp_def option.map_ident
      split: option.split)

lemma app_service_echoes:
  assumes "app_service to_str_ok from_str_ok fresh B q rq s = Some ((hs, resp), s')"
    and "map_of (in_headers rq) correlation_id_header = Some v" "to_str_ok v" "from_str_ok v"
  shows "map_of hs correlation_id_header = Some v"
  using assms by (auto simp: app_service_def correlation_id_middleware_def correlation_id_def header_value_def Let_def
      split: option.splits)

lemma hex_digit_inj: "hex_digit a = hex_digit b \<Longrightarrow> a mod 16 = b mod 16"
proof -
  have "distinct ''0123456789abcdef''" by simp
  from nth_eq_iff_index_eq[OF this, of "a mod 16" "b mod 16"]
  show "hex_digit a = hex_digit b \<Longrightarrow> a mod 16 = b mod 16" by (simp add: hex_digit_def)
qed

lemma hex_byte_inj:
  assumes "a < 256" "b < 256" "hex_byte a = hex_byte b"
  shows "a = b"
proof -
  have "a div 16 mod 16 = b div 16 mod 16" "a mod 16 = b mod 16"
    using hex_digit_inj[of "a div 16" "b div 16"] hex_digit_inj[of a b] assms(3)[unfolded hex_byte_def] by simp_all
  moreover have "a div 16 < 16" "b div 16 < 16" using assms(1,2) by (simp_all add: div_less_iff_less_mult)
  ultimately have "a div 16 = b div 16" by simp
  with \<open>a mod 16 = b mod 16\<close> show ?thesis by (metis div_mult_mod_eq)
qed

text \<open>
  Each of the four documents of the server asks for a bearer token or client credentials. The BFF document leads to the mount point of
  the BFF; the uploads document does not, although its routes are mounted there too.
\<close>

lemma swagger_secured:
  assumes "(path, spec) \<in> set (take 4 (swagger_ui c bases g))"
  shows "sp_security spec = Some [''bearerAuth'', ''keycloak'']"
    "sp_security_schemes spec = Some ss \<Longrightarrow> map_of ss ''bearerAuth'' = Some HttpBearer
       \<and> map_of ss ''keycloak'' = Some (ClientCredentials (token_url c))"
  using assms by (auto simp: swagger_ui_def secured_spec_def)

lemma uploads_server_without_base:
  assumes "trim (ba_bff bases) \<noteq> []"
  shows "map_option sp_servers (map_of (swagger_ui c bases g) ''/api-docs/uploads/openapi.json'')
    \<noteq> map_option sp_servers (map_of (swagger_ui c bases g) ''/api-docs/bff/openapi.json'')"
  using assms by (simp add: swagger_ui_def secured_spec_def)

lemma health_main_ok:
  "health_main parses connects cli = Some 0 \<longleftrightarrow>
     (\<forall>port \<in> insert (hc_api_port cli) (set_option (hc_opa_port cli)).
        let address = hc_server_host cli @ '':'' @ show_nat port in parses address \<and> connects address (hc_timeout cli))"
  by (auto simp: health_main_def check_endpoint_def Let_def bind_eq_Some_conv split: option.splits if_splits)

end
