(* ===== verification/Sms_Gateway.thy ===== *)
theory Sms_Gateway
  imports Db_Model
begin

text \<open>
  The SMS gateway: \<open>bins/sms-gateway/src/sms_provider.rs\<close> and its HTTP handler in \<open>main.rs\<close>. The
  providers of a configuration, their requests and how they judge the answers, the token cache and
  throttle of the Orange provider, the chain of fallback providers and the retries. The HTTP and SNS
  clients, URL and base64 encoding are parameters. The monotonic clock counts milliseconds; a request
  takes the time its parameter says, a sleep exactly its duration.
\<close>

section \<open>The gateway and its network\<close>

datatype sms_body = JsonBody json | FormBody "(string \<times> string) list" | RawBody string

record sms_http =
  rq_url :: string
  rq_headers :: "(string \<times> string) list"
  rq_body :: sms_body

datatype outbound = HttpPost sms_http | SnsPublish (sns_phone: string) (sns_message: string)

text \<open>
  A response: its status, its body when it can be read, and what the body means as a token
  (\<open>OrangeTokenResponse\<close>: the access token and its lifetime in seconds).
\<close>

record sms_response =
  rs_status :: nat
  rs_text :: "string option"
  rs_token :: "string + string \<times> u64"

text \<open>The outcome of the \<open>n\<close>-th call; a failed request has a \<open>Display\<close> and a \<open>Debug\<close> text.\<close>

record sms_net =
  sn_http :: "nat \<Rightarrow> sms_http \<Rightarrow> string \<times> string + sms_response"
  sn_sns :: "nat \<Rightarrow> string \<Rightarrow> string \<Rightarrow> string + unit"
  sn_latency :: "nat \<Rightarrow> nat"
  sn_status_text :: "nat \<Rightarrow> string"
  sn_urlencode :: "string \<Rightarrow> string"
  sn_base64 :: "string \<Rightarrow> string"

record orange_token =
  ot_access_token :: string
  ot_expires_at :: nat

record orange_state =
  og_token_cache :: "orange_token option"
  og_rate_limiter :: nat

text \<open>The calls made so far with their times, and the state of each Orange provider by its number.\<close>

record gateway =
  gw_now :: nat
  gw_calls :: "(nat \<times> outbound) list"
  gw_orange :: "nat \<Rightarrow> orange_state"

type_synonym 'a gw = "(gateway, app_error, 'a) sem"

definition record_call :: "sms_net \<Rightarrow> outbound \<Rightarrow> gateway \<Rightarrow> gateway" where
  "record_call N out g =
     g\<lparr>gw_calls := gw_calls g @ [(gw_now g, out)], gw_now := gw_now g + sn_latency N (length (gw_calls g))\<rparr>"

definition sms_post :: "sms_net \<Rightarrow> (string \<times> string \<Rightarrow> app_error) \<Rightarrow> sms_http \<Rightarrow> sms_response gw" where
  "sms_post N on_error rq g =
     (map_errR on_error (sn_http N (length (gw_calls g)) rq), record_call N (HttpPost rq) g)"

definition sleep :: "nat \<Rightarrow> gateway \<Rightarrow> gateway" where
  "sleep ms g = g\<lparr>gw_now := gw_now g + ms\<rparr>"

definition is_success :: "nat \<Rightarrow> bool" where
  "is_success st \<longleftrightarrow> 200 \<le> st \<and> st < 300"

definition is_server_error :: "nat \<Rightarrow> bool" where
  "is_server_error st \<longleftrightarrow> 500 \<le> st \<and> st < 600"

definition trim_end_matches :: "char \<Rightarrow> string \<Rightarrow> string" where
  "trim_end_matches c s = rev (dropWhile (\<lambda>x. x = c) (rev s))"

definition transient :: "string \<Rightarrow> app_error" where
  "transient msg = internal ''SMS_SEND_TRANSIENT'' msg"

definition permanent :: "string \<Rightarrow> app_error" where
  "permanent msg = internal ''SMS_SEND_PERMANENT'' msg"

definition error_text :: "sms_response \<Rightarrow> string" where
  "error_text r = (case rs_text r of None \<Rightarrow> [] | Some t \<Rightarrow> t)"

section \<open>Configuration\<close>

record orange_config =
  oc_client_id :: string
  oc_client_secret :: string
  oc_token_url :: string
  oc_sms_base_url :: string
  oc_contract_url :: string
  oc_sender_address :: "string option"
  oc_sender_name :: "string option"

record avlytext_config =
  ac_base_url :: string
  ac_api_key :: string
  ac_sender_id :: string

record sms_api =
  sa_base_url :: string
  sa_auth_token :: "string option"

record whatsapp_config =
  wc_base_url :: string
  wc_device_id :: "string option"

record mtarget_config =
  mc_base_url :: string
  mc_username :: string
  mc_password :: string
  mc_service_id :: string
  mc_sender_id :: string

datatype sms_provider_type = Console | Sns | Api | Avlytext | Orange | Whatsapp | Mtarget

datatype sms_config = SmsConfig
  (sc_provider: sms_provider_type)
  (sc_api: "sms_api option")
  (sc_avlytext: "avlytext_config option")
  (sc_orange: "orange_config option")
  (sc_whatsapp: "whatsapp_config option")
  (sc_mtarget: "mtarget_config option")
  (sc_fallback: "sms_config list")

section \<open>Simple providers\<close>

definition verification_text :: "string \<Rightarrow> string" where
  "verification_text otp = ''Your verification code is: '' @ otp"

definition console_send_otp :: "string \<Rightarrow> string \<Rightarrow> unit gw" where
  "console_send_otp msisdn otp = ret ()"

definition sns_send_otp :: "sms_net \<Rightarrow> string \<Rightarrow> string \<Rightarrow> unit gw" where
  "sns_send_otp N msisdn otp g =
     (map_errR (\<lambda>e. internal ''SMS_SEND_FAILED'' (''Failed to send SMS via SNS: '' @ e))
        (sn_sns N (length (gw_calls g)) msisdn (verification_text otp)),
      record_call N (SnsPublish msisdn (verification_text otp)) g)"

text \<open>How the HTTP providers judge an answer: \<open>again\<close> tells the statuses worth a retry.\<close>

definition judge_response :: "sms_net \<Rightarrow> string \<Rightarrow> (nat \<Rightarrow> bool) \<Rightarrow> sms_response \<Rightarrow> unit gw" where
  "judge_response N label again r =
     (let st = rs_status r;
          detail = (\<lambda>kind. label @ kind @ '' error ('' @ sn_status_text N st @ ''): '' @ error_text r)
      in if is_success st then ret ()
         else if again st then throw (transient (detail '' server''))
         else throw (permanent (detail '' client'')))"

definition avlytext_send_otp :: "sms_net \<Rightarrow> avlytext_config \<Rightarrow> string \<Rightarrow> string \<Rightarrow> unit gw" where
  "avlytext_send_otp N c msisdn otp =
     bindE (sms_post N (\<lambda>(_, dbg). transient (''Failed to contact Avlytext API: '' @ dbg))
       \<lparr>rq_url = trim_end_matches CHR ''/'' (ac_base_url c) @ ''/v1/sms?api_key='' @ ac_api_key c, rq_headers = [],
        rq_body = JsonBody (JObject [(''recipient'', JString msisdn), (''sender'', JString (ac_sender_id c)),
          (''text'', JString (verification_text otp))])\<rparr>)
     (judge_response N ''Avlytext API'' is_server_error)"

definition api_send_otp :: "sms_net \<Rightarrow> sms_api \<Rightarrow> string \<Rightarrow> string \<Rightarrow> unit gw" where
  "api_send_otp N c msisdn otp =
     bindE (sms_post N (\<lambda>(txt, _). transient (''Failed to contact SMS API: '' @ txt))
       \<lparr>rq_url = trim_end_matches CHR ''/'' (sa_base_url c) @ ''/otp'',
        rq_headers = (case sa_auth_token c of None \<Rightarrow> [] | Some t \<Rightarrow> [(''Authorization'', ''Bearer '' @ t)]),
        rq_body = JsonBody (JObject [(''msisdn'', JString msisdn), (''otp'', JString otp), (''phone'', JString msisdn)])\<rparr>)
     (judge_response N ''SMS API'' is_server_error)"

definition mtarget_normalize_msisdn :: "string \<Rightarrow> string" where
  "mtarget_normalize_msisdn msisdn =
     (let trimmed = trim msisdn;
          digits = filter is_ascii_digit trimmed
      in if starts_with ''+'' trimmed then ''+'' @ digits
         else if starts_with ''00'' digits then ''+'' @ drop 2 digits
         else if length digits = 9 \<and> (starts_with ''6'' digits \<or> starts_with ''2'' digits) then ''+237'' @ digits
         else if length digits = 12 \<and> starts_with ''237'' digits then ''+'' @ digits
         else ''+'' @ digits)"

definition mtarget_send_otp :: "sms_net \<Rightarrow> mtarget_config \<Rightarrow> string \<Rightarrow> string \<Rightarrow> unit gw" where
  "mtarget_send_otp N c msisdn otp =
     bindE (sms_post N (\<lambda>(txt, _). transient (''Failed to connect to M-Target API: '' @ txt))
       \<lparr>rq_url = trim_end_matches CHR ''/'' (mc_base_url c) @ ''/messages'', rq_headers = [],
        rq_body = FormBody [(''username'', mc_username c), (''password'', mc_password c), (''serviceid'', mc_service_id c),
          (''msisdn'', mtarget_normalize_msisdn msisdn),
          (''msg'', ''Your verification code is : '' @ otp @ '' by SkyEngPro''), (''sender'', mc_sender_id c)]\<rparr>)
     (judge_response N ''M-Target API'' (\<lambda>st. is_server_error st \<or> st = 429))"

definition whatsapp_send_otp :: "sms_net \<Rightarrow> whatsapp_config \<Rightarrow> string \<Rightarrow> string \<Rightarrow> unit gw" where
  "whatsapp_send_otp N c msisdn otp =
     bindE (sms_post N (\<lambda>(txt, _). transient (''Failed to contact WhatsApp provider: '' @ txt))
       \<lparr>rq_url = trim_end_matches CHR ''/'' (wc_base_url c) @ ''/send/message''
          @ (case wc_device_id c of None \<Rightarrow> [] | Some d \<Rightarrow> ''?device_id='' @ sn_urlencode N d), rq_headers = [],
        rq_body = JsonBody (JObject [(''message'', JString (verification_text otp)), (''phone'', JString msisdn)])\<rparr>)
     (\<lambda>r. if is_success (rs_status r) then ret ()
          else throw (transient (''WhatsApp provider error ('' @ sn_status_text N (rs_status r) @ ''): '' @ error_text r)))"

section \<open>Orange\<close>

definition cached_token :: "nat \<Rightarrow> gateway \<Rightarrow> string option" where
  "cached_token i g =
     (case og_token_cache (gw_orange g i) of
        Some t \<Rightarrow> if gw_now g + 300000 < ot_expires_at t then Some (ot_access_token t) else None
      | None \<Rightarrow> None)"

definition set_token_cache :: "nat \<Rightarrow> orange_token option \<Rightarrow> gateway \<Rightarrow> gateway" where
  "set_token_cache i t g = g\<lparr>gw_orange := (gw_orange g)(i := (gw_orange g i)\<lparr>og_token_cache := t\<rparr>)\<rparr>"

definition orange_token_request :: "sms_net \<Rightarrow> orange_config \<Rightarrow> sms_http" where
  "orange_token_request N c =
     \<lparr>rq_url = oc_token_url c,
      rq_headers = [(''Authorization'', ''Basic '' @ sn_base64 N (oc_client_id c @ '':'' @ oc_client_secret c)),
        (''Content-Type'', ''application/x-www-form-urlencoded''), (''Accept'', ''application/json'')],
      rq_body = RawBody ''grant_type=client_credentials''\<rparr>"

text \<open>The write lock makes the second look at the cache see what the first saw when no other task runs.\<close>

definition auth_failed :: "string \<Rightarrow> app_error" where
  "auth_failed msg = internal ''SMS_AUTH_FAILED'' msg"

text \<open>An instant beyond the range of the clock panics.\<close>

definition instant_after :: "u64 \<Rightarrow> nat \<Rightarrow> app_error + nat" where
  "instant_after secs now =
     (if 2 ^ 63 \<le> int now div 1000 + uint secs then Inl (Panic ''overflow when adding duration to instant'')
      else Inr (now + unat secs * 1000))"

definition fetch_token :: "sms_net \<Rightarrow> nat \<Rightarrow> orange_config \<Rightarrow> string gw" where
  "fetch_token N i c =
     bindE (sms_post N (\<lambda>(txt, _). auth_failed (''Failed to fetch Orange token: '' @ txt)) (orange_token_request N c)) (\<lambda>r.
     if \<not> is_success (rs_status r)
     then throw (auth_failed (''Orange token API returned '' @ sn_status_text N (rs_status r) @ '': '' @ error_text r))
     else
       bindE (lift_res (map_errR (\<lambda>e. auth_failed (''Failed to parse Orange token response: '' @ e)) (rs_token r))) (\<lambda>(token, expires_in).
       bindE (gets gw_now) (\<lambda>now.
       bindE (lift_res (instant_after expires_in now)) (\<lambda>expires_at.
       (\<lambda>g. (Inr token, set_token_cache i (Some \<lparr>ot_access_token = token, ot_expires_at = expires_at\<rparr>) g))))))"

definition get_valid_token :: "sms_net \<Rightarrow> nat \<Rightarrow> orange_config \<Rightarrow> string gw" where
  "get_valid_token N i c =
     bindE (gets (cached_token i)) (\<lambda>cached.
       case cached of Some token \<Rightarrow> ret token | None \<Rightarrow> fetch_token N i c)"

fun trim_start_00 :: "string \<Rightarrow> string" where
  "trim_start_00 (a # b # s) = (if a = CHR ''0'' \<and> b = CHR ''0'' then trim_start_00 s else a # b # s)"
| "trim_start_00 s = s"

definition orange_normalize_msisdn :: "string \<Rightarrow> string + string" where
  "orange_normalize_msisdn msisdn =
     (let all = filter is_ascii_digit msisdn;
          digits = (if starts_with ''00'' all then trim_start_00 all else all)
      in if starts_with ''237'' digits \<and> length digits = 12 then Inr (''tel:+'' @ digits)
         else if length digits = 9 \<and> (starts_with ''6'' digits \<or> starts_with ''2'' digits) then Inr (''tel:+237'' @ digits)
         else Inl (''Invalid MSISDN format: '' @ msisdn))"

text \<open>
  At most one message every 200 ms: the limiter holds the time of the last one. Requests follow one another here. In the source the mutex of
  the limiter is given back before the message is posted, so requests that overlap pass it 200 ms apart but may post closer together.
\<close>

definition throttle :: "nat \<Rightarrow> unit gw" where
  "throttle i g =
     (let elapsed = gw_now g - og_rate_limiter (gw_orange g i);
          g1 = (if elapsed < 200 then sleep (200 - elapsed) g else g)
      in (Inr (), g1\<lparr>gw_orange := (gw_orange g1)(i := (gw_orange g1 i)\<lparr>og_rate_limiter := gw_now g1\<rparr>)\<rparr>))"

definition orange_sender :: "orange_config \<Rightarrow> string" where
  "orange_sender c = (case oc_sender_address c of None \<Rightarrow> ''tel:+2370000'' | Some a \<Rightarrow> a)"

definition orange_message :: "sms_net \<Rightarrow> orange_config \<Rightarrow> string \<Rightarrow> string \<Rightarrow> string \<Rightarrow> sms_http" where
  "orange_message N c token normalized_to otp =
     \<lparr>rq_url = trim_end_matches CHR ''/'' (oc_sms_base_url c) @ ''/outbound/'' @ sn_urlencode N (orange_sender c) @ ''/requests'',
      rq_headers = [(''Authorization'', ''Bearer '' @ token), (''Content-Type'', ''application/json''),
        (''Accept'', ''application/json'')],
      rq_body = JsonBody (JObject [(''outboundSMSMessageRequest'', JObject
        ([(''address'', JString normalized_to),
          (''outboundSMSTextMessage'', JObject [(''message'', JString (verification_text otp))]),
          (''senderAddress'', JString (orange_sender c))]
         @ (case oc_sender_name c of None \<Rightarrow> [] | Some n \<Rightarrow> [(''senderName'', JString n)])))])\<rparr>"

definition judge_orange :: "sms_net \<Rightarrow> nat \<Rightarrow> sms_response \<Rightarrow> unit gw" where
  "judge_orange N i r =
     (let st = rs_status r
      in if is_success st then ret ()
         else if st = 401
         then (\<lambda>g. (Inl (transient ''Orange API returned 401 Unauthorized, token cleared''), set_token_cache i None g))
         else if st = 429 then throw (transient ''Orange API rate limit exceeded (429)'')
         else if is_server_error st
         then throw (transient (''Orange API server error ('' @ sn_status_text N st @ ''): '' @ error_text r))
         else if sublist ''EXPIRED_QUOTA'' (error_text r) \<or> sublist ''OUT_OF_BALANCE'' (error_text r)
         then throw (permanent (''Orange API reported insufficient balance: '' @ error_text r))
         else throw (permanent (''Orange API client error ('' @ sn_status_text N st @ ''): '' @ error_text r)))"

definition send_once :: "sms_net \<Rightarrow> nat \<Rightarrow> orange_config \<Rightarrow> string \<Rightarrow> string \<Rightarrow> unit gw" where
  "send_once N i c msisdn otp =
     bindE (get_valid_token N i c) (\<lambda>token.
     bindE (lift_res (map_errR permanent (orange_normalize_msisdn msisdn))) (\<lambda>normalized_to.
     bindE (throttle i) (\<lambda>_.
     bindE (sms_post N (\<lambda>(txt, _). transient (''Failed to contact Orange API: '' @ txt))
              (orange_message N c token normalized_to otp)) (judge_orange N i))))"

fun is_transient_error :: "app_error \<Rightarrow> bool" where
  "is_transient_error (Http key _ _) \<longleftrightarrow> key = ''SMS_SEND_TRANSIENT''"
| "is_transient_error _ \<longleftrightarrow> False"

fun is_permanent_error :: "app_error \<Rightarrow> bool" where
  "is_permanent_error (Http key _ _) \<longleftrightarrow> key = ''SMS_SEND_PERMANENT''"
| "is_permanent_error _ \<longleftrightarrow> False"

definition orange_send_otp :: "sms_net \<Rightarrow> nat \<Rightarrow> orange_config \<Rightarrow> string \<Rightarrow> string \<Rightarrow> unit gw" where
  "orange_send_otp N i c msisdn otp g =
     (case send_once N i c msisdn otp g of
        (Inl e, g') \<Rightarrow> if is_transient_error e then send_once N i c msisdn otp g' else (Inl e, g')
      | res \<Rightarrow> res)"

section \<open>Providers and fallback\<close>

datatype provider =
    ConsoleSms
  | SnsSms
  | ApiSms sms_api
  | AvlytextSms avlytext_config
  | OrangeSms nat orange_config
  | WhatsappSms whatsapp_config
  | MTargetSms mtarget_config
  | FallbackSms "provider list"

text \<open>A panic unwinds through the chain: it is no error a fallback could follow.\<close>

fun provider_send_otp :: "sms_net \<Rightarrow> provider \<Rightarrow> string \<Rightarrow> string \<Rightarrow> unit gw"
  and fallback_send_otp :: "sms_net \<Rightarrow> provider list \<Rightarrow> app_error option \<Rightarrow> string \<Rightarrow> string \<Rightarrow> unit gw" where
  "provider_send_otp N ConsoleSms msisdn otp g = console_send_otp msisdn otp g"
| "provider_send_otp N SnsSms msisdn otp g = sns_send_otp N msisdn otp g"
| "provider_send_otp N (ApiSms c) msisdn otp g = api_send_otp N c msisdn otp g"
| "provider_send_otp N (AvlytextSms c) msisdn otp g = avlytext_send_otp N c msisdn otp g"
| "provider_send_otp N (OrangeSms i c) msisdn otp g = orange_send_otp N i c msisdn otp g"
| "provider_send_otp N (WhatsappSms c) msisdn otp g = whatsapp_send_otp N c msisdn otp g"
| "provider_send_otp N (MTargetSms c) msisdn otp g = mtarget_send_otp N c msisdn otp g"
| "provider_send_otp N (FallbackSms ps) msisdn otp g = fallback_send_otp N ps None msisdn otp g"
| "fallback_send_otp N [] last_error msisdn otp g =
     (Inl (case last_error of
             None \<Rightarrow> internal ''SMS_SEND_FAILED'' ''No SMS providers configured for fallback''
           | Some e \<Rightarrow> e), g)"
| "fallback_send_otp N (p # ps) last_error msisdn otp g =
     (case provider_send_otp N p msisdn otp g of
        (Inr u, g') \<Rightarrow> (Inr u, g')
      | (Inl (Panic m), g') \<Rightarrow> (Inl (Panic m), g')
      | (Inl e, g') \<Rightarrow> fallback_send_otp N ps (Some e) msisdn otp g')"

text \<open>\<open>create_sms_provider\<close>; each Orange provider it makes is numbered by its place in the chain.\<close>

definition create_single_provider :: "nat \<Rightarrow> sms_config \<Rightarrow> string + provider" where
  "create_single_provider i cfg =
     (case sc_provider cfg of
        Console \<Rightarrow> Inr ConsoleSms
      | Sns \<Rightarrow> Inr SnsSms
      | Api \<Rightarrow> bindR (ok_or (''SMS API configuration is required when provider is '' @ quoted ''api'') (sc_api cfg)) (\<lambda>c. Inr (ApiSms c))
      | Avlytext \<Rightarrow> bindR (ok_or (''Avlytext configuration is required when provider is '' @ quoted ''avlytext'') (sc_avlytext cfg))
          (\<lambda>c. Inr (AvlytextSms c))
      | Orange \<Rightarrow> bindR (ok_or (''Orange configuration is required when provider is '' @ quoted ''orange'') (sc_orange cfg))
          (\<lambda>c. Inr (OrangeSms i c))
      | Whatsapp \<Rightarrow> bindR (ok_or (''WhatsApp configuration is required when provider is '' @ quoted ''whatsapp'') (sc_whatsapp cfg))
          (\<lambda>c. Inr (WhatsappSms c))
      | Mtarget \<Rightarrow> bindR (ok_or (''M-Target configuration is required when provider is '' @ quoted ''mtarget'') (sc_mtarget cfg))
          (\<lambda>c. Inr (MTargetSms c)))"

fun create_providers :: "nat \<Rightarrow> sms_config list \<Rightarrow> string + provider list" where
  "create_providers i [] = Inr []"
| "create_providers i (cfg # cfgs) =
     bindR (create_single_provider i cfg) (\<lambda>p.
     bindR (create_providers (Suc i) cfgs) (\<lambda>ps. Inr (p # ps)))"

definition create_sms_provider :: "sms_config \<Rightarrow> string + provider" where
  "create_sms_provider cfg =
     bindR (create_providers 0 (cfg # sc_fallback cfg)) (\<lambda>ps.
       case ps of [p] \<Rightarrow> Inr p | _ \<Rightarrow> Inr (FallbackSms ps))"

section \<open>Retries and jobs\<close>

definition transient_retry_max_attempts :: nat where
  "transient_retry_max_attempts = 4"

text \<open>\<open>saturating_mul\<close> and the shift stay far below the range of \<open>u64\<close> for the attempts there are.\<close>

definition backoff_millis :: "nat \<Rightarrow> nat" where
  "backoff_millis attempt = min (200 * 2 ^ (attempt - 1)) (2 ^ 64 - 1)"

function retry_from :: "unit gw \<Rightarrow> nat \<Rightarrow> unit gw" where
  "retry_from send attempt g =
     (case send g of
        (Inr u, g') \<Rightarrow> (Inr u, g')
      | (Inl e, g') \<Rightarrow>
          if is_permanent_error e then (Inl e, g')
          else if is_transient_error e
          then (if transient_retry_max_attempts \<le> attempt + 1 then (Inl e, g')
                else retry_from send (attempt + 1) (sleep (backoff_millis (attempt + 1)) g'))
          else (Inl e, g'))"
  by pat_completeness auto
termination by (relation "measure (\<lambda>(send, attempt, g). transient_retry_max_attempts - attempt)") auto

declare retry_from.simps [simp del]

definition send_otp_with_retry :: "sms_net \<Rightarrow> provider \<Rightarrow> string \<Rightarrow> string \<Rightarrow> unit gw" where
  "send_otp_with_retry N p msisdn otp = retry_from (provider_send_otp N p msisdn otp) 0"

datatype notification_job =
    OtpJob (job_step_id: string) (job_msisdn: string) (job_otp: string)
  | MagicEmail string string string

fun process_notification_job :: "sms_net \<Rightarrow> provider \<Rightarrow> notification_job \<Rightarrow> unit gw" where
  "process_notification_job N p (OtpJob step_id msisdn otp) = send_otp_with_retry N p msisdn otp"
| "process_notification_job N p (MagicEmail step_id email token) = ret ()"

section \<open>The HTTP handler\<close>

record send_otp_request =
  so_phone :: "string option"
  so_msisdn :: "string option"
  so_otp :: string
  so_step_id :: "string option"

record error_response =
  ex_status :: nat
  ex_error_key :: string
  ex_message :: string

definition request_msisdn :: "send_otp_request \<Rightarrow> string option" where
  "request_msisdn p =
     (case (case so_msisdn p of None \<Rightarrow> so_phone p | Some m \<Rightarrow> Some m) of
        None \<Rightarrow> None
      | Some v \<Rightarrow> if trim v = [] then None else Some (trim v))"

text \<open>The response of the handler: delivered, an error response, or none after a panic.\<close>

datatype otp_reply = Delivered | Refused error_response | NoReply

definition error_reply :: "app_error \<Rightarrow> error_response" where
  "error_reply e =
     \<lparr>ex_status = (if is_permanent_error e then 400 else 502), ex_error_key = fst (error_meta e),
      ex_message = snd (snd (error_meta e))\<rparr>"

definition send_otp :: "sms_net \<Rightarrow> provider \<Rightarrow> send_otp_request \<Rightarrow> gateway \<Rightarrow> otp_reply \<times> gateway" where
  "send_otp N p payload g =
     (let otp = trim (so_otp payload)
      in case request_msisdn payload of
           None \<Rightarrow> (Refused \<lparr>ex_status = 400, ex_error_key = ''INVALID_REQUEST'',
                     ex_message = ''phone/msisdn and otp are required''\<rparr>, g)
         | Some msisdn \<Rightarrow>
             if otp = [] then (Refused \<lparr>ex_status = 400, ex_error_key = ''INVALID_REQUEST'',
                     ex_message = ''phone/msisdn and otp are required''\<rparr>, g)
             else
               (case process_notification_job N p (OtpJob (case so_step_id payload of None \<Rightarrow> ''direct-http'' | Some s \<Rightarrow> s) msisdn otp) g of
                  (Inr _, g') \<Rightarrow> (Delivered, g')
                | (Inl (Panic _), g') \<Rightarrow> (NoReply, g')
                | (Inl e, g') \<Rightarrow> (Refused (error_reply e), g')))"

end
