(* ===== verification/Migrate.thy ===== *)
theory Migrate
  imports Db_Model
begin

text \<open>
  The start of the database (\<open>backend-migrate/src/migrate.rs\<close>): a process connects, takes an advisory lock of
  PostgreSQL, has diesel run the pending migrations, releases the lock and builds its pool. PostgreSQL and diesel are
  parameters, functions on a state of the database server that is not looked into; what is relied on are the laws of
  \<open>pg_laws\<close>, in terms of three observations of that state: which connection holds the lock, which connections
  are open, and whether every migration has been applied. Connections are numbered by the process that opens them.
\<close>

section \<open>PostgreSQL and diesel\<close>

text \<open>
  The commands of one connection. \<open>db_lock\<close> is \<open>None\<close> while the request for the lock waits. \<open>db_statement\<close> is the next command of
  diesel's \<open>run_pending_migrations\<close> on the connection, with the result of the whole run once it has one. \<open>db_close\<close>
  is the end of a connection, from either side.
\<close>

record 'd db_server =
  db_establish :: "string \<Rightarrow> nat \<Rightarrow> 'd \<Rightarrow> (string + unit) \<times> 'd"
  db_lock :: "int \<Rightarrow> nat \<Rightarrow> 'd \<Rightarrow> ((string + unit) \<times> 'd) option"
  db_statement :: "nat \<Rightarrow> 'd \<Rightarrow> (string + unit) option \<times> 'd"
  db_unlock :: "int \<Rightarrow> nat \<Rightarrow> 'd \<Rightarrow> (string + unit) \<times> 'd"
  db_close :: "nat \<Rightarrow> 'd \<Rightarrow> 'd"
  db_join :: "string + unit"
  db_pool :: "string \<Rightarrow> nat \<Rightarrow> string + unit"
  db_holder :: "int \<Rightarrow> 'd \<Rightarrow> nat option"
  db_open :: "nat \<Rightarrow> 'd \<Rightarrow> bool"
  db_current :: "'d \<Rightarrow> bool"

text \<open>
  A session-level advisory lock is granted to an open connection when no other has it, even when the reply is lost, and is
  held until its connection releases it or ends. The migrations neither take nor release advisory locks, and none of the
  commands undoes an applied migration. A command on a connection that has ended fails and has no effect.
\<close>

definition establish_law :: "'d db_server \<Rightarrow> bool" where
  "establish_law D \<longleftrightarrow> (\<forall>url k i d r d'. db_establish D url i d = (r, d') \<longrightarrow>
     db_holder D k d' = db_holder D k d \<and> (db_current D d \<longrightarrow> db_current D d')
     \<and> (\<forall>j. j \<noteq> i \<longrightarrow> db_open D j d' = db_open D j d) \<and> (db_open D i d \<longrightarrow> db_open D i d'))"

definition lock_law :: "'d db_server \<Rightarrow> bool" where
  "lock_law D \<longleftrightarrow> (\<forall>k i d r d'. db_lock D k i d = Some (r, d') \<longrightarrow>
     (\<forall>j. db_open D j d' = db_open D j d) \<and> (db_current D d \<longrightarrow> db_current D d')
     \<and> (db_open D i d \<and> db_holder D k d \<in> {None, Some i} \<and> db_holder D k d' = Some i
        \<or> (\<exists>e. r = Inl e) \<and> db_holder D k d' = db_holder D k d))"

definition statement_law :: "'d db_server \<Rightarrow> bool" where
  "statement_law D \<longleftrightarrow> (\<forall>k i d r d'. db_statement D i d = (r, d') \<longrightarrow>
     (\<forall>j. db_open D j d' = db_open D j d) \<and> (db_current D d \<longrightarrow> db_current D d')
     \<and> db_holder D k d' = db_holder D k d \<and> (r = Some (Inr ()) \<longrightarrow> db_current D d')
     \<and> (\<not> db_open D i d \<longrightarrow> d' = d \<and> (\<exists>e. r = Some (Inl e))))"

definition unlock_law :: "'d db_server \<Rightarrow> bool" where
  "unlock_law D \<longleftrightarrow> (\<forall>k i d r d'. db_unlock D k i d = (r, d') \<longrightarrow>
     (\<forall>j. db_open D j d' = db_open D j d) \<and> (db_current D d \<longrightarrow> db_current D d')
     \<and> (db_holder D k d' = db_holder D k d \<or> db_holder D k d = Some i \<and> db_holder D k d' = None))"

definition close_law :: "'d db_server \<Rightarrow> bool" where
  "close_law D \<longleftrightarrow> (\<forall>k i d. let d' = db_close D i d in
     \<not> db_open D i d' \<and> (\<forall>j. j \<noteq> i \<longrightarrow> db_open D j d' = db_open D j d) \<and> (db_current D d \<longrightarrow> db_current D d')
     \<and> db_holder D k d' = (if db_holder D k d = Some i then None else db_holder D k d))"

definition pg_laws :: "'d db_server \<Rightarrow> bool" where
  "pg_laws D \<longleftrightarrow> establish_law D \<and> lock_law D \<and> statement_law D \<and> unlock_law D \<and> close_law D"

section \<open>A single process\<close>

datatype db_kind = Postgres

record db_factory =
  dbf_url :: string
  dbf_max_connections :: "32 word"
  dbf_kind :: db_kind

definition postgres :: "string \<Rightarrow> db_factory" where
  "postgres url = \<lparr>dbf_url = url, dbf_max_connections = 5, dbf_kind = Postgres\<rparr>"

definition max_connections :: "32 word \<Rightarrow> db_factory \<Rightarrow> db_factory" where
  "max_connections m f = f\<lparr>dbf_max_connections := m\<rparr>"

definition migration_advisory_lock_key :: int where
  "migration_advisory_lock_key = 9247331105042019"

definition db_error :: "string \<Rightarrow> string + 'a \<Rightarrow> app_error + 'a" where
  "db_error text = map_errR (\<lambda>e. ErrDatabase (text @ e))"

text \<open>diesel's run on connection \<open>i\<close> with nothing in between; \<open>None\<close> when it never ends.\<close>

partial_function (option) run_pending_migrations :: "'d db_server \<Rightarrow> nat \<Rightarrow> 'd \<Rightarrow> ((string + unit) \<times> 'd) option" where
  "run_pending_migrations D i d =
     (case db_statement D i d of (None, d') \<Rightarrow> run_pending_migrations D i d' | (Some r, d') \<Rightarrow> Some (r, d'))"

declare run_pending_migrations.simps [code]

text \<open>What the task returns: the unlocking runs also after a failed migration, whose error goes first.\<close>

definition migration_task_result :: "string + unit \<Rightarrow> string + unit \<Rightarrow> app_error + unit" where
  "migration_task_result outcome unlocked =
     (let migration_result = db_error ''Migration failed: '' outcome;
          unlock_result = db_error ''Failed to release migration lock: '' unlocked
      in bindR migration_result (\<lambda>_. bindR unlock_result (\<lambda>_. Inr ())))"

text \<open>The blocking task of \<open>build_postgres\<close>, which drops its connection when it returns.\<close>

definition migrate_blocking :: "'d db_server \<Rightarrow> string \<Rightarrow> nat \<Rightarrow> 'd \<Rightarrow> ((app_error + unit) \<times> 'd) option" where
  "migrate_blocking D url i d =
     (case db_establish D url i d of
        (Inl e, d1) \<Rightarrow> Some (db_error ''Failed to connect for migrations: '' (Inl e), d1)
      | (Inr _, d1) \<Rightarrow>
          (case db_lock D migration_advisory_lock_key i d1 of
             None \<Rightarrow> None
           | Some (Inl e, d2) \<Rightarrow> Some (db_error ''Failed to acquire migration lock: '' (Inl e), db_close D i d2)
           | Some (Inr _, d2) \<Rightarrow>
               (case run_pending_migrations D i d2 of
                  None \<Rightarrow> None
                | Some (outcome, d3) \<Rightarrow>
                    (case db_unlock D migration_advisory_lock_key i d3 of
                       (unlocked, d4) \<Rightarrow> Some (migration_task_result outcome unlocked, db_close D i d4)))))"

record pool =
  pl_url :: string
  pl_max_size :: nat

definition build_postgres :: "'d db_server \<Rightarrow> db_factory \<Rightarrow> nat \<Rightarrow> 'd \<Rightarrow> ((app_error + pool) \<times> 'd) option" where
  "build_postgres D f i d =
     (if dbf_kind f \<noteq> Postgres
      then Some (Inl (ErrDatabase ''DbFactory::build_postgres called on non-postgres factory''), d)
      else
        (case migrate_blocking D (dbf_url f) i d of
           None \<Rightarrow> None
         | Some (task, d') \<Rightarrow>
             Some (bindR (db_error ''Migration task failed: '' (db_join D)) (\<lambda>_.
                   bindR task (\<lambda>_.
                   bindR (db_error '''' (db_pool D (dbf_url f) (unat (dbf_max_connections f)))) (\<lambda>_.
                   Inr \<lparr>pl_url = dbf_url f, pl_max_size = unat (dbf_max_connections f)\<rparr>))), d')))"

definition connect_postgres_and_migrate :: "'d db_server \<Rightarrow> string \<Rightarrow> nat \<Rightarrow> 'd \<Rightarrow> ((app_error + pool) \<times> 'd) option" where
  "connect_postgres_and_migrate D url = build_postgres D (postgres url)"

section \<open>Several processes\<close>

text \<open>
  Where the task of a process is: about to connect, about to ask for the lock, in diesel's run, about to unlock with the result of the run.
  A process that has crashed may have sent the command of its phase, which the server still carries out as long as the connection is open there.
\<close>

datatype phase = Starting | Connected | Migrating | Ran "string + unit"

datatype migrator = Live phase | Ended "app_error + unit" | Crashed "phase option"

definition command :: "'d db_server \<Rightarrow> string \<Rightarrow> nat \<Rightarrow> phase \<Rightarrow> 'd \<Rightarrow> ((string + unit) option \<times> 'd) option" where
  "command D url i ph d =
     (case ph of
        Starting \<Rightarrow> Some (apfst Some (db_establish D url i d))
      | Connected \<Rightarrow> map_option (apfst Some) (db_lock D migration_advisory_lock_key i d)
      | Migrating \<Rightarrow> Some (db_statement D i d)
      | Ran _ \<Rightarrow> Some (apfst Some (db_unlock D migration_advisory_lock_key i d)))"

text \<open>The task after the command of its phase has been answered.\<close>

fun answered :: "phase \<Rightarrow> (string + unit) option \<Rightarrow> migrator" where
  "answered ph None = Live ph"
| "answered Starting (Some (Inr _)) = Live Connected"
| "answered Starting (Some (Inl e)) = Ended (db_error ''Failed to connect for migrations: '' (Inl e))"
| "answered Connected (Some (Inr _)) = Live Migrating"
| "answered Connected (Some (Inl e)) = Ended (db_error ''Failed to acquire migration lock: '' (Inl e))"
| "answered Migrating (Some r) = Live (Ran r)"
| "answered (Ran r) (Some u) = Ended (migration_task_result r u)"

text \<open>A task that ends drops its connection, if it has one.\<close>

definition dropped :: "'d db_server \<Rightarrow> nat \<Rightarrow> phase \<Rightarrow> migrator \<Rightarrow> 'd \<Rightarrow> 'd" where
  "dropped D i ph p d = (case p of Ended _ \<Rightarrow> if ph = Starting then d else db_close D i d | _ \<Rightarrow> d)"

inductive migrators_step :: "'d db_server \<Rightarrow> string \<Rightarrow> migrator list \<times> 'd \<Rightarrow> migrator list \<times> 'd \<Rightarrow> bool" for D url where
  works: "i < length ps \<Longrightarrow> ps ! i = Live ph \<Longrightarrow> command D url i ph d = Some (r, d') \<Longrightarrow>
    migrators_step D url (ps, d) (ps[i := answered ph r], dropped D i ph (answered ph r) d')"
| crashes: "i < length ps \<Longrightarrow> ps ! i = Live ph \<Longrightarrow> migrators_step D url (ps, d) (ps[i := Crashed (Some ph)], d)"
| takes_effect: "i < length ps \<Longrightarrow> ps ! i = Crashed (Some ph) \<Longrightarrow> command D url i ph d = Some (r, d') \<Longrightarrow>
    migrators_step D url (ps, d) (ps[i := Crashed None], d')"
| disconnects: "migrators_step D url (ps, d) (ps, db_close D i d)"

inductive_cases migrators_stepE: "migrators_step D url s s'"

abbreviation migrators_run :: "'d db_server \<Rightarrow> string \<Rightarrow> migrator list \<times> 'd \<Rightarrow> migrator list \<times> 'd \<Rightarrow> bool" where
  "migrators_run D url \<equiv> (migrators_step D url)\<^sup>*\<^sup>*"

section \<open>Lemmas\<close>

text \<open>A process whose migration commands can take effect, and one that may have the lock.\<close>

definition migrating :: "'d db_server \<Rightarrow> migrator list \<times> 'd \<Rightarrow> nat \<Rightarrow> bool" where
  "migrating D = (\<lambda>(ps, d) i. i < length ps \<and> ps ! i \<in> {Live Migrating, Crashed (Some Migrating)} \<and> db_open D i d)"

fun may_hold :: "migrator \<Rightarrow> bool" where
  "may_hold (Live ph) = (ph \<noteq> Starting)" | "may_hold (Ended _) = False" | "may_hold (Crashed ph) = (ph \<noteq> Some Starting)"

fun succeeded :: "migrator \<Rightarrow> bool" where
  "succeeded (Live (Ran (Inr _))) = True" | "succeeded (Ended (Inr _)) = True"
| "succeeded (Crashed (Some (Ran (Inr _)))) = True" | "succeeded _ = False"

abbreviation lock_holder_of :: "'d db_server \<Rightarrow> 'd \<Rightarrow> nat option" where
  "lock_holder_of D \<equiv> db_holder D migration_advisory_lock_key"

definition migrators_ok :: "'d db_server \<Rightarrow> migrator list \<times> 'd \<Rightarrow> bool" where
  "migrators_ok D = (\<lambda>(ps, d).
     (\<forall>i. migrating D (ps, d) i \<longrightarrow> lock_holder_of D d = Some i)
     \<and> (\<forall>i. lock_holder_of D d = Some i \<longrightarrow> i < length ps \<and> db_open D i d \<and> may_hold (ps ! i))
     \<and> ((\<exists>p\<in>set ps. succeeded p) \<longrightarrow> db_current D d))"

text \<open>What a command of connection \<open>i\<close> does to the observations.\<close>

definition effect_ok :: "'d db_server \<Rightarrow> nat \<Rightarrow> phase \<Rightarrow> 'd \<Rightarrow> (string + unit) option \<Rightarrow> 'd \<Rightarrow> bool" where
  "effect_ok D i ph d r d' \<longleftrightarrow>
     (db_current D d \<longrightarrow> db_current D d') \<and> (\<forall>j. j \<noteq> i \<longrightarrow> db_open D j d' = db_open D j d)
     \<and> (db_open D i d \<longrightarrow> db_open D i d') \<and> (ph \<noteq> Starting \<longrightarrow> db_open D i d' = db_open D i d)
     \<and> (lock_holder_of D d' = lock_holder_of D d
        \<or> ph = Connected \<and> db_open D i d \<and> lock_holder_of D d \<in> {None, Some i} \<and> lock_holder_of D d' = Some i
        \<or> (\<exists>x. ph = Ran x) \<and> lock_holder_of D d = Some i \<and> lock_holder_of D d' = None)
     \<and> (ph = Migrating \<and> r = Some (Inr ()) \<longrightarrow> db_current D d')
     \<and> (ph = Connected \<and> r = Some (Inr ()) \<longrightarrow> db_open D i d \<and> lock_holder_of D d' = Some i)
     \<and> (ph = Migrating \<and> d' \<noteq> d \<longrightarrow> db_open D i d)
     \<and> (ph \<noteq> Migrating \<longrightarrow> r \<noteq> None)"

lemma commandE:
  assumes "command D url i ph d = Some (r, d')"
  obtains (establish) r0 where "ph = Starting" "db_establish D url i d = (r0, d')" "r = Some r0"
    | (lock) r0 where "ph = Connected" "db_lock D migration_advisory_lock_key i d = Some (r0, d')" "r = Some r0"
    | (statement) "ph = Migrating" "db_statement D i d = (r, d')"
    | (unlock) x r0 where "ph = Ran x" "db_unlock D migration_advisory_lock_key i d = (r0, d')" "r = Some r0"
  using assms by (cases ph) (auto simp: command_def apfst_def map_prod_def split: prod.splits)

lemma command_effect:
  assumes "pg_laws D" "command D url i ph d = Some (r, d')"
  shows "effect_ok D i ph d r d'"
  using assms(2)
proof (cases rule: commandE)
  case (establish r0)
  with assms(1) have "db_current D d \<longrightarrow> db_current D d'" "\<forall>j. j \<noteq> i \<longrightarrow> db_open D j d' = db_open D j d"
    "db_open D i d \<longrightarrow> db_open D i d'" "lock_holder_of D d' = lock_holder_of D d"
    unfolding pg_laws_def establish_law_def by blast+
  with establish show ?thesis by (simp add: effect_ok_def)
next
  case (lock r0)
  with assms(1) have "db_current D d \<longrightarrow> db_current D d'" "\<forall>j. db_open D j d' = db_open D j d"
    "db_open D i d \<and> lock_holder_of D d \<in> {None, Some i} \<and> lock_holder_of D d' = Some i
      \<or> (\<exists>e. r0 = Inl e) \<and> lock_holder_of D d' = lock_holder_of D d"
    unfolding pg_laws_def lock_law_def by blast+
  with lock show ?thesis by (auto simp: effect_ok_def)
next
  case statement
  with assms(1) have "db_current D d \<longrightarrow> db_current D d'" "\<forall>j. db_open D j d' = db_open D j d"
    "lock_holder_of D d' = lock_holder_of D d" "r = Some (Inr ()) \<longrightarrow> db_current D d'" "\<not> db_open D i d \<longrightarrow> d' = d"
    unfolding pg_laws_def statement_law_def by blast+
  with statement show ?thesis by (auto simp: effect_ok_def)
next
  case (unlock x r0)
  with assms(1) have "db_current D d \<longrightarrow> db_current D d'" "\<forall>j. db_open D j d' = db_open D j d"
    "lock_holder_of D d' = lock_holder_of D d \<or> lock_holder_of D d = Some i \<and> lock_holder_of D d' = None"
    unfolding pg_laws_def unlock_law_def by blast+
  with unlock show ?thesis by (auto simp: effect_ok_def)
qed

lemma close_effect:
  assumes "pg_laws D"
  shows "\<not> db_open D i (db_close D i d)" "j \<noteq> i \<Longrightarrow> db_open D j (db_close D i d) = db_open D j d"
    "db_current D d \<Longrightarrow> db_current D (db_close D i d)"
    "lock_holder_of D (db_close D i d) = (if lock_holder_of D d = Some i then None else lock_holder_of D d)"
  using assms unfolding pg_laws_def close_law_def Let_def by blast+

lemma migrators_okI:
  assumes "\<And>i. migrating D (ps, d) i \<Longrightarrow> lock_holder_of D d = Some i"
    and "\<And>i. lock_holder_of D d = Some i \<Longrightarrow> i < length ps \<and> db_open D i d \<and> may_hold (ps ! i)"
    and "\<And>i. i < length ps \<Longrightarrow> succeeded (ps ! i) \<Longrightarrow> db_current D d"
  shows "migrators_ok D (ps, d)"
  using assms by (auto simp: migrators_ok_def in_set_conv_nth)

lemma migrators_okD:
  assumes "migrators_ok D (ps, d)"
  shows "migrating D (ps, d) i \<Longrightarrow> lock_holder_of D d = Some i"
    and "lock_holder_of D d = Some i \<Longrightarrow> i < length ps \<and> db_open D i d \<and> may_hold (ps ! i)"
    and "i < length ps \<Longrightarrow> succeeded (ps ! i) \<Longrightarrow> db_current D d"
  using assms by (auto simp: migrators_ok_def dest: nth_mem)

text \<open>The end of a connection, and a step of process \<open>i\<close> that does not change what it may hold.\<close>

lemma migrators_ok_close:
  assumes "pg_laws D" "migrators_ok D (ps, d)"
  shows "migrators_ok D (ps, db_close D i d)"
proof (rule migrators_okI)
  note closed = close_effect[OF assms(1), where i = i and d = d] and ok = migrators_okD[OF assms(2)]
  show "lock_holder_of D (db_close D i d) = Some j" if "migrating D (ps, db_close D i d) j" for j
    using that closed ok(1)[of j] by (cases "j = i") (auto simp: migrating_def)
  show "j < length ps \<and> db_open D j (db_close D i d) \<and> may_hold (ps ! j)"
    if "lock_holder_of D (db_close D i d) = Some j" for j
    using that closed ok(2)[of j] by (cases "j = i") (auto split: if_splits)
  show "db_current D (db_close D i d)" if "j < length ps" "succeeded (ps ! j)" for j
    using closed(3) ok(3) that by blast
qed

lemma migrators_ok_update:
  assumes "migrators_ok D (ps, d)" "i < length ps" "effect_ok D i ph d r d'"
    and "p \<in> {Live Migrating, Crashed (Some Migrating)} \<Longrightarrow> db_open D i d' \<Longrightarrow> lock_holder_of D d' = Some i"
    and "lock_holder_of D d' = Some i \<Longrightarrow> db_open D i d' \<and> may_hold p" "succeeded p \<Longrightarrow> db_current D d'"
    and "ps ! i = Live ph \<or> ps ! i = Crashed (Some ph)"
  shows "migrators_ok D (ps[i := p], d')"
proof (rule migrators_okI)
  note ok = migrators_okD[OF assms(1)] and effect = assms(3)[unfolded effect_ok_def]
  have other: "lock_holder_of D d' = Some j \<longleftrightarrow> lock_holder_of D d = Some j" if "j \<noteq> i" for j
    using effect that by auto
  show "lock_holder_of D d' = Some j" if "migrating D (ps[i := p], d') j" for j
    using that assms(4) effect other[of j] ok(1)[of j] by (cases "j = i") (auto simp: migrating_def)
  show "j < length (ps[i := p]) \<and> db_open D j d' \<and> may_hold (ps[i := p] ! j)" if "lock_holder_of D d' = Some j" for j
    using that assms(2,5) effect other[of j] ok(2)[of j] by (cases "j = i") auto
  show "db_current D d'" if "j < length (ps[i := p])" "succeeded (ps[i := p] ! j)" for j
    using that assms(2,6) effect ok(3)[of j] by (cases "j = i") auto
qed

lemma migrators_ok_ended:
  assumes "migrators_ok D (ps[i := Crashed None], d)" "lock_holder_of D d \<noteq> Some i" "succeeded (Ended x) \<Longrightarrow> db_current D d"
  shows "migrators_ok D (ps[i := Ended x], d)"
proof (rule migrators_okI)
  note ok = migrators_okD[OF assms(1)]
  show "lock_holder_of D d = Some j" if "migrating D (ps[i := Ended x], d) j" for j
    using that ok(1)[of j] by (cases "j = i") (auto simp: migrating_def)
  show "j < length (ps[i := Ended x]) \<and> db_open D j d \<and> may_hold (ps[i := Ended x] ! j)" if "lock_holder_of D d = Some j" for j
    using that assms(2) ok(2)[of j] by (cases "j = i") auto
  show "db_current D d" if "j < length (ps[i := Ended x])" "succeeded (ps[i := Ended x] ! j)" for j
    using that assms(3) ok(3)[of j] by (cases "j = i") auto
qed

lemma effect_ok_refl: "effect_ok D i ph d (Some (Inl e)) d"
  by (simp add: effect_ok_def)

lemma migration_task_result_Inr [simp]: "migration_task_result r u = Inr x \<longleftrightarrow> r = Inr () \<and> u = Inr ()"
  by (cases r; cases u) (simp_all add: migration_task_result_def db_error_def)

lemma succeeded_iff: "succeeded p \<longleftrightarrow> (\<exists>x. p = Live (Ran (Inr x)) \<or> p = Ended (Inr x) \<or> p = Crashed (Some (Ran (Inr x))))"
  by (cases p rule: succeeded.cases) auto

lemma answered_cases:
  "answered ph r = Ended (Inr x) \<longleftrightarrow> ph = Ran (Inr ()) \<and> r = Some (Inr ())"
  "answered ph r = Live ph' \<longleftrightarrow> r = None \<and> ph' = ph \<or> ph = Starting \<and> r = Some (Inr ()) \<and> ph' = Connected
     \<or> ph = Connected \<and> r = Some (Inr ()) \<and> ph' = Migrating \<or> ph = Migrating \<and> (\<exists>y. r = Some y \<and> ph' = Ran y)"
  "answered ph r \<noteq> Crashed c"
  by (cases "(ph, r)" rule: answered.cases; auto simp: db_error_def)+

text \<open>The command of a process is answered, and it goes on or ends.\<close>

lemma migrators_ok_answered:
  assumes "pg_laws D" "migrators_ok D (ps, d)" "i < length ps" "ps ! i = Live ph" "command D url i ph d = Some (r, d')"
  shows "migrators_ok D (ps[i := answered ph r], dropped D i ph (answered ph r) d')"
proof -
  note effect = command_effect[OF assms(1,5)] and ok = migrators_okD[OF assms(2), of i]
  note facts = effect[unfolded effect_ok_def] and closed = close_effect[OF assms(1)]
  have cleared: "migrators_ok D (ps[i := Crashed None], d')" if "ph \<noteq> Starting"
    by (rule migrators_ok_update[OF assms(2,3) effect]) (use that facts ok assms(3,4) in \<open>auto split: if_splits\<close>)
  have current: "db_current D d'" if "succeeded (answered ph r)" "answered ph r = Ended x" for x
    using that facts ok(3) assms(3,4) by (auto simp: succeeded_iff answered_cases)
  show ?thesis
  proof (cases "answered ph r")
    case (Live ph')
    have "migrators_ok D (ps[i := Live ph'], d')"
      by (rule migrators_ok_update[OF assms(2,3) effect])
         (use Live facts ok assms(3,4) in \<open>auto simp: succeeded_iff migrating_def answered_cases\<close>)
    then show ?thesis using Live by (simp add: dropped_def)
  next
    case (Ended x)
    show ?thesis
    proof (cases "ph = Starting")
      case True
      have "migrators_ok D (ps[i := Ended x], d')"
        by (rule migrators_ok_update[OF assms(2,3) effect]) (use True Ended current facts ok assms(3,4) in auto)
      then show ?thesis using Ended True by (simp add: dropped_def)
    next
      case False
      have "migrators_ok D (ps[i := Ended x], db_close D i d')"
        by (rule migrators_ok_ended[OF migrators_ok_close[OF assms(1) cleared[OF False]]])
           (use closed(3,4) current Ended in auto)
      then show ?thesis using Ended False by (simp add: dropped_def)
    qed
  next
    case (Crashed c)
    then show ?thesis by (simp add: answered_cases)
  qed
qed

lemma migrators_ok_step:
  assumes "pg_laws D" "migrators_step D url s s'" "migrators_ok D s"
  shows "migrators_ok D s'"
  using assms(2)
proof (cases rule: migrators_step.cases)
  case (works i ps ph d r d')
  with migrators_ok_answered[OF assms(1), of ps d i ph url r d'] assms(3) show ?thesis by simp
next
  case (crashes i ps ph d)
  note ok = assms(3)[unfolded crashes(1)]
  have "migrators_ok D (ps[i := Crashed (Some ph)], d)"
  proof (rule migrators_ok_update[OF ok crashes(3) effect_ok_refl, where ph = ph])
    show "lock_holder_of D d = Some i" if "Crashed (Some ph) \<in> {Live Migrating, Crashed (Some Migrating)}" "db_open D i d"
      using that crashes(3,4) by (intro migrators_okD(1)[OF ok]) (simp add: migrating_def)
    show "db_open D i d \<and> may_hold (Crashed (Some ph))" if "lock_holder_of D d = Some i"
      using migrators_okD(2)[OF ok that] crashes(4) by simp
    show "db_current D d" if "succeeded (Crashed (Some ph))"
      using that crashes(4) by (intro migrators_okD(3)[OF ok crashes(3)]) (simp add: succeeded_iff)
  qed (simp add: crashes(4))
  with crashes show ?thesis by simp
next
  case (takes_effect i ps ph d r d')
  note effect = command_effect[OF assms(1) takes_effect(5)] and ok = assms(3)[unfolded takes_effect(1)]
  have "db_open D i d'" if "lock_holder_of D d' = Some i"
    using that effect migrators_okD(2)[OF ok, of i] unfolding effect_ok_def by metis
  then have "migrators_ok D (ps[i := Crashed None], d')"
    by (intro migrators_ok_update[OF ok takes_effect(3) effect]) (simp_all add: takes_effect(4))
  with takes_effect show ?thesis by simp
next
  case (disconnects ps d i)
  with migrators_ok_close[OF assms(1)] assms(3) show ?thesis by simp
qed

lemma migrators_ok_run:
  assumes "pg_laws D" "migrators_run D url s s'" "migrators_ok D s"
  shows "migrators_ok D s'"
  using assms(2,3) by (induction rule: rtranclp_induct) (auto intro: migrators_ok_step[OF assms(1)])

lemma migrators_start: "lock_holder_of D d = None \<Longrightarrow> migrators_ok D (replicate n (Live Starting), d)"
  by (auto simp: migrators_ok_def migrating_def)

text \<open>The task of a process that runs with nothing in between is a run of the steps.\<close>

lemma work_step:
  assumes "i < length ps" "command D url i ph d = Some (r, d')"
  shows "migrators_step D url (ps[i := Live ph], d) (ps[i := answered ph r], dropped D i ph (answered ph r) d')"
  using works[of i "ps[i := Live ph]" ph D url d r d'] assms by simp

lemma run_pending_steps:
  assumes "run_pending_migrations D i d = Some y" "i < length ps"
  shows "migrators_run D url (ps[i := Live Migrating], d) (ps[i := Live (Ran (fst y))], snd y)"
proof -
  have "i < length ps \<longrightarrow> migrators_run D url (ps[i := Live Migrating], d) (ps[i := Live (Ran (fst y))], snd y)"
  proof (rule run_pending_migrations.raw_induct[where P = "\<lambda>D i d y. i < length ps \<longrightarrow>
      migrators_run D url (ps[i := Live Migrating], d) (ps[i := Live (Ran (fst y))], snd y)", OF _ assms(1)])
    fix f D i d y
    assume IH: "\<And>D i d y. f D i d = Some y \<Longrightarrow> i < length ps \<longrightarrow>
        migrators_run D url (ps[i := Live Migrating], d) (ps[i := Live (Ran (fst y))], snd y)"
      and call: "(case db_statement D i d of (None, d') \<Rightarrow> f D i d' | (Some r, d') \<Rightarrow> Some (r, d')) = Some y"
    obtain r d' where st: "db_statement D i d = (r, d')" by fastforce
    then have go: "command D url i Migrating d = Some (r, d')" by (simp add: command_def)
    note step = work_step[OF _ go]
    show "i < length ps \<longrightarrow> migrators_run D url (ps[i := Live Migrating], d) (ps[i := Live (Ran (fst y))], snd y)"
    proof (cases r)
      case None
      with call st have "f D i d' = Some y" by simp
      from IH[OF this] None step show ?thesis
        by (auto simp: dropped_def intro: converse_rtranclp_into_rtranclp)
    next
      case (Some r0)
      with call st step show ?thesis by (auto simp: dropped_def)
    qed
  qed
  then show ?thesis using assms(2) by blast
qed

lemma migrate_blocking_steps:
  assumes "migrate_blocking D url i d = Some (x, d')" "i < length ps" "ps ! i = Live Starting"
  shows "migrators_run D url (ps, d) (ps[i := Ended x], d')"
proof -
  have start: "ps = ps[i := Live Starting]" using assms(3) by (metis list_update_id)
  obtain r1 d1 where c: "db_establish D url i d = (r1, d1)" by fastforce
  have s1: "migrators_step D url (ps, d) (ps[i := answered Starting (Some r1)], dropped D i Starting (answered Starting (Some r1)) d1)"
    using work_step[OF assms(2), of D url Starting d] c start by (simp add: command_def)
  show ?thesis
  proof (cases r1)
    case (Inl e)
    with assms(1) c s1 show ?thesis by (auto simp: migrate_blocking_def dropped_def)
  next
    case connected: (Inr u)
    with assms(1) c obtain r2 d2 where l: "db_lock D migration_advisory_lock_key i d1 = Some (r2, d2)"
      by (auto simp: migrate_blocking_def split: option.splits)
    have s2: "migrators_step D url (ps[i := Live Connected], d1)
        (ps[i := answered Connected (Some r2)], dropped D i Connected (answered Connected (Some r2)) d2)"
      using work_step[OF assms(2), of D url Connected d1] l by (simp add: command_def)
    have s12: "migrators_run D url (ps, d) (ps[i := answered Connected (Some r2)], dropped D i Connected (answered Connected (Some r2)) d2)"
      using s1 s2 connected by (auto simp: dropped_def intro: converse_rtranclp_into_rtranclp)
    show ?thesis
    proof (cases r2)
      case (Inl e)
      with assms(1) c l connected s12 show ?thesis by (auto simp: migrate_blocking_def dropped_def)
    next
      case (Inr v)
      with assms(1) c l connected obtain y where m: "run_pending_migrations D i d2 = Some y"
        by (auto simp: migrate_blocking_def split: option.splits)
      obtain r4 d4 where u: "db_unlock D migration_advisory_lock_key i (snd y) = (r4, d4)" by fastforce
      have "migrators_step D url (ps[i := Live (Ran (fst y))], snd y) (ps[i := Ended (migration_task_result (fst y) r4)], db_close D i d4)"
        using work_step[OF assms(2), of D url "Ran (fst y)" "snd y"] u by (simp add: command_def dropped_def)
      moreover have "x = migration_task_result (fst y) r4" "d' = db_close D i d4"
        using assms(1) c l connected Inr m u by (auto simp: migrate_blocking_def split: prod.splits)
      ultimately show ?thesis
        using s12 Inr run_pending_steps[OF m assms(2), of url]
        by (auto simp: dropped_def intro: rtranclp_trans rtranclp.rtrancl_into_rtrancl)
    qed
  qed
qed

text \<open>
  The pool has five connections whatever the configuration says: \<open>connect_postgres_and_migrate\<close> never sets another size, and
  the configured one is not read.
\<close>

lemma pool_size_fixed:
  "connect_postgres_and_migrate D url i d = Some (Inr p, d') \<Longrightarrow> pl_max_size p = 5"
  by (auto simp: connect_postgres_and_migrate_def build_postgres_def postgres_def bindR_Inr_iff split: option.splits prod.splits)

text \<open>A process that has a pool has seen every migration applied, and has given the lock up.\<close>

lemma pool_has_schema:
  assumes "pg_laws D" "db_holder D migration_advisory_lock_key d = None" "connect_postgres_and_migrate D url i d = Some (Inr p, d')"
  shows "db_current D d'" "db_holder D migration_advisory_lock_key d' \<noteq> Some i"
proof -
  let ?ps = "replicate (Suc i) (Live Starting)"
  from assms(3) have "migrate_blocking D url i d = Some (Inr (), d')"
    by (auto simp: connect_postgres_and_migrate_def build_postgres_def postgres_def bindR_Inr_iff split: option.splits prod.splits)
  from migrate_blocking_steps[OF this, of ?ps] have "migrators_run D url (?ps, d) (?ps[i := Ended (Inr ())], d')"
    by (simp add: nth_append del: replicate_Suc)
  note ok = migrators_ok_run[OF assms(1) this migrators_start[OF assms(2)]]
  from migrators_okD(3)[OF ok, of i] show "db_current D d'" by (simp del: replicate_Suc)
  from migrators_okD(2)[OF ok, of i] show "db_holder D migration_advisory_lock_key d' \<noteq> Some i" by (auto simp del: replicate_Suc)
qed

section \<open>Properties\<close>

text \<open>
  C13: processes that start together migrate one at a time. In every interleaving of any number of processes, with
  failing calls, connections that break and crashes anywhere, whatever a crashed process had sent being carried out later or never, at most
  one process has migration commands that can take effect, and it holds the advisory lock; a migration command of
  a process changes the database only when that process holds the lock; a process whose task has ended, well or
  badly, does not hold it; and once the task of some process has succeeded, every migration has been applied.
  PostgreSQL's advisory lock and diesel's runner are parameters under the laws of \<open>pg_laws\<close>.
\<close>

theorem migrations_exclusive:
  assumes "pg_laws D" "db_holder D migration_advisory_lock_key d0 = None"
    and "migrators_run D url (replicate n (Live Starting), d0) (ps, d)"
  shows "(\<forall>i j. migrating D (ps, d) i \<and> migrating D (ps, d) j \<longrightarrow> i = j)
    \<and> (\<forall>i r d'. i < length ps \<and> ps ! i \<in> {Live Migrating, Crashed (Some Migrating)} \<and> db_statement D i d = (r, d') \<and> d' \<noteq> d
         \<longrightarrow> db_holder D migration_advisory_lock_key d = Some i)
    \<and> (\<forall>i x. i < length ps \<and> ps ! i = Ended x \<longrightarrow> db_holder D migration_advisory_lock_key d \<noteq> Some i)
    \<and> (Ended (Inr ()) \<in> set ps \<longrightarrow> db_current D d)"
proof (intro conjI allI impI)
  note ok = migrators_ok_run[OF assms(1,3) migrators_start[OF assms(2)]]
  show "i = j" if "migrating D (ps, d) i \<and> migrating D (ps, d) j" for i j
    using that migrators_okD(1)[OF ok, of i] migrators_okD(1)[OF ok, of j] by simp
  show "lock_holder_of D d = Some i"
    if "i < length ps \<and> ps ! i \<in> {Live Migrating, Crashed (Some Migrating)} \<and> db_statement D i d = (r, d') \<and> d' \<noteq> d" for i r d'
  proof (rule migrators_okD(1)[OF ok])
    have "db_open D i d" using that assms(1) unfolding pg_laws_def statement_law_def by blast
    with that show "migrating D (ps, d) i" by (simp add: migrating_def)
  qed
  show "lock_holder_of D d \<noteq> Some i" if "i < length ps \<and> ps ! i = Ended x" for i x
    using that migrators_okD(2)[OF ok, of i] by auto
  show "db_current D d" if "Ended (Inr ()) \<in> set ps"
    using that migrators_okD(3)[OF ok] by (auto simp: in_set_conv_nth)
qed

section \<open>Witness\<close>

text \<open>A server on which nothing fails, with the holder of the lock, the open connections and the number of pending migrations.\<close>

type_synonym small_db = "(int \<rightharpoonup> nat) \<times> nat set \<times> nat"

definition small_server :: "small_db db_server" where
  "small_server = \<lparr>
     db_establish = (\<lambda>url i (h, os, n). (Inr (), (h, insert i os, n))),
     db_lock = (\<lambda>k i (h, os, n). if i \<notin> os then Some (Inl ''closed'', (h, os, n))
        else if h k \<in> {None, Some i} then Some (Inr (), (h(k \<mapsto> i), os, n)) else None),
     db_statement = (\<lambda>i (h, os, n). if i \<notin> os then (Some (Inl ''closed''), (h, os, n))
        else if n = 0 then (Some (Inr ()), (h, os, n)) else (None, (h, os, n - 1))),
     db_unlock = (\<lambda>k i (h, os, n). (Inr (), (if h k = Some i then h(k := None) else h, os, n))),
     db_close = (\<lambda>i (h, os, n). (\<lambda>k. if h k = Some i then None else h k, os - {i}, n)),
     db_join = Inr (), db_pool = (\<lambda>_ _. Inr ()),
     db_holder = (\<lambda>k (h, os, n). h k), db_open = (\<lambda>i (h, os, n). i \<in> os), db_current = (\<lambda>(h, os, n). n = 0)\<rparr>"

lemma small_server_simps:
  "db_establish small_server url i (h, os, n) = (Inr (), (h, insert i os, n))"
  "db_lock small_server k i (h, os, n) = (if i \<notin> os then Some (Inl ''closed'', (h, os, n))
     else if h k \<in> {None, Some i} then Some (Inr (), (h(k \<mapsto> i), os, n)) else None)"
  "db_unlock small_server k i (h, os, n) = (Inr (), (if h k = Some i then h(k := None) else h, os, n))"
  "db_close small_server i (h, os, n) = (\<lambda>k. if h k = Some i then None else h k, os - {i}, n)"
  "db_holder small_server k (h, os, n) = h k"
  by (simp_all add: small_server_def)

lemma small_server_laws: "pg_laws small_server"
  unfolding pg_laws_def establish_law_def lock_law_def statement_law_def unlock_law_def close_law_def Let_def
  by (auto simp: small_server_def split: if_splits)

lemma small_server_runs:
  "i \<in> os \<Longrightarrow> run_pending_migrations small_server i (h, os, n) = Some (Inr (), (h, os, 0))"
proof (induction n)
  case 0
  then show ?case by (subst run_pending_migrations.simps) (simp add: small_server_def)
next
  case (Suc n)
  then show ?case by (subst run_pending_migrations.simps) (simp add: small_server_def)
qed

theorem migrations_exclusive_witness:
  "\<exists>d'. migrate_blocking small_server ''pg'' 1 (\<lambda>_. None, {}, 2) = Some (Inr (), d') \<and> db_current small_server d'
     \<and> db_holder small_server migration_advisory_lock_key d' \<noteq> Some 1"
proof -
  let ?d = "(\<lambda>_. None, {}, 2) :: small_db"
  have "\<exists>d'. migrate_blocking small_server ''pg'' 1 ?d = Some (Inr (), d')"
    by (simp add: migrate_blocking_def small_server_simps small_server_runs)
  then obtain d' where run: "migrate_blocking small_server ''pg'' 1 ?d = Some (Inr (), d')" by blast
  have "migrators_run small_server ''pg'' (replicate 2 (Live Starting), ?d) ([Live Starting, Ended (Inr ())], d')"
    using migrate_blocking_steps[OF run, of "replicate 2 (Live Starting)"] by (simp add: numeral_2_eq_2)
  from migrations_exclusive[OF small_server_laws _ this]
  have "db_current small_server d'" "db_holder small_server migration_advisory_lock_key d' \<noteq> Some 1"
    by (auto simp: small_server_simps)
  with run show ?thesis by blast
qed

end
