(* ===== verification/Server_Config.thy ===== *)
theory Server_Config
  imports Runtime Http_Edge Env_Config Sms_Gateway Migrate
begin

text \<open>
  The configuration of the processes (\<open>backend-core/src/config.rs\<close>): its sections, the defaults of the fields that a file may
  leave out, and the settings that the components take from it. The decoding of the file is serde's.
\<close>

section \<open>Sections\<close>

record runtime_section =
  cr_mode :: runtime_mode

record redis_section =
  crd_url :: string
  crd_worker_lock_ttl_seconds :: i64
  crd_worker_lock_renew_seconds :: u64

record tls_section =
  ct_cert_path :: string
  ct_key_path :: string

record server_section =
  csv_address :: string
  csv_port :: "16 word"
  csv_tls :: tls_section

record logging_section =
  cl_level :: string
  cl_data_dir :: "string option"
  cl_json :: "bool option"
  cl_log_requests_enabled :: bool

record database_section =
  cdb_url :: string
  cdb_pool_size :: "32 word option"

record oauth2_section =
  co_issuer :: string
  co_jwks_uri :: "string option"
  co_base_paths :: "string list"

record swagger_section =
  cw_http_host :: "string option"
  cw_oauth2_client :: "string option option"

record sns_section =
  cn_region :: "string option"
  cn_max_attempts :: "32 word"
  cn_initial_backoff_seconds :: u64

record flow_section =
  cf_flows_dir :: string
  cf_sessions_dir :: string

record kc_section =
  ck_enabled :: bool
  ck_base_path :: string
  ck_signature_secret :: string
  ck_max_clock_skew_seconds :: i64
  ck_max_body_bytes :: nat

record bff_section =
  cb_enabled :: bool
  cb_base_path :: string
  cb_recovery_lookup_service_client_id :: string
  cb_recovery_lookup_audience :: string
  cb_recovery_lookup_required_scope :: string
  cb_recovery_lookup_realm :: string

record staff_section =
  cst_enabled :: bool
  cst_base_path :: string

record auth_section =
  ca_enabled :: bool
  ca_base_path :: string
  ca_token_issuer :: "string option"
  ca_token_audience :: "string option"
  ca_token_ttl_seconds :: i64
  ca_max_clock_skew_seconds :: i64

record deposit_recipient =
  cd_provider :: string
  cd_full_name :: string
  cd_phone_number :: string
  cd_regex :: string
  cd_currency :: string

record deposit_flow_staff =
  cds_recipients :: "deposit_recipient list"

record deposit_flow =
  cdf_staff :: deposit_flow_staff

record cuss_section =
  cc_api_url :: string

record config =
  c_server :: server_section
  c_logging :: logging_section
  c_database :: database_section
  c_oauth2 :: oauth2_section
  c_runtime :: runtime_section
  c_redis :: redis_section
  c_s3 :: "aws_s3 option"
  c_storage :: "storage_config option"
  c_sns :: "sns_section option"
  c_sms :: "sms_config option"
  c_kc :: kc_section
  c_bff :: bff_section
  c_staff :: staff_section
  c_auth :: auth_section
  c_deposit_flow :: "deposit_flow option"
  c_cuss :: cuss_section
  c_flow :: flow_section
  c_swagger :: swagger_section

section \<open>Defaults\<close>

definition default_runtime :: runtime_section where
  "default_runtime = \<lparr>cr_mode = SharedMode\<rparr>"

definition default_worker_lock_ttl_seconds :: i64 where
  "default_worker_lock_ttl_seconds = 30"

definition default_worker_lock_renew_seconds :: u64 where
  "default_worker_lock_renew_seconds = 10"

definition default_redis :: redis_section where
  "default_redis = \<lparr>crd_url = ''redis://127.0.0.1:6379'',
     crd_worker_lock_ttl_seconds = default_worker_lock_ttl_seconds,
     crd_worker_lock_renew_seconds = default_worker_lock_renew_seconds\<rparr>"

definition default_flow_section :: flow_section where
  "default_flow_section = \<lparr>cf_flows_dir = ''flows'', cf_sessions_dir = ''sessions''\<rparr>"

definition default_auth_base_path :: string where
  "default_auth_base_path = ''/auth''"

definition default_token_ttl_seconds :: i64 where
  "default_token_ttl_seconds = 3600"

definition default_auth_max_clock_skew_seconds :: i64 where
  "default_auth_max_clock_skew_seconds = 60"

definition default_auth_section :: auth_section where
  "default_auth_section = \<lparr>ca_enabled = True, ca_base_path = default_auth_base_path, ca_token_issuer = None,
     ca_token_audience = None, ca_token_ttl_seconds = default_token_ttl_seconds,
     ca_max_clock_skew_seconds = default_auth_max_clock_skew_seconds\<rparr>"

definition default_swagger_section :: swagger_section where
  "default_swagger_section = \<lparr>cw_http_host = None, cw_oauth2_client = None\<rparr>"

section \<open>What the components take from it\<close>

definition signature_state_of :: "config \<Rightarrow> signature_state" where
  "signature_state_of c = \<lparr>ss_signature_secret = ck_signature_secret (c_kc c),
     ss_max_clock_skew_seconds = ck_max_clock_skew_seconds (c_kc c), ss_max_body_bytes = ck_max_body_bytes (c_kc c)\<rparr>"

definition base_paths_of :: "config \<Rightarrow> base_paths" where
  "base_paths_of c = \<lparr>ba_kc = ck_base_path (c_kc c), ba_kc_enabled = ck_enabled (c_kc c), ba_bff = cb_base_path (c_bff c),
     ba_staff = cst_base_path (c_staff c), ba_auth = ca_base_path (c_auth c), ba_auth_enabled = ca_enabled (c_auth c),
     ba_oauth2 = co_base_paths (c_oauth2 c)\<rparr>"

definition app_config_of :: "config \<Rightarrow> app_config" where
  "app_config_of c = \<lparr>ac_uploads = \<lparr>uc_storage = c_storage c, uc_s3 = c_s3 c\<rparr>, ac_signature = signature_state_of c,
     ac_address = csv_address (c_server c), ac_port = csv_port (c_server c),
     ac_lock_ttl_seconds = crd_worker_lock_ttl_seconds (c_redis c),
     ac_flows_dir = cf_flows_dir (c_flow c), ac_sessions_dir = cf_sessions_dir (c_flow c)\<rparr>"

definition swagger_config_of :: "config \<Rightarrow> swagger_config" where
  "swagger_config_of c = \<lparr>swg_http_host = cw_http_host (c_swagger c), swg_oauth2_client = cw_oauth2_client (c_swagger c),
     swg_issuer = co_issuer (c_oauth2 c), swg_address = csv_address (c_server c), swg_port = unat (csv_port (c_server c))\<rparr>"

definition staff_config_of :: "config \<Rightarrow> staff_config" where
  "staff_config_of c = \<lparr>sg_enabled = cst_enabled (c_staff c), sg_issuer = co_issuer (c_oauth2 c)\<rparr>"

text \<open>The settings the handlers and layers read, over the clients and libraries of \<open>B\<close>.\<close>

definition configure_auth :: "config \<Rightarrow> 'r auth_server \<Rightarrow> 'r auth_server" where
  "configure_auth c A = A\<lparr>as_bff_enabled := cb_enabled (c_bff c), as_max_body_bytes := ck_max_body_bytes (c_kc c),
     as_max_skew := ca_max_clock_skew_seconds (c_auth c),
     as_recovery_client_id := cb_recovery_lookup_service_client_id (c_bff c),
     as_recovery_audience := cb_recovery_lookup_audience (c_bff c),
     as_recovery_scope := cb_recovery_lookup_required_scope (c_bff c),
     as_recovery_realm := cb_recovery_lookup_realm (c_bff c)\<rparr>"

definition configure_api :: "config \<Rightarrow> api_ext \<Rightarrow> api_ext" where
  "configure_api c ax = ax\<lparr>ax_token_ttl_seconds := ca_token_ttl_seconds (c_auth c), ax_token_issuer := ca_token_issuer (c_auth c),
     ax_oauth2_issuer := co_issuer (c_oauth2 c), ax_token_audience := ca_token_audience (c_auth c)\<rparr>"

definition configure_backend :: "config \<Rightarrow> 'r backend \<Rightarrow> 'r backend" where
  "configure_backend c B = B\<lparr>bk_auth := configure_auth c (bk_auth B), bk_staff := staff_config_of c,
     bk_uploads := (bk_uploads B)\<lparr>us_config := \<lparr>uc_storage = c_storage c, uc_s3 = c_s3 c\<rparr>\<rparr>,
     bk_api := configure_api c (bk_api B), bk_signature := signature_state_of c, bk_paths := base_paths_of c\<rparr>"

section \<open>Lemmas\<close>

text \<open>With the defaults the lock is renewed three times in its lifetime.\<close>

lemma default_renewals:
  "3 * unat (normalized_renew (crd_worker_lock_ttl_seconds default_redis) (crd_worker_lock_renew_seconds default_redis))
     = unat (normalized_ttl (crd_worker_lock_ttl_seconds default_redis))"
  by (simp add: default_redis_def default_worker_lock_ttl_seconds_def default_worker_lock_renew_seconds_def normalized_renew_def
      normalized_ttl_def saturating_sub_def word_less_nat_alt word_le_nat_alt min_def max_def)

end
