(* ===== verification/Sms_Props.thy ===== *)
theory Sms_Props
  imports Sms_Gateway
begin

text \<open>
  What the SMS gateway promises: the calls a request costs, the course of the retries and of the
  fallback chain, the form of the numbers it dials, and the spacing of Orange messages.
\<close>

section \<open>Calls\<close>

named_theorems call_rules \<open>how many calls a program of the gateway makes\<close>

definition extends :: "nat \<Rightarrow> gateway \<Rightarrow> gateway \<Rightarrow> bool" where
  "extends n g g' \<longleftrightarrow> (\<exists>cs. gw_calls g' = gw_calls g @ cs \<and> length cs \<le> n) \<and> gw_now g \<le> gw_now g'"

definition costs :: "nat \<Rightarrow> 'a gw \<Rightarrow> bool" where
  "costs n m \<longleftrightarrow> (\<forall>g. extends n g (snd (m g)))"

lemma extends_refl [simp]: "extends n g g"
  by (simp add: extends_def)

lemma extends_trans: "extends m g g1 \<Longrightarrow> extends n g1 g2 \<Longrightarrow> extends (m + n) g g2"
  unfolding extends_def by fastforce

lemma extends_mono: "extends m g g' \<Longrightarrow> m \<le> n \<Longrightarrow> extends n g g'"
  unfolding extends_def by fastforce

lemma extends_quiet: "gw_calls g' = gw_calls g \<Longrightarrow> gw_now g \<le> gw_now g' \<Longrightarrow> extends n g g'"
  by (simp add: extends_def)

lemma costs_basic [call_rules]:
  "costs n (ret a)" "costs n (throw e)" "costs n (lift_res r)" "costs n (gets f)" "costs n (Pair r)"
  by (simp_all add: costs_def)

lemma costs_bindE [call_rules]:
  assumes "costs m p" "\<And>a. costs n (k a)"
  shows "costs (m + n) (bindE p k)"
proof (unfold costs_def, intro allI)
  fix g
  obtain r g1 where p: "p g = (r, g1)" by force
  with assms(1) have "extends m g g1" by (metis costs_def snd_conv)
  moreover have "extends n g1 (snd (k a g1))" for a using assms(2) by (simp add: costs_def)
  ultimately show "extends (m + n) g (snd (bindE p k g))"
    using p by (cases r) (auto simp: bindE_def intro: extends_trans extends_mono)
qed

lemma costs_mono: "costs m p \<Longrightarrow> m \<le> n \<Longrightarrow> costs n p"
  unfolding costs_def by (blast intro: extends_mono)

lemma costs_if [call_rules]: "costs n p \<Longrightarrow> costs n q \<Longrightarrow> costs n (if b then p else q)"
  by simp

lemma costs_case_option [call_rules]:
  "costs n p \<Longrightarrow> (\<And>x. costs n (k x)) \<Longrightarrow> costs n (case v of None \<Rightarrow> p | Some x \<Rightarrow> k x)"
  by (cases v) simp_all

lemma costs_case_prod [call_rules]: "(\<And>x y. costs n (k x y)) \<Longrightarrow> costs n (case p of (x, y) \<Rightarrow> k x y)"
  by (cases p) simp

lemma costs_http [call_rules]: "costs 1 (sms_post N f rq)"
  by (simp add: costs_def sms_post_def extends_def record_call_def)

lemma costs_before: "costs 0 p \<Longrightarrow> (\<And>a. costs n (k a)) \<Longrightarrow> costs n (bindE p k)"
  using costs_bindE[of 0 p n k] by simp

lemma costs_after: "costs n p \<Longrightarrow> (\<And>a. costs 0 (k a)) \<Longrightarrow> costs n (bindE p k)"
  using costs_bindE[of n p 0 k] by simp

lemma quiet_programs [call_rules]:
  "costs 0 (judge_response N label again r)" "costs 0 (judge_orange N i r)" "costs 0 (throttle i)"
  by (auto simp: costs_def judge_response_def judge_orange_def throttle_def Let_def set_token_cache_def sleep_def
      intro!: extends_quiet)

lemma costs_token [call_rules]: "costs 1 (get_valid_token N i c)"
proof -
  have cache: "costs 0 (\<lambda>g. (Inr t, set_token_cache i v g))" for t v
    by (simp add: costs_def set_token_cache_def extends_def)
  have "costs 1 (fetch_token N i c)"
    unfolding fetch_token_def by (intro costs_after costs_if costs_before costs_case_prod cache call_rules)
  then show ?thesis
    unfolding get_valid_token_def by (intro costs_before costs_case_option costs_basic)
qed

lemma costs_send_once: "costs 2 (send_once N i c msisdn otp)"
proof -
  have "costs 1 (bindE (lift_res r) (\<lambda>x. bindE (throttle i) (\<lambda>_. bindE (sms_post N f (h x)) (judge_orange N i))))"
    for r :: "app_error + string" and f h by (rule costs_before costs_after call_rules)+
  then have "costs (1 + 1) (send_once N i c msisdn otp)"
    unfolding send_once_def by (intro costs_bindE costs_token)
  then show ?thesis by (simp add: numeral_2_eq_2)
qed

lemma costs_orange: "costs 4 (orange_send_otp N i c msisdn otp)"
proof (unfold costs_def, intro allI)
  fix g
  obtain r g1 where once: "send_once N i c msisdn otp g = (r, g1)" by force
  then have "extends 2 g g1" using costs_send_once by (metis costs_def snd_conv)
  moreover have "extends 2 g1 (snd (send_once N i c msisdn otp g1))" using costs_send_once by (simp add: costs_def)
  ultimately show "extends 4 g (snd (orange_send_otp N i c msisdn otp g))"
    using once extends_trans[of 2 g g1 2] by (auto simp: orange_send_otp_def split: sum.splits intro: extends_mono)
qed

text \<open>The calls one attempt of a provider makes at most.\<close>

fun provider_cost :: "provider \<Rightarrow> nat" where
  "provider_cost ConsoleSms = 0"
| "provider_cost (OrangeSms i c) = 4"
| "provider_cost (FallbackSms ps) = sum_list (map provider_cost ps)"
| "provider_cost p = 1"

lemma costs_simple:
  "costs 1 (api_send_otp N ca msisdn otp)" "costs 1 (avlytext_send_otp N cv msisdn otp)"
  "costs 1 (whatsapp_send_otp N cw msisdn otp)" "costs 1 (mtarget_send_otp N cm msisdn otp)"
  "costs 1 (sns_send_otp N msisdn otp)"
  unfolding api_send_otp_def avlytext_send_otp_def whatsapp_send_otp_def mtarget_send_otp_def
  by (rule costs_after, rule costs_http, intro call_rules)+
     (simp add: costs_def sns_send_otp_def extends_def record_call_def)

lemma provider_extends:
  "extends (provider_cost p) g (snd (provider_send_otp N p msisdn otp g))"
  "extends (sum_list (map provider_cost ps)) g (snd (fallback_send_otp N ps err msisdn otp g))"
proof (induction N p msisdn otp g and N ps err msisdn otp g rule: provider_send_otp_fallback_send_otp.induct)
  case (10 N p ps last_error msisdn otp g)
  obtain r g' where r: "provider_send_otp N p msisdn otp g = (r, g')" by force
  with 10(1) have first: "extends (provider_cost p) g g'" by simp
  show ?case
  proof (cases r)
    case (Inl e)
    show ?thesis
    proof (cases "\<exists>m. e = Panic m")
      case False
      then have "fallback_send_otp N (p # ps) last_error msisdn otp g = fallback_send_otp N ps (Some e) msisdn otp g'"
        using r Inl by (cases e) simp_all
      moreover have "extends (sum_list (map provider_cost ps)) g' (snd (fallback_send_otp N ps (Some e) msisdn otp g'))"
        using 10(2-) r Inl False by (cases e) auto
      ultimately show ?thesis using first by (simp add: extends_trans)
    qed (use r Inl first in \<open>auto intro: extends_mono\<close>)
  qed (use r first in \<open>auto intro: extends_mono\<close>)
qed (use costs_simple costs_orange in \<open>auto simp: costs_def console_send_otp_def\<close>)

section \<open>Retries\<close>

definition worth_retry :: "app_error + unit \<Rightarrow> bool" where
  "worth_retry r = (case r of Inl e \<Rightarrow> is_transient_error e | Inr _ \<Rightarrow> False)"

text \<open>The gateway after \<open>k\<close> failed attempts and the pause after each.\<close>

fun after_failures :: "unit gw \<Rightarrow> nat \<Rightarrow> gateway \<Rightarrow> gateway" where
  "after_failures send 0 g = g"
| "after_failures send (Suc k) g = sleep (200 * 2 ^ k) (snd (send (after_failures send k g)))"

lemma transient_not_permanent: "is_transient_error e \<Longrightarrow> \<not> is_permanent_error e"
  by (cases e) auto

lemma retry_from_step:
  assumes "k < 4"
  shows "retry_from send k g =
    (if worth_retry (fst (send g)) \<and> k < 3 then retry_from send (Suc k) (sleep (200 * 2 ^ k) (snd (send g))) else send g)"
proof -
  have "(2::nat) ^ k \<le> 2 ^ 3" using assms by (intro power_increasing) simp_all
  then have "backoff_millis (Suc k) = 200 * 2 ^ k" by (simp add: backoff_millis_def)
  then show ?thesis
    by (subst retry_from.simps)
       (auto simp: transient_retry_max_attempts_def worth_retry_def transient_not_permanent split: prod.splits sum.splits)
qed

lemma retry_from_after_failures:
  "k \<le> 3 \<Longrightarrow> list_all (\<lambda>j. worth_retry (fst (send (after_failures send j g)))) [0..<k] \<Longrightarrow>
   retry_from send 0 g = retry_from send k (after_failures send k g)"
proof (induction k)
  case (Suc k)
  then show ?case using retry_from_step[of k send "after_failures send k g"] by simp
qed simp

lemma retry_from_ends:
  "\<exists>k\<le>3. retry_from send 0 g = send (after_failures send k g)
     \<and> list_all (\<lambda>j. worth_retry (fst (send (after_failures send j g)))) [0..<k]
     \<and> (k < 3 \<longrightarrow> \<not> worth_retry (fst (send (after_failures send k g))))"
proof -
  let ?fails = "\<lambda>j. worth_retry (fst (send (after_failures send j g)))"
  obtain k where k: "k \<le> 3" "list_all ?fails [0..<k]" "k < 3 \<longrightarrow> \<not> ?fails k"
  proof -
    consider "\<not> ?fails 0" | "?fails 0" "\<not> ?fails 1" | "?fails 0" "?fails 1" "\<not> ?fails 2" | "?fails 0" "?fails 1" "?fails 2"
      by blast
    then show thesis
    proof cases
      case 1 then show ?thesis by (intro that[of 0]) simp_all
    next
      case 2 then show ?thesis by (intro that[of 1]) simp_all
    next
      case 3 then show ?thesis by (intro that[of 2]) (simp_all add: numeral_2_eq_2)
    next
      case 4 then show ?thesis by (intro that[of 3]) (simp_all add: numeral_2_eq_2 numeral_3_eq_3)
    qed
  qed
  moreover have "retry_from send 0 g = send (after_failures send k g)"
    using retry_from_after_failures[OF k(1,2)] retry_from_step[of k send "after_failures send k g"] k(1,3) by auto
  ultimately show ?thesis by blast
qed

text \<open>A sender whose attempt makes at most \<open>cost\<close> calls and never turns the clock back.\<close>

locale bounded_sender =
  fixes send :: "unit gw" and cost :: nat
  assumes send_extends: "extends cost g (snd (send g))"
begin

lemma after_failures_extends: "extends (k * cost) g (after_failures send k g)"
proof (induction k)
  case (Suc k)
  then have "extends (k * cost + cost) g (snd (send (after_failures send k g)))"
    using send_extends by (rule extends_trans)
  moreover have "extends 0 g' (sleep n g')" for g' n by (simp add: sleep_def extends_quiet)
  ultimately show ?case using extends_trans[of "k * cost + cost" g _ 0] by (simp add: add.commute)
qed simp

lemma retry_extends: "extends (4 * cost) g (snd (retry_from send 0 g))"
proof -
  obtain k where "k \<le> 3" and "retry_from send 0 g = send (after_failures send k g)"
    using retry_from_ends by blast
  moreover have "extends (k * cost + cost) g (snd (send (after_failures send k g)))"
    using after_failures_extends send_extends by (rule extends_trans)
  moreover have "k * cost + cost \<le> 4 * cost" using \<open>k \<le> 3\<close> mult_le_mono1[of "Suc k" 4 cost] by simp
  ultimately show ?thesis by (auto intro: extends_mono)
qed

end

interpretation provider_sender: bounded_sender "provider_send_otp N p msisdn otp" "provider_cost p"
  for N p msisdn otp
  by unfold_locales (rule provider_extends)

lemma created_costs:
  "create_single_provider i cfg = Inr p \<Longrightarrow> provider_cost p \<le> 4"
  by (auto simp: create_single_provider_def bindR_Inr_iff split: sms_provider_type.splits)

lemma created_providers_cost:
  "create_providers i cfgs = Inr ps \<Longrightarrow> length ps = length cfgs \<and> sum_list (map provider_cost ps) \<le> 4 * length cfgs"
proof (induction cfgs arbitrary: i ps)
  case (Cons cfg cfgs)
  then show ?case using created_costs by (fastforce simp: bindR_Inr_iff)
qed simp

lemma created_provider_cost:
  assumes "create_sms_provider cfg = Inr p"
  shows "provider_cost p \<le> 4 * Suc (length (sc_fallback cfg))"
proof -
  from assms obtain ps where ps: "create_providers 0 (cfg # sc_fallback cfg) = Inr ps" and p: "ps = [p] \<or> p = FallbackSms ps"
    unfolding create_sms_provider_def bindR_Inr_iff by (metis (no_types, lifting) list.simps(5) list.case(1) neq_Nil_conv sum.inject(2))
  from p have "provider_cost p = sum_list (map provider_cost ps)" by auto
  with created_providers_cost[OF ps] show ?thesis by simp
qed

lemma send_otp_extends: "extends (4 * provider_cost p) g (snd (send_otp N p payload g))"
proof -
  have "extends (4 * provider_cost p) g g'"
    if "retry_from (provider_send_otp N p m otp) 0 g = (r, g')" for m otp r g'
    using provider_sender.retry_extends[of p g N m otp] that by simp
  then show ?thesis
    by (auto simp: send_otp_def send_otp_with_retry_def Let_def split: option.splits prod.splits sum.splits app_error.splits)
qed

section \<open>Fallback\<close>

text \<open>The gateway before the \<open>i\<close>-th provider of a chain is tried.\<close>

fun before_provider :: "sms_net \<Rightarrow> provider list \<Rightarrow> string \<Rightarrow> string \<Rightarrow> nat \<Rightarrow> gateway \<Rightarrow> gateway" where
  "before_provider N ps msisdn otp 0 g = g"
| "before_provider N ps msisdn otp (Suc i) g =
     snd (provider_send_otp N (ps ! i) msisdn otp (before_provider N ps msisdn otp i g))"

definition attempt_at :: "sms_net \<Rightarrow> provider list \<Rightarrow> string \<Rightarrow> string \<Rightarrow> gateway \<Rightarrow> nat \<Rightarrow> (app_error + unit) \<times> gateway" where
  "attempt_at N ps msisdn otp g i = provider_send_otp N (ps ! i) msisdn otp (before_provider N ps msisdn otp i g)"

definition falls_through :: "(app_error + unit) \<times> gateway \<Rightarrow> bool" where
  "falls_through r = (case r of (Inl (Panic _), _) \<Rightarrow> False | (Inl _, _) \<Rightarrow> True | _ \<Rightarrow> False)"

lemma before_provider_Cons:
  "before_provider N (p # ps) msisdn otp (Suc i) g = before_provider N ps msisdn otp i (snd (provider_send_otp N p msisdn otp g))"
  by (induction i) simp_all

lemma fallback_unfold:
  "fallback_send_otp N (p # ps) err msisdn otp g =
   (if falls_through (provider_send_otp N p msisdn otp g)
    then fallback_send_otp N ps (Some (projl (fst (provider_send_otp N p msisdn otp g)))) msisdn otp
      (snd (provider_send_otp N p msisdn otp g))
    else provider_send_otp N p msisdn otp g)"
  by (auto simp: falls_through_def split: prod.splits sum.splits app_error.splits)

lemma fallback_course:
  "(\<exists>i<length ps. fallback_send_otp N ps err msisdn otp g = attempt_at N ps msisdn otp g i
      \<and> list_all (\<lambda>j. falls_through (attempt_at N ps msisdn otp g j)) [0..<i]
      \<and> \<not> falls_through (attempt_at N ps msisdn otp g i))
   \<or> list_all (\<lambda>j. falls_through (attempt_at N ps msisdn otp g j)) [0..<length ps]
     \<and> fallback_send_otp N ps err msisdn otp g =
       (if ps = [] then fallback_send_otp N [] err msisdn otp g else attempt_at N ps msisdn otp g (length ps - 1))"
proof (induction ps arbitrary: err g)
  case (Cons p ps)
  let ?r = "provider_send_otp N p msisdn otp g"
  have at_0: "attempt_at N (p # ps) msisdn otp g 0 = ?r" by (simp add: attempt_at_def)
  have at_Suc: "attempt_at N (p # ps) msisdn otp g (Suc i) = attempt_at N ps msisdn otp (snd ?r) i" for i
    by (simp only: attempt_at_def before_provider_Cons nth_Cons_Suc)
  have all_Suc: "list_all P [0..<Suc n] \<longleftrightarrow> P 0 \<and> list_all (\<lambda>j. P (Suc j)) [0..<n]" for P n
    by (simp add: upt_conv_Cons map_Suc_upt[symmetric] list.pred_map comp_def del: upt_Suc)
  show ?case
  proof (cases "falls_through ?r")
    case False
    then show ?thesis by (intro disjI1 exI[of _ 0]) (simp add: at_0 fallback_unfold del: fallback_send_otp.simps)
  next
    case True
    let ?e = "Some (projl (fst ?r))"
    have step: "fallback_send_otp N (p # ps) err msisdn otp g = fallback_send_otp N ps ?e msisdn otp (snd ?r)"
      using True by (simp only: fallback_unfold if_True)
    from Cons[of ?e "snd ?r"] show ?thesis
    proof (elim disjE exE conjE)
      fix i assume "i < length ps" "fallback_send_otp N ps ?e msisdn otp (snd ?r) = attempt_at N ps msisdn otp (snd ?r) i"
        "list_all (\<lambda>j. falls_through (attempt_at N ps msisdn otp (snd ?r) j)) [0..<i]"
        "\<not> falls_through (attempt_at N ps msisdn otp (snd ?r) i)"
      then show ?thesis
        using True by (intro disjI1 exI[of _ "Suc i"]) (simp only: step at_0 at_Suc all_Suc length_Cons Suc_less_eq simp_thms)
    next
      assume *: "list_all (\<lambda>j. falls_through (attempt_at N ps msisdn otp (snd ?r) j)) [0..<length ps]"
        "fallback_send_otp N ps ?e msisdn otp (snd ?r) = (if ps = [] then fallback_send_otp N [] ?e msisdn otp (snd ?r)
           else attempt_at N ps msisdn otp (snd ?r) (length ps - 1))"
      have "fallback_send_otp N (p # ps) err msisdn otp g = attempt_at N (p # ps) msisdn otp g (length ps)"
      proof (cases ps)
        case Nil
        obtain e g' where "?r = (Inl e, g')" using True by (auto simp: falls_through_def split: prod.splits sum.splits)
        with step Nil show ?thesis by (simp add: attempt_at_def del: fallback_send_otp.simps(2))
      next
        case (Cons a qs)
        then have "attempt_at N (p # ps) msisdn otp g (length ps) = attempt_at N ps msisdn otp (snd ?r) (length ps - 1)"
          using at_Suc[of "length ps - 1"] by (simp del: fallback_send_otp.simps)
        with step *(2) Cons show ?thesis by (simp del: fallback_send_otp.simps)
      qed
      with * True show ?thesis by (intro disjI2) (simp only: at_0 at_Suc all_Suc length_Cons simp_thms list.simps diff_Suc_1 if_False)
    qed
  qed
qed simp

section \<open>Numbers\<close>

lemma whitespace_no_digit: "p \<in> set whitespace \<Longrightarrow> filter is_ascii_digit p = []"
  unfolding whitespace_def is_ascii_digit_def by (auto simp: less_eq_char_def)

lemma trim_with_filter:
  "(\<And>p. p \<in> set ws \<Longrightarrow> filter P p = []) \<Longrightarrow> filter P (trim_with ws s) = filter P s"
proof (induction ws s rule: trim_with.induct)
  case (1 ws s)
  show ?case
  proof (cases "List.find (\<lambda>p. p \<noteq> [] \<and> prefix p s) ws")
    case (Some p)
    then have "p \<in> set ws" "prefix p s" by (auto simp: find_Some_iff)
    then have "filter P s = filter P (drop (length p) s)"
      using 1(2) by (auto simp: prefix_def)
    with 1 Some show ?thesis by (simp add: trim_with.simps[of ws s])
  qed (simp add: trim_with.simps[of ws s])
qed

lemma trim_digits: "filter is_ascii_digit (trim s) = filter is_ascii_digit s"
proof -
  have "filter is_ascii_digit (trim_with (map rev whitespace) t) = filter is_ascii_digit t" for t
    by (rule trim_with_filter) (auto simp: rev_filter[symmetric] whitespace_no_digit)
  moreover have "filter is_ascii_digit (trim_start t) = filter is_ascii_digit t" for t
    unfolding trim_start_def by (rule trim_with_filter) (rule whitespace_no_digit)
  ultimately show ?thesis by (simp add: trim_def trim_end_def rev_filter[symmetric])
qed

lemma trim_start_00_set: "set (trim_start_00 s) \<subseteq> set s"
  by (induction s rule: trim_start_00.induct) auto

section \<open>Spacing of Orange messages\<close>

text \<open>The times at which messages left: only the token request has a raw body.\<close>

fun is_message :: "outbound \<Rightarrow> bool" where
  "is_message (HttpPost rq) \<longleftrightarrow> (case rq_body rq of RawBody _ \<Rightarrow> False | _ \<Rightarrow> True)"
| "is_message (SnsPublish _ _) \<longleftrightarrow> True"

definition message_times :: "gateway \<Rightarrow> nat list" where
  "message_times g = map fst (filter (\<lambda>(t, out). is_message out) (gw_calls g))"

definition spaced :: "nat list \<Rightarrow> bool" where
  "spaced ts = successively (\<lambda>a b. a + 200 \<le> b) ts"

lemma spaced_snoc: "spaced (ts @ [t]) \<longleftrightarrow> spaced ts \<and> (ts = [] \<or> last ts + 200 \<le> t)"
  by (auto simp: spaced_def successively_append_iff)

definition orange_paced :: "nat \<Rightarrow> gateway \<Rightarrow> bool" where
  "orange_paced i g \<longleftrightarrow> spaced (message_times g)
     \<and> (message_times g = [] \<or> last (message_times g) \<le> og_rate_limiter (gw_orange g i))
     \<and> og_rate_limiter (gw_orange g i) \<le> gw_now g"

definition orange_ready :: "nat \<Rightarrow> gateway \<Rightarrow> bool" where
  "orange_ready i g \<longleftrightarrow> spaced (message_times g @ [gw_now g]) \<and> og_rate_limiter (gw_orange g i) = gw_now g"

lemma paced_sleep: "orange_paced i g \<Longrightarrow> orange_paced i (sleep n g)"
  by (auto simp: orange_paced_def sleep_def message_times_def)

lemma paced_cache: "orange_paced i (set_token_cache i t g) \<longleftrightarrow> orange_paced i g"
  by (simp add: orange_paced_def set_token_cache_def message_times_def)

lemma throttle_ready: "orange_paced i g \<Longrightarrow> throttle i g = (r, g') \<Longrightarrow> orange_ready i g'"
  by (cases "gw_now g - og_rate_limiter (gw_orange g i) < 200")
     (auto simp: throttle_def Let_def orange_paced_def orange_ready_def spaced_snoc message_times_def sleep_def)

lemma ready_message:
  assumes "orange_ready i g" "is_message (HttpPost rq)" "sms_post N f rq g = (r, g')"
  shows "orange_paced i g'"
  using assms by (auto simp: sms_post_def record_call_def orange_ready_def orange_paced_def message_times_def)

lemma paced_token: "preserves (orange_paced i) (get_valid_token N i c)"
proof -
  have "preserves (orange_paced i) (sms_post N f (orange_token_request N c))" for f
    by (rule preservesI)
       (auto simp: sms_post_def record_call_def orange_token_request_def orange_paced_def message_times_def)
  moreover have "preserves (orange_paced i) (\<lambda>g. (Inr t, set_token_cache i v g))" for t v
    by (rule preservesI) (simp add: paced_cache)
  ultimately have "preserves (orange_paced i) (fetch_token N i c)"
    unfolding fetch_token_def by (intro inv_rules)
  then show ?thesis unfolding get_valid_token_def by (intro inv_rules)
qed

lemma paced_judge: "preserves (orange_paced i) (judge_orange N i r)"
  by (rule preservesI) (simp add: judge_orange_def Let_def paced_cache)

lemma paced_send_once: "preserves (orange_paced i) (send_once N i c msisdn otp)"
proof -
  have message: "is_message (HttpPost (orange_message N c token to otp))" for token to
    by (simp add: orange_message_def)
  have "preserves (orange_paced i) (bindE (throttle i) (\<lambda>_. bindE (sms_post N f (orange_message N c token to otp)) (judge_orange N i)))"
    for f token to
  proof (rule preservesI)
    fix g assume paced: "orange_paced i g"
    obtain g1 where g1: "throttle i g = (Inr (), g1)" by (auto simp: throttle_def Let_def)
    obtain r g2 where g2: "sms_post N f (orange_message N c token to otp) g1 = (r, g2)" by force
    have "orange_paced i g2" by (rule ready_message[OF throttle_ready[OF paced g1] message g2])
    then show "orange_paced i (snd (bindE (throttle i) (\<lambda>_. bindE (sms_post N f (orange_message N c token to otp)) (judge_orange N i)) g))"
      using g1 g2 paced_judge by (cases r) (auto simp: bindE_def preserves_def)
  qed
  then have "preserves (orange_paced i) (bindE (lift_res r) (\<lambda>to. bindE (throttle i)
      (\<lambda>_. bindE (sms_post N f (orange_message N c token to otp)) (judge_orange N i))))" for r f token
    by (rule preserves_bindE[OF preserves_basic(3)])
  then show ?thesis unfolding send_once_def by (rule preserves_bindE[OF paced_token])
qed

lemma paced_orange: "preserves (orange_paced i) (orange_send_otp N i c msisdn otp)"
proof (rule preservesI)
  fix g assume paced: "orange_paced i g"
  obtain r g1 where once: "send_once N i c msisdn otp g = (r, g1)" by force
  from paced_send_once once paced have "orange_paced i g1" by (rule preservesD)
  then show "orange_paced i (snd (orange_send_otp N i c msisdn otp g))"
    using once paced_send_once[of i N c msisdn otp]
    by (auto simp: orange_send_otp_def preserves_def split: sum.splits)
qed

text \<open>A new gateway at time \<open>t\<close>, and the calls of an Orange provider with the idle time before each.\<close>

definition new_gateway :: "nat \<Rightarrow> gateway" where
  "new_gateway t = \<lparr>gw_now = t, gw_calls = [], gw_orange = (\<lambda>_. \<lparr>og_token_cache = None, og_rate_limiter = t\<rparr>)\<rparr>"

fun orange_calls :: "sms_net \<Rightarrow> nat \<Rightarrow> orange_config \<Rightarrow> (nat \<times> string \<times> string) list \<Rightarrow> gateway \<Rightarrow> gateway" where
  "orange_calls N i c [] g = g"
| "orange_calls N i c ((idle, msisdn, otp) # jobs) g =
     orange_calls N i c jobs (snd (orange_send_otp N i c msisdn otp (sleep idle g)))"

lemma paced_calls: "orange_paced i g \<Longrightarrow> orange_paced i (orange_calls N i c jobs g)"
proof (induction jobs arbitrary: g)
  case (Cons job jobs)
  then show ?case using paced_orange paced_sleep by (cases job) (simp add: preserves_def)
qed simp

section \<open>Properties\<close>

text \<open>
  Delivering a code calls the provider at most four times. The call that decides is the first that
  does not end in a transient error, or the fourth; the pauses before the second, third and fourth
  are 200, 400 and 800 milliseconds.
\<close>

lemma otp_retry_course:
  "\<exists>k\<le>3. send_otp_with_retry N p msisdn otp g
       = provider_send_otp N p msisdn otp (after_failures (provider_send_otp N p msisdn otp) k g)
     \<and> list_all (\<lambda>j. worth_retry (fst (provider_send_otp N p msisdn otp
         (after_failures (provider_send_otp N p msisdn otp) j g)))) [0..<k]
     \<and> (if k < 3 then \<not> worth_retry (fst (send_otp_with_retry N p msisdn otp g)) else k = 3)"
proof -
  obtain k where k: "k \<le> 3" "send_otp_with_retry N p msisdn otp g
       = provider_send_otp N p msisdn otp (after_failures (provider_send_otp N p msisdn otp) k g)"
    "list_all (\<lambda>j. worth_retry (fst (provider_send_otp N p msisdn otp
         (after_failures (provider_send_otp N p msisdn otp) j g)))) [0..<k]"
    "k < 3 \<longrightarrow> \<not> worth_retry (fst (provider_send_otp N p msisdn otp (after_failures (provider_send_otp N p msisdn otp) k g)))"
    unfolding send_otp_with_retry_def using retry_from_ends by blast
  then show ?thesis by (intro exI[of _ k]) auto
qed

text \<open>
  C32: one request to the gateway makes at most sixteen calls to the outside per configured provider,
  with all retries, token requests and fallbacks counted, and the log of calls only grows.
\<close>

theorem gateway_calls_bounded:
  assumes "create_sms_provider cfg = Inr p"
  shows "\<exists>cs. gw_calls (snd (send_otp N p payload g)) = gw_calls g @ cs
    \<and> length cs \<le> 16 * Suc (length (sc_fallback cfg))"
proof -
  obtain cs where "gw_calls (snd (send_otp N p payload g)) = gw_calls g @ cs" "length cs \<le> 4 * provider_cost p"
    using send_otp_extends[of p g N payload] by (auto simp: extends_def)
  with created_provider_cost[OF assms] show ?thesis by (intro exI[of _ cs]) simp
qed

text \<open>
  C33: a chain of providers is tried in order. Either some provider decides the result, all before it having
  failed, or all fail and the error is that of the last; no provider after the one that decides is
  called.
\<close>

theorem fallback_order:
  assumes "ps \<noteq> []"
  shows "(\<exists>i<length ps. provider_send_otp N (FallbackSms ps) msisdn otp g = attempt_at N ps msisdn otp g i
      \<and> list_all (\<lambda>j. falls_through (attempt_at N ps msisdn otp g j)) [0..<i]
      \<and> \<not> falls_through (attempt_at N ps msisdn otp g i))
   \<or> list_all (\<lambda>j. falls_through (attempt_at N ps msisdn otp g j)) [0..<length ps]
     \<and> provider_send_otp N (FallbackSms ps) msisdn otp g = attempt_at N ps msisdn otp g (length ps - 1)"
  using fallback_course[of ps N None msisdn otp g] assms by (simp only: provider_send_otp.simps if_False)

text \<open>
  An accepted number is dialled by the Orange provider as the Cameroon country code and nine
  digits. Unless the digits begin with two zeros, or a plus sign stands before only nine of them,
  the M-Target provider dials the same number.
\<close>

lemma orange_number_form:
  assumes "orange_normalize_msisdn msisdn = Inr to"
  shows "(\<exists>d. to = ''tel:+237'' @ d \<and> length d = 9 \<and> list_all is_ascii_digit d)
    \<and> (starts_with ''00'' (filter is_ascii_digit msisdn)
       \<or> starts_with ''+'' (trim msisdn) \<and> length (filter is_ascii_digit msisdn) = 9
       \<or> to = ''tel:'' @ mtarget_normalize_msisdn msisdn)"
proof -
  define all where "all = filter is_ascii_digit msisdn"
  define digits where "digits = (if starts_with ''00'' all then trim_start_00 all else all)"
  have digit: "set digits \<subseteq> {c. is_ascii_digit c}"
    using trim_start_00_set[of all] by (auto simp: digits_def all_def)
  from assms have cases: "starts_with ''237'' digits \<and> length digits = 12 \<and> to = ''tel:+'' @ digits
      \<or> length digits = 9 \<and> (starts_with ''6'' digits \<or> starts_with ''2'' digits) \<and> to = ''tel:+237'' @ digits"
    by (auto simp: orange_normalize_msisdn_def digits_def all_def Let_def split: if_splits)
  then have "\<exists>d. to = ''tel:+237'' @ d \<and> length d = 9 \<and> list_all is_ascii_digit d"
    using digit by (auto simp: starts_with_def prefix_def list_all_iff)
  moreover have "to = ''tel:'' @ mtarget_normalize_msisdn msisdn"
    if "\<not> starts_with ''00'' all" "\<not> (starts_with ''+'' (trim msisdn) \<and> length all = 9)"
    using cases that by (auto simp: mtarget_normalize_msisdn_def Let_def trim_digits digits_def all_def)
  ultimately show ?thesis unfolding all_def by blast
qed

text \<open>
  C34: for requests that follow one another, the messages of an Orange provider leave at least 200 milliseconds apart, whatever the
  idle times between the requests, the answers of the network and the time they take.
\<close>

theorem orange_messages_spaced: "spaced (message_times (orange_calls N i c jobs (new_gateway t)))"
proof -
  have "orange_paced i (new_gateway t)" by (simp add: orange_paced_def new_gateway_def message_times_def spaced_def)
  then show ?thesis using paced_calls by (simp add: orange_paced_def)
qed

section \<open>Witnesses\<close>

definition console_config :: "sms_config list \<Rightarrow> sms_config" where
  "console_config fallback = SmsConfig Console None None None None None fallback"

definition example_net :: sms_net where
  "example_net = \<lparr>sn_http = (\<lambda>_ _. Inl (''refused'', ''refused'')), sn_sns = (\<lambda>_ _ _. Inl ''throttled''), sn_latency = (\<lambda>_. 5),
     sn_status_text = (\<lambda>_. ''status''), sn_urlencode = (\<lambda>s. s), sn_base64 = (\<lambda>s. s)\<rparr>"

definition example_payload :: send_otp_request where
  "example_payload = \<lparr>so_phone = Some ''+237690000000'', so_msisdn = None, so_otp = ''1234'', so_step_id = None\<rparr>"

theorem gateway_calls_bounded_witness:
  "\<exists>p cs. create_sms_provider (console_config [console_config []]) = Inr p
    \<and> gw_calls (snd (send_otp example_net p example_payload (new_gateway 0))) = gw_calls (new_gateway 0) @ cs
    \<and> length cs \<le> 32"
proof -
  have p: "create_sms_provider (console_config [console_config []]) = Inr (FallbackSms [ConsoleSms, ConsoleSms])"
    by (simp add: create_sms_provider_def create_single_provider_def console_config_def)
  from gateway_calls_bounded[OF p, of example_net example_payload "new_gateway 0"] p show ?thesis
    by (auto simp: console_config_def)
qed

theorem fallback_order_witness:
  "provider_send_otp example_net (FallbackSms [SnsSms, ConsoleSms]) ''+237690000000'' ''1234'' (new_gateway 0)
   = attempt_at example_net [SnsSms, ConsoleSms] ''+237690000000'' ''1234'' (new_gateway 0) 1"
proof -
  let ?at = "attempt_at example_net [SnsSms, ConsoleSms] ''+237690000000'' ''1234'' (new_gateway 0)"
  have 0: "falls_through (?at 0)"
    by (simp add: attempt_at_def falls_through_def sns_send_otp_def example_net_def internal_def)
  have "i = 1" if "i < 2" "\<not> falls_through (?at i)" for i
    using that 0 by (cases "i = 0") auto
  with fallback_order[of "[SnsSms, ConsoleSms]" example_net "''+237690000000''" "''1234''" "new_gateway 0"]
  show ?thesis by (auto simp: numeral_2_eq_2 simp del: provider_send_otp.simps)
qed

lemma orange_number_form_witness:
  "orange_normalize_msisdn ''690 00 00 00'' = Inr ''tel:+237690000000''
   \<and> ''tel:+237690000000'' = ''tel:'' @ mtarget_normalize_msisdn ''690 00 00 00''"
proof -
  have ok: "orange_normalize_msisdn ''690 00 00 00'' = Inr ''tel:+237690000000''" by code_simp
  have "\<not> starts_with ''00'' (filter is_ascii_digit ''690 00 00 00'')" "\<not> starts_with ''+'' (trim ''690 00 00 00'')"
    by code_simp+
  with orange_number_form[OF ok] ok show ?thesis by blast
qed

end
