(* ===== verification/Oidc.thy ===== *)
theory Oidc
  imports Auth
begin

text \<open>
  The OIDC state of \<open>backend-auth/src/oidc_state.rs\<close>: the cached discovery document and key set, when
  they are fetched again, and the verification of a token against them (\<open>JwtToken::verify\<close>). The HTTP
  client, with the parsing of the documents, is a parameter. The clock counts milliseconds; a
  request takes the time its parameter says. Calls follow one another: the write lock around the caches, which \<open>get_jwks\<close>
  gives back while it reads the discovery document, and a clock read before the lock is waited for are not represented, so what is shown
  holds of calls that do not overlap.
\<close>

section \<open>Documents and caches\<close>

record discovery_document =
  dd_issuer :: string
  dd_authorization_endpoint :: string
  dd_token_endpoint :: string
  dd_jwks_uri :: string
  dd_extra :: json

record oidc_state =
  oi_audiences :: "string list option"
  oi_issuer :: string
  oi_jwks_uri_override :: "string option"
  oi_discovery_ttl :: nat
  oi_jwks_ttl :: nat

record oidc_inner =
  in_now :: nat
  in_fetched :: "string list"
  in_discovery :: "(discovery_document \<times> nat) option"
  in_jwks :: "(json \<times> nat) option"

text \<open>The answer to the \<open>n\<close>-th request, and the time it takes.\<close>

record oidc_net =
  on_document :: "nat \<Rightarrow> string \<Rightarrow> app_error + discovery_document"
  on_jwks :: "nat \<Rightarrow> string \<Rightarrow> app_error + json"
  on_latency :: "nat \<Rightarrow> nat"

type_synonym 'a oidc = "(oidc_inner, app_error, 'a) sem"

definition fetch_json :: "oidc_net \<Rightarrow> (nat \<Rightarrow> string \<Rightarrow> app_error + 'a) \<Rightarrow> string \<Rightarrow> 'a oidc" where
  "fetch_json N answer url g =
     (let n = length (in_fetched g)
      in (answer n url, g\<lparr>in_now := in_now g + on_latency N n, in_fetched := in_fetched g @ [url]\<rparr>))"

definition oidc_state_new :: "string \<Rightarrow> string option \<Rightarrow> string list option \<Rightarrow> nat \<Rightarrow> nat \<Rightarrow> oidc_state" where
  "oidc_state_new issuer jwks_uri_override audiences discovery_ttl jwks_ttl =
     \<lparr>oi_audiences = audiences, oi_issuer = issuer, oi_jwks_uri_override = jwks_uri_override,
      oi_discovery_ttl = discovery_ttl, oi_jwks_ttl = jwks_ttl\<rparr>"

text \<open>The state the server makes from its configuration: no audience, and an hour for both caches.\<close>

definition configured_oidc_state :: "string \<Rightarrow> string option \<Rightarrow> oidc_state" where
  "configured_oidc_state issuer jwks_uri = oidc_state_new issuer jwks_uri None 3600000 3600000"

definition fresh :: "nat \<Rightarrow> nat \<Rightarrow> ('a \<times> nat) option \<Rightarrow> 'a option" where
  "fresh now ttl entry =
     (case entry of Some (v, fetched) \<Rightarrow> if now - fetched < ttl then Some v else None | None \<Rightarrow> None)"

definition discovery_url :: "oidc_state \<Rightarrow> string" where
  "discovery_url S = oi_issuer S @ ''/.well-known/openid-configuration''"

definition get_discovery :: "oidc_net \<Rightarrow> oidc_state \<Rightarrow> discovery_document oidc" where
  "get_discovery N S =
     bindE (gets (\<lambda>g. fresh (in_now g) (oi_discovery_ttl S) (in_discovery g))) (\<lambda>cached.
       case cached of
         Some doc \<Rightarrow> ret doc
       | None \<Rightarrow>
           bindE (fetch_json N (on_document N) (discovery_url S)) (\<lambda>doc.
           (\<lambda>g. (Inr doc, g\<lparr>in_discovery := Some (doc, in_now g)\<rparr>))))"

definition fetch_jwks :: "oidc_net \<Rightarrow> string \<Rightarrow> json oidc" where
  "fetch_jwks N url =
     bindE (fetch_json N (on_jwks N) url) (\<lambda>jwks. (\<lambda>g. (Inr jwks, g\<lparr>in_jwks := Some (jwks, in_now g)\<rparr>)))"

definition get_jwks :: "oidc_net \<Rightarrow> oidc_state \<Rightarrow> json oidc" where
  "get_jwks N S =
     bindE (gets (\<lambda>g. fresh (in_now g) (oi_jwks_ttl S) (in_jwks g))) (\<lambda>cached.
       case cached of
         Some jwks \<Rightarrow> ret jwks
       | None \<Rightarrow>
           (case oi_jwks_uri_override S of
              Some url \<Rightarrow> fetch_jwks N url
            | None \<Rightarrow>
                bindE (gets (\<lambda>g. fresh (in_now g) (oi_discovery_ttl S) (in_discovery g))) (\<lambda>found.
                bindE (case found of Some doc \<Rightarrow> ret doc | None \<Rightarrow> get_discovery N S) (\<lambda>doc.
                fetch_jwks N (dd_jwks_uri doc)))))"

definition token_verify :: "oidc_net \<Rightarrow> jwt_ext \<Rightarrow> oidc_state \<Rightarrow> string \<Rightarrow> claims oidc" where
  "token_verify N jx S token =
     bindE (get_jwks N S) (\<lambda>jwks. lift_res (jwt_verify jx (oi_audiences S) (Inr jwks) token))"

section \<open>Lemmas\<close>

lemma fetch_json_ok:
  "fetch_json N answer url g = (r, g') \<longleftrightarrow> r = answer (length (in_fetched g)) url
   \<and> g' = g\<lparr>in_now := in_now g + on_latency N (length (in_fetched g)), in_fetched := in_fetched g @ [url]\<rparr>"
  by (auto simp: fetch_json_def Let_def)

lemma fresh_Some: "fresh now ttl e = Some v \<longleftrightarrow> (\<exists>t. e = Some (v, t) \<and> now - t < ttl)"
  by (auto simp: fresh_def split: option.splits if_splits)

text \<open>What a call may ask for: the discovery document of the issuer, and one key set.\<close>

definition doc_known :: "oidc_net \<Rightarrow> oidc_state \<Rightarrow> oidc_inner \<Rightarrow> discovery_document \<Rightarrow> bool" where
  "doc_known N S g doc \<longleftrightarrow>
     (\<exists>t. in_discovery g = Some (doc, t) \<and> in_now g - t < oi_discovery_ttl S)
     \<or> on_document N (length (in_fetched g)) (discovery_url S) = Inr doc"

lemma get_discovery_run:
  assumes "get_discovery N S g = (r, g')"
  shows "in_jwks g' = in_jwks g \<and> (in_fetched g' = in_fetched g \<or> in_fetched g' = in_fetched g @ [discovery_url S])
    \<and> (\<forall>doc. r = Inr doc \<longrightarrow> doc_known N S g doc)"
proof (cases "fresh (in_now g) (oi_discovery_ttl S) (in_discovery g)")
  case (Some doc)
  with assms show ?thesis by (auto simp: get_discovery_def doc_known_def fresh_Some)
next
  case None
  with assms show ?thesis
    by (cases "on_document N (length (in_fetched g)) (discovery_url S)")
       (auto simp: get_discovery_def bindE_def fetch_json_def Let_def doc_known_def)
qed

lemma fetch_jwks_run:
  assumes "fetch_jwks N url g = (r, g')"
  shows "r = on_jwks N (length (in_fetched g)) url \<and> in_fetched g' = in_fetched g @ [url]
    \<and> in_jwks g' = (case r of Inr keys \<Rightarrow> Some (keys, in_now g') | Inl _ \<Rightarrow> in_jwks g)"
  using assms by (auto simp: fetch_jwks_def bindE_def fetch_json_def Let_def split: sum.splits)

text \<open>The address of the keys: the configured one, or the one a known discovery document names.\<close>

definition jwks_address :: "oidc_net \<Rightarrow> oidc_state \<Rightarrow> oidc_inner \<Rightarrow> string \<Rightarrow> bool" where
  "jwks_address N S g url \<longleftrightarrow>
     (case oi_jwks_uri_override S of
        Some u \<Rightarrow> url = u
      | None \<Rightarrow> \<exists>doc. doc_known N S g doc \<and> url = dd_jwks_uri doc)"

definition keys_fetched :: "oidc_net \<Rightarrow> oidc_state \<Rightarrow> oidc_inner \<Rightarrow> oidc_inner \<Rightarrow> json \<Rightarrow> bool" where
  "keys_fetched N S g g' keys \<longleftrightarrow>
     (\<exists>url asked. jwks_address N S g url \<and> (asked = [] \<or> asked = [discovery_url S])
       \<and> on_jwks N (length (in_fetched g @ asked)) url = Inr keys
       \<and> in_fetched g' = in_fetched g @ asked @ [url] \<and> in_jwks g' = Some (keys, in_now g'))"

lemma get_jwks_cached:
  "in_jwks g = Some (keys, t) \<Longrightarrow> in_now g - t < oi_jwks_ttl S \<Longrightarrow> get_jwks N S g = (Inr keys, g)"
  by (simp add: get_jwks_def fresh_def)

lemma get_jwks_stale:
  assumes "fresh (in_now g) (oi_jwks_ttl S) (in_jwks g) = None" "get_jwks N S g = (r, g')"
  shows "case r of Inr keys \<Rightarrow> keys_fetched N S g g' keys | Inl _ \<Rightarrow> in_jwks g' = in_jwks g"
proof (cases "oi_jwks_uri_override S")
  case (Some url)
  with assms have "fetch_jwks N url g = (r, g')" by (simp add: get_jwks_def)
  from fetch_jwks_run[OF this] Some show ?thesis
    by (auto simp: keys_fetched_def jwks_address_def split: sum.splits intro!: exI[of _ "[]"])
next
  case None
  define found where "found = (case fresh (in_now g) (oi_discovery_ttl S) (in_discovery g) of
      Some doc \<Rightarrow> (Inr doc, g) | None \<Rightarrow> get_discovery N S g)"
  obtain d g1 where d: "found = (d, g1)" by force
  have known: "in_jwks g1 = in_jwks g \<and> (in_fetched g1 = in_fetched g \<or> in_fetched g1 = in_fetched g @ [discovery_url S])
      \<and> (\<forall>doc. d = Inr doc \<longrightarrow> doc_known N S g doc)"
    using d get_discovery_run[of N S g d g1]
    by (auto simp: found_def fresh_Some doc_known_def split: option.splits)
  have run: "get_jwks N S g = (case d of Inl e \<Rightarrow> (Inl e, g1) | Inr doc \<Rightarrow> fetch_jwks N (dd_jwks_uri doc) g1)"
    using assms(1) None d
    by (auto simp: get_jwks_def found_def bindE_def split: option.splits)
  show ?thesis
  proof (cases d)
    case (Inl e)
    with run assms(2) known show ?thesis by auto
  next
    case (Inr doc)
    with run assms(2) have "fetch_jwks N (dd_jwks_uri doc) g1 = (r, g')" by simp
    note run = fetch_jwks_run[OF this]
    obtain asked where "in_fetched g1 = in_fetched g @ asked" "asked = [] \<or> asked = [discovery_url S]"
      using known by auto
    moreover have "jwks_address N S g (dd_jwks_uri doc)"
      using known Inr None by (auto simp: jwks_address_def)
    ultimately have "keys_fetched N S g g' keys" if "r = Inr keys" for keys
      unfolding keys_fetched_def using run that
      by (intro exI[of _ "dd_jwks_uri doc"] exI[of _ asked]) simp
    with run known show ?thesis by (auto split: sum.splits)
  qed
qed

lemma get_jwks_requests:
  assumes "get_jwks N S g = (r, g')"
  shows "\<exists>asked. in_fetched g' = in_fetched g @ asked \<and> length asked \<le> 2
    \<and> (\<forall>u\<in>set asked. u = discovery_url S \<or> jwks_address N S g u)"
proof (cases "fresh (in_now g) (oi_jwks_ttl S) (in_jwks g) \<noteq> None \<or> oi_jwks_uri_override S \<noteq> None")
  case True
  with assms show ?thesis
    by (auto simp: get_jwks_def jwks_address_def split: option.splits dest: fetch_jwks_run)
next
  case False
  define found where "found = (case fresh (in_now g) (oi_discovery_ttl S) (in_discovery g) of
      Some doc \<Rightarrow> (Inr doc, g) | None \<Rightarrow> get_discovery N S g)"
  obtain d g1 where d: "found = (d, g1)" by force
  have known: "(in_fetched g1 = in_fetched g \<or> in_fetched g1 = in_fetched g @ [discovery_url S])
      \<and> (\<forall>doc. d = Inr doc \<longrightarrow> doc_known N S g doc)"
    using d get_discovery_run[of N S g d g1]
    by (auto simp: found_def fresh_Some doc_known_def split: option.splits)
  have run: "get_jwks N S g = (case d of Inl e \<Rightarrow> (Inl e, g1) | Inr doc \<Rightarrow> fetch_jwks N (dd_jwks_uri doc) g1)"
    using False d by (auto simp: get_jwks_def found_def bindE_def split: option.splits)
  show ?thesis
  proof (cases d)
    case (Inl e)
    with run assms known show ?thesis by auto
  next
    case (Inr doc)
    with run assms have "fetch_jwks N (dd_jwks_uri doc) g1 = (r, g')" by simp
    from fetch_jwks_run[OF this] known Inr False show ?thesis by (auto simp: jwks_address_def)
  qed
qed

section \<open>Properties\<close>

text \<open>
  C35: a token is verified only with keys that are younger than the key set's lifetime, or that were
  answered during the call by the configured address or by the one the issuer's discovery document
  names. Whatever its outcome, a verification sends at most two requests, to the discovery address or to the address of the
  keys; and where no key set could be had, the error is returned and the cached keys stay as they were.
\<close>

theorem jwks_fresh:
  assumes "token_verify N jx S token g = (r, g')"
  shows "(\<exists>asked. in_fetched g' = in_fetched g @ asked \<and> length asked \<le> 2
        \<and> (\<forall>u\<in>set asked. u = discovery_url S \<or> jwks_address N S g u))
    \<and> ((\<exists>keys. r = jwt_verify jx (oi_audiences S) (Inr keys) token
         \<and> ((\<exists>t. in_jwks g = Some (keys, t) \<and> in_now g - t < oi_jwks_ttl S \<and> g' = g) \<or> keys_fetched N S g g' keys))
       \<or> (\<exists>e. get_jwks N S g = (Inl e, g') \<and> r = Inl e \<and> in_jwks g' = in_jwks g))"
proof -
  obtain x where run: "get_jwks N S g = (x, g')"
    and r: "r = (case x of Inl e \<Rightarrow> Inl e | Inr keys \<Rightarrow> jwt_verify jx (oi_audiences S) (Inr keys) token)"
    using assms by (auto simp: token_verify_def bindE_def split: prod.splits sum.splits)
  show ?thesis
  proof (intro conjI get_jwks_requests[OF run], cases "fresh (in_now g) (oi_jwks_ttl S) (in_jwks g)")
    case None
    with get_jwks_stale[OF None run] r run
    show "(\<exists>keys. r = jwt_verify jx (oi_audiences S) (Inr keys) token
         \<and> ((\<exists>t. in_jwks g = Some (keys, t) \<and> in_now g - t < oi_jwks_ttl S \<and> g' = g) \<or> keys_fetched N S g g' keys))
       \<or> (\<exists>e. get_jwks N S g = (Inl e, g') \<and> r = Inl e \<and> in_jwks g' = in_jwks g)"
      by (cases x) auto
  next
    case (Some keys)
    then obtain t where t: "in_jwks g = Some (keys, t)" "in_now g - t < oi_jwks_ttl S" by (auto simp: fresh_Some)
    with get_jwks_cached[OF t, of N] run r
    show "(\<exists>keys. r = jwt_verify jx (oi_audiences S) (Inr keys) token
         \<and> ((\<exists>t. in_jwks g = Some (keys, t) \<and> in_now g - t < oi_jwks_ttl S \<and> g' = g) \<or> keys_fetched N S g g' keys))
       \<or> (\<exists>e. get_jwks N S g = (Inl e, g') \<and> r = Inl e \<and> in_jwks g' = in_jwks g)"
      by auto
  qed
qed

text \<open>
  A key the issuer has begun to use is not looked for until the cached set expires: its tokens are
  rejected, and no request is made.
\<close>

lemma rotated_key_rejected:
  assumes "in_jwks g = Some (keys, t)" "in_now g - t < oi_jwks_ttl S"
    "jx_decode_header jx token = Inr (Some kid, alg)" "jx_find jx keys kid = None"
  shows "token_verify N jx S token g = (Inl (unauthorized (''Key ID '' @ kid @ '' not found in JWKS'')), g)"
  using get_jwks_cached[OF assms(1,2), of N] assms(3,4) by (simp add: token_verify_def bindE_def jwt_verify_def)

section \<open>Witness\<close>

definition example_oidc_net :: oidc_net where
  "example_oidc_net = \<lparr>on_document = (\<lambda>_ _. Inr \<lparr>dd_issuer = ''i'', dd_authorization_endpoint = ''a'', dd_token_endpoint = ''t'',
     dd_jwks_uri = ''k'', dd_extra = JObject []\<rparr>), on_jwks = (\<lambda>_ _. Inr JNull), on_latency = (\<lambda>_. 1)\<rparr>"

definition empty_oidc :: oidc_inner where
  "empty_oidc = \<lparr>in_now = 0, in_fetched = [], in_discovery = None, in_jwks = None\<rparr>"

definition example_oidc_jwt :: jwt_ext where
  "example_oidc_jwt = \<lparr>jx_decode_header = (\<lambda>_. Inr (Some ''k'', ''RS256'')), jx_find = (\<lambda>_ _. Some JNull), jx_decoding_key = (\<lambda>_. Inr ''key''),
     jx_decode = (\<lambda>token _ _ _. Inr \<lparr>cl_sub = token, cl_azp = None, cl_aud = None, cl_scope = None, cl_name = None, cl_iss = ''i'',
       cl_exp = 0, cl_preferred_username = None\<rparr>), jx_decode_layer = (\<lambda>token _ _ _. Inr (Some token))\<rparr>"

theorem jwks_fresh_witness:
  "\<exists>c g' keys. token_verify example_oidc_net example_oidc_jwt (configured_oidc_state ''i'' None) ''tok'' empty_oidc = (Inr c, g')
     \<and> length (in_fetched g') \<le> 2 \<and> keys_fetched example_oidc_net (configured_oidc_state ''i'' None) empty_oidc g' keys"
proof -
  obtain c g' where run: "token_verify example_oidc_net example_oidc_jwt (configured_oidc_state ''i'' None) ''tok'' empty_oidc = (Inr c, g')"
    by (simp add: token_verify_def get_jwks_def get_discovery_def fetch_jwks_def fetch_json_def bindE_def Let_def fresh_def
        example_oidc_net_def configured_oidc_state_def oidc_state_new_def empty_oidc_def jwt_verify_def example_oidc_jwt_def)
  from jwks_fresh[OF run] run show ?thesis by (auto simp: empty_oidc_def)
qed

end
