(* ===== verification/Step_Library.thy ===== *)
theory Step_Library
  imports Steps
begin

text \<open>
  The library of flow steps under \<open>flows/definitions\<close>: each a value with its type, actor, name, feature and the
  operations it overrides. Apart from the recipient step they are compiled into the server but
  registered nowhere. The client of the customer service (CUSS) is a parameter.
\<close>

section \<open>Steps as values\<close>

record library_step =
  ls_step_type :: string
  ls_actor :: actor
  ls_human_id :: string
  ls_feature :: "string option"
  ls_execute :: "step_context \<Rightarrow> step_exec"
  ls_validate_input :: "json \<Rightarrow> flow_error + unit"

definition waits :: "actor \<Rightarrow> step_context \<Rightarrow> step_exec" where
  "waits a cx = ret (Waiting a)"

definition done_at_once :: "step_context \<Rightarrow> step_exec" where
  "done_at_once cx = ret (Done None None)"

definition any_input :: "json \<Rightarrow> flow_error + unit" where
  "any_input v = Inr ()"

definition expect_object :: "string \<Rightarrow> json \<Rightarrow> flow_error + jmap" where
  "expect_object step v = (case v of JObject m \<Rightarrow> Inr m | _ \<Rightarrow> Inl (InvalidDefinition (step @ '' expects object input'')))"

definition object_input :: "string \<Rightarrow> json \<Rightarrow> flow_error + unit" where
  "object_input step v = bindR (expect_object step v) (\<lambda>_. Inr ())"

section \<open>Account update\<close>

definition submit_account_update_step :: library_step where
  "submit_account_update_step = \<lparr>ls_step_type = ''SUBMIT_ACCOUNT_UPDATE'', ls_actor = EndUser, ls_human_id = ''submit'',
     ls_feature = Some ''flow-account-update'', ls_execute = waits EndUser, ls_validate_input = (\<lambda>v.
       bindR (expect_object ''SUBMIT_ACCOUNT_UPDATE'' v) (\<lambda>m.
       if m = [] then Inl (InvalidDefinition ''SUBMIT_ACCOUNT_UPDATE requires at least one field'') else Inr ()))\<rparr>"

definition apply_account_update_step :: library_step where
  "apply_account_update_step = \<lparr>ls_step_type = ''APPLY_ACCOUNT_UPDATE'', ls_actor = System, ls_human_id = ''apply'',
     ls_feature = Some ''flow-account-update'', ls_execute = done_at_once, ls_validate_input = any_input\<rparr>"

definition account_update_steps :: "library_step list" where
  "account_update_steps = [submit_account_update_step, apply_account_update_step]"

section \<open>Address proof and id document\<close>

definition submit_address_proof_step :: library_step where
  "submit_address_proof_step = \<lparr>ls_step_type = ''SUBMIT_ADDRESS_PROOF'', ls_actor = EndUser, ls_human_id = ''submit'',
     ls_feature = Some ''flow-address-proof'', ls_execute = waits EndUser, ls_validate_input = object_input ''SUBMIT_ADDRESS_PROOF''\<rparr>"

definition review_address_proof_step :: library_step where
  "review_address_proof_step = \<lparr>ls_step_type = ''REVIEW_ADDRESS_PROOF'', ls_actor = Admin, ls_human_id = ''review'',
     ls_feature = Some ''flow-address-proof'', ls_execute = waits Admin, ls_validate_input = object_input ''REVIEW_ADDRESS_PROOF''\<rparr>"

definition address_proof_steps :: "library_step list" where
  "address_proof_steps = [submit_address_proof_step, review_address_proof_step]"

definition submit_id_document_step :: library_step where
  "submit_id_document_step = \<lparr>ls_step_type = ''SUBMIT_ID_DOCUMENT'', ls_actor = EndUser, ls_human_id = ''submit'',
     ls_feature = Some ''flow-id-document'', ls_execute = waits EndUser, ls_validate_input = object_input ''SUBMIT_ID_DOCUMENT''\<rparr>"

definition review_id_document_step :: library_step where
  "review_id_document_step = \<lparr>ls_step_type = ''REVIEW_ID_DOCUMENT'', ls_actor = Admin, ls_human_id = ''review'',
     ls_feature = Some ''flow-id-document'', ls_execute = waits Admin, ls_validate_input = object_input ''REVIEW_ID_DOCUMENT''\<rparr>"

definition id_document_steps :: "library_step list" where
  "id_document_steps = [submit_id_document_step, review_id_document_step]"

section \<open>User management by staff\<close>

definition review_user_account_step :: library_step where
  "review_user_account_step = \<lparr>ls_step_type = ''REVIEW_USER_ACCOUNT'', ls_actor = Admin, ls_human_id = ''review'',
     ls_feature = Some ''flow-admin-user-management'', ls_execute = waits Admin, ls_validate_input = (\<lambda>v.
       bindR (expect_object ''REVIEW_USER_ACCOUNT'' v) (\<lambda>m.
       if unwrap_or [] (Option.bind (map_of m ''decision'') as_str) = []
       then Inl (InvalidDefinition ''REVIEW_USER_ACCOUNT requires decision'') else Inr ()))\<rparr>"

definition apply_user_decision_step :: library_step where
  "apply_user_decision_step = \<lparr>ls_step_type = ''APPLY_USER_DECISION'', ls_actor = System, ls_human_id = ''apply'',
     ls_feature = Some ''flow-admin-user-management'', ls_execute = done_at_once, ls_validate_input = any_input\<rparr>"

definition admin_user_management_steps :: "library_step list" where
  "admin_user_management_steps = [review_user_account_step, apply_user_decision_step]"

section \<open>Device enrolment and magic email\<close>

definition bind_device_step :: library_step where
  "bind_device_step = \<lparr>ls_step_type = ''BIND_DEVICE'', ls_actor = EndUser, ls_human_id = ''bind'',
     ls_feature = Some ''flow-device-enroll'', ls_execute = waits EndUser, ls_validate_input = (\<lambda>v.
       bindR (expect_object ''BIND_DEVICE'' v) (\<lambda>m.
       case Option.bind (case map_of m ''device_id'' of None \<Rightarrow> map_of m ''deviceId'' | found \<Rightarrow> found) as_str of
         Some d \<Rightarrow> if trim d = [] then Inl (InvalidDefinition ''BIND_DEVICE requires device_id'') else Inr ()
       | None \<Rightarrow> Inl (InvalidDefinition ''BIND_DEVICE requires device_id'')))\<rparr>"

definition activate_device_step :: library_step where
  "activate_device_step = \<lparr>ls_step_type = ''ACTIVATE_DEVICE'', ls_actor = System, ls_human_id = ''activate'',
     ls_feature = Some ''flow-device-enroll'', ls_execute = done_at_once, ls_validate_input = any_input\<rparr>"

definition device_enroll_steps :: "library_step list" where
  "device_enroll_steps = [bind_device_step, activate_device_step]"

definition issue_magic_email_step :: library_step where
  "issue_magic_email_step = \<lparr>ls_step_type = ''ISSUE_MAGIC_EMAIL'', ls_actor = System, ls_human_id = ''issue'',
     ls_feature = Some ''flow-email-magic'', ls_execute = done_at_once, ls_validate_input = any_input\<rparr>"

definition verify_magic_email_step :: library_step where
  "verify_magic_email_step = \<lparr>ls_step_type = ''VERIFY_MAGIC_EMAIL'', ls_actor = EndUser, ls_human_id = ''verify'',
     ls_feature = Some ''flow-email-magic'', ls_execute = waits EndUser, ls_validate_input = object_input ''VERIFY_MAGIC_EMAIL''\<rparr>"

definition email_magic_steps :: "library_step list" where
  "email_magic_steps = [issue_magic_email_step, verify_magic_email_step]"

section \<open>Deposits\<close>

definition exec_validate_deposit_lib :: "kyc_ext \<Rightarrow> step_context \<Rightarrow> step_exec" where
  "exec_validate_deposit_lib kx cx =
     bindE (lift_res (ok_or (InvalidDefinition ''Missing amount'')
       (Option.bind (input_or_session cx ''amount'' ''deposit_amount'') as_str))) (\<lambda>amount.
     bindE (lift_res (ok_or (InvalidDefinition ''Missing currency'')
       (Option.bind (input_or_session cx ''currency'' ''deposit_currency'') as_str))) (\<lambda>currency.
     bindE (lift_res (ok_or (InvalidDefinition ''Invalid amount format'') (kx_parse_f64 kx amount))) (\<lambda>amount_num.
       if f64_le (Fin 1) amount_num \<and> f64_le amount_num (Fin 100000) \<and> currency \<in> {''USD'', ''EUR'', ''XAF''}
       then ret (Done (Some (JObject [(''amount'', JString amount), (''currency'', JString currency), (''valid'', JBool True)])) None)
       else ret (Failed (''Deposit validation failed: '' @ amount @ '' '' @ currency) False))))"

definition exec_persist_deposit :: "kyc_ext \<Rightarrow> step_context \<Rightarrow> step_exec" where
  "exec_persist_deposit kx cx =
     bindE (gets w_clock) (\<lambda>now.
     ret (Done (Some (JObject [(''persisted'', JBool True)])) (Some (no_updates\<lparr>cu_user_metadata_patch := Some (JObject
       [(''deposit_confirmed_at'', JString (kx_rfc3339 kx now)),
        (''deposit_result'', unwrap_or (JObject []) (json_get ''deposit_result'' (cx_input cx))),
        (''deposit_status'', JString ''CONFIRMED'')])\<rparr>))))"

definition validate_deposit_step :: "kyc_ext \<Rightarrow> library_step" where
  "validate_deposit_step kx = \<lparr>ls_step_type = ''validate_deposit'', ls_actor = System, ls_human_id = ''validate_deposit'',
     ls_feature = None, ls_execute = exec_validate_deposit_lib kx, ls_validate_input = any_input\<rparr>"

definition persist_deposit_result_step :: "kyc_ext \<Rightarrow> library_step" where
  "persist_deposit_result_step kx = \<lparr>ls_step_type = ''persist_deposit_result'', ls_actor = System, ls_human_id = ''persist_deposit_result'',
     ls_feature = None, ls_execute = exec_persist_deposit kx, ls_validate_input = any_input\<rparr>"

definition await_payment_confirmation_step :: library_step where
  "await_payment_confirmation_step = \<lparr>ls_step_type = ''AWAIT_PAYMENT_CONFIRMATION'', ls_actor = Admin, ls_human_id = ''await_payment'',
     ls_feature = Some ''flow-first-deposit'', ls_execute = waits Admin, ls_validate_input = object_input ''AWAIT_PAYMENT_CONFIRMATION''\<rparr>"

definition approve_and_deposit_step :: library_step where
  "approve_and_deposit_step = \<lparr>ls_step_type = ''APPROVE_AND_DEPOSIT'', ls_actor = System, ls_human_id = ''approve'',
     ls_feature = Some ''flow-first-deposit'', ls_execute = done_at_once, ls_validate_input = any_input\<rparr>"

definition first_deposit_steps :: "kyc_ext \<Rightarrow> library_step list" where
  "first_deposit_steps kx = [validate_deposit_step kx, await_payment_confirmation_step, approve_and_deposit_step]"

section \<open>The customer service\<close>

text \<open>An error of the client: its text, and the status when the service answered.\<close>

record cuss_client =
  cc_register :: "string \<Rightarrow> string \<Rightarrow> string \<Rightarrow> string \<times> nat option + int option \<times> int option"
  cc_approve :: "int \<Rightarrow> f64 option \<Rightarrow> string \<times> nat option + int option"
  cc_parse_f64 :: "string \<Rightarrow> f64 option"
  cc_rfc3339 :: "instant \<Rightarrow> string"

definition retryable_error :: "string \<times> nat option \<Rightarrow> bool" where
  "retryable_error e = (case snd e of Some st \<Rightarrow> 500 \<le> st \<and> st < 600 | None \<Rightarrow> False)"

definition exec_cuss_register :: "cuss_client \<Rightarrow> step_context \<Rightarrow> step_exec" where
  "exec_cuss_register cc cx =
     bindE (lift_res (ok_or (InvalidDefinition ''Missing phone_number'')
       (Option.bind (session_config cx ''phone_number'') as_str))) (\<lambda>phone.
     bindE (lift_res (ok_or (InvalidDefinition ''Missing full_name'')
       (Option.bind (case session_config cx ''recipient_full_name'' of None \<Rightarrow> session_config cx ''fullname'' | found \<Rightarrow> found)
          as_str))) (\<lambda>full_name.
       case cc_register cc full_name phone (cx_session_id cx) of
         Inr (client_id, account_id) \<Rightarrow>
           bindE (gets w_clock) (\<lambda>now.
           let client = jint (unwrap_or 0 client_id); account = jint (unwrap_or 0 account_id)
           in ret (Done (Some (JObject [(''fineractClientId'', client), (''savingsAccountId'', account), (''success'', JBool True)]))
                (Some (no_updates\<lparr>
                   cu_user_metadata_patch := Some (JObject
                     [(''cuss_registration_at'', JString (cc_rfc3339 cc now)), (''cuss_registration_status'', JString ''COMPLETED''),
                      (''fineractClientId'', client), (''savingsAccountId'', account)]),
                   cu_session_context_patch := Some (JObject [(''fineractClientId'', client), (''savingsAccountId'', account)])\<rparr>))))
       | Inl e \<Rightarrow> ret (Failed (''CUSS register failed: '' @ fst e) (retryable_error e))))"

definition registered_account :: "step_context \<Rightarrow> int option" where
  "registered_account cx =
     Option.bind (flow_config cx ''step_output'') (\<lambda>v.
     Option.bind (json_get ''CUSS_REGISTER_CUSTOMER'' v) (\<lambda>v.
     Option.bind (json_get ''savingsAccountId'' v) as_i64))"

definition cuss_amount :: "cuss_client \<Rightarrow> step_context \<Rightarrow> f64 option" where
  "cuss_amount cc cx =
     Option.bind (case flow_config cx ''amount'' of
                    None \<Rightarrow> (case session_config cx ''deposit_amount'' of None \<Rightarrow> session_config cx ''amount'' | found \<Rightarrow> found)
                  | found \<Rightarrow> found) (\<lambda>v.
       case as_f64 v of Some f \<Rightarrow> Some f | None \<Rightarrow> Option.bind (as_str v) (cc_parse_f64 cc))"

definition exec_cuss_approve :: "cuss_client \<Rightarrow> step_context \<Rightarrow> step_exec" where
  "exec_cuss_approve cc cx =
     bindE (lift_res (ok_or (InvalidDefinition ''Missing savingsAccountId from registration'') (registered_account cx))) (\<lambda>account.
       case cc_approve cc account (cuss_amount cc cx) of
         Inr transaction_id \<Rightarrow>
           bindE (gets w_clock) (\<lambda>now.
           let txn = jint (unwrap_or 0 transaction_id)
           in ret (Done (Some (JObject [(''savingsAccountId'', jint account), (''success'', JBool True), (''transactionId'', txn)]))
                (Some (no_updates\<lparr>cu_user_metadata_patch := Some (JObject
                   [(''cuss_approval_at'', JString (cc_rfc3339 cc now)), (''cuss_approval_status'', JString ''COMPLETED''),
                    (''deposit_transaction_id'', txn)])\<rparr>))))
       | Inl e \<Rightarrow> ret (Failed (''CUSS approve failed: '' @ fst e) (retryable_error e)))"

definition cuss_register_step :: "cuss_client \<Rightarrow> library_step" where
  "cuss_register_step cc = \<lparr>ls_step_type = ''CUSS_REGISTER_CUSTOMER'', ls_actor = System, ls_human_id = ''cuss_register'',
     ls_feature = Some ''flow-cuss-integration'', ls_execute = exec_cuss_register cc, ls_validate_input = any_input\<rparr>"

definition cuss_approve_step :: "cuss_client \<Rightarrow> library_step" where
  "cuss_approve_step cc = \<lparr>ls_step_type = ''CUSS_APPROVE_AND_DEPOSIT'', ls_actor = System, ls_human_id = ''cuss_approve'',
     ls_feature = Some ''flow-cuss-integration'', ls_execute = exec_cuss_approve cc, ls_validate_input = any_input\<rparr>"

definition cuss_steps :: "cuss_client \<Rightarrow> library_step list" where
  "cuss_steps cc = [cuss_register_step cc, cuss_approve_step cc]"

section \<open>Properties of the library\<close>

definition library_steps :: "kyc_ext \<Rightarrow> cuss_client \<Rightarrow> library_step list" where
  "library_steps kx cc = account_update_steps @ address_proof_steps @ id_document_steps @ admin_user_management_steps
     @ device_enroll_steps @ email_magic_steps @ first_deposit_steps kx @ [persist_deposit_result_step kx] @ cuss_steps cc"

lemmas library_defs = library_steps_def account_update_steps_def address_proof_steps_def id_document_steps_def
  admin_user_management_steps_def device_enroll_steps_def email_magic_steps_def first_deposit_steps_def cuss_steps_def
  submit_account_update_step_def apply_account_update_step_def submit_address_proof_step_def review_address_proof_step_def
  submit_id_document_step_def review_id_document_step_def review_user_account_step_def apply_user_decision_step_def
  bind_device_step_def activate_device_step_def issue_magic_email_step_def verify_magic_email_step_def
  validate_deposit_step_def persist_deposit_result_step_def await_payment_confirmation_step_def approve_and_deposit_step_def
  cuss_register_step_def cuss_approve_step_def

lemma simple_executions_keep: "keeps view (waits a cx)" "keeps view (done_at_once cx)"
  unfolding waits_def done_at_once_def by (rule keeps_basic)+

lemma validate_deposit_keeps: "keeps view (exec_validate_deposit_lib kx cx)"
  unfolding exec_validate_deposit_lib_def by (intro frame_rules)

lemma persist_deposit_keeps: "keeps view (exec_persist_deposit kx cx)"
  unfolding exec_persist_deposit_def by (intro frame_rules)

lemma keeps_case_sum: "(\<And>e. keeps view (f e)) \<Longrightarrow> (\<And>a. keeps view (g a)) \<Longrightarrow> keeps view (case v of Inl e \<Rightarrow> f e | Inr a \<Rightarrow> g a)"
  by (cases v) simp_all

lemma cuss_register_keeps: "keeps view (exec_cuss_register cc cx)"
  unfolding exec_cuss_register_def by (intro keeps_bindE keeps_basic keeps_case_sum keeps_case_prod keeps_Let)

lemma cuss_approve_keeps: "keeps view (exec_cuss_approve cc cx)"
  unfolding exec_cuss_approve_def by (intro keeps_bindE keeps_basic keeps_case_sum keeps_Let)

lemmas library_executions_keep = simple_executions_keep validate_deposit_keeps persist_deposit_keeps
  cuss_register_keeps cuss_approve_keeps

lemma library_steps_pure: "ls \<in> set (library_steps kx cc) \<Longrightarrow> keeps view (ls_execute ls cx)"
  by (auto simp: library_defs intro: library_executions_keep)

text \<open>A step that waits waits for its own actor, and a system step never waits.\<close>

lemma library_steps_actor:
  assumes "ls \<in> set (library_steps kx cc)"
  shows "case ls_execute ls cx w of (Inr (Waiting a), _) \<Rightarrow> a = ls_actor ls \<and> a \<noteq> System | _ \<Rightarrow> True"
  using assms
  by (auto simp: library_defs waits_def done_at_once_def exec_validate_deposit_lib_def exec_persist_deposit_def
      exec_cuss_register_def exec_cuss_approve_def bindE_def Let_def split: prod.splits sum.splits if_splits)

text \<open>No step of the library is registered, so a flow definition that names one does not register.\<close>

definition library_step_types :: "string list" where
  "library_step_types = [''SUBMIT_ACCOUNT_UPDATE'', ''APPLY_ACCOUNT_UPDATE'', ''SUBMIT_ADDRESS_PROOF'', ''REVIEW_ADDRESS_PROOF'',
     ''SUBMIT_ID_DOCUMENT'', ''REVIEW_ID_DOCUMENT'', ''REVIEW_USER_ACCOUNT'', ''APPLY_USER_DECISION'', ''BIND_DEVICE'',
     ''ACTIVATE_DEVICE'', ''ISSUE_MAGIC_EMAIL'', ''VERIFY_MAGIC_EMAIL'', ''validate_deposit'', ''AWAIT_PAYMENT_CONFIRMATION'',
     ''APPROVE_AND_DEPOSIT'', ''persist_deposit_result'', ''CUSS_REGISTER_CUSTOMER'', ''CUSS_APPROVE_AND_DEPOSIT'']"

lemma library_step_types: "map ls_step_type (library_steps kx cc) = library_step_types"
  by (simp add: library_defs library_step_types_def)

lemma library_steps_unregistered:
  assumes "ls \<in> set (library_steps kx cc)"
  shows "map_of builtin_actions (ls_step_type ls) = None"
proof -
  have "list_all (\<lambda>t. map_of builtin_actions t = None) library_step_types" by code_simp
  moreover have "ls_step_type ls \<in> set library_step_types"
    using assms unfolding library_step_types[of kx cc, symmetric] by simp
  ultimately show ?thesis by (simp add: list_all_iff)
qed

text \<open>An account the service did not name becomes account 0, which the deposit is then made to.\<close>

lemma cuss_missing_account_is_zero:
  assumes "cc_register cc full_name phone (cx_session_id cx) = Inr (c, None)" "session_config cx ''phone_number'' = Some (JString phone)"
    "session_config cx ''recipient_full_name'' = Some (JString full_name)"
  shows "\<exists>out upd. exec_cuss_register cc cx w = (Inr (Done (Some out) upd), w) \<and> json_get ''savingsAccountId'' out = Some (jint 0)"
  using assms by (simp add: exec_cuss_register_def bindE_def Let_def unwrap_or_def)

end
