(* ===== verification/Spec2Isabelle.thy ===== *)
theory Spec2Isabelle
  imports Executor_Props Staff_Props Submissions Server_Config Router Runtime Sms_Props Oidc Step_Library
begin

text \<open>
  \<^bold>\<open>Keybound backend: a verification development.\<close>

  \<^bold>\<open>The program.\<close> The server (Rust, under \<open>src/app\<close>) keeps user accounts for Keycloak and runs
  onboarding flows. A \<^emph>\<open>session\<close> of a user holds \<^emph>\<open>flows\<close>, a flow holds \<^emph>\<open>steps\<close>; definitions of flows
  are imported from YAML or JSON into a registry. Applications use the BFF API: they open sessions,
  add flows and submit the steps of the end user. Staff submit the steps of administrators. Steps of
  the system are executed by a worker that polls the database; a lock in Redis keeps one worker
  running. Keycloak calls a third API for users, device bindings and recovery. Requests are
  authenticated by bearer tokens or by signatures of bound devices. A second program, the SMS
  gateway, delivers one-time codes through several providers.

  \<^bold>\<open>How it is modelled.\<close> All operations are executable functions. The database is the record
  \<open>world\<close> (theory \<open>Db_Model\<close>): one list of rows per table, the clock and the counter from which
  ids are generated. A fallible operation that changes state has type
  \<open>world \<Rightarrow> (error + 'a) \<times> world\<close>, with the combinators of \<open>Prelude\<close> for sequencing, so that every early
  return of the source is a branch and an error keeps the writes made before it. Integers that can
  overflow in the source are words (\<open>i32\<close>, \<open>i64\<close>, \<open>u64\<close>) or have the wrap-around written out.
  JSON is a datatype whose objects are association lists sorted by key, as \<open>serde_json\<close> keeps them.
  Code that is not in the repository is an argument: the JSON, YAML, JWT and OpenSSL libraries, SHA-256, the
  HTTP client, Redis, PostgreSQL's locks with diesel's migrations, S3, the random source and SQL's \<open>ILIKE\<close>. What the proofs need of it is a named
  hypothesis (\<open>redis_laws\<close> in \<open>Redis\<close> and \<open>pg_laws\<close> in \<open>Migrate\<close>, for instance), shown satisfiable by a witness.

  \<^bold>\<open>Theories and sources.\<close>

  \<^item> \<open>Prelude\<close>: string and number functions of Rust's standard library, sorted maps, the state and
    error combinators, \<open>preserves\<close> and \<open>keeps\<close> with their rules, the collections of simp rules.
  \<^item> \<open>Json\<close>: \<open>backend-flow-sdk/src/actions/mapping_utils.rs\<close>, merging and pointer patches of contexts.
  \<^item> \<open>Flow_Sdk\<close>, \<open>Flow_Registry\<close>: the vocabulary of \<open>backend-flow-sdk\<close>, import, validation,
    registry and loader; \<open>Import_Export\<close>: start-up (\<open>flows/registry.rs\<close>, \<open>loader.rs\<close>) and the
    export of \<open>bins/backend/src/main.rs\<close>; \<open>Env_Config\<close>: \<open>backend-env/src/lib.rs\<close> and the
    settings derived in \<open>backend-core/src/config.rs\<close>.
  \<^item> \<open>Db_Model\<close>: rows of \<open>backend-model/src/db.rs\<close>, errors of \<open>backend-core/src/error.rs\<close>, ids;
    \<open>Flow_Repo\<close>, \<open>User_Repo\<close>, \<open>Device_Repo\<close>: the repositories of \<open>backend-repository/src/pg\<close>.
  \<^item> \<open>Actions\<close>, \<open>Map_Actions\<close>, \<open>Otp\<close>, \<open>Kyc\<close>, \<open>Webhook\<close>: the step actions of
    \<open>backend-flow-sdk/src/actions\<close>; \<open>Steps\<close>: their registration and the \<open>Step\<close> trait;
    \<open>Step_Library\<close>: the steps under \<open>flows/definitions\<close>.
  \<^item> \<open>Service\<close>: \<open>api/bff_flow/service.rs\<close>; \<open>Executor\<close>: \<open>flows/executor.rs\<close> and the polling loop of
    \<open>worker.rs\<close>; \<open>Worker_Lock\<close>: the lock of \<open>worker.rs\<close>; \<open>Runtime\<close>: the start of server and
    worker in \<open>main.rs\<close>, \<open>lib.rs\<close> and \<open>state.rs\<close>; \<open>Submissions\<close>: \<open>submit_step\<close> of the service as two
    phases, composed to the sequential definition and interleaved.
  \<^item> \<open>Redis\<close>, \<open>Auth\<close>, \<open>Replay_Guard\<close>: \<open>backend-auth\<close>, \<open>auth_signature\<close> and \<open>api/bff_auth.rs\<close>; \<open>Oidc\<close>:
    \<open>backend-auth/src/oidc_state.rs\<close>; \<open>Auth_Api\<close>: \<open>api/auth.rs\<close>.
  \<^item> \<open>Kc_Api\<close>: \<open>api/kc.rs\<close>; \<open>Bff_Api\<close>: users, recovery, handlers and routes of
    \<open>api/bff_flow\<close>; \<open>Staff\<close>: \<open>api/staff_flow\<close>; \<open>Uploads\<close>: \<open>api/bff_uploads\<close> and
    \<open>object_storage.rs\<close>; \<open>Router\<close>: the routers of these APIs with their layers, composed as in
    \<open>build_router\<close> of \<open>lib.rs\<close>, so that a request to the server is one function.
  \<^item> \<open>Http_Edge\<close>: the responses of errors, \<open>correlation_id.rs\<close>, \<open>swagger.rs\<close> and the health probe;
    \<open>Migrate\<close>: \<open>backend-migrate/src/migrate.rs\<close>; \<open>Server_Config\<close>: the sections and defaults of
    \<open>backend-core/src/config.rs\<close> and what each component takes from them.
  \<^item> \<open>Sms_Gateway\<close>: \<open>bins/sms-gateway\<close>.
  \<^item> \<open>Service_Props\<close>, \<open>Executor_Props\<close>, \<open>Auth_Props\<close>, \<open>Bff_Props\<close>, \<open>Staff_Props\<close> and
    \<open>Sms_Props\<close> hold the properties of the theories they are named after.

  \<^bold>\<open>What is shown.\<close>

  \<^item> \<^emph>\<open>State.\<close> The repository operations are the steps of a transition system whose reachable
    states satisfy the constraints of the schema (\<open>repo_reach_invariant\<close>, by rule induction); the
    service, the executor and the staff API keep them because they are built from these operations.
    The locale \<open>row_store\<close> states what a table promises (a row that is added is found, a
    modification changes that row only) and is interpreted for sessions, flows, steps and users.
  \<^item> \<^emph>\<open>Flows.\<close> The step chain returns in flows whose synchronous steps do not form a cycle; sessions
    get the status of their most important flow; the worker starves no step and bounds the
    attempts of each; both finalizers agree. The locale \<open>step_invariant\<close> carries an invariant of the
    steps table through the executor; it is interpreted twice, for the two results on the worker.
    A registered definition is closed under its transitions.
  \<^item> \<^emph>\<open>Worker lock.\<close> Any number of workers, with crashes and failing Redis calls, are an inductive
    step relation; the lock is exclusive in its reachable states and refines an abstract lease. A
    process that starts changes the database by its migrations, which need no such lock, and by turns of a worker that begin after the
    lock was taken; what happens to Redis during the turns is arbitrary. Processes that start together are a second such
    relation: with the advisory lock of PostgreSQL they migrate one at a time, also when some of them crash with a command on its way, and a
    process that goes on has seen the complete schema.
  \<^item> \<^emph>\<open>Access.\<close> Operations that name a foreign session, flow or step by its id are refused without an effect; a signature is accepted for the bound
    key of an active device only; the internal headers a handler reads cannot be set by the client;
    a nonce is accepted twice at the two ends of its window only (the locale \<open>replay_guard\<close> is the
    trait of the source; the in-memory guard is interpreted, the guard on Redis is shown to be one for
    every store with the laws of Redis); routes of the BFF read the caller's own data; service routes need the recovery service's token;
    uploads are confined to a step of the caller. Composed to the whole server (below): without the
    credentials of its surface no request gets an answer or changes the tables. The locale
    \<open>checking_layer\<close> states what a layer promises the routers behind it and is interpreted for the
    three layers of the server. The known exceptions are properties too: the human id of a foreign session or flow
    gives access to it when one is created (\<open>create_session_discloses\<close>, \<open>add_flow_hijacks\<close>), and the owner of a flow can submit its
    admin steps (\<open>owner_approves_own_review\<close>).
  \<^item> \<^emph>\<open>Devices and codes.\<close> Bindings never rebind, recovery leaves the new device as the only active one,
    both recovery surfaces are one operation; codes are accepted exactly when right, fresh and
    within the attempts. Guessing through the service is bounded when requests follow each other; the two phases of a
    request (reading and judging, then writing) interleave in a step relation, and there overlapping guesses
    cost one attempt together.
  \<^item> \<^emph>\<open>SMS gateway.\<close> The course of retries, the order of the fallback chain, the calls a request
    costs (locale \<open>bounded_sender\<close>, interpreted for every provider) and the spacing of messages.
  \<^item> \<^emph>\<open>Data.\<close> Merging a patch into a context does at every key what the patch says, contexts stay well-formed, metadata
    updates read back, variable expansion equals its recursive reference (which knows no default values), start-up registers what it was given, exports re-import where they can.

  \<^bold>\<open>Loops and bounds.\<close> Loops of the source that end by themselves are structural or carry a
  \<open>termination\<close> proof (\<open>envsubst_from\<close> by the distance of its index to the end of the text). The step chain of the
  service may run forever on a cyclic flow: it is a \<open>partial_function (option)\<close>, \<open>None\<close> when it does not return, and
  \<open>create_step_chain_returns\<close> shows that it returns on every flow that has a rank. diesel's run of the migrations (\<open>run_pending_migrations\<close>) is one too,
  because its commands are a parameter. The worker never returns; \<open>worker_run\<close> and \<open>worker_turns\<close> are given the times
  of its turns, so its length is arbitrary. Retries count up to the constants of the source. Times are integers in
  microseconds, or in the unit of the source.

  \<^bold>\<open>Not modelled.\<close> TLS and shutdown of \<open>lib.rs\<close>, argument declarations, tracing, metrics, the SQL of the migrations and the diesel schema:
  framework calls, I/O and other languages. What the migrations do to the tables is not represented: the database of \<open>Migrate\<close> is a state with three observations. The matching of paths and the decoding of bodies are the web framework's and parameters of
  \<open>Router\<close>; that it refuses overlapping base paths at start-up is not represented. The WhatsApp service in JavaScript. Test utilities. Concurrent database
  transactions are sequences of operations here: the claim of a step is one SQL statement in the source.
  Handlers run one at a time except in \<open>Submissions\<close>, where the requests to \<open>submit_step\<close> interleave at the
  boundary between their reads and their writes, up to the transition that follows; in particular the throttle of the Orange provider and the caches of \<open>Oidc\<close> are shown for
  calls that follow one another. The workers and Redis share one clock, and a worker names its owner and sends the command for the lock in one step. Log messages are dropped.
\<close>

section \<open>The server as a whole\<close>

text \<open>
  C3: no route of the server answers a request, or changes the database, without the credentials
  of its surface. When a request reaches a surface and either gets an answer of a handler or
  changes anything but the times at which devices were last seen, then it has passed the token
  layer (which protects the configured paths), and it carries a valid signature for the Keycloak
  API, the authentication of a device or bearer token for the BFF, a staff token for the staff API,
  and a device's signature or a bearer token for the authentication API, where enrolment, its
  binding and the public keys are open to everyone. A surface whose authentication is
  configured off asks for nothing. Outside the surfaces nothing changes at all.
\<close>

theorem server_requires_credentials:
  assumes "build_router B q rq s = Some (resp, s')"
    and "is_answer resp \<or> tables (fst s') \<noteq> tables (fst s)" and "in_path rq \<noteq> ''/health''"
  shows "case surface_at B (in_path rq) of
      None \<Rightarrow> s' = s
    | Some (surface, rest) \<Rightarrow>
        token_layer B rq s = (Inr rq, s)
        \<and> (authenticated B surface rq s
           \<or> surface = AuthSurface \<and> (\<exists>p cs hs. matched B (auth_router B) rest = Some (p, cs, hs) \<and> p \<in> set public_routes))"
proof (cases "surface_at B (in_path rq)")
  case None
  with assms show ?thesis
    by (auto simp: build_router_def through_def token_layer_def Let_def refuse_def serve_db_def serve_auth_def on_world_def
        split: option.splits)
next
  case (Some sr)
  obtain surface rest where sr: "sr = (surface, rest)" by fastforce
  have token: "token_layer B rq s = (Inr rq, s)"
    using guardedD[OF token.through_guarded assms(1)[unfolded build_router_def] assms(2)] .
  then have run: "serve_surface B surface rest q rq s = Some (resp, s')"
    using assms(1,3) Some sr by (simp add: build_router_def through_def)
  show ?thesis
    using guardedD[OF serve_surface_guarded run assms(2)] token Some sr by (auto simp del: authenticated.simps)
qed

definition example_backend :: "(string \<Rightarrow> (string \<times> instant) option) backend" where
  "example_backend = \<lparr>bk_server = example_server, bk_auth = staff_auth, bk_staff = staff_on, bk_uploads = example_uploads,
     bk_api = example_ax, bk_serde = example_serde, bk_uuid_ok = (\<lambda>_. True), bk_print = (\<lambda>_. []), bk_ilike = (=),
     bk_device_status = Some, bk_parse_jwk = (\<lambda>_. None),
     bk_signature = \<lparr>ss_signature_secret = ''secret'', ss_max_clock_skew_seconds = 60, ss_max_body_bytes = 1000\<rparr>,
     bk_paths = \<lparr>ba_kc = ''/kc'', ba_kc_enabled = True, ba_bff = ''/bff'', ba_staff = ''/staff'', ba_auth = ''/auth'',
       ba_auth_enabled = True, ba_oauth2 = []\<rparr>,
     bk_framework = \<lparr>fr_mount = (\<lambda>bases path. map_option (\<lambda>b. (b, drop (length b) path)) (List.find (\<lambda>b. starts_with b path) bases)),
       fr_find = (\<lambda>ps rest. if rest = ''/flow/steps/t1'' then Some (''/flow/steps/{step_id}'', [''t1'']) else None),
       fr_kc_path = (\<lambda>_. False), fr_kc_call = (\<lambda>_ _ _. Inl 400), fr_page = (\<lambda>_ _. None),
       fr_decode = \<lparr>de_create_session = (\<lambda>_ _. Inl 400), de_add_flow = (\<lambda>_ _. Inl 400), de_submit = (\<lambda>_ _. Inr approval),
         de_lookup = (\<lambda>_ _. Inl 400), de_recovery = (\<lambda>_ _. Inl 400), de_policy = (\<lambda>_ _. Inl 400),
         de_presign = (\<lambda>_ _. Inl 400), de_complete = (\<lambda>_ _. Inl 400), de_enroll = (\<lambda>_ _. Inl 400),
         de_approve = (\<lambda>_ _. Inl 400), de_staff_sessions = (\<lambda>_ _. Inl 400), de_admin_steps = (\<lambda>_ _. Inl 400)\<rparr>\<rparr>\<rparr>"

definition staff_request :: "string \<Rightarrow> headers \<Rightarrow> request" where
  "staff_request m hs = \<lparr>in_method = m, in_path = ''/staff/flow/steps/t1'', in_headers = hs, in_body = []\<rparr>"

lemma example_staff_submission:
  "case build_router example_backend [] (staff_request ''POST'' (bearer ''clerk'')) (service_world, no_keys) of
     Some (resp, _) \<Rightarrow> is_answer resp | None \<Rightarrow> False"
  "map_option fst (surface_at example_backend ''/staff/flow/steps/t1'') = Some StaffSurface"
  by code_simp+

theorem server_requires_credentials_witness:
  "\<exists>resp s'. build_router example_backend [] (staff_request ''POST'' (bearer ''clerk'')) (service_world, no_keys) = Some (resp, s')
     \<and> is_answer resp
     \<and> authenticated example_backend StaffSurface (staff_request ''POST'' (bearer ''clerk'')) (service_world, no_keys)"
proof -
  obtain resp s' where run: "build_router example_backend [] (staff_request ''POST'' (bearer ''clerk'')) (service_world, no_keys) = Some (resp, s')"
    and answer: "is_answer resp"
    using example_staff_submission(1) by (auto split: option.splits)
  from server_requires_credentials[OF run] answer example_staff_submission(2) run show ?thesis
    by (auto simp: staff_request_def split: option.splits simp del: authenticated.simps)
qed

end
